(* ===== verification/CLM_Prelude.thy ===== *)
theory CLM_Prelude
  imports Complex_Main "HOL-Library.Multiset" "HOL-Library.Char_ord" "HOL-Library.List_Lexorder" "HOL-Library.Product_Lexorder"
begin

text \<open>
  What the components share: the parts of Go's standard library the sources call
  (\<^verbatim>\<open>strings\<close>, \<^verbatim>\<open>strconv.Itoa\<close>, \<^verbatim>\<open>time\<close>, float64 rounding),
  SQL row tables as lists, and the collections of rewrite rules the component proofs use.

  Strings are lists of bytes, as Go's are. The case mappings and \<open>trim_space\<close> act on
  ASCII; bytes outside ASCII are left as they are, where Go would also map cased letters and
  blanks beyond ASCII.
  Instants are integers: nanoseconds since 1970-01-01T00:00:00Z. A duration is an int64 number
  of nanoseconds. Unique identifiers are natural numbers, 0 standing for \<^verbatim>\<open>uuid.Nil\<close>.
\<close>

named_theorems table_simps \<open>rewrite rules of SQL row tables\<close>
named_theorems go_time \<open>definitions of Go's time arithmetic\<close>

section \<open>Strings\<close>

type_synonym uuid = nat

definition starts_with :: "string \<Rightarrow> string \<Rightarrow> bool" where
  "starts_with s p \<longleftrightarrow> take (length p) s = p"

definition ends_with :: "string \<Rightarrow> string \<Rightarrow> bool" where
  "ends_with s p \<longleftrightarrow> starts_with (rev s) (rev p)"

fun str_contains :: "string \<Rightarrow> string \<Rightarrow> bool" where
  "str_contains [] p = (p = [])"
| "str_contains (c # cs) p = (starts_with (c # cs) p \<or> str_contains cs p)"

definition trim_prefix :: "string \<Rightarrow> string \<Rightarrow> string" where
  "trim_prefix s p = (if starts_with s p then drop (length p) s else s)"

definition trim_suffix :: "string \<Rightarrow> string \<Rightarrow> string" where
  "trim_suffix s p = (if ends_with s p then take (length s - length p) s else s)"

definition in_range :: "char \<Rightarrow> char \<Rightarrow> char \<Rightarrow> bool" where
  "in_range lo hi c \<longleftrightarrow> (of_char lo :: nat) \<le> of_char c \<and> (of_char c :: nat) \<le> of_char hi"

definition is_alnum :: "char \<Rightarrow> bool" where
  "is_alnum c \<longleftrightarrow> in_range (CHR ''a'') (CHR ''z'') c \<or> in_range (CHR ''A'') (CHR ''Z'') c
     \<or> in_range (CHR ''0'') (CHR ''9'') c"

definition lower_char :: "char \<Rightarrow> char" where
  "lower_char c = (if in_range (CHR ''A'') (CHR ''Z'') c then char_of ((of_char c :: nat) + 32) else c)"

definition upper_char :: "char \<Rightarrow> char" where
  "upper_char c = (if in_range (CHR ''a'') (CHR ''z'') c then char_of ((of_char c :: nat) - 32) else c)"

definition to_lower :: "string \<Rightarrow> string" where
  "to_lower s = map lower_char s"

definition to_upper :: "string \<Rightarrow> string" where
  "to_upper s = map upper_char s"

definition equal_fold :: "string \<Rightarrow> string \<Rightarrow> bool" where
  "equal_fold s t \<longleftrightarrow> to_lower s = to_lower t"

definition is_space :: "char \<Rightarrow> bool" where
  "is_space c \<longleftrightarrow> c = CHR '' '' \<or> in_range (CHR 0x09) (CHR 0x0D) c"

definition trim_space :: "string \<Rightarrow> string" where
  "trim_space s = rev (dropWhile is_space (rev (dropWhile is_space s)))"

fun str_count :: "string \<Rightarrow> char \<Rightarrow> nat" where
  "str_count [] c = 0"
| "str_count (x # xs) c = (if x = c then Suc (str_count xs c) else str_count xs c)"

fun str_join :: "string list \<Rightarrow> string \<Rightarrow> string" where
  "str_join [] sep = []"
| "str_join [x] sep = x"
| "str_join (x # y # zs) sep = x @ sep @ str_join (y # zs) sep"

fun split_on :: "char \<Rightarrow> string \<Rightarrow> string list" where
  "split_on c [] = [[]]"
| "split_on c (x # xs) =
     (if x = c then [] # split_on c xs
      else (case split_on c xs of [] \<Rightarrow> [[x]] | w # ws \<Rightarrow> (x # w) # ws))"

text \<open>\<^verbatim>\<open>strings.FieldsFunc\<close>: the maximal runs of characters the predicate rejects.\<close>

definition fields_func :: "(char \<Rightarrow> bool) \<Rightarrow> string \<Rightarrow> string list" where
  "fields_func p s = filter (\<lambda>w. w \<noteq> [])
     (foldr (\<lambda>c acc. if p c then [] # acc
                      else (case acc of [] \<Rightarrow> [[c]] | w # ws \<Rightarrow> (c # w) # ws)) s [[]])"

fun nat_str :: "nat \<Rightarrow> string" where
  "nat_str n = (if n < 10 then [char_of (48 + n)] else nat_str (n div 10) @ [char_of (48 + n mod 10)])"

declare nat_str.simps [simp del]

definition itoa :: "int \<Rightarrow> string" where
  "itoa i = (if i < 0 then ''-'' @ nat_str (nat (- i)) else nat_str (nat i))"

lemma starts_with_append [simp]: "starts_with (p @ s) p"
  by (simp add: starts_with_def)

lemma starts_with_iff: "starts_with s p \<longleftrightarrow> (\<exists>t. s = p @ t)"
  unfolding starts_with_def by (metis append_take_drop_id append_eq_conv_conj)

lemma ends_with_iff: "ends_with s p \<longleftrightarrow> (\<exists>t. s = t @ p)"
  unfolding ends_with_def starts_with_iff by (metis rev_append rev_rev_ident)

lemma str_contains_iff: "str_contains s p \<longleftrightarrow> (\<exists>a b. s = a @ p @ b)"
proof (induction s)
  case Nil
  then show ?case by auto
next
  case (Cons c cs)
  show ?case
  proof
    assume "str_contains (c # cs) p"
    then show "\<exists>a b. c # cs = a @ p @ b"
      using Cons.IH by (auto simp: starts_with_iff) (metis append_Cons append_Nil)+
  next
    assume "\<exists>a b. c # cs = a @ p @ b"
    then obtain a b where ab: "c # cs = a @ p @ b" by blast
    show "str_contains (c # cs) p"
    proof (cases a)
      case Nil
      with ab have "starts_with (c # cs) p" by (simp only: append_Nil starts_with_append)
      then show ?thesis by simp
    next
      case (Cons x xs)
      with ab have "cs = xs @ p @ b" by simp
      with Cons.IH show ?thesis by auto
    qed
  qed
qed

lemma trim_space_set: "set (trim_space s) \<subseteq> set s"
  unfolding trim_space_def
  by (metis set_dropWhileD set_rev subsetI)

section \<open>Time\<close>

type_synonym time = int
type_synonym duration = int

definition second :: duration where "second = 1000000000"
definition minute :: duration where "minute = 60 * second"
definition hour :: duration where "hour = 60 * minute"
definition day :: duration where "day = 24 * hour"
definition max_duration :: duration where "max_duration = 2 ^ 63 - 1"
definition min_duration :: duration where "min_duration = - (2 ^ 63)"

lemmas unit_defs [go_time] = second_def minute_def hour_def day_def

text \<open>The zero value of \<^verbatim>\<open>time.Time\<close>: January 1, year 1.\<close>

definition zero_time :: time where "zero_time = - 62135596800 * second"

text \<open>\<^verbatim>\<open>Time.Sub\<close> saturates at the range of a Duration (about 292 years).\<close>

definition time_sub :: "time \<Rightarrow> time \<Rightarrow> duration" where
  "time_sub a b = max min_duration (min max_duration (a - b))"

text \<open>Go's integer division and remainder truncate towards zero.\<close>

definition quot_go :: "int \<Rightarrow> int \<Rightarrow> int" where
  "quot_go a b = sgn a * sgn b * (\<bar>a\<bar> div \<bar>b\<bar>)"

definition rem_go :: "int \<Rightarrow> int \<Rightarrow> int" where
  "rem_go a b = a - b * quot_go a b"

subsection \<open>float64\<close>

text \<open>
  \<open>f64 x\<close> is the IEEE 754 binary64 number nearest to the rational \<open>x\<close>, ties to even, for
  \<open>\<bar>x\<bar> < 2 ^ 53\<close>: the significand is \<open>x\<close> scaled by the power of two that brings it to
  52 bits before the point (at most \<open>2 ^ 1074\<close>, the subnormal quantum), rounded to an integer.
\<close>

definition round_half_even :: "rat \<Rightarrow> int" where
  "round_half_even x = (let f = \<lfloor>x\<rfloor>; d = x - of_int f in
     if d < 1 / 2 then f else if d > 1 / 2 then f + 1 else if even f then f else f + 1)"

fun f64_scale :: "nat \<Rightarrow> rat \<Rightarrow> nat" where
  "f64_scale 0 y = 0"
| "f64_scale (Suc n) y = (if 2 ^ 52 \<le> y then 0 else Suc (f64_scale n (2 * y)))"

definition f64 :: "rat \<Rightarrow> rat" where
  "f64 x = (let k = f64_scale 1074 \<bar>x\<bar> in of_int (round_half_even (x * 2 ^ k)) / 2 ^ k)"

text \<open>\<^verbatim>\<open>Duration.Hours\<close> adds the whole hours and the fraction of an hour as float64.\<close>

definition hours :: "duration \<Rightarrow> rat" where
  "hours d = f64 (of_int (quot_go d hour) + f64 (of_int (rem_go d hour) / of_int hour))"

definition trunc_rat :: "rat \<Rightarrow> int" where
  "trunc_rat x = (if 0 \<le> x then \<lfloor>x\<rfloor> else \<lceil>x\<rceil>)"

text \<open>\<^verbatim>\<open>int(d.Hours() / 24)\<close> and \<^verbatim>\<open>int(math.Ceil(d.Hours() / 24))\<close>.\<close>

definition days_of :: "duration \<Rightarrow> int" where
  "days_of d = trunc_rat (f64 (hours d / 24))"

definition ceil_days_of :: "duration \<Rightarrow> int" where
  "ceil_days_of d = \<lceil>f64 (hours d / 24)\<rceil>"

lemma round_half_even_bounds: "\<bar>of_int (round_half_even x) - x\<bar> \<le> 1 / 2"
  unfolding round_half_even_def Let_def by (auto simp: abs_if) linarith+

lemma round_half_even_ge: "of_int n \<le> x \<Longrightarrow> n \<le> round_half_even x"
  unfolding round_half_even_def Let_def by (auto simp: le_floor_iff) linarith+

lemma round_half_even_le: "x \<le> of_int n \<Longrightarrow> round_half_even x \<le> n"
proof -
  assume x: "x \<le> of_int n"
  show ?thesis
  proof (cases "x = of_int n")
    case True
    then show ?thesis by (simp add: round_half_even_def)
  next
    case False
    with x have "x < of_int n" by simp
    then have "\<lfloor>x\<rfloor> < n" by (simp only: floor_less_iff)
    then show ?thesis unfolding round_half_even_def Let_def by auto
  qed
qed

lemma f64_ge_int: "of_int n \<le> x \<Longrightarrow> of_int n \<le> f64 x"
proof -
  assume n: "of_int n \<le> x"
  define k where "k = f64_scale 1074 \<bar>x\<bar>"
  have "of_int (n * 2 ^ k) \<le> x * 2 ^ k" using n by simp
  then have "n * 2 ^ k \<le> round_half_even (x * 2 ^ k)" by (rule round_half_even_ge)
  then have "(of_int (n * 2 ^ k) :: rat) \<le> of_int (round_half_even (x * 2 ^ k))"
    by (simp only: of_int_le_iff)
  then show ?thesis by (simp add: f64_def Let_def k_def field_simps)
qed

lemma f64_le_int: "x \<le> of_int n \<Longrightarrow> f64 x \<le> of_int n"
proof -
  assume n: "x \<le> of_int n"
  define k where "k = f64_scale 1074 \<bar>x\<bar>"
  have "x * 2 ^ k \<le> of_int (n * 2 ^ k)" using n by simp
  then have "round_half_even (x * 2 ^ k) \<le> n * 2 ^ k" by (rule round_half_even_le)
  then have "of_int (round_half_even (x * 2 ^ k)) \<le> (of_int (n * 2 ^ k) :: rat)"
    by (simp only: of_int_le_iff)
  then show ?thesis by (simp add: f64_def Let_def k_def field_simps)
qed

lemma f64_scale_ge: "y < 2 ^ m \<Longrightarrow> m + j \<le> 52 \<Longrightarrow> j \<le> n \<Longrightarrow> j \<le> f64_scale n y"
proof (induction n arbitrary: y m j)
  case 0
  then show ?case by simp
next
  case (Suc n)
  show ?case
  proof (cases j)
    case 0
    then show ?thesis by simp
  next
    case (Suc i)
    have "(2::rat) ^ m \<le> 2 ^ 52" using Suc.prems(2) by (intro power_increasing) auto
    then have lt: "\<not> 2 ^ 52 \<le> y" using Suc.prems(1) by simp
    have "2 * y < 2 ^ Suc m" using Suc.prems(1) by simp
    then have "i \<le> f64_scale n (2 * y)"
      using Suc.IH [of "2 * y" "Suc m" i] Suc.prems(2,3) Suc by simp
    then show ?thesis using lt Suc by simp
  qed
qed

lemma f64_error:
  assumes "\<bar>x\<bar> < 2 ^ m" and "m + j \<le> 52"
  shows "\<bar>f64 x - x\<bar> \<le> 1 / 2 ^ Suc j"
proof -
  define k where "k = f64_scale 1074 \<bar>x\<bar>"
  have jk: "j \<le> k" unfolding k_def by (rule f64_scale_ge [OF assms]) (use assms(2) in simp)
  have "\<bar>f64 x - x\<bar> = \<bar>of_int (round_half_even (x * 2 ^ k)) - x * 2 ^ k\<bar> / 2 ^ k"
    by (simp add: f64_def Let_def k_def field_simps flip: abs_mult)
  also have "\<dots> \<le> (1 / 2) / 2 ^ k"
    by (intro divide_right_mono round_half_even_bounds) simp
  also have "\<dots> \<le> 1 / 2 ^ Suc j"
    using jk power_increasing [of j k "2::rat"] by (simp add: field_simps)
  finally show ?thesis .
qed

lemma hour_pos [simp]: "0 < hour" and day_pos [simp]: "0 < day" and second_pos [simp]: "0 < second"
  by (simp_all add: go_time)

lemma hour_neq_0 [simp]: "hour \<noteq> 0" and hour_nonneg [simp]: "0 \<le> hour" and day_nonneg [simp]: "0 \<le> day"
  by (simp_all add: go_time)

lemma quot_go_nonneg: "0 \<le> a \<Longrightarrow> 0 < b \<Longrightarrow> quot_go a b = a div b"
  by (cases "a = 0") (auto simp: quot_go_def sgn_if)

lemma rem_go_nonneg: "0 \<le> a \<Longrightarrow> 0 < b \<Longrightarrow> rem_go a b = a mod b"
  by (simp add: rem_go_def quot_go_nonneg minus_mult_div_eq_mod)

text \<open>\<open>hours d\<close> lies between the whole hours and the next, and within \<open>2 ^ -31 + 2 ^ -51\<close> of \<open>d / hour\<close>.\<close>

lemma hours_between:
  assumes "0 \<le> d"
  shows "of_int (d div hour) \<le> hours d" and "hours d \<le> of_int (d div hour + 1)"
proof -
  define f where "f = f64 (of_int (d mod hour) / of_int hour)"
  have "(0::rat) \<le> of_int (d mod hour) / of_int hour" by simp
  then have f0: "0 \<le> f" unfolding f_def using f64_ge_int [of 0] by simp
  have "of_int (d mod hour) / of_int hour \<le> (1::rat)"
    using pos_mod_bound [of hour d] by (simp add: divide_le_eq less_imp_le)
  then have f1: "f \<le> 1" unfolding f_def using f64_le_int [of _ 1] by simp
  have h: "hours d = f64 (of_int (d div hour) + f)"
    by (simp add: hours_def f_def assms quot_go_nonneg rem_go_nonneg)
  show "of_int (d div hour) \<le> hours d" unfolding h using f0 by (intro f64_ge_int) simp
  show "hours d \<le> of_int (d div hour + 1)" unfolding h using f1 by (intro f64_le_int) simp
qed

lemma hours_nonneg: "0 \<le> d \<Longrightarrow> 0 \<le> hours d"
proof -
  assume d: "0 \<le> d"
  then have "0 \<le> d div hour" by (simp add: pos_imp_zdiv_nonneg_iff)
  then have "(0::rat) \<le> of_int (d div hour)" by simp
  then show ?thesis using hours_between(1) [OF d] by (rule order_trans)
qed

lemma hours_error:
  assumes "0 \<le> d" and "d \<le> max_duration"
  shows "\<bar>hours d - of_int d / of_int hour\<bar> \<le> 1 / 2 ^ 31 + 1 / 2 ^ 51"
proof -
  define q f where "q = (of_int (d mod hour) / of_int hour :: rat)" and "f = f64 q"
  have q: "0 \<le> q" "q < 1" unfolding q_def by (simp_all add: divide_less_eq)
  have qf: "\<bar>f - q\<bar> \<le> 1 / 2 ^ 51"
    unfolding f_def using q f64_error [of q 2 50] by simp
  have d: "of_int d / of_int hour = of_int (d div hour) + q"
  proof -
    have "(of_int d :: rat) = of_int (d div hour * hour + d mod hour)" by simp
    then show ?thesis unfolding q_def of_int_add of_int_mult by (simp add: field_simps)
  qed
  have "d div hour \<le> max_duration div hour"
    using assms(2) by (intro zdiv_mono1) simp_all
  also have "\<dots> < 2562048" by (simp add: max_duration_def go_time)
  finally have dh: "d div hour < 2562048" .
  then have "(of_int (d div hour) :: rat) < 2562048" by simp
  moreover have "0 \<le> d div hour" using assms(1) by (simp add: pos_imp_zdiv_nonneg_iff)
  ultimately have "\<bar>of_int (d div hour) + f\<bar> < 2 ^ 22" using q qf by (simp add: abs_if split: if_splits)
  then have "\<bar>f64 (of_int (d div hour) + f) - (of_int (d div hour) + f)\<bar> \<le> 1 / 2 ^ 31"
    using f64_error [of _ 22 30] by simp
  moreover have "hours d = f64 (of_int (d div hour) + f)"
    by (simp add: hours_def f_def q_def assms(1) quot_go_nonneg rem_go_nonneg)
  ultimately show ?thesis using qf unfolding d by linarith
qed

lemma day_hour: "day = 24 * hour"
  by (simp add: day_def)

lemma le_div_day_iff: "k \<le> d div day \<longleftrightarrow> k * day \<le> d"
proof
  assume "k \<le> d div day"
  then have "k * day \<le> d div day * day" by (intro mult_right_mono) simp_all
  then show "k * day \<le> d"
    using pos_mod_sign [OF day_pos, of d] div_mult_mod_eq [of d day] by linarith
next
  assume "k * day \<le> d"
  then have "k * day div day \<le> d div day" by (intro zdiv_mono1) simp_all
  then show "k \<le> d div day" by (simp add: day_def)
qed

lemma div_day: "d div day = (d div hour) div 24"
  by (simp add: day_hour zdiv_zmult2_eq mult.commute)

text \<open>
  Counting days through float64 never loses a whole day, and gains one only within
  ten microseconds of the next.
\<close>

lemma days_of_bounds:
  assumes "0 \<le> d"
  shows "d div day \<le> days_of d" and "days_of d \<le> d div day + 1"
proof -
  have le: "of_int (d div day) \<le> hours d / 24"
  proof -
    have "24 * (d div day) \<le> d div hour" by (simp add: div_day)
    then have "(of_int (24 * (d div day)) :: rat) \<le> of_int (d div hour)" by (simp only: of_int_le_iff)
    then show ?thesis using hours_between(1) [OF assms] by simp
  qed
  have ge: "hours d / 24 \<le> of_int (d div day + 1)"
  proof -
    have "m + 1 \<le> 24 * (m div 24 + 1)" for m :: int by presburger
    then have "d div hour + 1 \<le> 24 * (d div day + 1)" unfolding div_day .
    then have "(of_int (d div hour + 1) :: rat) \<le> of_int (24 * (d div day + 1))" by (simp only: of_int_le_iff)
    then show ?thesis using hours_between(2) [OF assms] by simp
  qed
  have a: "of_int (d div day) \<le> f64 (hours d / 24)" using le by (rule f64_ge_int)
  have b: "f64 (hours d / 24) \<le> of_int (d div day + 1)" using ge by (rule f64_le_int)
  have "0 \<le> d div day" using assms by (simp add: pos_imp_zdiv_nonneg_iff)
  then have "(0::rat) \<le> of_int (d div day)" by simp
  then have "0 \<le> f64 (hours d / 24)" using a by (rule order_trans)
  then have t: "days_of d = \<lfloor>f64 (hours d / 24)\<rfloor>" by (simp add: days_of_def trunc_rat_def)
  show "d div day \<le> days_of d" unfolding t using a by (simp add: le_floor_iff)
  show "days_of d \<le> d div day + 1" unfolding t using b floor_mono [OF b] by simp
qed

lemma day_rounding_margin:
  fixes a b c e :: rat
  assumes "a - b \<le> 1 / 2 ^ 31 + 1 / 2 ^ 51" and "b / 24 \<le> c - e" and "e = 10000 / 86400000000000"
  shows "a / 24 \<le> c - 1 / 2 ^ 34"
proof -
  have "a - b \<le> 1 / 2147483648 + 1 / 2251799813685248" using assms(1) by simp
  then have "a / 24 \<le> c - 1 / 17179869184" using assms(2,3) by linarith
  then show ?thesis by simp
qed

lemma days_of_exact:
  assumes "0 \<le> d" and "d \<le> max_duration" and rem: "d mod day \<le> day - 10000"
  shows "days_of d = d div day"
proof -
  define n where "n = d div day"
  have n0: "0 \<le> n" using assms(1) by (simp add: n_def pos_imp_zdiv_nonneg_iff)
  have dle: "d \<le> (n + 1) * day - 10000"
  proof -
    have "d = day * n + d mod day" by (simp add: n_def)
    then show ?thesis using rem by (simp add: algebra_simps)
  qed
  have "(of_int d :: rat) \<le> of_int ((n + 1) * day - 10000)" using dle by (simp only: of_int_le_iff)
  then have x: "of_int d / of_int hour / 24 \<le> (of_int (n + 1) - 10000 / of_int day :: rat)"
    by (simp add: go_time field_simps)
  have "hours d - of_int d / of_int hour \<le> 1 / 2 ^ 31 + 1 / 2 ^ 51"
    using hours_error [OF assms(1,2)] by (rule abs_le_D1)
  moreover have "10000 / (of_int day :: rat) = 10000 / 86400000000000" by (simp add: go_time)
  ultimately have h: "hours d / 24 \<le> of_int (n + 1) - 1 / 2 ^ 34"
    using x by (intro day_rounding_margin)
  have "n \<le> max_duration div day" unfolding n_def using assms(2) by (intro zdiv_mono1) simp_all
  also have "\<dots> < 106752" by (simp add: max_duration_def go_time)
  finally have "(of_int n :: rat) < 106752" by simp
  moreover have "0 \<le> hours d / 24" using hours_nonneg [OF assms(1)] by simp
  ultimately have "\<bar>hours d / 24\<bar> < 2 ^ 17" using h by simp
  then have "\<bar>f64 (hours d / 24) - hours d / 24\<bar> \<le> 1 / 2 ^ 36"
    using f64_error [of _ 17 35] by simp
  then have "f64 (hours d / 24) - hours d / 24 \<le> 1 / 2 ^ 36" by (rule abs_le_D1)
  moreover have "(1::rat) / 2 ^ 36 < 1 / 2 ^ 34" by simp
  ultimately have "f64 (hours d / 24) < of_int (n + 1)" using h by linarith
  then have "days_of d \<le> n"
    using \<open>0 \<le> hours d / 24\<close> f64_ge_int [of 0 "hours d / 24"]
    by (simp add: days_of_def trunc_rat_def floor_le_iff)
  then show ?thesis using days_of_bounds(1) [OF assms(1)] by (simp add: n_def)
qed

section \<open>SQL row tables\<close>

text \<open>
  A table is the list of its rows in insertion order. \<open>upd_where p f\<close> is
  \<^verbatim>\<open>UPDATE ... SET f WHERE p\<close>, \<open>hits\<close> its \<^verbatim>\<open>RowsAffected\<close>;
  \<open>pick p key n\<close> is \<^verbatim>\<open>SELECT ... WHERE p ORDER BY key LIMIT n\<close> (rows with equal keys
  in insertion order, one of the orders SQL allows).
\<close>

definition upd_where :: "('r \<Rightarrow> bool) \<Rightarrow> ('r \<Rightarrow> 'r) \<Rightarrow> 'r list \<Rightarrow> 'r list" where
  "upd_where p f rows = map (\<lambda>r. if p r then f r else r) rows"

definition hits :: "('r \<Rightarrow> bool) \<Rightarrow> 'r list \<Rightarrow> nat" where
  "hits p rows = length (filter p rows)"

definition pick :: "('r \<Rightarrow> bool) \<Rightarrow> ('r \<Rightarrow> 'k::linorder) \<Rightarrow> nat \<Rightarrow> 'r list \<Rightarrow> 'r list" where
  "pick p key n rows = take n (sort_key key (filter p rows))"

definition coalesce :: "'a option \<Rightarrow> 'a option \<Rightarrow> 'a option" where
  "coalesce a b = (case a of None \<Rightarrow> b | Some x \<Rightarrow> Some x)"

lemma upd_where_Nil [table_simps]: "upd_where p f [] = []"
  and upd_where_Cons [table_simps]:
    "upd_where p f (r # rs) = (if p r then f r else r) # upd_where p f rs"
  and upd_where_append [table_simps]:
    "upd_where p f (rs @ ss) = upd_where p f rs @ upd_where p f ss"
  by (simp_all add: upd_where_def)

lemma upd_where_none [table_simps]: "\<forall>r\<in>set rows. \<not> p r \<Longrightarrow> upd_where p f rows = rows"
  by (induction rows) (auto simp: upd_where_def)

lemma set_upd_where: "set (upd_where p f rows) = f ` {r \<in> set rows. p r} \<union> {r \<in> set rows. \<not> p r}"
  by (auto simp: upd_where_def)

lemma in_upd_whereE:
  assumes "r \<in> set (upd_where p f rows)"
  obtains q where "q \<in> set rows" and "r = (if p q then f q else q)"
  using assms by (auto simp: upd_where_def)

lemma length_upd_where [table_simps]: "length (upd_where p f rows) = length rows"
  by (simp add: upd_where_def)

lemma map_upd_where: "(\<And>r. key (f r) = key r) \<Longrightarrow> map key (upd_where p f rows) = map key rows"
  by (simp add: upd_where_def)

lemma keys_upd_where: "(\<And>r. key (f r) = key r) \<Longrightarrow> key ` set (upd_where p f rows) = key ` set rows"
  using map_upd_where [of key f p rows] by (metis list.set_map)

lemma hits_0_iff: "hits p rows = 0 \<longleftrightarrow> (\<forall>r\<in>set rows. \<not> p r)"
  by (simp add: hits_def filter_empty_conv)

lemma set_pick: "set (pick p key n rows) \<subseteq> {r \<in> set rows. p r}"
  unfolding pick_def by (auto dest: in_set_takeD)

lemma length_pick: "length (pick p key n rows) \<le> n"
  by (simp add: pick_def)

lemma distinct_map_pick:
  assumes "distinct (map k rows)"
  shows "distinct (map k (pick p key n rows))"
proof -
  have "distinct (map k (filter p rows))" using assms by (rule distinct_map_filter)
  then have "distinct (map k (sort_key key (filter p rows)))"
    by (auto simp: distinct_map)
  then show ?thesis by (simp add: pick_def take_map [symmetric])
qed

lemma distinct_map_unique:
  "distinct (map k rows) \<Longrightarrow> r \<in> set rows \<Longrightarrow> q \<in> set rows \<Longrightarrow> k r = k q \<Longrightarrow> r = q"
  by (auto simp: distinct_map dest: inj_onD)

lemma map_by_key:
  "map k xs = map k ys \<Longrightarrow> (\<And>x y. x \<in> set xs \<Longrightarrow> y \<in> set ys \<Longrightarrow> k x = k y \<Longrightarrow> x = h y) \<Longrightarrow> xs = map h ys"
  by (induction xs arbitrary: ys) (auto simp: Cons_eq_map_conv)

lemma list_all2_back: "list_all2 P xs ys \<Longrightarrow> y \<in> set ys \<Longrightarrow> \<exists>x\<in>set xs. P x y"
  by (induction rule: list_all2_induct) auto

lemma coalesce_simps [simp]: "coalesce None b = b" "coalesce (Some x) b = Some x"
  by (simp_all add: coalesce_def)

lemma find_Some_in: "List.find p xs = Some x \<Longrightarrow> x \<in> set xs \<and> p x"
  by (induction xs) (auto split: if_splits)

subsection \<open>Leases\<close>

text \<open>
  Three tables hold work that several replicas share (lifecycle jobs, outbox events, scans), each
  through the same protocol: a claim selects rows that are free, stamps each with a lease and
  returns their ids. What a table owes its clients is the contract below; that two claims never
  hand out the same row while its lease lasts is proved once from it.
\<close>

locale leased_table =
  fixes rid :: "'r \<Rightarrow> uuid"
    and free :: "time \<Rightarrow> 'r \<Rightarrow> bool"
    and claim :: "time \<Rightarrow> time \<Rightarrow> nat \<Rightarrow> 'r list \<Rightarrow> uuid list \<times> 'r list"
  assumes claim_ids: "claim t x n rows = (ids, rows') \<Longrightarrow> i \<in> set ids \<Longrightarrow>
            \<exists>r\<in>set rows. rid r = i \<and> free t r"
    and claim_keys: "claim t x n rows = (ids, rows') \<Longrightarrow> map rid rows' = map rid rows"
    and claim_held: "claim t x n rows = (ids, rows') \<Longrightarrow> r \<in> set rows' \<Longrightarrow> rid r \<in> set ids \<Longrightarrow>
            u \<le> x \<Longrightarrow> \<not> free u r"
    and claim_frame: "claim t x n rows = (ids, rows') \<Longrightarrow> r \<in> set rows \<Longrightarrow> rid r \<notin> set ids \<Longrightarrow>
            r \<in> set rows'"
    and claim_limit: "claim t x n rows = (ids, rows') \<Longrightarrow> length ids \<le> n"
begin

text \<open>
  Two claims, the second before the expiry \<open>x\<close> of the leases of the first: no id is handed out twice.
\<close>

lemma claims_disjoint:
  assumes "claim t x n rows = (ids, rows')" and "claim u y m rows' = (ids', rows'')" and "u \<le> x"
  shows "set ids \<inter> set ids' = {}"
proof (rule ccontr)
  assume "set ids \<inter> set ids' \<noteq> {}"
  then obtain i where i: "i \<in> set ids" "i \<in> set ids'" by blast
  from claim_ids [OF assms(2) i(2)] obtain r where r: "r \<in> set rows'" "rid r = i" "free u r" by blast
  with claim_held [OF assms(1) r(1) _ assms(3)] i(1) show False by simp
qed

text \<open>Row \<open>i\<close> is held until \<open>x\<close>: no claim before \<open>x\<close> returns it, and such a claim leaves it held.\<close>

definition held_until :: "uuid \<Rightarrow> time \<Rightarrow> 'r list \<Rightarrow> bool" where
  "held_until i x rows \<longleftrightarrow> (\<forall>r\<in>set rows. rid r = i \<longrightarrow> (\<forall>u\<le>x. \<not> free u r))"

lemma claim_holds:
  "claim t x n rows = (ids, rows') \<Longrightarrow> i \<in> set ids \<Longrightarrow> held_until i x rows'"
  using claim_held by (fastforce simp: held_until_def)

lemma held_not_claimed:
  "held_until i x rows \<Longrightarrow> claim u y n rows = (ids, rows') \<Longrightarrow> u \<le> x \<Longrightarrow> i \<notin> set ids"
  using claim_ids by (fastforce simp: held_until_def)

lemma held_kept:
  assumes "held_until i x rows" and cl: "claim u y n rows = (ids, rows')" and "u \<le> x"
    and "distinct (map rid rows)"
  shows "held_until i x rows'"
  unfolding held_until_def
proof (intro ballI impI)
  fix r assume r: "r \<in> set rows'" "rid r = i"
  have i: "i \<notin> set ids" using held_not_claimed assms(1-3) by blast
  have keys: "map rid rows' = map rid rows" by (rule claim_keys [OF cl])
  then obtain q where q: "q \<in> set rows" "rid q = i" using r by (metis imageE image_eqI list.set_map)
  then have "q \<in> set rows'" using claim_frame [OF cl q(1)] i by simp
  then have "r = q" using r q(2) keys assms(4) distinct_map_unique [of rid rows'] by simp
  then show "\<forall>u\<le>x. \<not> free u r" using assms(1) q by (auto simp: held_until_def)
qed

end

end
