(* ===== verification/Lifecycle.thy ===== *)
theory Lifecycle
  imports CLM_Prelude
begin

text \<open>
  \<^verbatim>\<open>internal/lifecycle\<close>: the lifecycle status of a certificate (\<^verbatim>\<open>Compute\<close>) and the
  recommended next action (\<^verbatim>\<open>ChooseRecommendation\<close>); \<^verbatim>\<open>internal/governance\<close>: the
  internal/external scope of a certificate (\<^verbatim>\<open>ClassifyScope\<close>).
\<close>

section \<open>Status\<close>

datatype cert_status = StatusValid | StatusExpiringSoon | StatusExpired | StatusRevoked

fun status_str :: "cert_status \<Rightarrow> string" where
  "status_str StatusValid = ''valid''"
| "status_str StatusExpiringSoon = ''expiring_soon''"
| "status_str StatusExpired = ''expired''"
| "status_str StatusRevoked = ''revoked''"

text \<open>The wall clock the source reads with \<^verbatim>\<open>time.Now\<close> is the argument \<open>now\<close>.\<close>

definition Compute :: "time \<Rightarrow> time \<Rightarrow> int \<Rightarrow> bool \<Rightarrow> cert_status \<times> int" where
  "Compute now notAfter expiringSoonDays revoked =
     (let days = days_of (time_sub notAfter now) in
      if revoked then (StatusRevoked, days)
      else if notAfter < now then (StatusExpired, days)
      else if days \<le> expiringSoonDays then (StatusExpiringSoon, days)
      else (StatusValid, days))"

section \<open>Choose\<close>

record choose_input =
  CertScope :: string
  ManagedStatus :: string
  ChainStatus :: string
  IsCA :: bool

record choose_result =
  Code :: string
  Title :: string
  Rationale :: string
  CTA :: string

definition ChooseRecommendation :: "choose_input \<Rightarrow> choose_result" where
  "ChooseRecommendation i =
    (if ManagedStatus i = ''managed_in_vault'' then
       \<lparr>Code = ''already_managed'', Title = ''Managed by Vault'',
        Rationale = ''This certificate is already matched to Vault PKI by reconcile; no Choose action is needed.'',
        CTA = ''None''\<rparr>
     else if ChainStatus i = ''incomplete'' \<or> ChainStatus i = ''untrusted_root'' then
       \<lparr>Code = ''fix_chain'', Title = ''Complete the trust chain'',
        Rationale = ''The presented chain is incomplete or terminates in an untrusted root. Import the intermediate/root CA, then rescan.'',
        CTA = ''Import CA to Vault, then rescan''\<rparr>
     else if IsCA i \<and> ManagedStatus i = ''unmanaged'' then
       \<lparr>Code = ''import_ca'', Title = ''Import CA into Vault'',
        Rationale = ''This CA is on the wire but not in Vault PKI. Import the bundle so Vault can manage issuance from it.'',
        CTA = ''Import CA to Vault''\<rparr>
     else if \<not> IsCA i \<and> (ManagedStatus i = ''unmanaged'' \<or> ManagedStatus i = ''imported'') \<and>
          ChainStatus i \<noteq> ''incomplete'' \<and> ChainStatus i \<noteq> ''untrusted_root'' then
       \<lparr>Code = ''migrate_vault'', Title = ''Migrate to Vault'',
        Rationale = ''This leaf is not Vault-issued. Vault will issue a new certificate via AAP; CLM cannot upload the scanned PEM (no private key). Status stays Pending until the new fingerprint is on the wire.'',
        CTA = ''Migrate to Vault''\<rparr>
     else
       \<lparr>Code = ''monitor_external'', Title = ''Track as external'',
        Rationale = ''This looks like a public-CA certificate. Track it in CLM for visibility, or leave it managed by its public CA.'',
        CTA = ''Track in CLM''\<rparr>)"

section \<open>Scope\<close>

abbreviation ScopeInternal :: string where "ScopeInternal \<equiv> ''internal''"
abbreviation ScopeExternal :: string where "ScopeExternal \<equiv> ''external''"

definition publicCAHints :: "string list" where
  "publicCAHints =
     [''let'' @ [CHR 0x27] @ ''s encrypt'', ''digicert'', ''globalsign'', ''sectigo'', ''comodo'',
      ''google trust'', ''amazon'', ''entrust'', ''go daddy'', ''godaddy'', ''identrust'',
      ''starfield'', ''thawte'', ''verisign'', ''geotrust'', ''rapidssl'', ''usertrust'',
      ''buypass'', ''ssl.com'', ''zerossl'', ''cloudflare'']"

definition internalHostnameSuffixes :: "string list" where
  "internalHostnameSuffixes = [''.local'', ''.internal'', ''.lan'', ''.corp'', ''.private'', ''.home'']"

definition ClassifyScope :: "string \<Rightarrow> string \<Rightarrow> string \<Rightarrow> string \<Rightarrow> string" where
  "ClassifyScope chainStatus issuerDN hostname environment =
    (if chainStatus = ''self_signed'' then ScopeInternal
     else let host = to_lower (trim_space hostname) in
     if list_ex (\<lambda>suffix. host = trim_prefix suffix ''.'' \<or> ends_with host suffix) internalHostnameSuffixes
     then ScopeInternal
     else if host = ''localhost'' \<or> ends_with host ''.localhost'' then ScopeInternal
     else let issuer = to_lower issuerDN in
     if list_ex (str_contains issuer) publicCAHints then ScopeExternal
     else let env = to_lower (trim_space environment) in
     if env = ''dev'' \<or> env = ''development'' \<or> env = ''staging'' then ScopeInternal
     else if str_contains issuer ''vault'' \<or> str_contains issuer ''internal ca'' then ScopeInternal
     else ScopeExternal)"

section \<open>Properties\<close>

lemma max_duration_days: "max_duration div day = 106751"
  by (simp add: max_duration_def go_time)

lemma time_sub_nonneg: "now \<le> notAfter \<Longrightarrow> time_sub notAfter now = min max_duration (notAfter - now)"
  by (simp add: time_sub_def min_duration_def max_duration_def)

text \<open>Outside the ten microseconds before a day boundary the day count decides like exact division.\<close>

lemma days_le_window:
  assumes "0 \<le> d" and "d + 10000 \<le> (n + 1) * day" and "n < 106751"
  shows "days_of d \<le> n"
proof (cases "d div day < n")
  case True
  then show ?thesis using days_of_bounds(2) [OF assms(1)] by simp
next
  case False
  have eq: "d = day * (d div day) + d mod day" by simp
  have "d < (n + 1) * day" using assms(2) by simp
  then have "\<not> n + 1 \<le> d div day" by (simp only: le_div_day_iff not_le)
  with False have n: "d div day = n" by simp
  have "d mod day \<le> day - 10000" using assms(2) eq n by (simp add: algebra_simps)
  moreover have "d \<le> max_duration"
  proof -
    have "(n + 1) * day \<le> 106751 * day" using assms(3) by (intro mult_right_mono) simp_all
    moreover have "106751 * day \<le> max_duration" by (simp add: max_duration_def go_time)
    ultimately show ?thesis using assms(2) by linarith
  qed
  ultimately show ?thesis using days_of_exact [OF assms(1)] n by simp
qed

lemma days_gt_window:
  assumes "(n + 1) * day \<le> d" and "0 \<le> n" and "n < 106751"
  shows "n < days_of (min max_duration d)"
proof -
  have d0: "0 \<le> min max_duration d"
    using assms(1,2) by (simp add: max_duration_def) (meson add_nonneg_nonneg day_nonneg mult_nonneg_nonneg order_trans zero_le_one)
  have "n + 1 \<le> d div day" using assms(1) by (simp only: le_div_day_iff)
  moreover have "n + 1 \<le> max_duration div day" using assms(3) by (simp add: max_duration_days)
  ultimately have "n + 1 \<le> min max_duration d div day" by (simp add: min_def)
  then show ?thesis using days_of_bounds(1) [OF d0] by simp
qed



text \<open>
  \<^verbatim>\<open>ClassifyScope\<close> is the decision its documentation describes: internal exactly for a
  self-signed chain, for a host under an internal suffix or localhost, and otherwise, when no
  public CA is named in the issuer, for a development environment or a Vault/internal issuer. In
  particular a public CA hint beats the environment but never an internal host name.
\<close>

definition internal_host :: "string \<Rightarrow> bool" where
  "internal_host h \<longleftrightarrow>
     (\<exists>z\<in>set [''local'', ''internal'', ''lan'', ''corp'', ''private'', ''home'', ''localhost''].
        h = z \<or> (\<exists>p. h = p @ ''.'' @ z))"

theorem ClassifyScope_decision:
  "ClassifyScope chain issuer host env =
    (if chain = ''self_signed'' \<or> internal_host (to_lower (trim_space host)) \<or>
        (\<not> (\<exists>ca\<in>set publicCAHints. str_contains (to_lower issuer) ca) \<and>
         (to_lower (trim_space env) \<in> {''dev'', ''development'', ''staging''} \<or>
          str_contains (to_lower issuer) ''vault'' \<or> str_contains (to_lower issuer) ''internal ca''))
     then ScopeInternal else ScopeExternal)"
proof -
  define h where "h = to_lower (trim_space host)"
  have ih: "internal_host h \<longleftrightarrow>
      list_ex (\<lambda>suffix. h = trim_prefix suffix ''.'' \<or> ends_with h suffix) internalHostnameSuffixes \<or>
      h = ''localhost'' \<or> ends_with h ''.localhost''"
    by (simp add: internal_host_def internalHostnameSuffixes_def trim_prefix_def starts_with_def ends_with_iff)
  show ?thesis
    unfolding ClassifyScope_def Let_def h_def [symmetric] ih by (auto simp: list_ex_iff)
qed

text \<open>
  \<^verbatim>\<open>ChooseRecommendation\<close> offers the migration to Vault only for a leaf that Vault does
  not manage and whose chain is usable, and offers the CA import only for a CA; a certificate that
  Vault manages never gets an action. Every recommendation carries a non-empty title and rationale.
\<close>

theorem Choose_sound:
  "(Code (ChooseRecommendation i) = ''migrate_vault'' \<longleftrightarrow>
     \<not> IsCA i \<and> ManagedStatus i \<in> {''unmanaged'', ''imported''} \<and>
     ChainStatus i \<notin> {''incomplete'', ''untrusted_root''}) \<and>
   (Code (ChooseRecommendation i) = ''import_ca'' \<longleftrightarrow>
     IsCA i \<and> ManagedStatus i = ''unmanaged'' \<and> ChainStatus i \<notin> {''incomplete'', ''untrusted_root''}) \<and>
   (Code (ChooseRecommendation i) = ''already_managed'' \<longleftrightarrow> ManagedStatus i = ''managed_in_vault'') \<and>
   (Code (ChooseRecommendation i) = ''fix_chain'' \<longleftrightarrow>
     ManagedStatus i \<noteq> ''managed_in_vault'' \<and> ChainStatus i \<in> {''incomplete'', ''untrusted_root''}) \<and>
   Title (ChooseRecommendation i) \<noteq> [] \<and> Rationale (ChooseRecommendation i) \<noteq> []"
  by (auto simp: ChooseRecommendation_def)

end
