(* ===== verification/Store_Model.thy ===== *)
theory Store_Model
  imports Lifecycle
begin

text \<open>
  The data of \<^verbatim>\<open>internal/store\<close>: the row types of the Go structs, the tables of the
  database, and the way an operation of the store runs.

  An operation maps the database state to a result (an error or a value) and the next state. The
  state holds the tables and the surroundings the Go code reads: whether the \<open>n\<close>-th database call
  fails (\<open>db_fault\<close>), the wall clock of the process (\<open>db_clock\<close>), the clock of the server that
  SQL's \<^verbatim>\<open>NOW()\<close> reads (\<open>db_now\<close>), the identifiers \<^verbatim>\<open>gen_random_uuid()\<close>
  returns (\<open>db_gen\<close>) and the rows other transactions have locked (\<open>db_locked\<close>, which
  \<^verbatim>\<open>SKIP LOCKED\<close> passes over), all indexed by the number \<open>db_step\<close> of calls made so far. A
  theorem that does not restrict them holds for every schedule of failures and every clock.
  \<open>db_ustr\<close> is the text form of a \<^verbatim>\<open>google/uuid\<close> value and \<open>db_jsonb_text\<close> the server's
  text form of a JSONB array of strings: both belong to packages outside the sources and stay
  parameters. \<open>aap_launches\<close> records the launches the AAP Controller was asked for,
  \<open>vault_imports\<close> the bundles (with their mount) written to Vault.

  A statement or a transaction is one call: a failure leaves every table as it was.
\<close>

section \<open>JSON\<close>

text \<open>
  JSON documents as values, as a \<^verbatim>\<open>JSONB\<close> column keeps them. \<open>JTime\<close> is the string
  \<^verbatim>\<open>time.Time\<close> marshals to.
\<close>

datatype json = JNull | JBool bool | JNum int | JStr string | JTime time | JId uuid
  | JArr "json list" | JObj "(string \<times> json) list"

definition rfc3339 :: "time \<Rightarrow> json" where
  "rfc3339 t = JTime (t div second * second)"

fun jget :: "json \<Rightarrow> string \<Rightarrow> json option" where
  "jget (JObj kvs) k = map_of kvs k"
| "jget _ k = None"

section \<open>Rows\<close>

record risk_reason =
  rr_RuleID :: string
  rr_Pack :: string
  rr_Severity :: string
  rr_Title :: string
  rr_Score :: int
  rr_Waived :: bool

record renewal_config =
  rc_Role :: string
  rc_Mount :: string
  rc_Service :: string
  rc_TargetHosts :: string
  rc_TTL :: string
  rc_AltNames :: string

record certificate =
  c_ID :: uuid
  c_SerialNumber :: string
  c_FingerprintSHA256 :: string
  c_SubjectCN :: "string option"
  c_SubjectAltNames :: "string list"
  c_IssuerDN :: string
  c_AuthorityKeyID :: "string option"
  c_NotBefore :: time
  c_NotAfter :: time
  c_KeyType :: string
  c_KeyBits :: int
  c_SignatureAlgorithm :: string
  c_IsCA :: bool
  c_KeyUsage :: "string list"
  c_ExtKeyUsage :: "string list"
  c_PEM :: string
  c_DaysUntilExpiry :: int
  c_Status :: string
  c_RevocationStatus :: "string option"
  c_RevocationCheckedAt :: "time option"
  c_CRLDistributionPoints :: "string list"
  c_OCSPServers :: "string list"
  c_FirstDiscovered :: time
  c_LastSeen :: time
  c_HostnameMatchesSAN :: bool
  c_ChainStatus :: string
  c_ManagedStatus :: string
  c_CertScope :: string
  c_VaultIssuerRef :: "string option"
  c_VaultPKIMount :: "string option"
  c_Owner :: "string option"
  c_Team :: "string option"
  c_Environment :: "string option"
  c_Tags :: "string list"
  c_RiskScore :: int
  c_RiskReasons :: "risk_reason list"
  c_PQCTag :: string
  c_RemediationState :: string
  c_RenewalConfig :: "renewal_config option"
  c_ObservationCount :: nat
  c_CreatedAt :: time
  c_UpdatedAt :: time

record observation =
  o_ID :: uuid
  o_CertificateID :: uuid
  o_ScanID :: uuid
  o_IP :: string
  o_Port :: int
  o_Hostname :: "string option"
  o_SNI :: "string option"
  o_TLSVersion :: "string option"
  o_CipherSuite :: "string option"
  o_ObservedAt :: time

record event =
  e_ID :: uuid
  e_EventType :: string
  e_CertificateID :: "uuid option"
  e_Payload :: json
  e_CreatedAt :: time
  e_DeliveredAt :: "time option"
  e_Attempts :: int
  e_LastError :: "string option"
  e_lease_owner :: "string option"
  e_lease_expires_at :: "time option"

text \<open>The statuses the \<^verbatim>\<open>lifecycle_jobs\<close> check constraint admits, and the two kinds.\<close>

datatype job_status = LifecyclePendingApproval | LifecycleLaunching | LifecycleAAPPending
  | LifecycleAAPRunning | LifecycleAAPSuccessful | LifecycleVerifying | LifecyclePendingVerify
  | LifecycleVerified | LifecycleVerifyFailed | LifecycleTimedOut | LifecycleFailed

datatype job_kind = JobKindRenew | JobKindMigrate

record lifecycle_job =
  j_ID :: uuid
  j_Kind :: job_kind
  j_Status :: job_status
  j_PredecessorCertID :: "uuid option"
  j_SuccessorCertID :: "uuid option"
  j_AAPJobID :: "int option"
  j_AAPWorkflow :: bool
  j_IdempotencyKey :: string
  j_Expected :: json
  j_Observed :: json
  j_FailureReason :: "string option"
  j_LeaseOwner :: "string option"
  j_LeaseExpiresAt :: "time option"
  j_NextVerifyAt :: "time option"
  j_TimeoutAt :: time
  j_VerifyAttempt :: int
  j_CreatedAt :: time
  j_UpdatedAt :: time

record job_event =
  je_ID :: uuid
  je_JobID :: uuid
  je_EventType :: string
  je_Payload :: json
  je_CreatedAt :: time

record approval =
  ap_JobID :: uuid
  ap_Actor :: string
  ap_Decision :: string

record finding_row =
  f_ID :: uuid
  f_CertID :: uuid
  f_RuleID :: string
  f_Pack :: string
  f_Severity :: string
  f_Title :: string
  f_Detail :: string
  f_Status :: string
  f_PolicyVersionID :: "uuid option"
  f_Waived :: bool
  f_FirstSeenAt :: time
  f_LastSeenAt :: time
  f_ResolvedAt :: "time option"
  f_UpdatedAt :: time

record waiver =
  w_ID :: uuid
  w_CertID :: uuid
  w_RuleID :: string
  w_Reason :: string
  w_CreatedBy :: string
  w_ExpiresAt :: time
  w_CreatedAt :: time
  w_RevokedAt :: "time option"

record policy_version =
  pv_ID :: uuid
  pv_Kind :: string
  pv_Version :: int

record target_failure_sample =
  ts_IP :: string
  ts_Port :: int
  ts_Hostname :: string
  ts_SNI :: string
  ts_Reason :: string
  ts_Kind :: string

datatype scan_status = ScanPending | ScanRunning | ScanCompleted | ScanFailed

record scan =
  s_ID :: uuid
  s_Source :: string
  s_Status :: scan_status
  s_CIDRs :: "string list"
  s_Hostnames :: "string list"
  s_Ports :: "int list"
  s_Concurrency :: int
  s_StartedAt :: "time option"
  s_FinishedAt :: "time option"
  s_TargetsTotal :: int
  s_TargetsScanned :: int
  s_TargetsSucceeded :: int
  s_TargetsFailed :: int
  s_CertsFound :: int
  s_UpsertFailures :: int
  s_ExpansionWarnings :: "string list"
  s_FailureSamples :: "target_failure_sample list"
  s_Error :: "string option"
  s_ClaimedBy :: "string option"
  s_ClaimedAt :: "time option"
  s_CreatedAt :: time

record issuer =
  i_ID :: uuid
  i_FingerprintSHA256 :: string
  i_SerialNumber :: string
  i_SubjectCN :: "string option"
  i_IssuerDN :: string
  i_NotBefore :: time
  i_NotAfter :: time
  i_KeyType :: string
  i_KeyBits :: int
  i_IsCA :: bool
  i_PEM :: string
  i_DaysUntilExpiry :: int
  i_Status :: string
  i_IssuerName :: "string option"
  i_IssuerID :: "string option"
  i_CAChain :: "string list"
  i_VaultIssuerRef :: "string option"
  i_VaultPKIMount :: "string option"

record certificate_filter =
  cf_Status :: string
  cf_ChainStatus :: string
  cf_Search :: string
  cf_ScanID :: uuid
  cf_PQCTag :: string
  cf_MinRisk :: "int option"
  cf_SortBy :: string
  cf_SortDesc :: bool
  cf_Limit :: int
  cf_Offset :: int

definition zero_filter :: certificate_filter where
  "zero_filter = \<lparr>cf_Status = [], cf_ChainStatus = [], cf_Search = [], cf_ScanID = 0, cf_PQCTag = [],
     cf_MinRisk = None, cf_SortBy = [], cf_SortDesc = False, cf_Limit = 0, cf_Offset = 0\<rparr>"

record audit_event =
  au_At :: time
  au_ActorID :: string
  au_ActorType :: string
  au_Role :: string
  au_Action :: string
  au_TargetType :: string
  au_TargetID :: string
  au_Decision :: string
  au_RequestID :: string
  au_RemoteIP :: string
  au_Payload :: json

record connection =
  cn_Target :: string
  cn_Metadata :: json
  cn_SecretsEnc :: string
  cn_SecretsSet :: bool
  cn_Source :: string
  cn_UpdatedAt :: time
  cn_UpdatedBy :: string

record db =
  t_scans :: "scan list"
  t_issuers :: "issuer list"
  t_certificates :: "certificate list"
  t_observations :: "observation list"
  t_events :: "event list"
  t_jobs :: "lifecycle_job list"
  t_job_events :: "job_event list"
  t_approvals :: "approval list"
  t_findings :: "finding_row list"
  t_waivers :: "waiver list"
  t_policies :: "policy_version list"
  t_audit :: "audit_event list"
  t_connections :: "connection list"
  db_step :: nat
  db_fault :: "nat \<Rightarrow> bool"
  db_clock :: "nat \<Rightarrow> time"
  db_now :: "nat \<Rightarrow> time"
  db_seq :: nat
  db_gen :: "nat \<Rightarrow> nat \<Rightarrow> uuid"
  db_locked :: "nat \<Rightarrow> uuid \<Rightarrow> bool"
  db_ustr :: "uuid \<Rightarrow> string"
  db_jsonb_text :: "string list \<Rightarrow> string"
  aap_launches :: "(string \<times> string) list list"
  vault_imports :: "(string \<times> string) list"

section \<open>Operations\<close>

datatype error = ErrDB | ErrScanNotFound | ErrIssuerNotFound | ErrScanQueueFull | ErrCertificateNotFound | ErrLifecycleJobNotFound
  | ErrLifecycleAAPRefConflict | ErrLifecycleIdempotencyConflict | ErrManagedByVault
  | ErrWaiverNotFound | ErrWaiverExpired | ErrWaiverActorRequired | ErrWaiverReasonRequired
  | ErrClaimOwnerRequired | ErrExpectedPayload | ErrConnectionsKeyMissing | ErrExternal string

type_synonym 'a op = "db \<Rightarrow> (error + 'a) \<times> db"

text \<open>An operation with a loop that may not end: \<open>None\<close> is that outcome.\<close>

type_synonym 'a loop_op = "db \<Rightarrow> ((error + 'a) \<times> db) option"

definition next_step :: "db \<Rightarrow> db" where
  "next_step s = s\<lparr>db_step := Suc (db_step s)\<rparr>"

definition go_now :: "db \<Rightarrow> time" where
  "go_now s = db_clock s (db_step s)"

definition sql_now :: "db \<Rightarrow> time" where
  "sql_now s = db_now s (db_step s)"

definition new_uuid :: "db \<Rightarrow> uuid" where
  "new_uuid s = db_gen s (db_step s) (db_seq s)"

text \<open>An \<^verbatim>\<open>INSERT\<close> whose primary key is taken fails.\<close>

definition pk_free :: "('r \<Rightarrow> uuid) \<Rightarrow> uuid \<Rightarrow> 'r list \<Rightarrow> bool" where
  "pk_free key i rows \<longleftrightarrow> (\<forall>r\<in>set rows. key r \<noteq> i)"

text \<open>
  One round trip to the database: the body runs, unless the call fails, and its changes are kept
  only if it returns no error (a transaction that returns early rolls back).
\<close>

definition db_call :: "'a op \<Rightarrow> 'a op" where
  "db_call body s =
     (if db_fault s (db_step s) then (Inl ErrDB, next_step s)
      else case body s of (Inl e, _) \<Rightarrow> (Inl e, next_step s) | (Inr v, s') \<Rightarrow> (Inr v, next_step s'))"

text \<open>\<^verbatim>\<open>_ = call\<close>: the result is dropped, the effect stays.\<close>

definition ignore :: "'a op \<Rightarrow> db \<Rightarrow> db" where
  "ignore m s = snd (m s)"

definition bind_op :: "'a op \<Rightarrow> ('a \<Rightarrow> 'b op) \<Rightarrow> 'b op" where
  "bind_op m f s = (case m s of (Inl e, s') \<Rightarrow> (Inl e, s') | (Inr v, s') \<Rightarrow> f v s')"

lemmas step_defs = next_step_def go_now_def sql_now_def new_uuid_def

lemma next_step_tables [simp]:
  "t_scans (next_step s) = t_scans s" "t_issuers (next_step s) = t_issuers s"
  "t_certificates (next_step s) = t_certificates s" "t_observations (next_step s) = t_observations s"
  "t_events (next_step s) = t_events s" "t_jobs (next_step s) = t_jobs s"
  "t_job_events (next_step s) = t_job_events s" "t_approvals (next_step s) = t_approvals s"
  "t_findings (next_step s) = t_findings s" "t_waivers (next_step s) = t_waivers s"
  "t_policies (next_step s) = t_policies s" "t_audit (next_step s) = t_audit s"
  "t_connections (next_step s) = t_connections s" "db_step (next_step s) = Suc (db_step s)"
  "db_fault (next_step s) = db_fault s" "db_clock (next_step s) = db_clock s"
  "db_now (next_step s) = db_now s" "db_seq (next_step s) = db_seq s" "db_gen (next_step s) = db_gen s"
  "db_locked (next_step s) = db_locked s" "db_ustr (next_step s) = db_ustr s"
  "db_jsonb_text (next_step s) = db_jsonb_text s" "aap_launches (next_step s) = aap_launches s"
  "vault_imports (next_step s) = vault_imports s"
  by (simp_all add: next_step_def)

text \<open>What the body establishes for the step after it, and a failed call keeps, the call keeps.\<close>

lemma db_call_keeps:
  assumes "P (next_step s)" and "\<And>v s'. body s = (Inr v, s') \<Longrightarrow> P (next_step s')"
  shows "P (snd (db_call body s))"
  using assms by (auto simp: db_call_def split: prod.splits sum.splits)

lemma bind_op_keeps:
  assumes "P (snd (m s))" and "\<And>v t. m s = (Inr v, t) \<Longrightarrow> P t \<Longrightarrow> P (snd (f v t))"
  shows "P (snd (bind_op m f s))"
  using assms by (auto simp: bind_op_def split: prod.splits sum.splits)

text \<open>The loop \<^verbatim>\<open>for _, id := range ids { x, err := get(id); ... }\<close>.\<close>

primrec get_all :: "(uuid \<Rightarrow> 'a op) \<Rightarrow> uuid list \<Rightarrow> 'a list op" where
  "get_all get [] = (\<lambda>s. (Inr [], s))"
| "get_all get (i # ids) =
     bind_op (get i) (\<lambda>x. bind_op (get_all get ids) (\<lambda>xs s. (Inr (x # xs), s)))"

lemma get_all_keeps:
  assumes "\<And>i t. P t \<Longrightarrow> P (snd (get i t))" and "P s"
  shows "P (snd (get_all get ids s))"
  using assms(2)
proof (induction ids arbitrary: s)
  case Nil
  then show ?case by simp
next
  case (Cons i ids)
  show ?case unfolding get_all.simps
  proof (rule bind_op_keeps)
    show "P (snd (get i s))" using Cons.prems by (rule assms(1))
  next
    fix x t assume "P t"
    then have "P (snd (get_all get ids t))" by (rule Cons.IH)
    then show "P (snd (bind_op (get_all get ids) (\<lambda>xs s. (Inr (x # xs), s)) t))"
      by (rule bind_op_keeps [where P = P]) simp
  qed
qed

lemma db_call_Inr:
  "db_call body s = (Inr v, s') \<Longrightarrow>
     \<not> db_fault s (db_step s) \<and> (\<exists>t. body s = (Inr v, t) \<and> s' = next_step t)"
  by (auto simp: db_call_def split: if_splits prod.splits sum.splits)

lemma db_call_Inl: "db_call body s = (Inl e, s') \<Longrightarrow> s' = next_step s"
  by (auto simp: db_call_def split: if_splits prod.splits sum.splits)

section \<open>Relations every operation keeps\<close>

text \<open>
  What holds between the states before and after an operation, whatever it returns. A relation that
  is reflexive, transitive and blind to the call counter holds of an operation as soon as it holds of
  the committed statements of its transactions; the rules below are the composition of that proof.
\<close>

locale op_relation =
  fixes R :: "db \<Rightarrow> db \<Rightarrow> bool"
  assumes R_refl: "R s s"
    and R_trans: "R s t \<Longrightarrow> R t u \<Longrightarrow> R s u"
    and R_step: "R s (next_step s)"
begin

definition tx_ok :: "'a op \<Rightarrow> bool" where
  "tx_ok m \<longleftrightarrow> (\<forall>s v s'. m s = (Inr v, s') \<longrightarrow> R s s')"

definition op_ok :: "'a op \<Rightarrow> bool" where
  "op_ok m \<longleftrightarrow> (\<forall>s. R s (snd (m s)))"

lemma tx_okI: "(\<And>s v s'. m s = (Inr v, s') \<Longrightarrow> R s s') \<Longrightarrow> tx_ok m"
  by (simp add: tx_ok_def)

lemma tx_ok_read: "(\<And>s v s'. m s = (Inr v, s') \<Longrightarrow> s' = s) \<Longrightarrow> tx_ok m"
  using R_refl by (fastforce simp: tx_ok_def)

lemma tx_ok_bind: "tx_ok m \<Longrightarrow> (\<And>x. tx_ok (f x)) \<Longrightarrow> tx_ok (bind_op m f)"
  unfolding tx_ok_def bind_op_def by (fastforce split: prod.splits sum.splits intro: R_trans)

lemma tx_ok_ret: "tx_ok (\<lambda>s. (Inr (g s), s))"
  by (rule tx_ok_read) simp

lemma op_ok_call:
  assumes "tx_ok body"
  shows "op_ok (db_call body)"
  unfolding op_ok_def
proof
  fix s show "R s (snd (db_call body s))"
  proof (rule db_call_keeps [where P = "R s"], rule R_step)
    fix v s' assume "body s = (Inr v, s')"
    then have "R s s'" using assms by (simp add: tx_ok_def)
    then show "R s (next_step s')" using R_step by (rule R_trans)
  qed
qed

lemma op_ok_run: "op_ok m \<Longrightarrow> m s = (r, s') \<Longrightarrow> R s s'"
  unfolding op_ok_def by (metis snd_conv)

lemma op_ok_ret: "op_ok (\<lambda>s. (g s, s))"
  by (simp add: op_ok_def R_refl)

lemma op_ok_ignore: "R s t \<Longrightarrow> op_ok m \<Longrightarrow> R s (ignore m t)"
  unfolding op_ok_def ignore_def by (blast intro: R_trans)

lemma op_ok_bind:
  assumes "op_ok m" and "\<And>x. op_ok (f x)"
  shows "op_ok (bind_op m f)"
  unfolding op_ok_def
proof
  fix s show "R s (snd (bind_op m f s))"
  proof (rule bind_op_keeps [where P = "R s"])
    show "R s (snd (m s))" using assms(1) by (simp add: op_ok_def)
    fix v t assume "R s t"
    moreover have "R t (snd (f v t))" using assms(2) by (simp add: op_ok_def)
    ultimately show "R s (snd (f v t))" by (rule R_trans)
  qed
qed

lemma op_ok_get_all:
  assumes "\<And>i. op_ok (get i)"
  shows "op_ok (get_all get ids)"
  unfolding op_ok_def
proof
  fix s show "R s (snd (get_all get ids s))"
  proof (rule get_all_keeps [where P = "R s"])
    fix i t assume "R s t"
    moreover have "R t (snd (get i t))" using assms by (simp add: op_ok_def)
    ultimately show "R s (snd (get i t))" by (rule R_trans)
  qed (rule R_refl)
qed

end

text \<open>An empty database whose calls all succeed, at one instant.\<close>

definition empty_db :: db where
  "empty_db = \<lparr>t_scans = [], t_issuers = [], t_certificates = [], t_observations = [], t_events = [],
     t_jobs = [], t_job_events = [], t_approvals = [], t_findings = [], t_waivers = [], t_policies = [], t_audit = [], t_connections = [],
     db_step = 0, db_fault = (\<lambda>_. False), db_clock = (\<lambda>_. 0), db_now = (\<lambda>_. 0),
     db_seq = 0, db_gen = (\<lambda>k n. 1000 * Suc k + n), db_locked = (\<lambda>_ _. False), db_ustr = nat_str,
     db_jsonb_text = concat, aap_launches = [], vault_imports = []\<rparr>"

text \<open>A certificate with nothing but its identity filled in.\<close>

definition blank_cert :: "uuid \<Rightarrow> string \<Rightarrow> certificate" where
  "blank_cert i fp = \<lparr>c_ID = i, c_SerialNumber = [], c_FingerprintSHA256 = fp, c_SubjectCN = None,
     c_SubjectAltNames = [], c_IssuerDN = [], c_AuthorityKeyID = None, c_NotBefore = 0, c_NotAfter = 0,
     c_KeyType = ''RSA'', c_KeyBits = 2048, c_SignatureAlgorithm = ''SHA256-RSA'', c_IsCA = False,
     c_KeyUsage = [], c_ExtKeyUsage = [], c_PEM = [], c_DaysUntilExpiry = 0, c_Status = ''valid'',
     c_RevocationStatus = None, c_RevocationCheckedAt = None, c_CRLDistributionPoints = [], c_OCSPServers = [],
     c_FirstDiscovered = 0, c_LastSeen = 0, c_HostnameMatchesSAN = True, c_ChainStatus = ''valid'',
     c_ManagedStatus = ''unmanaged'', c_CertScope = ''internal'', c_VaultIssuerRef = None, c_VaultPKIMount = None,
     c_Owner = None, c_Team = None, c_Environment = None, c_Tags = [], c_RiskScore = 0, c_RiskReasons = [],
     c_PQCTag = ''unknown'', c_RemediationState = ''none'', c_RenewalConfig = None, c_ObservationCount = 0,
     c_CreatedAt = 0, c_UpdatedAt = 0\<rparr>"

end
