(* ===== verification/Access.thy ===== *)
theory Access
  imports Store_Model
begin

text \<open>
  Who may call the API and what is written about it: the static tokens of
  \<^verbatim>\<open>internal/config/config.go\<close>, the authentication and permission middleware of
  \<^verbatim>\<open>internal/api/auth.go\<close> and \<^verbatim>\<open>rbac.go\<close>, and the audit trail of \<^verbatim>\<open>internal/api/audit.go\<close> and
  \<^verbatim>\<open>internal/store/audit.go\<close>. The hash of a presented token is a parameter.
\<close>

section \<open>Static tokens\<close>

definition knownStaticRoles :: "string list" where
  "knownStaticRoles = [''viewer'', ''scanner_operator'', ''remediator'', ''vault_import_admin'', ''approver'',
     ''platform_admin'', ''inventory'']"

datatype config_error = UnknownAuthMode string | InvalidEntry string | UnknownRole string | DuplicateRole string
  | BadDigestLength string | BadDigestHex string

definition hex_digit :: "char \<Rightarrow> nat option" where
  "hex_digit c = (if in_range (CHR ''0'') (CHR ''9'') c then Some (of_char c - 48)
     else if in_range (CHR ''a'') (CHR ''f'') c then Some (of_char c - 87)
     else if in_range (CHR ''A'') (CHR ''F'') c then Some (of_char c - 55) else None)"

text \<open>\<^verbatim>\<open>hex.DecodeString\<close>, to the bytes as characters.\<close>

fun hex_decode :: "string \<Rightarrow> string option" where
  "hex_decode [] = Some []"
| "hex_decode [c] = None"
| "hex_decode (a # b # s) = (case (hex_digit a, hex_digit b, hex_decode s) of
     (Some x, Some y, Some r) \<Rightarrow> Some (char_of (16 * x + y) # r) | _ \<Rightarrow> None)"

definition validateStaticTokenSecret :: "string \<Rightarrow> string \<Rightarrow> config_error option" where
  "validateStaticTokenSecret role token =
     (if \<not> starts_with token ''sha256:'' then None
      else let digest = trim_prefix token ''sha256:'' in
        if length digest \<noteq> 64 then Some (BadDigestLength role)
        else if hex_decode digest = None then Some (BadDigestHex role) else None)"

text \<open>\<^verbatim>\<open>strings.Cut\<close> at the first colon.\<close>

definition cut_colon :: "string \<Rightarrow> string \<times> string \<times> bool" where
  "cut_colon s = (if CHR '':'' \<in> set s
     then (takeWhile (\<lambda>c. c \<noteq> CHR '':'') s, tl (dropWhile (\<lambda>c. c \<noteq> CHR '':'') s), True) else (s, [], False))"

fun parse_parts :: "string list \<Rightarrow> (string \<times> string) list \<Rightarrow> config_error + (string \<times> string) list" where
  "parse_parts [] out = Inr out"
| "parse_parts (p # ps) out =
     (let part = trim_space p in
      if part = [] then parse_parts ps out
      else case cut_colon part of (r, t, ok) \<Rightarrow>
        let role = trim_space r; token = trim_space t in
        if \<not> ok \<or> role = [] \<or> token = [] then Inl (InvalidEntry part)
        else if role \<notin> set knownStaticRoles then Inl (UnknownRole role)
        else if role \<in> fst ` set out then Inl (DuplicateRole role)
        else case validateStaticTokenSecret role token of
          Some e \<Rightarrow> Inl e
        | None \<Rightarrow> parse_parts ps (out @ [(role, token)]))"

definition parseStaticTokens :: "string \<Rightarrow> config_error + (string \<times> string) list" where
  "parseStaticTokens raw = (if trim_space raw = [] then Inr [] else parse_parts (split_on (CHR '','') (trim_space raw)) [])"

record auth_config =
  ac_InsecureNoAuth :: bool
  ac_AuthMode :: string
  ac_StaticTokensRaw :: string
  ac_StaticTokens :: "(string \<times> string) list"

definition normalizeAuth :: "auth_config \<Rightarrow> config_error + auth_config" where
  "normalizeAuth c =
     (let mode = trim_space (ac_AuthMode c); mode = (if mode = [] then ''static_token'' else mode) in
      if mode \<noteq> ''static_token'' then Inl (UnknownAuthMode mode)
      else case parseStaticTokens (ac_StaticTokensRaw c) of
        Inl e \<Rightarrow> Inl e
      | Inr tokens \<Rightarrow> Inr (c\<lparr>ac_AuthMode := mode, ac_StaticTokens := tokens\<rparr>))"

definition AuthPostureWarnings :: "auth_config \<Rightarrow> string list" where
  "AuthPostureWarnings cfg =
     (let mode = trim_space (ac_AuthMode cfg); mode = (if mode = [] then ''static_token'' else mode) in
      (if ac_InsecureNoAuth cfg then [''CLM_INSECURE_NO_AUTH=true: hatch grants platform_admin on all /api/v1''] else []) @
      (if mode = ''static_token'' \<and> ac_StaticTokens cfg = [] \<and> \<not> ac_InsecureNoAuth cfg
       then [''CLM_AUTH_MODE=static_token with empty CLM_STATIC_TOKENS: API will 401 everything except health''] else []))"

definition staticTokenMatches :: "(string \<Rightarrow> string) \<Rightarrow> string \<Rightarrow> string \<Rightarrow> bool" where
  "staticTokenMatches sha256 configured presented =
     (if starts_with configured ''sha256:''
      then case hex_decode (trim_prefix configured ''sha256:'') of
        None \<Rightarrow> False
      | Some want \<Rightarrow> length want = 32 \<and> want = sha256 presented
      else configured = presented)"

text \<open>
  The table is a Go map: a lookup visits its entries in any order. \<open>tokens\<close> is the table in the order of
  one such visit.
\<close>

definition LookupStaticRole :: "(string \<Rightarrow> string) \<Rightarrow> (string \<times> string) list \<Rightarrow> string \<Rightarrow> string option" where
  "LookupStaticRole sha256 tokens presented =
     (if presented = [] \<or> tokens = [] then None
      else map_option fst (List.find (\<lambda>(role, configured). staticTokenMatches sha256 configured presented) tokens))"

section \<open>Permissions\<close>

definition knownRBACRole :: "string \<Rightarrow> bool" where
  "knownRBACRole role \<longleftrightarrow> role \<in> set knownStaticRoles"

definition isInventoryGET :: "string \<Rightarrow> string \<Rightarrow> bool" where
  "isInventoryGET meth path \<longleftrightarrow> meth = ''GET'' \<and> path = ''/api/v1/inventory''"

definition viewer_prefixes :: "string list" where
  "viewer_prefixes = [''/api/v1/inventory'', ''/api/v1/scans'', ''/api/v1/certificates'', ''/api/v1/issuers'',
     ''/api/v1/events'', ''/api/v1/lifecycle-jobs'', ''/api/v1/blindspot'', ''/api/v1/compliance'', ''/api/v1/waivers'']"

definition isViewerRead :: "string \<Rightarrow> string \<Rightarrow> bool" where
  "isViewerRead meth path \<longleftrightarrow> meth = ''GET'' \<and> \<not> starts_with path ''/api/v1/settings/'' \<and>
     list_ex (\<lambda>prefix. path = prefix \<or> starts_with path (prefix @ ''/'')) viewer_prefixes"

definition isCreateScan :: "string \<Rightarrow> string \<Rightarrow> bool" where
  "isCreateScan meth path \<longleftrightarrow> meth = ''POST'' \<and>
     path \<in> {''/api/v1/scans'', ''/api/v1/scans/collect'', ''/api/v1/scans/adcs'', ''/api/v1/scans/akv''}"

definition isWaiverWrite :: "string \<Rightarrow> string \<Rightarrow> bool" where
  "isWaiverWrite meth path \<longleftrightarrow>
     (meth = ''POST'' \<and> starts_with path ''/api/v1/certificates/'' \<and> ends_with path ''/waivers'') \<or>
     (meth = ''DELETE'' \<and> starts_with path ''/api/v1/waivers/'')"

definition isRemediate :: "string \<Rightarrow> string \<Rightarrow> bool" where
  "isRemediate meth path \<longleftrightarrow>
     (if meth = ''POST'' then
        path \<in> {''/api/v1/renew-expiring'', ''/api/v1/migrate-eligible'', ''/api/v1/lifecycle-jobs/claim''} \<or>
        (starts_with path ''/api/v1/certificates/'' \<and>
          list_ex (ends_with path) [''/catalog-import'', ''/renew'', ''/migrate'', ''/revoke'', ''/revocation-check'', ''/waivers''])
      else if meth = ''PATCH'' then
        (let rest = trim_prefix path ''/api/v1/certificates/'' in rest \<noteq> path \<and> rest \<noteq> [] \<and> CHR ''/'' \<notin> set rest)
      else if meth = ''DELETE'' then isWaiverWrite meth path
      else False)"

definition isVaultImport :: "string \<Rightarrow> string \<Rightarrow> bool" where
  "isVaultImport meth path \<longleftrightarrow> meth = ''POST'' \<and>
     (path = ''/api/v1/reconcile'' \<or> (starts_with path ''/api/v1/issuers/'' \<and> ends_with path ''/import''))"

definition isSettingsRead :: "string \<Rightarrow> string \<Rightarrow> bool" where
  "isSettingsRead meth path \<longleftrightarrow> meth = ''GET'' \<and> starts_with path ''/api/v1/settings/''"

definition roleAllows :: "string \<Rightarrow> string \<Rightarrow> string \<Rightarrow> bool" where
  "roleAllows role meth p =
     (let path = trim_suffix p ''/'' in
      if role = ''inventory'' then isInventoryGET meth path
      else if role = ''viewer'' then isViewerRead meth path
      else if role = ''approver'' then isViewerRead meth path \<or> isWaiverWrite meth path
      else if role = ''scanner_operator'' then isViewerRead meth path \<or> isCreateScan meth path
      else if role = ''remediator'' then isViewerRead meth path \<or> isCreateScan meth path \<or> isRemediate meth path \<or> isSettingsRead meth path
      else if role = ''vault_import_admin'' then isViewerRead meth path \<or> isCreateScan meth path \<or> isRemediate meth path \<or> isVaultImport meth path
      else role = ''platform_admin'')"

section \<open>Audit\<close>

definition sensitiveAuditKey :: "string \<Rightarrow> bool" where
  "sensitiveAuditKey k =
     (let n = map (\<lambda>c. if c = CHR ''-'' then CHR ''_'' else c) (to_lower (trim_space k)) in
      n \<in> {''authorization'', ''token'', ''secret'', ''secret_id'', ''role_id'', ''password'', ''pem'', ''pem_bundle'',
           ''ca_chain'', ''secrets'', ''secrets_enc'', ''aap_token'', ''vault_token'', ''api_key'', ''bearer''} \<or>
      str_contains n ''token'' \<or> str_contains n ''secret'' \<or> str_contains n ''password'' \<or> ends_with n ''_pem'' \<or> n = ''pem'')"

definition looksLikePEM :: "string \<Rightarrow> bool" where
  "looksLikePEM s = str_contains s ''-----BEGIN''"

fun redactAuditValue :: "json \<Rightarrow> json" where
  "redactAuditValue (JObj kvs) =
     JObj (map (\<lambda>(k, v). (k, redactAuditValue v)) (filter (\<lambda>(k, v). \<not> sensitiveAuditKey k) kvs))"
| "redactAuditValue (JArr vs) = JArr (map redactAuditValue vs)"
| "redactAuditValue (JStr s) = (if looksLikePEM s then JStr ''[redacted]'' else JStr s)"
| "redactAuditValue v = v"

definition marshalAuditPayload :: "json option \<Rightarrow> json" where
  "marshalAuditPayload payload = (case payload of None \<Rightarrow> JObj [] | Some p \<Rightarrow> redactAuditValue p)"

text \<open>\<^verbatim>\<open>store.AppendAudit\<close>: the row with its payload redacted.\<close>

definition AppendAudit :: "audit_event \<Rightarrow> json option \<Rightarrow> unit op" where
  "AppendAudit ev payload = db_call (\<lambda>s.
     (Inr (), s\<lparr>t_audit := t_audit s @ [ev\<lparr>au_At := sql_now s, au_Payload := marshalAuditPayload payload\<rparr>]\<rparr>))"

text \<open>A request as the middleware sees it.\<close>

record request =
  rq_Method :: string
  rq_Path :: string
  rq_Authorization :: string
  rq_RequestID :: string
  rq_RemoteAddr :: string

definition appendAudit :: "request \<Rightarrow> string \<Rightarrow> string \<Rightarrow> string \<Rightarrow> string \<Rightarrow> string \<Rightarrow> json option \<Rightarrow> db \<Rightarrow> db" where
  "appendAudit r role decision action targetType targetID payload =
     ignore (AppendAudit \<lparr>au_At = zero_time, au_ActorID = (if role \<noteq> [] then ''static:'' @ role else []),
       au_ActorType = (if role \<noteq> [] then ''user'' else []), au_Role = role, au_Action = action,
       au_TargetType = targetType, au_TargetID = targetID, au_Decision = decision, au_RequestID = rq_RequestID r,
       au_RemoteIP = rq_RemoteAddr r, au_Payload = JNull\<rparr> payload)"

definition auditDeny :: "request \<Rightarrow> string \<Rightarrow> db \<Rightarrow> db" where
  "auditDeny r role = appendAudit r role ''deny'' (rq_Method r @ '' '' @ rq_Path r) [] [] None"

definition auditAllow :: "request \<Rightarrow> string \<Rightarrow> string \<Rightarrow> string \<Rightarrow> string \<Rightarrow> json option \<Rightarrow> db \<Rightarrow> db" where
  "auditAllow r actor action targetType targetID payload = appendAudit r actor ''allow'' action targetType targetID payload"

section \<open>Middleware\<close>

definition bearerToken :: "string \<Rightarrow> string" where
  "bearerToken header =
     (if length header < 7 \<or> \<not> equal_fold (take 7 header) ''Bearer '' then [] else trim_space (drop 7 header))"

text \<open>
  The outcome of the two middleware handlers in front of every route but the health check: the handler
  runs as a role, or the request is answered with a status. No role is set before \<^verbatim>\<open>requireAuth\<close>.
\<close>

datatype access = Serve string | Refuse nat

definition requireAuth :: "(string \<Rightarrow> string) \<Rightarrow> auth_config \<Rightarrow> (string \<times> string) list \<Rightarrow> request \<Rightarrow> db \<Rightarrow> access \<times> db" where
  "requireAuth sha256 cfg tokens r s =
     (if ac_InsecureNoAuth cfg then (Serve ''platform_admin'', s)
      else case LookupStaticRole sha256 tokens (bearerToken (rq_Authorization r)) of
        None \<Rightarrow> (Refuse 401, auditDeny r [] s)
      | Some role \<Rightarrow> (Serve role, s))"

definition requirePermission :: "request \<Rightarrow> string \<Rightarrow> db \<Rightarrow> access \<times> db" where
  "requirePermission r role s =
     (if role = [] \<or> \<not> knownRBACRole role then (Refuse 401, auditDeny r role s)
      else if \<not> roleAllows role (rq_Method r) (rq_Path r) then (Refuse 403, auditDeny r role s)
      else (Serve role, s))"

definition admit :: "(string \<Rightarrow> string) \<Rightarrow> auth_config \<Rightarrow> (string \<times> string) list \<Rightarrow> request \<Rightarrow> db \<Rightarrow> access \<times> db" where
  "admit sha256 cfg tokens r s =
     (case requireAuth sha256 cfg tokens r s of (Refuse n, s) \<Rightarrow> (Refuse n, s) | (Serve role, s) \<Rightarrow> requirePermission r role s)"

section \<open>The Vault import identity\<close>

record import_config =
  ic_VaultAuthMethod :: string
  ic_ImportToken :: string
  ic_ImportAuthMethod :: string
  ic_ImportRoleID :: string
  ic_ImportSecretID :: string

definition HasVaultImportIdentity :: "import_config \<Rightarrow> bool" where
  "HasVaultImportIdentity c \<longleftrightarrow> trim_space (ic_ImportToken c) \<noteq> [] \<or>
     (trim_space (ic_ImportRoleID c) \<noteq> [] \<and> trim_space (ic_ImportSecretID c) \<noteq> [])"

definition ResolveVaultImportAuthMethod :: "import_config \<Rightarrow> string" where
  "ResolveVaultImportAuthMethod c =
     (let m = trim_space (ic_ImportAuthMethod c);
          hasToken = (trim_space (ic_ImportToken c) \<noteq> []);
          hasAppRole = (trim_space (ic_ImportRoleID c) \<noteq> [] \<and> trim_space (ic_ImportSecretID c) \<noteq> []);
          rd = trim_space (ic_VaultAuthMethod c) in
      if m \<noteq> [] then m
      else if hasToken \<and> \<not> hasAppRole then ''token''
      else if hasAppRole \<and> \<not> hasToken then ''approle''
      else if rd \<noteq> [] then rd else ''token'')"

section \<open>Who may do what\<close>

lemma no_role_default: "\<not> knownRBACRole role \<Longrightarrow> \<not> roleAllows role meth path"
  by (auto simp: knownRBACRole_def knownStaticRoles_def roleAllows_def Let_def)

lemmas permission_defs = roleAllows_def isInventoryGET_def isViewerRead_def isCreateScan_def isWaiverWrite_def
  isRemediate_def isVaultImport_def isSettingsRead_def Let_def

text \<open>The paths of the settings and of Vault are matched by no other rule.\<close>

lemma settings_only:
  assumes "starts_with p ''/api/v1/settings/''"
  shows "\<not> isInventoryGET m p" "\<not> isViewerRead m p" "\<not> isCreateScan m p" "\<not> isWaiverWrite m p" "\<not> isRemediate m p" "\<not> isVaultImport m p"
proof -
  obtain q where p: "p = ''/api/v1/settings/'' @ q" using assms by (auto simp: starts_with_iff)
  show "\<not> isInventoryGET m p" by (simp add: isInventoryGET_def p)
  show "\<not> isViewerRead m p" using assms by (simp add: isViewerRead_def)
  show "\<not> isCreateScan m p" by (simp add: isCreateScan_def p)
  show w: "\<not> isWaiverWrite m p" by (simp add: isWaiverWrite_def p starts_with_def)
  show "\<not> isRemediate m p" using w by (auto simp: isRemediate_def p starts_with_def trim_prefix_def)
  show "\<not> isVaultImport m p" by (simp add: isVaultImport_def p starts_with_def)
qed

lemma vault_only:
  assumes "p = ''/api/v1/reconcile'' \<or> starts_with p ''/api/v1/issuers/''"
  shows "\<not> isCreateScan ''POST'' p" "\<not> isWaiverWrite ''POST'' p" "\<not> isRemediate ''POST'' p"
proof -
  from assms have "p = ''/api/v1/reconcile'' \<or> (\<exists>q. p = ''/api/v1/issuers/'' @ q)" by (auto simp: starts_with_iff)
  then show "\<not> isCreateScan ''POST'' p" "\<not> isWaiverWrite ''POST'' p" "\<not> isRemediate ''POST'' p"
    by (auto simp: isCreateScan_def isWaiverWrite_def isRemediate_def starts_with_def)
qed

text \<open>
  The permission matrix keeps privileges apart. A role that is not one of the seven may do nothing.
  Viewers and the inventory role only read. Only the platform administrator deletes anything other
  than a waiver, and waivers are also deleted by approvers, remediators and Vault import
  administrators. Only the platform administrator changes settings, and besides it only remediators
  read them. Only the Vault import administrator and the platform administrator reconcile with Vault
  or import an issuer.
\<close>

theorem privileges_separate:
  assumes "roleAllows role meth p" and "path = trim_suffix p ''/''" and "role \<noteq> ''platform_admin''"
  shows "knownRBACRole role \<and>
    (role \<in> {''viewer'', ''inventory''} \<longrightarrow> meth = ''GET'') \<and>
    (meth = ''DELETE'' \<longrightarrow> starts_with path ''/api/v1/waivers/'' \<and> role \<in> {''approver'', ''remediator'', ''vault_import_admin''}) \<and>
    (starts_with path ''/api/v1/settings/'' \<longrightarrow> meth = ''GET'' \<and> role = ''remediator'') \<and>
    (meth = ''POST'' \<and> (path = ''/api/v1/reconcile'' \<or> starts_with path ''/api/v1/issuers/'') \<longrightarrow> role = ''vault_import_admin'')"
proof (intro conjI impI)
  show known: "knownRBACRole role" using assms(1) no_role_default by blast
  show "meth = ''GET''" if "role \<in> {''viewer'', ''inventory''}"
    using assms that by (auto simp: permission_defs)
  show "starts_with path ''/api/v1/waivers/''" "role \<in> {''approver'', ''remediator'', ''vault_import_admin''}" if "meth = ''DELETE''"
    using assms that by (auto simp: permission_defs split: if_splits)
  show "meth = ''GET''" "role = ''remediator''" if "starts_with path ''/api/v1/settings/''"
    using assms that by (simp_all add: roleAllows_def Let_def settings_only isSettingsRead_def split: if_splits)
  show "role = ''vault_import_admin''" if v: "meth = ''POST'' \<and> (path = ''/api/v1/reconcile'' \<or> starts_with path ''/api/v1/issuers/'')"
  proof -
    have "\<not> isCreateScan ''POST'' path" "\<not> isWaiverWrite ''POST'' path" "\<not> isRemediate ''POST'' path"
      "\<not> isInventoryGET ''POST'' path" "\<not> isViewerRead ''POST'' path" "\<not> isSettingsRead ''POST'' path"
      using vault_only [of path] v by (simp_all add: isInventoryGET_def isViewerRead_def isSettingsRead_def)
    then have "roleAllows role ''POST'' p \<longleftrightarrow> role = ''vault_import_admin'' \<and> isVaultImport ''POST'' path"
      unfolding roleAllows_def Let_def assms(2) [symmetric] using assms(3) by simp
    then show ?thesis using assms(1) v by simp
  qed
qed

theorem privileges_separate_witness:
  "roleAllows ''approver'' ''DELETE'' ''/api/v1/waivers/7'' \<and> starts_with ''/api/v1/waivers/7'' ''/api/v1/waivers/''"
proof -
  have "roleAllows ''approver'' ''DELETE'' ''/api/v1/waivers/7''" "''/api/v1/waivers/7'' = trim_suffix ''/api/v1/waivers/7'' ''/''"
    by code_simp+
  from this(1) privileges_separate [OF this] show ?thesis by simp
qed

section \<open>Admission\<close>

text \<open>What a parsed token table holds.\<close>

definition token_table_ok :: "(string \<times> string) list \<Rightarrow> bool" where
  "token_table_ok tokens \<longleftrightarrow> distinct (map fst tokens) \<and>
     list_all (\<lambda>(role, token). role \<in> set knownStaticRoles \<and> token \<noteq> [] \<and> validateStaticTokenSecret role token = None) tokens"

lemma parse_parts_ok:
  "parse_parts ps out = Inr tokens \<Longrightarrow> token_table_ok out \<Longrightarrow> token_table_ok tokens"
proof (induction ps arbitrary: out)
  case (Cons p ps)
  show ?case
  proof (cases "trim_space p = []")
    case True
    then show ?thesis using Cons by simp
  next
    case False
    obtain r t ok where c: "cut_colon (trim_space p) = (r, t, ok)" by (metis prod_cases3)
    have next_out: "token_table_ok (out @ [(trim_space r, trim_space t)])"
      and rest: "parse_parts ps (out @ [(trim_space r, trim_space t)]) = Inr tokens"
      using Cons.prems False c by (auto simp: Let_def token_table_ok_def split: if_splits option.splits)
    then show ?thesis using Cons.IH by blast
  qed
qed simp

lemma parseStaticTokens_ok: "parseStaticTokens raw = Inr tokens \<Longrightarrow> token_table_ok tokens"
  using parse_parts_ok [of _ "[]"] by (auto simp: parseStaticTokens_def token_table_ok_def [of "[]"] split: if_splits)

lemma LookupStaticRole_found:
  assumes "LookupStaticRole sha256 tokens presented = Some role"
  shows "\<exists>configured. (role, configured) \<in> set tokens \<and> presented \<noteq> [] \<and> staticTokenMatches sha256 configured presented"
  using assms by (auto simp: LookupStaticRole_def split: if_splits dest!: find_Some_in)

text \<open>
  C37. Admission is sound and complete for the audit trail. With a configuration that loaded, and whatever
  order the token table is visited in, a request is served as a role only if authentication is switched
  off and the role is the platform administrator, or the presented bearer token is not empty and
  matches the configured secret of that role; and in both cases the matrix allows that role that
  method on that path. A refusal is 401 or 403, and when the audit write succeeds it has left exactly
  one denial behind; nothing else of the database changes.
\<close>

theorem admit_sound:
  assumes "normalizeAuth cfg0 = Inr cfg" and "set tokens = set (ac_StaticTokens cfg)"
  shows "case admit sha256 cfg tokens r s of
      (Serve role, s') \<Rightarrow> s' = s \<and> knownRBACRole role \<and> roleAllows role (rq_Method r) (rq_Path r) \<and>
        (if ac_InsecureNoAuth cfg then role = ''platform_admin''
         else (\<exists>configured. (role, configured) \<in> set (ac_StaticTokens cfg) \<and> bearerToken (rq_Authorization r) \<noteq> [] \<and>
           staticTokenMatches sha256 configured (bearerToken (rq_Authorization r))))
    | (Refuse n, s') \<Rightarrow> n \<in> {401, 403} \<and> \<not> ac_InsecureNoAuth cfg \<and>
        (\<not> db_fault s (db_step s) \<longrightarrow> (\<exists>ev. s' = next_step (s\<lparr>t_audit := t_audit s @ [ev]\<rparr>) \<and> au_Decision ev = ''deny'' \<and>
           au_Action ev = rq_Method r @ '' '' @ rq_Path r))"
proof -
  have tab: "token_table_ok (ac_StaticTokens cfg)"
    using assms(1) parseStaticTokens_ok by (auto simp: normalizeAuth_def Let_def split: if_splits sum.splits)
  have deny: "\<exists>ev. auditDeny r role s = next_step (s\<lparr>t_audit := t_audit s @ [ev]\<rparr>) \<and> au_Decision ev = ''deny'' \<and>
      au_Action ev = rq_Method r @ '' '' @ rq_Path r" if "\<not> db_fault s (db_step s)" for role
    using that by (auto simp: auditDeny_def appendAudit_def ignore_def AppendAudit_def db_call_def)
  have adm: "knownRBACRole ''platform_admin''" "roleAllows ''platform_admin'' m p" for m p
    by (simp_all add: knownRBACRole_def knownStaticRoles_def roleAllows_def Let_def)
  show ?thesis
  proof (cases "ac_InsecureNoAuth cfg")
    case True
    then show ?thesis using adm by (simp add: admit_def requireAuth_def requirePermission_def)
  next
    case False
    show ?thesis
    proof (cases "LookupStaticRole sha256 tokens (bearerToken (rq_Authorization r))")
      case None
      then show ?thesis using False deny by (simp add: admit_def requireAuth_def)
    next
      case (Some role)
      note found = LookupStaticRole_found [OF Some]
      then have "role \<in> set knownStaticRoles" using tab assms(2) by (auto simp: token_table_ok_def list_all_iff)
      then have known: "knownRBACRole role" "role \<noteq> []" by (auto simp: knownRBACRole_def knownStaticRoles_def)
      show ?thesis
      proof (cases "roleAllows role (rq_Method r) (rq_Path r)")
        case True
        then show ?thesis using False Some found assms(2) known by (simp add: admit_def requireAuth_def requirePermission_def)
      next
        case no: False
        then show ?thesis using False Some deny known by (simp add: admit_def requireAuth_def requirePermission_def)
      qed
    qed
  qed
qed

theorem admit_sound_witness:
  "fst (admit (\<lambda>_. []) \<lparr>ac_InsecureNoAuth = False, ac_AuthMode = ''static_token'', ac_StaticTokensRaw = ''viewer:t1'', ac_StaticTokens = [(''viewer'', ''t1'')]\<rparr>
     [(''viewer'', ''t1'')] \<lparr>rq_Method = ''DELETE'', rq_Path = ''/api/v1/scans/4'', rq_Authorization = ''bearer t1'', rq_RequestID = [], rq_RemoteAddr = []\<rparr> empty_db)
   \<noteq> Serve ''viewer''"
proof -
  let ?cfg0 = "\<lparr>ac_InsecureNoAuth = False, ac_AuthMode = [], ac_StaticTokensRaw = ''viewer:t1'', ac_StaticTokens = []\<rparr>"
  let ?cfg = "\<lparr>ac_InsecureNoAuth = False, ac_AuthMode = ''static_token'', ac_StaticTokensRaw = ''viewer:t1'', ac_StaticTokens = [(''viewer'', ''t1'')]\<rparr>"
  let ?r = "\<lparr>rq_Method = ''DELETE'', rq_Path = ''/api/v1/scans/4'', rq_Authorization = ''bearer t1'', rq_RequestID = [], rq_RemoteAddr = []\<rparr>"
  have "normalizeAuth ?cfg0 = Inr ?cfg" and no: "\<not> roleAllows ''viewer'' ''DELETE'' ''/api/v1/scans/4''" by code_simp+
  from admit_sound [OF this(1), of "[(''viewer'', ''t1'')]" empty_db ?r "\<lambda>_. []"] no
  show ?thesis by (auto split: prod.splits access.splits)
qed

section \<open>The audit trail\<close>

fun audit_clean :: "json \<Rightarrow> bool" where
  "audit_clean (JObj kvs) \<longleftrightarrow> list_all (\<lambda>(k, v). \<not> sensitiveAuditKey k \<and> audit_clean v) kvs"
| "audit_clean (JArr vs) \<longleftrightarrow> list_all audit_clean vs"
| "audit_clean (JStr s) \<longleftrightarrow> \<not> looksLikePEM s"
| "audit_clean v \<longleftrightarrow> True"

lemma redact_clean: "audit_clean (redactAuditValue v)"
proof (induction v rule: redactAuditValue.induct)
  case (1 kvs)
  then show ?case by (auto simp: list_all_iff)
next
  case (2 vs)
  then show ?case by (auto simp: list_all_iff)
next
  case (3 s)
  have "\<not> looksLikePEM ''[redacted]''" by code_simp
  then show ?case by simp
qed simp_all

text \<open>What is not secret is kept: redaction changes nothing of a clean value.\<close>

lemma redact_clean_id: "audit_clean v \<Longrightarrow> redactAuditValue v = v"
proof (induction v rule: redactAuditValue.induct)
  case (1 kvs)
  then have "filter (\<lambda>(k, v). \<not> sensitiveAuditKey k) kvs = kvs" by (auto simp: list_all_iff filter_id_conv)
  then show ?case using 1 by (auto simp: list_all_iff intro!: map_idI)
next
  case (2 vs)
  then show ?case by (auto simp: list_all_iff intro!: map_idI)
qed simp_all


end
