(* ===== verification/Outbox.thy ===== *)
theory Outbox
  imports Store_Model
begin

text \<open>
  The transactional outbox: the event operations of \<^verbatim>\<open>internal/store/store.go\<close> and the
  dispatcher of \<^verbatim>\<open>internal/eventbus\<close> with its ITSM sink (\<^verbatim>\<open>internal/itsm\<close>). What the two
  webhooks answer to a POST is a parameter: \<open>None\<close> for a 2xx status, \<open>Some msg\<close> for the error
  the client reports.
\<close>

section \<open>Store operations\<close>

text \<open>The foreign key of \<^verbatim>\<open>events.certificate_id\<close>.\<close>

definition fk_cert :: "uuid option \<Rightarrow> db \<Rightarrow> bool" where
  "fk_cert c s \<longleftrightarrow> (case c of None \<Rightarrow> True | Some i \<Rightarrow> \<exists>r\<in>set (t_certificates s). c_ID r = i)"

definition appendEventTx :: "string \<Rightarrow> uuid option \<Rightarrow> json \<Rightarrow> unit op" where
  "appendEventTx eventType certID payload s =
     (if \<not> fk_cert certID s \<or> \<not> pk_free e_ID (new_uuid s) (t_events s) then (Inl ErrDB, s)
      else (Inr (), s\<lparr>db_seq := Suc (db_seq s), t_events := t_events s @
        [\<lparr>e_ID = new_uuid s, e_EventType = eventType, e_CertificateID = certID, e_Payload = payload,
          e_CreatedAt = sql_now s, e_DeliveredAt = None, e_Attempts = 0, e_LastError = None,
          e_lease_owner = None, e_lease_expires_at = None\<rparr>]\<rparr>))"

definition appendEventStandalone :: "string \<Rightarrow> uuid option \<Rightarrow> json \<Rightarrow> unit op" where
  "appendEventStandalone eventType certID payload = db_call (appendEventTx eventType certID payload)"

text \<open>The columns of a row that an \<^verbatim>\<open>Event\<close> is scanned from; the lease is not among them.\<close>

definition event_row :: "event \<Rightarrow> event" where
  "event_row e = e\<lparr>e_lease_owner := None, e_lease_expires_at := None\<rparr>"

record event_filter =
  ef_Limit :: int
  ef_EventType :: string
  ef_CertificateID :: "uuid option"

definition ListEvents :: "event_filter \<Rightarrow> event list op" where
  "ListEvents f = db_call (\<lambda>s.
     let limit = (if ef_Limit f \<le> 0 then 100 else if ef_Limit f > 500 then 500 else ef_Limit f) in
     (Inr (map event_row (pick (\<lambda>e. (ef_EventType f = [] \<or> e_EventType e = ef_EventType f) \<and>
               (ef_CertificateID f = None \<or> e_CertificateID e = ef_CertificateID f))
            (\<lambda>e. - e_CreatedAt e) (nat limit) (t_events s))), s))"

definition ListUndeliveredEvents :: "int \<Rightarrow> int \<Rightarrow> event list op" where
  "ListUndeliveredEvents limit maxAttempts = db_call (\<lambda>s.
     let lim = (if limit \<le> 0 then 50 else limit); m = (if maxAttempts \<le> 0 then 10 else maxAttempts) in
     (Inr (map event_row
        (pick (\<lambda>e. e_DeliveredAt e = None \<and> e_Attempts e < m) e_CreatedAt (nat lim) (t_events s))), s))"

definition claimable_event :: "int \<Rightarrow> time \<Rightarrow> event \<Rightarrow> bool" where
  "claimable_event maxAttempts now e \<longleftrightarrow> e_DeliveredAt e = None \<and> e_Attempts e < maxAttempts \<and>
     (case e_lease_expires_at e of None \<Rightarrow> True | Some t \<Rightarrow> t < now)"

text \<open>The transaction of a claim: select, then stamp the lease.\<close>

definition claim_events :: "string \<Rightarrow> (uuid \<Rightarrow> bool) \<Rightarrow> int \<Rightarrow> time \<Rightarrow> time \<Rightarrow> nat \<Rightarrow> event list \<Rightarrow>
    uuid list \<times> event list" where
  "claim_events owner locked maxAttempts now expires n rows =
     (let ids = map e_ID (pick (\<lambda>e. claimable_event maxAttempts now e \<and> \<not> locked (e_ID e)) e_CreatedAt n rows)
      in (ids, upd_where (\<lambda>e. e_ID e \<in> set ids)
            (\<lambda>e. e\<lparr>e_lease_owner := Some owner, e_lease_expires_at := Some expires\<rparr>) rows))"

definition get_event :: "uuid \<Rightarrow> event op" where
  "get_event i = db_call (\<lambda>s. case List.find (\<lambda>e. e_ID e = i) (t_events s) of
     None \<Rightarrow> (Inl ErrDB, s) | Some e \<Rightarrow> (Inr (event_row e), s))"

definition ClaimUndeliveredEvents :: "string \<Rightarrow> duration \<Rightarrow> int \<Rightarrow> int \<Rightarrow> event list op" where
  "ClaimUndeliveredEvents owner leaseTTL limit maxAttempts s =
    (if owner = [] then (Inl ErrClaimOwnerRequired, s)
     else let ttl = (if leaseTTL \<le> 0 then 2 * minute else leaseTTL);
              lim = (if limit \<le> 0 then 50 else limit);
              m = (if maxAttempts \<le> 0 then 10 else maxAttempts);
              expires = go_now s + ttl in
       bind_op (db_call (\<lambda>s. case claim_events owner (db_locked s (db_step s)) m (sql_now s) expires (nat lim) (t_events s)
                  of (ids, rows) \<Rightarrow> (Inr ids, s\<lparr>t_events := rows\<rparr>)))
         (\<lambda>ids. get_all get_event ids) s)"

definition MarkEventDelivered :: "uuid \<Rightarrow> unit op" where
  "MarkEventDelivered i = db_call (\<lambda>s. (Inr (), s\<lparr>t_events := upd_where (\<lambda>e. e_ID e = i)
     (\<lambda>e. e\<lparr>e_DeliveredAt := Some (sql_now s), e_lease_owner := None, e_lease_expires_at := None\<rparr>) (t_events s)\<rparr>))"

definition MarkEventFailed :: "uuid \<Rightarrow> string \<Rightarrow> unit op" where
  "MarkEventFailed i errMsg = db_call (\<lambda>s. (Inr (), s\<lparr>t_events := upd_where (\<lambda>e. e_ID e = i)
     (\<lambda>e. e\<lparr>e_Attempts := e_Attempts e + 1, e_LastError := Some errMsg,
            e_lease_owner := None, e_lease_expires_at := None\<rparr>) (t_events s)\<rparr>))"

section \<open>Dispatcher\<close>

record dispatcher_config =
  dc_WebhookURL :: string
  dc_Token :: string
  dc_Interval :: duration
  dc_BatchSize :: int
  dc_MaxAttempts :: int
  dc_Owner :: string
  dc_LeaseTTL :: duration
  dc_ITSMWebhookURL :: string
  dc_ITSMWebhookHMACSecret :: string

text \<open>\<^verbatim>\<open>New\<close>: the defaults.\<close>

definition NewDispatcher :: "dispatcher_config \<Rightarrow> dispatcher_config" where
  "NewDispatcher cfg = cfg\<lparr>
     dc_Interval := (if dc_Interval cfg \<le> 0 then 15 * second else dc_Interval cfg),
     dc_BatchSize := (if dc_BatchSize cfg \<le> 0 then 50 else dc_BatchSize cfg),
     dc_MaxAttempts := (if dc_MaxAttempts cfg \<le> 0 then 10 else dc_MaxAttempts cfg),
     dc_Owner := (if dc_Owner cfg = [] then ''eda-dispatcher'' else dc_Owner cfg),
     dc_LeaseTTL := (if dc_LeaseTTL cfg \<le> 0 then 2 * minute else dc_LeaseTTL cfg)\<rparr>"

definition Configured :: "dispatcher_config \<Rightarrow> bool" where
  "Configured d \<longleftrightarrow> dc_WebhookURL d \<noteq> [] \<or> dc_ITSMWebhookURL d \<noteq> []"

definition summaryFor :: "string \<Rightarrow> string" where
  "summaryFor eventType =
     (if eventType = ''cert.discovered'' then ''CLM: new certificate discovered''
      else if eventType = ''cert.expiring'' then ''CLM: certificate expiring soon''
      else if eventType = ''cert.revoked'' then ''CLM: certificate revoked''
      else if eventType = ''blind_spot.detected'' then ''CLM: blind spot detected''
      else if eventType \<in> {''renewal.requested'', ''renewal.launched'', ''renewal.verified'',
                ''renewal.failed'', ''renewal.timed_out''}
      then ''CLM: renewal lifecycle '' @ [CHR 0xE2, CHR 0x80, CHR 0x94] @ '' '' @ eventType
      else ''CLM catalogue event: '' @ eventType)"

text \<open>The ticket \<^verbatim>\<open>Render\<close> marshals for the ITSM webhook.\<close>

definition Render :: "event \<Rightarrow> json" where
  "Render e = JObj [(''source'', JStr ''clm''), (''event_id'', JId (e_ID e)),
     (''event_type'', JStr (e_EventType e)), (''created_at'', rfc3339 (e_CreatedAt e)),
     (''summary'', JStr (summaryFor (e_EventType e))), (''payload'', e_Payload e)]"

text \<open>
  \<open>eda e\<close> and \<open>itsm t\<close> are the outcomes of the POSTs of an event and of a ticket. The EDA webhook
  comes first; a failure of either fails the delivery.
\<close>

definition deliver :: "(event \<Rightarrow> string option) \<Rightarrow> (json \<Rightarrow> string option) \<Rightarrow> dispatcher_config \<Rightarrow> event \<Rightarrow> string option" where
  "deliver eda itsm d e =
    (case (if dc_WebhookURL d \<noteq> [] then eda e else None) of Some err \<Rightarrow> Some err
     | None \<Rightarrow>
       (case (if dc_ITSMWebhookURL d \<noteq> [] then itsm (Render e) else None) of Some err \<Rightarrow> Some err
        | None \<Rightarrow> if dc_WebhookURL d = [] \<and> dc_ITSMWebhookURL d = []
                  then Some ''no delivery sink configured'' else None))"

text \<open>One event of the batch: the counters (delivered, failed) and the state.\<close>

definition dispatch_one :: "(event \<Rightarrow> string option) \<Rightarrow> (json \<Rightarrow> string option) \<Rightarrow> dispatcher_config \<Rightarrow>
    event \<Rightarrow> nat \<times> nat \<Rightarrow> db \<Rightarrow> (nat \<times> nat) \<times> db" where
  "dispatch_one eda itsm d e cnt s =
    (case cnt of (delivered, failed) \<Rightarrow>
     (case deliver eda itsm d e of
        Some derr \<Rightarrow> ((delivered, Suc failed), ignore (MarkEventFailed (e_ID e) derr) s)
      | None \<Rightarrow>
        (case MarkEventDelivered (e_ID e) s of
           (Inl merr, s') \<Rightarrow> ((delivered, Suc failed),
              ignore (MarkEventFailed (e_ID e) (''delivered but not recorded: '' @ ''database error'')) s')
         | (Inr _, s') \<Rightarrow> ((Suc delivered, failed), s'))))"

fun dispatch_batch :: "(event \<Rightarrow> string option) \<Rightarrow> (json \<Rightarrow> string option) \<Rightarrow> dispatcher_config \<Rightarrow>
    event list \<Rightarrow> nat \<times> nat \<Rightarrow> db \<Rightarrow> (nat \<times> nat) \<times> db" where
  "dispatch_batch eda itsm d [] cnt s = (cnt, s)"
| "dispatch_batch eda itsm d (e # es) cnt s =
     (case dispatch_one eda itsm d e cnt s of (cnt', s') \<Rightarrow> dispatch_batch eda itsm d es cnt' s')"

definition RunOnce :: "(event \<Rightarrow> string option) \<Rightarrow> (json \<Rightarrow> string option) \<Rightarrow> dispatcher_config \<Rightarrow> (nat \<times> nat) op" where
  "RunOnce eda itsm d = bind_op
     (ClaimUndeliveredEvents (dc_Owner d) (dc_LeaseTTL d) (dc_BatchSize d) (dc_MaxAttempts d))
     (\<lambda>events s. case dispatch_batch eda itsm d events (0, 0) s of (cnt, s') \<Rightarrow> (Inr cnt, s'))"

section \<open>Exclusive delivery\<close>

text \<open>An event a dispatcher may take at \<open>now\<close>, whatever its limit of attempts.\<close>

definition event_free :: "time \<Rightarrow> event \<Rightarrow> bool" where
  "event_free now e \<longleftrightarrow> e_DeliveredAt e = None \<and> (case e_lease_expires_at e of None \<Rightarrow> True | Some t \<Rightarrow> t < now)"

interpretation ev: leased_table e_ID event_free "claim_events owner locked maxAttempts"
  for owner locked maxAttempts
proof (unfold_locales, goal_cases)
  case (1 t x n rows ids rows' i)
  then show ?case using set_pick
    by (fastforce simp: claim_events_def Let_def claimable_event_def event_free_def)
next
  case (2 t x n rows ids rows')
  then show ?case by (auto simp: claim_events_def Let_def intro!: map_upd_where)
next
  case (3 t x n rows ids rows' r u)
  then show ?case
    by (auto simp: claim_events_def Let_def event_free_def elim!: in_upd_whereE split: if_splits)
next
  case (4 t x n rows ids rows' r)
  then show ?case by (auto simp: claim_events_def Let_def set_upd_where)
next
  case (5 t x n rows ids rows')
  then show ?case using length_pick by (auto simp: claim_events_def Let_def)
qed

text \<open>
  What the replicas do to the outbox between two instants, in the order the database serialises it.
\<close>

datatype outbox_action = Append_event string "uuid option" json
  | Claim_events string duration int int
  | Event_delivered uuid
  | Event_failed uuid string

text \<open>One action: the ids it hands to its caller and the state after it.\<close>

fun outbox_act :: "outbox_action \<Rightarrow> db \<Rightarrow> uuid list \<times> db" where
  "outbox_act (Append_event ty c p) s = ([], ignore (appendEventStandalone ty c p) s)"
| "outbox_act (Claim_events owner ttl limit m) s =
     (case ClaimUndeliveredEvents owner ttl limit m s of
        (Inl _, s') \<Rightarrow> ([], s') | (Inr es, s') \<Rightarrow> (map e_ID es, s'))"
| "outbox_act (Event_delivered i) s = ([], ignore (MarkEventDelivered i) s)"
| "outbox_act (Event_failed i msg) s = ([], ignore (MarkEventFailed i msg) s)"

fun outbox_run :: "outbox_action list \<Rightarrow> db \<Rightarrow> uuid list \<times> db" where
  "outbox_run [] s = ([], s)"
| "outbox_run (a # as) s =
     (case outbox_act a s of (ids, s') \<Rightarrow> case outbox_run as s' of (ids', s'') \<Rightarrow> (ids @ ids', s''))"

definition releases :: "uuid \<Rightarrow> outbox_action \<Rightarrow> bool" where
  "releases i a \<longleftrightarrow> a = Event_delivered i \<or> (\<exists>msg. a = Event_failed i msg)"

text \<open>Reading events back changes no table, and returns the rows asked for.\<close>

lemma get_event_frame: "t_events (snd (get_event i s)) = t_events s \<and> db_now (snd (get_event i s)) = db_now s"
  by (auto simp: get_event_def db_call_def split: option.splits)

lemma get_event_ID: "get_event i s = (Inr e, s') \<Longrightarrow> e_ID e = i \<and> s' = next_step s"
  by (auto simp: get_event_def db_call_def event_row_def split: option.splits if_splits dest!: find_Some_in)

lemma get_event_step: "db_step (snd (get_event i s)) = Suc (db_step s)"
  by (auto simp: get_event_def db_call_def split: option.splits)

lemma get_all_events:
  "t_events (snd (get_all get_event ids s)) = t_events s \<and> db_now (snd (get_all get_event ids s)) = db_now s
     \<and> db_step s \<le> db_step (snd (get_all get_event ids s))"
  by (rule get_all_keeps [where P = "\<lambda>t. t_events t = t_events s \<and> db_now t = db_now s \<and> db_step s \<le> db_step t"])
     (auto simp: get_event_frame get_event_step)

lemma get_all_events_ids: "get_all get_event ids s = (Inr es, s') \<Longrightarrow> map e_ID es = ids"
  by (induction ids arbitrary: s es)
     (auto simp: bind_op_def dest: get_event_ID split: prod.splits sum.splits)

text \<open>A claim as a transaction on the table of events.\<close>

lemma ClaimUndeliveredEvents_claim:
  assumes "ClaimUndeliveredEvents owner ttl limit m s = (res, s')"
  obtains "t_events s' = t_events s" "db_now s' = db_now s" "db_step s \<le> db_step s'" "isl res"
  | ids lim m' where
      "claim_events owner (db_locked s (db_step s)) m' (sql_now s)
         (go_now s + (if ttl \<le> 0 then 2 * minute else ttl)) lim (t_events s) = (ids, t_events s')"
      "db_now s' = db_now s" "db_step s < db_step s'" "\<And>es. res = Inr es \<Longrightarrow> map e_ID es = ids"
proof (cases "owner = [] \<or> db_fault s (db_step s)")
  case True
  then have "isl res \<and> (s' = s \<or> s' = next_step s)" using assms
    by (auto simp: ClaimUndeliveredEvents_def Let_def bind_op_def db_call_def split: if_splits)
  then show thesis using that(1) by (elim conjE disjE) simp_all
next
  case False
  let ?x = "go_now s + (if ttl \<le> 0 then 2 * minute else ttl)"
    and ?m = "if m \<le> 0 then 10 else m" and ?lim = "nat (if limit \<le> 0 then 50 else limit)"
  obtain ids rows where cl: "claim_events owner (db_locked s (db_step s)) ?m (sql_now s) ?x ?lim (t_events s)
      = (ids, rows)" by force
  let ?s1 = "next_step (s\<lparr>t_events := rows\<rparr>)"
  have g: "get_all get_event ids ?s1 = (res, s')"
    using assms False cl by (simp add: ClaimUndeliveredEvents_def Let_def bind_op_def db_call_def)
  then have "t_events s' = rows" "db_now s' = db_now s" "db_step s < db_step s'"
    using get_all_events [of ids ?s1] by simp_all
  moreover have "map e_ID es = ids" if "res = Inr es" for es using g that get_all_events_ids by simp
  ultimately show thesis using that(2) cl by simp
qed

definition guarded :: "uuid \<Rightarrow> time \<Rightarrow> event list \<Rightarrow> bool" where
  "guarded i x rows \<longleftrightarrow> distinct (map e_ID rows) \<and> i \<in> e_ID ` set rows \<and> ev.held_until i x rows"

lemma guarded_append:
  "guarded i x rows \<Longrightarrow> pk_free e_ID (e_ID e) rows \<Longrightarrow> guarded i x (rows @ [e])"
  by (auto simp: guarded_def pk_free_def ev.held_until_def)

lemma guarded_upd:
  "guarded i x rows \<Longrightarrow> j \<noteq> i \<Longrightarrow> (\<And>e. e_ID (f e) = e_ID e) \<Longrightarrow>
     guarded i x (upd_where (\<lambda>e. e_ID e = j) f rows)"
  by (auto simp: guarded_def ev.held_until_def map_upd_where set_upd_where image_iff elim!: in_upd_whereE)

lemma guarded_claim:
  assumes "guarded i x rows" and cl: "claim_events owner locked m u y n rows = (ids, rows')" and "u \<le> x"
  shows "guarded i x rows' \<and> i \<notin> set ids"
proof -
  have "map e_ID rows' = map e_ID rows" by (rule ev.claim_keys [OF cl])
  then have "e_ID ` set rows' = e_ID ` set rows" "distinct (map e_ID rows') = distinct (map e_ID rows)"
    by (metis list.set_map, simp)
  moreover have "i \<notin> set ids" using assms ev.held_not_claimed by (auto simp: guarded_def)
  ultimately show ?thesis using assms ev.held_kept [OF _ cl] by (simp add: guarded_def)
qed

lemma outbox_act_guarded:
  assumes "guarded i x (t_events s)" and "\<not> releases i a" and "db_now s (db_step s) \<le> x"
    and act: "outbox_act a s = (ids, s')"
  shows "guarded i x (t_events s') \<and> i \<notin> set ids \<and> db_now s' = db_now s \<and> db_step s \<le> db_step s'"
proof (cases a)
  case (Append_event ty c p)
  then show ?thesis using assms
    by (auto simp: appendEventStandalone_def appendEventTx_def ignore_def db_call_def intro!: guarded_append)
next
  case (Claim_events owner ttl limit m)
  obtain res where cl: "ClaimUndeliveredEvents owner ttl limit m s = (res, s')"
    and ids: "ids = (case res of Inl _ \<Rightarrow> [] | Inr es \<Rightarrow> map e_ID es)"
    using act Claim_events by (auto split: prod.splits sum.splits)
  from cl show ?thesis
  proof (cases rule: ClaimUndeliveredEvents_claim)
    case 1
    then show ?thesis using assms(1) ids by (auto split: sum.splits)
  next
    case (2 got lim m')
    then show ?thesis using guarded_claim [OF assms(1) 2(1)] assms(3) ids
      by (auto simp: sql_now_def split: sum.splits)
  qed
next
  case (Event_delivered j)
  then show ?thesis using assms
    by (auto simp: MarkEventDelivered_def ignore_def db_call_def releases_def intro!: guarded_upd)
next
  case (Event_failed j msg)
  then show ?thesis using assms
    by (auto simp: MarkEventFailed_def ignore_def db_call_def releases_def intro!: guarded_upd)
qed

lemma outbox_act_frame: "db_now (snd (outbox_act a s)) = db_now s \<and> db_step s \<le> db_step (snd (outbox_act a s))"
proof (cases a)
  case (Claim_events owner ttl limit m)
  obtain res s' where cl: "ClaimUndeliveredEvents owner ttl limit m s = (res, s')" by force
  from cl have "db_now s' = db_now s \<and> db_step s \<le> db_step s'"
    by (cases rule: ClaimUndeliveredEvents_claim) auto
  then show ?thesis using Claim_events cl by (simp split: sum.splits)
qed (auto simp: appendEventStandalone_def appendEventTx_def MarkEventDelivered_def MarkEventFailed_def
       ignore_def db_call_def)

lemma outbox_run_step: "db_step s \<le> db_step (snd (outbox_run as s))"
proof (induction as arbitrary: s)
  case (Cons a as)
  have "db_step s \<le> db_step (snd (outbox_act a s))" using outbox_act_frame by simp
  also have "\<dots> \<le> db_step (snd (outbox_run as (snd (outbox_act a s))))" by (rule Cons.IH)
  finally show ?case by (simp add: case_prod_beta)
qed simp

lemma outbox_run_guarded:
  assumes "guarded i x (t_events s)" and "\<forall>a\<in>set as. \<not> releases i a"
    and "\<forall>k\<le>db_step (snd (outbox_run as s)). db_now s k \<le> x"
  shows "i \<notin> set (fst (outbox_run as s))"
  using assms
proof (induction as arbitrary: s)
  case Nil
  then show ?case by simp
next
  case (Cons a as)
  obtain ids s' where act: "outbox_act a s = (ids, s')" by force
  have tail: "snd (outbox_run (a # as) s) = snd (outbox_run as s')" using act by (simp split: prod.splits)
  have "db_step s \<le> db_step (snd (outbox_run (a # as) s))" by (rule outbox_run_step)
  then have "guarded i x (t_events s') \<and> i \<notin> set ids"
    using outbox_act_guarded [OF Cons.prems(1) _ _ act] Cons.prems(2,3) by simp
  moreover have "db_now s' = db_now s" using outbox_act_frame [of a s] act by simp
  ultimately show ?case using Cons.IH [of s'] Cons.prems(2,3) tail act by (simp split: prod.splits)
qed

text \<open>
  C5. Two dispatchers never deliver the same event at the same time. Once a claim has handed out an
  event, no claim by any replica hands it out again until it is marked delivered or failed or the
  lease runs out, whatever else happens to the outbox meanwhile (new events, other claims, other
  events marked) and whichever calls fail. The lease is stamped by the caller's clock and compared
  with the database's; the hypothesis is on the instants the database sees.
\<close>

theorem claimed_event_exclusive:
  assumes "distinct (map e_ID (t_events s))" and "0 < ttl"
    and "ClaimUndeliveredEvents owner ttl limit m s = (Inr es, s')" and "e \<in> set es"
    and "\<forall>a\<in>set as. \<not> releases (e_ID e) a"
    and "\<forall>k\<le>db_step (snd (outbox_run as s')). db_now s k \<le> go_now s + ttl"
  shows "e_ID e \<notin> set (fst (outbox_run as s'))"
  using assms(3)
proof (cases rule: ClaimUndeliveredEvents_claim)
  case (2 ids lim m')
  have ids: "map e_ID es = ids" by (rule 2(4)) simp
  then have "e_ID e \<in> set ids" using assms(4) by auto
  then have "ev.held_until (e_ID e) (go_now s + ttl) (t_events s')"
    using ev.claim_holds [OF 2(1)] assms(2) by simp
  moreover have keys: "map e_ID (t_events s') = map e_ID (t_events s)" by (rule ev.claim_keys [OF 2(1)])
  moreover have "e_ID e \<in> e_ID ` set (t_events s')"
    using ev.claim_ids [OF 2(1) \<open>e_ID e \<in> set ids\<close>] keys by (metis image_eqI list.set_map)
  ultimately have "guarded (e_ID e) (go_now s + ttl) (t_events s')"
    using assms(1) by (simp add: guarded_def)
  then show ?thesis using outbox_run_guarded assms(5,6) 2(2) by simp
qed simp

text \<open>An outbox with an event waiting for its first delivery and one on its last attempt.\<close>

definition example_event :: "uuid \<Rightarrow> int \<Rightarrow> event" where
  "example_event i n = \<lparr>e_ID = i, e_EventType = ''cert.discovered'', e_CertificateID = None, e_Payload = JObj [],
     e_CreatedAt = int i, e_DeliveredAt = None, e_Attempts = n, e_LastError = None,
     e_lease_owner = None, e_lease_expires_at = None\<rparr>"

definition example_outbox :: db where
  "example_outbox = empty_db\<lparr>t_events := [example_event 7 0, example_event 8 9]\<rparr>"

definition example_config :: dispatcher_config where
  "example_config = \<lparr>dc_WebhookURL = ''https://eda'', dc_Token = [], dc_Interval = 0, dc_BatchSize = 0,
     dc_MaxAttempts = 0, dc_Owner = [], dc_LeaseTTL = 0, dc_ITSMWebhookURL = [], dc_ITSMWebhookHMACSecret = []\<rparr>"

theorem claimed_event_exclusive_witness:
  "\<exists>es s'. ClaimUndeliveredEvents ''a'' (2 * minute) 1 10 example_outbox = (Inr es, s') \<and> map e_ID es = [7] \<and>
     7 \<notin> set (fst (outbox_run [Append_event ''cert.expiring'' None (JObj []), Claim_events ''b'' 0 0 0,
                                 Event_failed 8 ''refused'', Claim_events ''c'' 0 0 0] s'))"
proof -
  let ?c = "ClaimUndeliveredEvents ''a'' (2 * minute) 1 10 example_outbox"
    and ?as = "[Append_event ''cert.expiring'' None (JObj []), Claim_events ''b'' 0 0 0,
                Event_failed 8 ''refused'', Claim_events ''c'' 0 0 0]"
  have "case fst ?c of Inl _ \<Rightarrow> False | Inr es \<Rightarrow> map e_ID es = [7]" by code_simp
  then obtain es s' where c: "?c = (Inr es, s')" and ids: "map e_ID es = [7]"
    by (cases ?c) (auto split: sum.splits)
  then obtain e where e: "e \<in> set es" "e_ID e = 7" by (cases es) auto
  have "\<forall>k\<le>db_step (snd (outbox_run ?as s')). db_now example_outbox k \<le> go_now example_outbox + 2 * minute"
    by (auto simp: example_outbox_def empty_db_def go_now_def minute_def second_def)
  moreover have "distinct (map e_ID (t_events example_outbox))" by code_simp
  ultimately have "e_ID e \<notin> set (fst (outbox_run ?as s'))"
    by (intro claimed_event_exclusive [OF _ _ c e(1)]) (auto simp: minute_def second_def releases_def e(2))
  then show ?thesis using c ids e(2) by auto
qed

section \<open>A dispatch cycle\<close>

text \<open>
  What a cycle makes of the row \<open>r\<close> of a claimed event \<open>e\<close>: delivered, one more failed attempt, or,
  if a database call failed, nothing.
\<close>

definition outcome :: "(event \<Rightarrow> string option) \<Rightarrow> bool \<Rightarrow> event \<Rightarrow> event \<Rightarrow> event \<Rightarrow> bool" where
  "outcome dl faulty e r r' \<longleftrightarrow> (faulty \<and> r' = r) \<or>
     (\<exists>msg. r' = r\<lparr>e_Attempts := e_Attempts r + 1, e_LastError := Some msg,
                    e_lease_owner := None, e_lease_expires_at := None\<rparr> \<and>
            (dl e = Some msg \<or> dl e = None \<and> faulty)) \<or>
     (dl e = None \<and> (\<exists>t. r' = r\<lparr>e_DeliveredAt := Some t, e_lease_owner := None, e_lease_expires_at := None\<rparr>))"

lemma outcome_ID: "outcome dl faulty e r r' \<Longrightarrow> e_ID r' = e_ID r"
  by (auto simp: outcome_def)

lemma MarkEventFailed_events:
  "t_events (snd (MarkEventFailed i msg s)) = upd_where (\<lambda>e. e_ID e = i)
     (\<lambda>e. if db_fault s (db_step s) then e
           else e\<lparr>e_Attempts := e_Attempts e + 1, e_LastError := Some msg,
                   e_lease_owner := None, e_lease_expires_at := None\<rparr>) (t_events s)"
  by (cases "db_fault s (db_step s)") (simp_all add: MarkEventFailed_def db_call_def upd_where_def)

lemma MarkEvent_fault:
  "db_fault (snd (MarkEventFailed i msg s)) = db_fault s" "db_fault (snd (MarkEventDelivered i s)) = db_fault s"
  by (simp_all add: MarkEventFailed_def MarkEventDelivered_def db_call_def)

lemma dispatch_one_rows:
  assumes "dispatch_one eda itsm d e cnt s = (cnt', s')"
  shows "\<exists>f. t_events s' = upd_where (\<lambda>r. e_ID r = e_ID e) f (t_events s)
           \<and> (\<forall>r. outcome (deliver eda itsm d) (\<exists>k. db_fault s k) e r (f r))"
proof (cases "deliver eda itsm d e")
  case (Some msg)
  then have "s' = snd (MarkEventFailed (e_ID e) msg s)"
    using assms by (auto simp: dispatch_one_def ignore_def split: prod.splits)
  then show ?thesis using Some
    by (cases "db_fault s (db_step s)") (auto simp: MarkEventFailed_events outcome_def intro!: exI)
next
  case None
  show ?thesis
  proof (cases "db_fault s (db_step s)")
    case False
    with None assms have "t_events s' = upd_where (\<lambda>r. e_ID r = e_ID e)
        (\<lambda>e. e\<lparr>e_DeliveredAt := Some (sql_now s), e_lease_owner := None, e_lease_expires_at := None\<rparr>) (t_events s)"
      by (auto simp: dispatch_one_def MarkEventDelivered_def db_call_def split: prod.splits)
    then show ?thesis using None by (auto simp: outcome_def)
  next
    case True
    then have f: "\<exists>k. db_fault s k" by blast
    from None True assms have
      "s' = snd (MarkEventFailed (e_ID e) (''delivered but not recorded: '' @ ''database error'') (next_step s))"
      by (auto simp: dispatch_one_def MarkEventDelivered_def db_call_def ignore_def split: prod.splits)
    then show ?thesis using None f
      by (intro exI conjI allI, simp add: MarkEventFailed_events) (auto simp: outcome_def)
  qed
qed

lemma dispatch_one_count:
  assumes "dispatch_one eda itsm d e (a, b) s = ((a', b'), s')"
  shows "db_fault s' = db_fault s \<and> a' + b' = Suc (a + b) \<and>
    ((\<forall>k. \<not> db_fault s k) \<longrightarrow> a' = (if deliver eda itsm d e = None then Suc a else a))"
  using assms
  by (auto simp: dispatch_one_def MarkEventDelivered_def MarkEventFailed_def db_call_def ignore_def
      split: option.splits if_splits)

lemma dispatch_batch_count:
  "dispatch_batch eda itsm d es (a, b) s = ((a', b'), s') \<Longrightarrow>
     a' + b' = a + b + length es \<and>
     ((\<forall>k. \<not> db_fault s k) \<longrightarrow> a' = a + length (filter (\<lambda>e. deliver eda itsm d e = None) es))"
proof (induction es arbitrary: a b s)
  case (Cons e es)
  obtain a1 b1 s1 where one: "dispatch_one eda itsm d e (a, b) s = ((a1, b1), s1)" by (metis surj_pair)
  then show ?case using Cons.IH [of a1 b1 s1] Cons.prems dispatch_one_count [OF one] by auto
qed simp

text \<open>The rows after a batch, each against the row before it.\<close>

definition batch_row :: "(event \<Rightarrow> string option) \<Rightarrow> bool \<Rightarrow> event list \<Rightarrow> event \<Rightarrow> event \<Rightarrow> bool" where
  "batch_row dl faulty es r r' \<longleftrightarrow>
     (if e_ID r \<in> e_ID ` set es then \<exists>e\<in>set es. e_ID e = e_ID r \<and> outcome dl faulty e r r' else r' = r)"

lemma dispatch_batch_rows:
  assumes "dispatch_batch eda itsm d es cnt s = (cnt', s')" and "distinct (map e_ID es)"
  shows "list_all2 (batch_row (deliver eda itsm d) (\<exists>k. db_fault s k) es) (t_events s) (t_events s')"
  using assms
proof (induction es arbitrary: cnt s)
  case Nil
  then show ?case by (simp add: batch_row_def list_all2_refl)
next
  case (Cons e es)
  obtain cnt1 s1 where one: "dispatch_one eda itsm d e cnt s = (cnt1, s1)" by (metis surj_pair)
  obtain f where f: "t_events s1 = upd_where (\<lambda>r. e_ID r = e_ID e) f (t_events s)"
    and out: "\<And>r. outcome (deliver eda itsm d) (\<exists>k. db_fault s k) e r (f r)"
    using dispatch_one_rows [OF one] by blast
  have flt: "db_fault s1 = db_fault s" using dispatch_one_count one by (metis surj_pair)
  have "list_all2 (batch_row (deliver eda itsm d) (\<exists>k. db_fault s k) es) (t_events s1) (t_events s')"
    using Cons.IH [of cnt1 s1] Cons.prems one flt by simp
  then have "list_all2 (\<lambda>r. batch_row (deliver eda itsm d) (\<exists>k. db_fault s k) es
      (if e_ID r = e_ID e then f r else r)) (t_events s) (t_events s')"
    by (simp add: f upd_where_def list.rel_map)
  then show ?case
  proof (rule list_all2_mono)
    fix r r' assume *: "batch_row (deliver eda itsm d) (\<exists>k. db_fault s k) es (if e_ID r = e_ID e then f r else r) r'"
    show "batch_row (deliver eda itsm d) (\<exists>k. db_fault s k) (e # es) r r'"
      using * out [of r] outcome_ID [OF out [of r]] Cons.prems(2)
      by (auto simp: batch_row_def split: if_splits)
  qed
qed

text \<open>The batch of a cycle: the events a claim takes, oldest first.\<close>

definition cycle_batch :: "dispatcher_config \<Rightarrow> db \<Rightarrow> event list" where
  "cycle_batch d s = pick (\<lambda>e. claimable_event (dc_MaxAttempts d) (sql_now s) e \<and> \<not> db_locked s (db_step s) (e_ID e))
     e_CreatedAt (nat (dc_BatchSize d)) (t_events s)"

definition stamp_batch :: "dispatcher_config \<Rightarrow> db \<Rightarrow> event \<Rightarrow> event" where
  "stamp_batch d s r = (if e_ID r \<in> e_ID ` set (cycle_batch d s)
     then r\<lparr>e_lease_owner := Some (dc_Owner d), e_lease_expires_at := Some (go_now s + dc_LeaseTTL d)\<rparr> else r)"

lemma NewDispatcher_pos [simp]:
  "0 < dc_MaxAttempts (NewDispatcher cfg)" "0 < dc_BatchSize (NewDispatcher cfg)"
  "0 < dc_LeaseTTL (NewDispatcher cfg)" "dc_Owner (NewDispatcher cfg) \<noteq> []"
  by (simp_all add: NewDispatcher_def minute_def second_def)

lemma stamp_ID: "e_ID (stamp_batch d s r) = e_ID r"
  by (simp add: stamp_batch_def)

lemma cycle_claim:
  "claim_events (dc_Owner d) (db_locked s (db_step s)) (dc_MaxAttempts d) (sql_now s) (go_now s + dc_LeaseTTL d)
     (nat (dc_BatchSize d)) (t_events s) = (map e_ID (cycle_batch d s), map (stamp_batch d s) (t_events s))"
  by (simp add: claim_events_def cycle_batch_def stamp_batch_def upd_where_def Let_def)

lemma cycle_Claim:
  assumes "d = NewDispatcher cfg" and "\<not> db_fault s (db_step s)"
  shows "ClaimUndeliveredEvents (dc_Owner d) (dc_LeaseTTL d) (dc_BatchSize d) (dc_MaxAttempts d) s =
    get_all get_event (map e_ID (cycle_batch d s)) (next_step (s\<lparr>t_events := map (stamp_batch d s) (t_events s)\<rparr>))"
  using assms cycle_claim [of d s] NewDispatcher_pos [of cfg]
  by (simp add: ClaimUndeliveredEvents_def bind_op_def db_call_def Let_def not_le [symmetric])

lemma get_all_events_rows:
  "get_all get_event ids s = (Inr es, s') \<Longrightarrow> \<forall>e\<in>set es. \<exists>r\<in>set (t_events s). e = event_row r"
proof (induction ids arbitrary: s es)
  case (Cons i ids)
  obtain e s1 where g: "get_event i s = (Inr e, s1)" using Cons.prems
    by (auto simp: bind_op_def split: prod.splits sum.splits)
  obtain es' where "get_all get_event ids s1 = (Inr es', s')" "es = e # es'" using Cons.prems g
    by (auto simp: bind_op_def split: prod.splits sum.splits)
  moreover have "\<exists>r\<in>set (t_events s). e = event_row r" "t_events s1 = t_events s" using g
    by (auto simp: get_event_def db_call_def split: option.splits if_splits dest!: find_Some_in)
  ultimately show ?case using Cons.IH [of s1 es'] by auto
qed simp

lemma get_all_events_fault: "db_fault (snd (get_all get_event ids s)) = db_fault s"
  by (rule get_all_keeps [where P = "\<lambda>t. db_fault t = db_fault s"])
     (auto simp: get_event_def db_call_def split: option.splits)

lemma get_all_events_ok:
  assumes "\<forall>k. \<not> db_fault s k" and "set ids \<subseteq> e_ID ` set (t_events s)"
  shows "\<exists>es s'. get_all get_event ids s = (Inr es, s')"
  using assms
proof (induction ids arbitrary: s)
  case (Cons i ids)
  have "List.find (\<lambda>e. e_ID e = i) (t_events s) \<noteq> None"
    using Cons.prems(2) by (auto simp: find_None_iff)
  then obtain r where "get_event i s = (Inr (event_row r), next_step s)"
    using Cons.prems(1) by (auto simp: get_event_def db_call_def)
  moreover obtain es s' where "get_all get_event ids (next_step s) = (Inr es, s')"
    using Cons.IH [of "next_step s"] Cons.prems by auto
  ultimately show ?case by (simp add: bind_op_def)
qed simp

lemma cycle_batch_distinct:
  "distinct (map e_ID (t_events s)) \<Longrightarrow> distinct (map e_ID (cycle_batch d s))"
  by (simp add: cycle_batch_def distinct_map_pick)

lemma cycle_batch_in:
  "e \<in> set (cycle_batch d s) \<Longrightarrow> e \<in> set (t_events s) \<and> claimable_event (dc_MaxAttempts d) (sql_now s) e"
  using set_pick by (fastforce simp: cycle_batch_def)

lemma cycle_get_ok:
  assumes "\<forall>k. \<not> db_fault s k"
  shows "\<exists>es s'. get_all get_event (map e_ID (cycle_batch d s))
    (next_step (s\<lparr>t_events := map (stamp_batch d s) (t_events s)\<rparr>)) = (Inr es, s')"
proof (rule get_all_events_ok)
  have "set (cycle_batch d s) \<subseteq> set (t_events s)" using cycle_batch_in by blast
  then show "set (map e_ID (cycle_batch d s))
      \<subseteq> e_ID ` set (t_events (next_step (s\<lparr>t_events := map (stamp_batch d s) (t_events s)\<rparr>)))"
    by (auto simp: image_image stamp_ID)
qed (use assms in simp)

lemma cycle_events:
  assumes "distinct (map e_ID (t_events s))"
    and "get_all get_event (map e_ID (cycle_batch d s)) (next_step (s\<lparr>t_events := map (stamp_batch d s) (t_events s)\<rparr>))
           = (Inr es, s')"
  shows "es = map event_row (cycle_batch d s)"
proof (rule map_by_key)
  show "map e_ID es = map e_ID (cycle_batch d s)" using get_all_events_ids assms(2) by blast
next
  fix e b assume e: "e \<in> set es" and b: "b \<in> set (cycle_batch d s)" and eq: "e_ID e = e_ID b"
  obtain r where r: "r \<in> set (t_events s)" "e = event_row (stamp_batch d s r)"
    using get_all_events_rows [OF assms(2)] e by auto
  then have "e_ID r = e_ID b" using eq by (simp add: event_row_def stamp_batch_def split: if_splits)
  then have "r = b" using distinct_map_unique assms(1) r(1) cycle_batch_in [OF b] by metis
  then show "e = event_row b" using r(2) by (simp add: event_row_def stamp_batch_def)
qed

text \<open>The effect of a cycle on the table, row by row, whichever calls fail.\<close>

definition cycle_row :: "(event \<Rightarrow> string option) \<Rightarrow> dispatcher_config \<Rightarrow> db \<Rightarrow> event \<Rightarrow> event \<Rightarrow> bool" where
  "cycle_row dl d s r r' \<longleftrightarrow>
     (if r \<in> set (cycle_batch d s)
      then (\<exists>k. db_fault s k) \<and> event_row r' = event_row r \<or> outcome dl (\<exists>k. db_fault s k) (event_row r) r r'
      else r' = r)"

lemma in_batch_iff:
  "distinct (map e_ID (t_events s)) \<Longrightarrow> r \<in> set (t_events s) \<Longrightarrow>
     e_ID r \<in> e_ID ` set (cycle_batch d s) \<longleftrightarrow> r \<in> set (cycle_batch d s)"
  using cycle_batch_in distinct_map_unique by (metis (no_types, lifting) imageE image_eqI)

lemma cycle_row_stamped:
  assumes "distinct (map e_ID (t_events s))" and "\<exists>k. db_fault s k"
  shows "list_all2 (cycle_row dl d s) (t_events s) (map (stamp_batch d s) (t_events s))"
  unfolding list.rel_map
proof (rule list.rel_refl_strong)
  fix r assume "r \<in> set (t_events s)"
  then show "cycle_row dl d s r (stamp_batch d s r)" using assms in_batch_iff [OF assms(1)]
    by (simp add: cycle_row_def stamp_batch_def event_row_def)
qed

lemma cycle_row_dispatched:
  assumes "distinct (map e_ID (t_events s))"
    and "list_all2 (batch_row dl (\<exists>k. db_fault s k) (map event_row (cycle_batch d s)))
           (map (stamp_batch d s) (t_events s)) rows'"
  shows "list_all2 (cycle_row dl d s) (t_events s) rows'"
proof -
  let ?b = "batch_row dl (\<exists>k. db_fault s k) (map event_row (cycle_batch d s))"
  have ids: "e_ID ` set (map event_row (cycle_batch d s)) = e_ID ` set (cycle_batch d s)"
    by (auto simp: event_row_def image_iff)
  have row: "cycle_row dl d s r r'" if r: "r \<in> set (t_events s)" and b: "?b (stamp_batch d s r) r'" for r r'
  proof (cases "r \<in> set (cycle_batch d s)")
    case False
    then have "stamp_batch d s r = r" "e_ID r \<notin> e_ID ` set (cycle_batch d s)"
      using in_batch_iff [OF assms(1) r] by (simp_all add: stamp_batch_def)
    then show ?thesis using False b unfolding batch_row_def ids by (simp add: cycle_row_def)
  next
    case True
    then obtain e where e: "e \<in> set (cycle_batch d s)" "e_ID (event_row e) = e_ID (stamp_batch d s r)"
      and out: "outcome dl (\<exists>k. db_fault s k) (event_row e) (stamp_batch d s r) r'"
      using b unfolding batch_row_def ids by (auto simp: stamp_batch_def split: if_splits)
    then have "e = r" using distinct_map_unique [OF assms(1)] cycle_batch_in r
      by (auto simp: event_row_def stamp_batch_def split: if_splits)
    then show ?thesis using out True
      by (auto simp: cycle_row_def outcome_def event_row_def stamp_batch_def)
  qed
  have "list_all2 (\<lambda>r. ?b (stamp_batch d s r)) (t_events s) rows'" using assms(2) by (simp add: list.rel_map)
  then show ?thesis using row by (auto simp: list_all2_conv_all_nth)
qed

lemma RunOnce_rows:
  assumes d: "d = NewDispatcher cfg" and dist: "distinct (map e_ID (t_events s))"
    and run: "RunOnce eda itsm d s = (res, s')"
  shows "list_all2 (cycle_row (deliver eda itsm d) d s) (t_events s) (t_events s')"
proof (cases "db_fault s (db_step s)")
  case True
  then have "t_events s' = t_events s" using run NewDispatcher_pos(4) [of cfg] d
    by (auto simp: RunOnce_def bind_op_def ClaimUndeliveredEvents_def db_call_def Let_def)
  then show ?thesis using True
    by (auto simp: cycle_row_def intro!: list.rel_refl_strong)
next
  case False
  let ?s1 = "next_step (s\<lparr>t_events := map (stamp_batch d s) (t_events s)\<rparr>)"
  obtain res1 s2 where g: "get_all get_event (map e_ID (cycle_batch d s)) ?s1 = (res1, s2)" by force
  have rows: "t_events s2 = map (stamp_batch d s) (t_events s)" "db_fault s2 = db_fault s"
    using get_all_events [of "map e_ID (cycle_batch d s)" ?s1]
      get_all_events_fault [of "map e_ID (cycle_batch d s)" ?s1] g by simp_all
  show ?thesis
  proof (cases res1)
    case (Inl err)
    then have "\<exists>k. db_fault s k" using cycle_get_ok [of s d] g by auto
    then show ?thesis using cycle_row_stamped [OF dist] rows run cycle_Claim [OF d False] g Inl
      by (simp add: RunOnce_def bind_op_def)
  next
    case (Inr es)
    have es: "es = map event_row (cycle_batch d s)" using cycle_events [OF dist] g Inr by simp
    obtain cnt where "dispatch_batch eda itsm d es (0, 0) s2 = (cnt, s')"
      using run cycle_Claim [OF d False] g Inr by (auto simp: RunOnce_def bind_op_def split: prod.splits)
    moreover have "distinct (map e_ID es)" using cycle_batch_distinct [OF dist] es
      by (simp add: comp_def event_row_def)
    ultimately show ?thesis using dispatch_batch_rows [of eda itsm d es "(0, 0)" s2 cnt s'] rows es
      by (intro cycle_row_dispatched [OF dist]) simp
  qed
qed

lemma RunOnce_result:
  assumes d: "d = NewDispatcher cfg" and dist: "distinct (map e_ID (t_events s))"
    and ok: "\<forall>k. \<not> db_fault s k"
  shows "\<exists>s'. RunOnce eda itsm d s =
    (Inr (length (filter (\<lambda>e. deliver eda itsm d (event_row e) = None) (cycle_batch d s)),
          length (filter (\<lambda>e. deliver eda itsm d (event_row e) \<noteq> None) (cycle_batch d s))), s')"
proof -
  let ?s1 = "next_step (s\<lparr>t_events := map (stamp_batch d s) (t_events s)\<rparr>)"
  obtain es s2 where g: "get_all get_event (map e_ID (cycle_batch d s)) ?s1 = (Inr es, s2)"
    using cycle_get_ok [OF ok] by blast
  have es: "es = map event_row (cycle_batch d s)" by (rule cycle_events [OF dist g])
  obtain a b s' where batch: "dispatch_batch eda itsm d es (0, 0) s2 = ((a, b), s')" by (metis surj_pair)
  have "\<forall>k. \<not> db_fault s2 k" using get_all_events_fault [of "map e_ID (cycle_batch d s)" ?s1] g ok by simp
  then have "a + b = length es" "a = length (filter (\<lambda>e. deliver eda itsm d e = None) es)"
    using dispatch_batch_count [OF batch] by simp_all
  then have "b = length (filter (\<lambda>e. deliver eda itsm d e \<noteq> None) es)"
    using sum_length_filter_compl [of "\<lambda>e. deliver eda itsm d e = None" es] by simp
  moreover have "length (filter P es) = length (filter (\<lambda>e. P (event_row e)) (cycle_batch d s))" for P
    by (simp add: es filter_map comp_def)
  ultimately show ?thesis using \<open>a = _\<close> batch g cycle_Claim [OF d, of s] ok
    by (simp add: RunOnce_def bind_op_def)
qed

text \<open>
  C6. A dispatch cycle in which no database call fails accounts for every event it claims. It returns
  the number delivered and the number failed, which together make up the batch: the oldest
  undelivered, unleased events below the attempt limit, at most a batch size of them. Each one
  accepted by the configured sinks is stamped delivered; each refused one has one more attempt and
  the sink's error; both lose their lease. Every other row of the outbox is untouched.
\<close>

theorem RunOnce_accounts:
  assumes "d = NewDispatcher cfg" and "distinct (map e_ID (t_events s))" and "\<forall>k. \<not> db_fault s k"
  shows "\<exists>s'. RunOnce eda itsm d s =
      (Inr (length (filter (\<lambda>e. deliver eda itsm d (event_row e) = None) (cycle_batch d s)),
            length (filter (\<lambda>e. deliver eda itsm d (event_row e) \<noteq> None) (cycle_batch d s))), s') \<and>
    list_all2 (\<lambda>e e'. if e \<in> set (cycle_batch d s)
        then case deliver eda itsm d (event_row e) of
          None \<Rightarrow> \<exists>t. e' = e\<lparr>e_DeliveredAt := Some t, e_lease_owner := None, e_lease_expires_at := None\<rparr>
        | Some msg \<Rightarrow> e' = e\<lparr>e_Attempts := e_Attempts e + 1, e_LastError := Some msg,
                            e_lease_owner := None, e_lease_expires_at := None\<rparr>
        else e' = e) (t_events s) (t_events s')"
proof -
  obtain s' where run: "RunOnce eda itsm d s =
      (Inr (length (filter (\<lambda>e. deliver eda itsm d (event_row e) = None) (cycle_batch d s)),
            length (filter (\<lambda>e. deliver eda itsm d (event_row e) \<noteq> None) (cycle_batch d s))), s')"
    using RunOnce_result [OF assms] by blast
  show ?thesis
    by (rule exI, rule conjI, rule run, rule list_all2_mono [OF RunOnce_rows [OF assms(1,2) run]])
       (use assms(3) in \<open>auto simp: cycle_row_def outcome_def split: option.splits if_splits\<close>)
qed

theorem RunOnce_accounts_witness:
  "\<exists>s'. RunOnce (\<lambda>e. if e_ID e = 8 then Some ''status 500'' else None) (\<lambda>_. None) (NewDispatcher example_config)
      example_outbox = (Inr (1, 1), s')"
proof -
  let ?eda = "\<lambda>e. if e_ID e = 8 then Some ''status 500'' else None" and ?d = "NewDispatcher example_config"
  have "distinct (map e_ID (t_events example_outbox))" by code_simp
  moreover have "\<forall>k. \<not> db_fault example_outbox k" by (simp add: example_outbox_def empty_db_def)
  moreover have "length (filter (\<lambda>e. deliver ?eda (\<lambda>_. None) ?d (event_row e) = None) (cycle_batch ?d example_outbox)) = 1"
    "length (filter (\<lambda>e. deliver ?eda (\<lambda>_. None) ?d (event_row e) \<noteq> None) (cycle_batch ?d example_outbox)) = 1"
    by code_simp+
  ultimately show ?thesis using RunOnce_accounts [OF refl, where s = example_outbox and cfg = example_config
      and eda = ?eda and itsm = "\<lambda>_. None"]
    by auto
qed

section \<open>Retries end\<close>

definition events_wf :: "int \<Rightarrow> event list \<Rightarrow> bool" where
  "events_wf M rows \<longleftrightarrow> distinct (map e_ID rows) \<and> (\<forall>e\<in>set rows. 0 \<le> e_Attempts e \<and> e_Attempts e \<le> M)"

text \<open>What may become of an event: its content is fixed, and a delivered or exhausted one never changes.\<close>

definition evolves :: "int \<Rightarrow> event \<Rightarrow> event \<Rightarrow> bool" where
  "evolves M e e' \<longleftrightarrow> e_ID e' = e_ID e \<and> e_EventType e' = e_EventType e \<and> e_CertificateID e' = e_CertificateID e \<and>
     e_Payload e' = e_Payload e \<and> e_CreatedAt e' = e_CreatedAt e \<and>
     e_Attempts e \<le> e_Attempts e' \<and> e_Attempts e' \<le> M \<and>
     (e_DeliveredAt e \<noteq> None \<or> M \<le> e_Attempts e \<longrightarrow> e' = e)"

text \<open>The life of the outbox with one dispatcher: events are appended, cycles run.\<close>

inductive outbox_cycle :: "dispatcher_config \<Rightarrow> db \<Rightarrow> db \<Rightarrow> bool" for d where
  append: "appendEventStandalone ty c p s = (res, s') \<Longrightarrow> outbox_cycle d s s'"
| dispatch: "RunOnce eda itsm d s = (res, s') \<Longrightarrow> outbox_cycle d s s'"

lemma outbox_cycle_evolves:
  assumes "outbox_cycle d s s'" and "d = NewDispatcher cfg" and "events_wf (dc_MaxAttempts d) (t_events s)"
  shows "events_wf (dc_MaxAttempts d) (t_events s') \<and>
    (\<exists>es new. t_events s' = es @ new \<and> list_all2 (evolves (dc_MaxAttempts d)) (t_events s) es)"
  using assms
proof (cases rule: outbox_cycle.cases)
  case (append ty c p res)
  have r: "list_all2 (evolves (dc_MaxAttempts d)) (t_events s) (t_events s)"
    using assms(3) by (auto simp: events_wf_def evolves_def intro!: list.rel_refl_strong)
  have M: "0 < dc_MaxAttempts d" using assms(2) by simp
  consider "t_events s' = t_events s"
    | e where "t_events s' = t_events s @ [e]" "pk_free e_ID (e_ID e) (t_events s)" "e_Attempts e = 0"
    using append by (auto simp: appendEventStandalone_def appendEventTx_def db_call_def split: if_splits)
  then show ?thesis using assms(3) r M
    by cases (auto simp: events_wf_def pk_free_def)
next
  case (dispatch eda itsm res)
  have dist: "distinct (map e_ID (t_events s))" using assms(3) by (simp add: events_wf_def)
  have rows: "list_all2 (cycle_row (deliver eda itsm d) d s) (t_events s) (t_events s')"
    by (rule RunOnce_rows [OF assms(2) dist dispatch])
  have ev: "evolves (dc_MaxAttempts d) r r'"
    if r: "r \<in> set (t_events s)" and c: "cycle_row (deliver eda itsm d) d s r r'" for r r'
  proof (cases "r \<in> set (cycle_batch d s)")
    case False
    then show ?thesis using c r assms(3) by (auto simp: cycle_row_def evolves_def events_wf_def)
  next
    case True
    then have "claimable_event (dc_MaxAttempts d) (sql_now s) r" using cycle_batch_in by blast
    moreover have "evolves (dc_MaxAttempts d) r r'" if "event_row r' = event_row r" "claimable_event (dc_MaxAttempts d) (sql_now s) r"
      using that by (cases r; cases r') (auto simp: evolves_def event_row_def claimable_event_def)
    ultimately show ?thesis using c True
      by (auto simp: cycle_row_def outcome_def evolves_def claimable_event_def)
  qed
  have all: "list_all2 (evolves (dc_MaxAttempts d)) (t_events s) (t_events s')"
    using rows ev by (auto simp: list_all2_conv_all_nth)
  then have "map e_ID (t_events s') = map e_ID (t_events s)"
    by (auto simp: list_all2_conv_all_nth evolves_def intro!: nth_equalityI)
  moreover have "\<forall>e\<in>set (t_events s'). 0 \<le> e_Attempts e \<and> e_Attempts e \<le> dc_MaxAttempts d"
    using list_all2_back [OF all] assms(3) by (fastforce simp: evolves_def events_wf_def)
  ultimately show ?thesis using all dist by (auto simp: events_wf_def)
qed

lemma evolves_trans: "evolves M a b \<Longrightarrow> evolves M b c \<Longrightarrow> evolves M a c"
  by (auto simp: evolves_def)

lemma evolves_prefix_trans:
  assumes "list_all2 (evolves M) xs ys" and "ys @ new = rows" and "list_all2 (evolves M) rows zs"
  shows "\<exists>es new'. zs = es @ new' \<and> list_all2 (evolves M) xs es"
proof -
  obtain es new' where zs: "zs = es @ new'" and ys: "list_all2 (evolves M) ys es"
    using assms(2,3) by (auto simp: list_all2_append1)
  have "list_all2 (evolves M) xs es" by (rule list_all2_trans [OF evolves_trans assms(1) ys])
  then show ?thesis using zs by blast
qed



end
