(* ===== verification/Lifecycle_Jobs.thy ===== *)
theory Lifecycle_Jobs
  imports Outbox
begin

text \<open>
  Durable renewal and migration jobs: \<^verbatim>\<open>internal/store/lifecycle_jobs.go\<close>. A job row is
  created under an idempotency key that the database keeps unique, is leased to a worker while it is
  processed, and ends verified, failed or timed out. An empty Go string for a kind or a status, and
  an empty \<^verbatim>\<open>json.RawMessage\<close>, are \<open>None\<close> here; the check constraints of the table admit
  only the statuses and kinds of the datatypes.
\<close>

section \<open>Keys and badges\<close>

definition UserStatus :: "job_status \<Rightarrow> string" where
  "UserStatus st = (case st of LifecycleVerified \<Rightarrow> ''Verified'' | LifecycleTimedOut \<Rightarrow> ''Timed out''
     | LifecycleFailed \<Rightarrow> ''Failed'' | LifecycleVerifyFailed \<Rightarrow> ''Failed'' | _ \<Rightarrow> ''Pending'')"

definition RenewIdempotencyKey :: "(uuid \<Rightarrow> string) \<Rightarrow> uuid \<Rightarrow> string \<Rightarrow> string" where
  "RenewIdempotencyKey ustr certID fingerprint = ''renew:'' @ ustr certID @ '':'' @ fingerprint"

definition MigrateIdempotencyKey :: "(uuid \<Rightarrow> string) \<Rightarrow> uuid \<Rightarrow> string \<Rightarrow> string" where
  "MigrateIdempotencyKey ustr certID fingerprint = ''migrate:'' @ ustr certID @ '':'' @ fingerprint"

section \<open>Rows\<close>

text \<open>
  \<^verbatim>\<open>INSERT INTO lifecycle_jobs\<close> with the defaults of the columns it leaves out. A duplicate key is
  reported as the idempotency conflict, a missing predecessor certificate as a database error.
\<close>

definition new_job :: "job_kind \<Rightarrow> job_status \<Rightarrow> uuid option \<Rightarrow> string \<Rightarrow> json option \<Rightarrow> int option \<Rightarrow> bool \<Rightarrow> db \<Rightarrow> lifecycle_job" where
  "new_job kind st pred key expected aapJobID workflow s =
     \<lparr>j_ID = new_uuid s, j_Kind = kind, j_Status = st, j_PredecessorCertID = pred, j_SuccessorCertID = None,
      j_AAPJobID = aapJobID, j_AAPWorkflow = workflow, j_IdempotencyKey = key,
      j_Expected = (case expected of None \<Rightarrow> JObj [] | Some e \<Rightarrow> e), j_Observed = JObj [],
      j_FailureReason = None, j_LeaseOwner = None, j_LeaseExpiresAt = None, j_NextVerifyAt = None,
      j_TimeoutAt = sql_now s + 24 * hour, j_VerifyAttempt = 0, j_CreatedAt = sql_now s, j_UpdatedAt = sql_now s\<rparr>"

definition insert_job :: "lifecycle_job \<Rightarrow> lifecycle_job op" where
  "insert_job row s =
     (if \<exists>j\<in>set (t_jobs s). j_IdempotencyKey j = j_IdempotencyKey row \<or> j_ID j = j_ID row
      then (Inl ErrLifecycleIdempotencyConflict, s)
      else if \<not> fk_cert (j_PredecessorCertID row) s then (Inl ErrDB, s)
      else (Inr row, s\<lparr>db_seq := Suc (db_seq s), t_jobs := t_jobs s @ [row]\<rparr>))"

definition fk_job :: "uuid \<Rightarrow> db \<Rightarrow> bool" where
  "fk_job i s \<longleftrightarrow> (\<exists>j\<in>set (t_jobs s). j_ID j = i)"

definition insert_job_event :: "uuid \<Rightarrow> string \<Rightarrow> json \<Rightarrow> unit op" where
  "insert_job_event jobID eventType payload s =
     (if \<not> fk_job jobID s \<or> \<not> pk_free je_ID (new_uuid s) (t_job_events s) then (Inl ErrDB, s)
      else (Inr (), s\<lparr>db_seq := Suc (db_seq s), t_job_events := t_job_events s @
        [\<lparr>je_ID = new_uuid s, je_JobID = jobID, je_EventType = eventType, je_Payload = payload,
          je_CreatedAt = sql_now s\<rparr>]\<rparr>))"

definition insert_approval :: "uuid \<Rightarrow> string \<Rightarrow> string \<Rightarrow> unit op" where
  "insert_approval jobID actor decision s =
     (if \<not> fk_job jobID s then (Inl ErrDB, s)
      else (Inr (), s\<lparr>t_approvals := t_approvals s @
        [\<lparr>ap_JobID = jobID, ap_Actor = actor, ap_Decision = decision\<rparr>]\<rparr>))"

section \<open>Operations\<close>

record insert_params =
  ip_Kind :: "job_kind option"
  ip_Status :: "job_status option"
  ip_PredecessorCertID :: "uuid option"
  ip_IdempotencyKey :: string
  ip_Expected :: "json option"
  ip_AAPJobID :: "int option"
  ip_AAPWorkflow :: bool

definition InsertLifecycleJob :: "insert_params \<Rightarrow> lifecycle_job op" where
  "InsertLifecycleJob p = db_call (\<lambda>s. insert_job
     (new_job (case ip_Kind p of None \<Rightarrow> JobKindRenew | Some k \<Rightarrow> k)
        (case ip_Status p of None \<Rightarrow> LifecycleLaunching | Some st \<Rightarrow> st)
        (ip_PredecessorCertID p) (ip_IdempotencyKey p) (ip_Expected p) (ip_AAPJobID p) (ip_AAPWorkflow p) s) s)"

definition find_job :: "(lifecycle_job \<Rightarrow> bool) \<Rightarrow> lifecycle_job op" where
  "find_job p = db_call (\<lambda>s. case List.find p (t_jobs s) of
     None \<Rightarrow> (Inl ErrLifecycleJobNotFound, s) | Some j \<Rightarrow> (Inr j, s))"

definition GetLifecycleJobByIdempotency :: "string \<Rightarrow> lifecycle_job op" where
  "GetLifecycleJobByIdempotency key = find_job (\<lambda>j. j_IdempotencyKey j = key)"

definition GetLifecycleJob :: "uuid \<Rightarrow> lifecycle_job op" where
  "GetLifecycleJob i = find_job (\<lambda>j. j_ID j = i)"

definition ListLifecycleJobsByCert :: "uuid \<Rightarrow> int \<Rightarrow> lifecycle_job list op" where
  "ListLifecycleJobsByCert certID limit = db_call (\<lambda>s.
     let lim = (if limit \<le> 0 then 50 else limit); lim = (if lim > 200 then 200 else lim) in
     (Inr (pick (\<lambda>j. j_PredecessorCertID j = Some certID) (\<lambda>j. - j_CreatedAt j) (nat lim) (t_jobs s)), s))"

text \<open>\<^verbatim>\<open>UPDATE lifecycle_jobs ... WHERE id = $1\<close>, an error when no row is hit.\<close>

definition update_job :: "uuid \<Rightarrow> (time \<Rightarrow> lifecycle_job \<Rightarrow> lifecycle_job) \<Rightarrow> unit op" where
  "update_job i f = db_call (\<lambda>s.
     if hits (\<lambda>j. j_ID j = i) (t_jobs s) = 0 then (Inl ErrLifecycleJobNotFound, s)
     else (Inr (), s\<lparr>t_jobs := upd_where (\<lambda>j. j_ID j = i) (f (sql_now s)) (t_jobs s)\<rparr>))"

definition SetLifecycleAAPRef :: "uuid \<Rightarrow> int \<Rightarrow> bool \<Rightarrow> job_status \<Rightarrow> unit op" where
  "SetLifecycleAAPRef i aapJobID workflow st = update_job i (\<lambda>now j.
     j\<lparr>j_AAPJobID := Some aapJobID, j_AAPWorkflow := workflow, j_Status := st, j_UpdatedAt := now\<rparr>)"

record update_params =
  up_Status :: "job_status option"
  up_FailureReason :: "string option"
  up_Expected :: "json option"
  up_Observed :: "json option"
  up_SuccessorCertID :: "uuid option"
  up_ClearLease :: bool

text \<open>The successor column has a foreign key; the update fails when it names no certificate.\<close>

definition UpdateLifecycleStatus :: "uuid \<Rightarrow> update_params \<Rightarrow> unit op" where
  "UpdateLifecycleStatus i p = db_call (\<lambda>s.
     if hits (\<lambda>j. j_ID j = i) (t_jobs s) = 0 then (Inl ErrLifecycleJobNotFound, s)
     else if \<not> fk_cert (up_SuccessorCertID p) s then (Inl ErrDB, s)
     else (Inr (), s\<lparr>t_jobs := upd_where (\<lambda>j. j_ID j = i) (\<lambda>j.
       j\<lparr>j_Status := (case up_Status p of None \<Rightarrow> j_Status j | Some st \<Rightarrow> st),
         j_FailureReason := coalesce (up_FailureReason p) (j_FailureReason j),
         j_Expected := (case up_Expected p of None \<Rightarrow> j_Expected j | Some e \<Rightarrow> e),
         j_Observed := (case up_Observed p of None \<Rightarrow> j_Observed j | Some ob \<Rightarrow> ob),
         j_SuccessorCertID := coalesce (up_SuccessorCertID p) (j_SuccessorCertID j),
         j_LeaseOwner := (if up_ClearLease p then None else j_LeaseOwner j),
         j_LeaseExpiresAt := (if up_ClearLease p then None else j_LeaseExpiresAt j),
         j_UpdatedAt := sql_now s\<rparr>) (t_jobs s)\<rparr>))"

definition AppendRenewalOutboxEvent :: "string \<Rightarrow> uuid option \<Rightarrow> json option \<Rightarrow> unit op" where
  "AppendRenewalOutboxEvent eventType certID payload =
     appendEventStandalone eventType certID (case payload of None \<Rightarrow> JObj [] | Some p \<Rightarrow> p)"

definition AppendLifecycleJobEvent :: "uuid \<Rightarrow> string \<Rightarrow> json option \<Rightarrow> unit op" where
  "AppendLifecycleJobEvent jobID eventType payload =
     db_call (insert_job_event jobID eventType (case payload of None \<Rightarrow> JObj [] | Some p \<Rightarrow> p))"

definition InsertLifecycleApproval :: "uuid \<Rightarrow> string \<Rightarrow> string \<Rightarrow> unit op" where
  "InsertLifecycleApproval jobID actor decision = db_call (insert_approval jobID actor decision)"

subsection \<open>Claims\<close>

definition in_flight :: "job_status \<Rightarrow> bool" where
  "in_flight st \<longleftrightarrow> st \<in> {LifecycleLaunching, LifecycleAAPPending, LifecycleAAPRunning,
     LifecycleAAPSuccessful, LifecycleVerifying, LifecyclePendingVerify}"

definition job_free :: "time \<Rightarrow> lifecycle_job \<Rightarrow> bool" where
  "job_free now j \<longleftrightarrow> (case j_LeaseExpiresAt j of None \<Rightarrow> True | Some t \<Rightarrow> t < now)"

text \<open>
  The select and the update of a claim: \<open>due\<close> is the condition on the row besides its lease, \<open>key\<close>
  the order, \<open>upd\<close> the server's time for \<^verbatim>\<open>updated_at\<close>.
\<close>

definition claim_jobs :: "string \<Rightarrow> (uuid \<Rightarrow> bool) \<Rightarrow> (time \<Rightarrow> lifecycle_job \<Rightarrow> bool) \<Rightarrow> (lifecycle_job \<Rightarrow> time) \<Rightarrow> time \<Rightarrow>
    time \<Rightarrow> time \<Rightarrow> nat \<Rightarrow> lifecycle_job list \<Rightarrow> uuid list \<times> lifecycle_job list" where
  "claim_jobs owner locked due key upd now expires n rows =
     (let ids = map j_ID (pick (\<lambda>j. due now j \<and> job_free now j \<and> \<not> locked (j_ID j)) key n rows)
      in (ids, upd_where (\<lambda>j. j_ID j \<in> set ids)
            (\<lambda>j. j\<lparr>j_LeaseOwner := Some owner, j_LeaseExpiresAt := Some expires, j_UpdatedAt := upd\<rparr>) rows))"

definition ClaimLifecycleJobs :: "string \<Rightarrow> duration \<Rightarrow> int \<Rightarrow> lifecycle_job list op" where
  "ClaimLifecycleJobs owner leaseTTL limit s =
     (let ttl = (if leaseTTL \<le> 0 then 2 * minute else leaseTTL);
          lim = (if limit \<le> 0 then 10 else limit);
          expires = go_now s + ttl in
      bind_op (db_call (\<lambda>s. case claim_jobs owner (db_locked s (db_step s)) (\<lambda>_ j. in_flight (j_Status j))
                   j_CreatedAt (sql_now s) (sql_now s) expires (nat lim) (t_jobs s)
                 of (ids, rows) \<Rightarrow> (Inr ids, s\<lparr>t_jobs := rows\<rparr>)))
        (\<lambda>ids. get_all GetLifecycleJob ids) s)"

text \<open>Claims for verification compare leases with the instant \<open>now\<close> the worker passes.\<close>

definition verify_due :: "time \<Rightarrow> lifecycle_job \<Rightarrow> bool" where
  "verify_due now j \<longleftrightarrow> j_Status j = LifecyclePendingVerify \<and>
     (case j_NextVerifyAt j of None \<Rightarrow> False | Some t \<Rightarrow> t \<le> now) \<and> now < j_TimeoutAt j"

definition ClaimDueVerifyJobs :: "time \<Rightarrow> int \<Rightarrow> duration \<Rightarrow> lifecycle_job list op" where
  "ClaimDueVerifyJobs now limit leaseTTL s =
     (let ttl = (if leaseTTL \<le> 0 then 2 * minute else leaseTTL);
          lim = (if limit \<le> 0 then 10 else limit);
          now = (if now = zero_time then go_now s else now);
          expires = now + ttl in
      bind_op (db_call (\<lambda>s. case claim_jobs ''verify-worker'' (db_locked s (db_step s)) verify_due
                   (\<lambda>j. case j_NextVerifyAt j of None \<Rightarrow> 0 | Some t \<Rightarrow> t) (sql_now s) now expires (nat lim) (t_jobs s)
                 of (ids, rows) \<Rightarrow> (Inr ids, s\<lparr>t_jobs := rows\<rparr>)))
        (\<lambda>ids. get_all GetLifecycleJob ids) s)"

definition ScheduleNextVerify :: "uuid \<Rightarrow> int \<Rightarrow> time \<Rightarrow> unit op" where
  "ScheduleNextVerify i attempt nxt = update_job i (\<lambda>now j.
     j\<lparr>j_Status := LifecyclePendingVerify, j_VerifyAttempt := attempt, j_NextVerifyAt := Some nxt,
       j_LeaseOwner := None, j_LeaseExpiresAt := None, j_UpdatedAt := now\<rparr>)"

definition verify_overdue :: "time \<Rightarrow> lifecycle_job \<Rightarrow> bool" where
  "verify_overdue now j \<longleftrightarrow> j_Status j = LifecyclePendingVerify \<and> j_TimeoutAt j \<le> now"

definition expire_row :: "time \<Rightarrow> lifecycle_job \<Rightarrow> lifecycle_job" where
  "expire_row upd j = j\<lparr>j_Status := LifecycleTimedOut, j_LeaseOwner := None, j_LeaseExpiresAt := None,
     j_FailureReason := coalesce (j_FailureReason j) (Some ''verify timeout''), j_UpdatedAt := upd\<rparr>"

definition ExpireTimedOutVerifyJobs :: "time \<Rightarrow> lifecycle_job list op" where
  "ExpireTimedOutVerifyJobs now s =
     (let now = (if now = zero_time then go_now s else now) in
      db_call (\<lambda>s. (Inr (map (expire_row (sql_now s)) (filter (verify_overdue now) (t_jobs s))),
        s\<lparr>t_jobs := upd_where (verify_overdue now) (expire_row (sql_now s)) (t_jobs s)\<rparr>)) s)"

subsection \<open>Launches\<close>

text \<open>The first statement of a launch transaction; an unknown certificate aborts it.\<close>

definition set_renewal_config_tx :: "uuid \<Rightarrow> renewal_config \<Rightarrow> unit op" where
  "set_renewal_config_tx certID cfg s =
     (if hits (\<lambda>c. c_ID c = certID) (t_certificates s) = 0 then (Inl ErrCertificateNotFound, s)
      else (Inr (), s\<lparr>t_certificates := upd_where (\<lambda>c. c_ID c = certID)
        (\<lambda>c. c\<lparr>c_RenewalConfig := Some cfg, c_UpdatedAt := sql_now s\<rparr>) (t_certificates s)\<rparr>))"

definition launch_payload :: "int \<Rightarrow> bool \<Rightarrow> uuid \<Rightarrow> json" where
  "launch_payload aapJobID workflow certID = JObj [(''aap_job_id'', JNum aapJobID),
     (''certificate_id'', JId certID), (''workflow'', JBool workflow)]"

definition PersistRenewLaunch :: "uuid \<Rightarrow> renewal_config \<Rightarrow> string \<Rightarrow> int \<Rightarrow> bool \<Rightarrow> json option \<Rightarrow> lifecycle_job op" where
  "PersistRenewLaunch certID cfg fingerprint aapJobID workflow expected = db_call (
     bind_op (set_renewal_config_tx certID cfg) (\<lambda>_.
     bind_op (\<lambda>s. insert_job (new_job JobKindRenew LifecycleAAPPending (Some certID)
        (RenewIdempotencyKey (db_ustr s) certID fingerprint) expected (Some aapJobID) workflow s) s) (\<lambda>job.
     bind_op (insert_job_event (j_ID job) ''job.launched'' (launch_payload aapJobID workflow certID)) (\<lambda>_.
     bind_op (appendEventTx ''renewal.launched'' (Some certID) (launch_payload aapJobID workflow certID)) (\<lambda>_.
     bind_op (insert_approval (j_ID job) ''consent'' ''auto_approved'') (\<lambda>_ s.
       (Inr job, s)))))))"

definition InsertLifecycleJobPending :: "uuid \<Rightarrow> string \<Rightarrow> json option \<Rightarrow> lifecycle_job op" where
  "InsertLifecycleJobPending certID fingerprint expected s =
     bind_op (InsertLifecycleJob \<lparr>ip_Kind = Some JobKindRenew, ip_Status = Some LifecycleLaunching,
         ip_PredecessorCertID = Some certID, ip_IdempotencyKey = RenewIdempotencyKey (db_ustr s) certID fingerprint,
         ip_Expected = expected, ip_AAPJobID = None, ip_AAPWorkflow = False\<rparr>)
       (\<lambda>job s. let payload = JObj [(''certificate_id'', JId certID)];
                    s = ignore (InsertLifecycleApproval (j_ID job) ''consent'' ''auto_approved'') s;
                    s = ignore (AppendLifecycleJobEvent (j_ID job) ''job.enqueued'' (Some payload)) s;
                    s = ignore (appendEventStandalone ''renewal.requested'' (Some certID) payload) s
                in (Inr job, s)) s"

text \<open>The row of a migration: \<^verbatim>\<open>pending_verify\<close>, with its first probe and its deadline.\<close>

definition new_migrate_job :: "uuid \<Rightarrow> string \<Rightarrow> json option \<Rightarrow> int option \<Rightarrow> bool \<Rightarrow> duration \<Rightarrow> time \<Rightarrow> db \<Rightarrow> lifecycle_job" where
  "new_migrate_job certID fingerprint expected aapJobID workflow timeout nextVerifyAt s =
     (new_job JobKindMigrate LifecyclePendingVerify (Some certID)
        (MigrateIdempotencyKey (db_ustr s) certID fingerprint) expected aapJobID workflow s)
     \<lparr>j_NextVerifyAt := Some (if nextVerifyAt = zero_time then go_now s + 10 * second else nextVerifyAt),
      j_TimeoutAt := go_now s + (if timeout \<le> 0 then 24 * hour else timeout)\<rparr>"

definition migrate_payload :: "uuid \<Rightarrow> json" where
  "migrate_payload certID = JObj [(''certificate_id'', JId certID), (''kind'', JStr ''migrate'')]"

definition PersistMigrateLaunch :: "uuid \<Rightarrow> renewal_config \<Rightarrow> string \<Rightarrow> int \<Rightarrow> bool \<Rightarrow> json option \<Rightarrow> duration \<Rightarrow> time \<Rightarrow> lifecycle_job op" where
  "PersistMigrateLaunch certID cfg fingerprint aapJobID workflow expected timeout nextVerifyAt = db_call (
     bind_op (set_renewal_config_tx certID cfg) (\<lambda>_.
     bind_op (\<lambda>s. insert_job (new_migrate_job certID fingerprint expected (Some aapJobID) workflow timeout nextVerifyAt s) s) (\<lambda>job.
     bind_op (appendEventTx ''renewal.requested'' (Some certID) (migrate_payload certID)) (\<lambda>_.
     bind_op (insert_job_event (j_ID job) ''job.launched'' (launch_payload aapJobID workflow certID)) (\<lambda>_.
     bind_op (appendEventTx ''renewal.launched'' (Some certID) (launch_payload aapJobID workflow certID)) (\<lambda>_.
     bind_op (insert_approval (j_ID job) ''consent'' ''auto_approved'') (\<lambda>_ s.
       (Inr job, s))))))))"

definition InsertMigrateJobPending :: "uuid \<Rightarrow> string \<Rightarrow> json option \<Rightarrow> duration \<Rightarrow> time \<Rightarrow> lifecycle_job op" where
  "InsertMigrateJobPending certID fingerprint expected timeout nextVerifyAt = db_call (
     bind_op (\<lambda>s. insert_job (new_migrate_job certID fingerprint expected None False timeout nextVerifyAt s) s) (\<lambda>job.
     bind_op (insert_approval (j_ID job) ''consent'' ''auto_approved'') (\<lambda>_.
     bind_op (insert_job_event (j_ID job) ''job.enqueued'' (migrate_payload certID)) (\<lambda>_.
     bind_op (appendEventTx ''renewal.requested'' (Some certID) (migrate_payload certID)) (\<lambda>_ s.
       (Inr job, s))))))"

definition ClaimByIdempotency :: "string \<Rightarrow> int \<Rightarrow> lifecycle_job op" where
  "ClaimByIdempotency key aapJobID = bind_op (GetLifecycleJobByIdempotency key) (\<lambda>job s.
     case j_AAPJobID job of
       Some i \<Rightarrow> if i = aapJobID then (Inr job, s) else (Inl ErrLifecycleAAPRefConflict, s)
     | None \<Rightarrow> bind_op (SetLifecycleAAPRef (j_ID job) aapJobID (j_AAPWorkflow job) LifecycleAAPPending)
                 (\<lambda>_. GetLifecycleJob (j_ID job)) s)"

text \<open>A store with one certificate and one renewal job for it, not yet launched.\<close>

definition example_renewal :: renewal_config where
  "example_renewal = \<lparr>rc_Role = ''web'', rc_Mount = ''pki'', rc_Service = ''nginx'', rc_TargetHosts = ''h'', rc_TTL = ''72h'', rc_AltNames = []\<rparr>"

definition example_store :: db where
  "example_store = empty_db\<lparr>t_certificates := [blank_cert 5 ''fp'']\<rparr>"

definition example_job :: lifecycle_job where
  "example_job = (new_job JobKindRenew LifecycleLaunching (Some 5) (RenewIdempotencyKey nat_str 5 ''fp'') None None False
     empty_db)\<lparr>j_ID := 9\<rparr>"

definition example_jobs :: db where
  "example_jobs = example_store\<lparr>t_jobs := [example_job]\<rparr>"

section \<open>Jobs and their keys\<close>

text \<open>What never changes of a job, and the invariant of the three job tables.\<close>

definition job_ident :: "lifecycle_job \<Rightarrow> uuid \<times> string \<times> job_kind \<times> time" where
  "job_ident j = (j_ID j, j_IdempotencyKey j, j_Kind j, j_CreatedAt j)"

definition job_inv :: "db \<Rightarrow> bool" where
  "job_inv s \<longleftrightarrow> distinct (map j_ID (t_jobs s)) \<and> distinct (map j_IdempotencyKey (t_jobs s)) \<and>
     (\<forall>e\<in>set (t_job_events s). fk_job (je_JobID e) s) \<and> (\<forall>a\<in>set (t_approvals s). fk_job (ap_JobID a) s)"

definition jobs_kept :: "db \<Rightarrow> db \<Rightarrow> bool" where
  "jobs_kept s s' \<longleftrightarrow> (job_inv s \<longrightarrow> job_inv s') \<and>
     (\<exists>new. map job_ident (t_jobs s') = map job_ident (t_jobs s) @ new)"

lemma jobs_kept_idents:
  assumes idents: "map job_ident (t_jobs s') = map job_ident (t_jobs s)"
    and "t_job_events s' = t_job_events s" and "t_approvals s' = t_approvals s"
  shows "jobs_kept s s'"
proof -
  have "map j_ID (t_jobs s') = map j_ID (t_jobs s)" "map j_IdempotencyKey (t_jobs s') = map j_IdempotencyKey (t_jobs s)"
    using arg_cong [OF idents, of "map fst"] arg_cong [OF idents, of "map (fst \<circ> snd)"]
    by (simp_all add: job_ident_def comp_def)
  moreover from this(1) have "fk_job i s' = fk_job i s" for i
    unfolding fk_job_def by (metis (mono_tags, lifting) image_iff list.set_map)
  ultimately show ?thesis using assms by (simp add: jobs_kept_def job_inv_def)
qed

interpretation jk: op_relation jobs_kept
proof
  show "jobs_kept s s" for s by (simp add: jobs_kept_def)
  show "jobs_kept s t \<Longrightarrow> jobs_kept t u \<Longrightarrow> jobs_kept s u" for s t u by (auto simp: jobs_kept_def)
  show "jobs_kept s (next_step s)" for s by (rule jobs_kept_idents) simp_all
qed

lemma insert_job_kept: "jk.tx_ok (\<lambda>s. insert_job (row s) s)"
  by (rule jk.tx_okI)
     (auto simp: insert_job_def jobs_kept_def job_inv_def fk_job_def split: if_splits)

lemma insert_job_event_kept: "jk.tx_ok (insert_job_event i ty p)"
  by (rule jk.tx_okI, auto simp: insert_job_event_def jobs_kept_def job_inv_def fk_job_def split: if_splits) blast

lemma insert_approval_kept: "jk.tx_ok (insert_approval i a d)"
  by (rule jk.tx_okI, auto simp: insert_approval_def jobs_kept_def job_inv_def fk_job_def split: if_splits) blast

lemma appendEventTx_kept: "jk.tx_ok (appendEventTx ty c p)"
  by (rule jk.tx_okI) (auto simp: appendEventTx_def split: if_splits intro!: jobs_kept_idents)

lemma set_renewal_config_kept: "jk.tx_ok (set_renewal_config_tx c cfg)"
  by (rule jk.tx_okI) (auto simp: set_renewal_config_tx_def split: if_splits intro!: jobs_kept_idents)

lemmas job_tx_kept = insert_job_kept insert_job_event_kept insert_approval_kept appendEventTx_kept
  set_renewal_config_kept jk.tx_ok_ret

lemma upd_job_kept:
  "(\<And>j. job_ident (f j) = job_ident j) \<Longrightarrow> jobs_kept s (s\<lparr>t_jobs := upd_where p f (t_jobs s)\<rparr>)"
  by (rule jobs_kept_idents) (simp_all add: map_upd_where)

lemma update_job_kept:
  assumes "\<And>now j. job_ident (f now j) = job_ident j"
  shows "jk.op_ok (update_job i f)"
  unfolding update_job_def
  by (rule jk.op_ok_call, rule jk.tx_okI) (auto split: if_splits intro!: upd_job_kept assms)

lemma GetLifecycleJob_kept: "jk.op_ok (GetLifecycleJob i)"
  unfolding GetLifecycleJob_def find_job_def
  by (rule jk.op_ok_call, rule jk.tx_ok_read) (auto split: option.splits)

lemma claim_jobs_ident:
  "claim_jobs owner locked due key upd now x n rows = (ids, rows') \<Longrightarrow> map job_ident rows' = map job_ident rows"
  by (auto simp: claim_jobs_def Let_def job_ident_def intro!: map_upd_where)

lemma claim_kept:
  "jk.op_ok (bind_op (db_call (\<lambda>s. case claim_jobs owner (lck s) due key (upd s) (now s) x n (t_jobs s)
     of (ids, rows) \<Rightarrow> (Inr ids, s\<lparr>t_jobs := rows\<rparr>))) (\<lambda>ids. get_all GetLifecycleJob ids))"
  by (rule jk.op_ok_bind, rule jk.op_ok_call, rule jk.tx_okI)
     (auto split: prod.splits intro!: jobs_kept_idents jk.op_ok_get_all GetLifecycleJob_kept dest: claim_jobs_ident)

lemma InsertLifecycleJob_kept: "jk.op_ok (InsertLifecycleJob p)"
  unfolding InsertLifecycleJob_def by (intro jk.op_ok_call job_tx_kept)

lemma appendEventStandalone_kept: "jk.op_ok (appendEventStandalone ty c p)"
  unfolding appendEventStandalone_def by (intro jk.op_ok_call job_tx_kept)

lemma AppendLifecycleJobEvent_kept: "jk.op_ok (AppendLifecycleJobEvent i ty p)"
  unfolding AppendLifecycleJobEvent_def by (intro jk.op_ok_call job_tx_kept)

lemma InsertLifecycleApproval_kept: "jk.op_ok (InsertLifecycleApproval i a d)"
  unfolding InsertLifecycleApproval_def by (intro jk.op_ok_call job_tx_kept)

lemma AppendRenewalOutboxEvent_kept: "jk.op_ok (AppendRenewalOutboxEvent ty c p)"
  unfolding AppendRenewalOutboxEvent_def by (rule appendEventStandalone_kept)

lemma SetLifecycleAAPRef_kept: "jk.op_ok (SetLifecycleAAPRef i a w st)"
  unfolding SetLifecycleAAPRef_def by (rule update_job_kept) (simp add: job_ident_def)

lemma ScheduleNextVerify_kept: "jk.op_ok (ScheduleNextVerify i a t)"
  unfolding ScheduleNextVerify_def by (rule update_job_kept) (simp add: job_ident_def)

lemma UpdateLifecycleStatus_kept: "jk.op_ok (UpdateLifecycleStatus i p)"
  unfolding UpdateLifecycleStatus_def
  by (rule jk.op_ok_call, rule jk.tx_okI) (auto split: if_splits intro!: upd_job_kept simp: job_ident_def)

lemma ExpireTimedOutVerifyJobs_kept: "jk.op_ok (ExpireTimedOutVerifyJobs t)"
proof -
  have "jk.op_ok (db_call (\<lambda>s. (Inr (map (expire_row (sql_now s)) (filter (verify_overdue now) (t_jobs s))),
        s\<lparr>t_jobs := upd_where (verify_overdue now) (expire_row (sql_now s)) (t_jobs s)\<rparr>)))" for now
    by (rule jk.op_ok_call, rule jk.tx_okI) (auto intro!: upd_job_kept simp: job_ident_def expire_row_def)
  then show ?thesis by (simp add: jk.op_ok_def ExpireTimedOutVerifyJobs_def Let_def)
qed

lemma ClaimLifecycleJobs_kept: "jk.op_ok (ClaimLifecycleJobs owner ttl limit)"
  using claim_kept by (simp add: jk.op_ok_def ClaimLifecycleJobs_def Let_def)

lemma ClaimDueVerifyJobs_kept: "jk.op_ok (ClaimDueVerifyJobs t limit ttl)"
  using claim_kept by (simp add: jk.op_ok_def ClaimDueVerifyJobs_def Let_def)

lemma PersistRenewLaunch_kept: "jk.op_ok (PersistRenewLaunch c cfg fp a w e)"
  unfolding PersistRenewLaunch_def by (intro jk.op_ok_call jk.tx_ok_bind job_tx_kept)

lemma PersistMigrateLaunch_kept: "jk.op_ok (PersistMigrateLaunch c cfg fp a w e tm nv)"
  unfolding PersistMigrateLaunch_def by (intro jk.op_ok_call jk.tx_ok_bind job_tx_kept)

lemma InsertMigrateJobPending_kept: "jk.op_ok (InsertMigrateJobPending c fp e tm nv)"
  unfolding InsertMigrateJobPending_def by (intro jk.op_ok_call jk.tx_ok_bind job_tx_kept)

lemma InsertLifecycleJobPending_kept: "jk.op_ok (InsertLifecycleJobPending c fp e)"
proof -
  have "jk.op_ok (bind_op (InsertLifecycleJob p) (\<lambda>job s.
      (Inr job, ignore (appendEventStandalone ty c' pl) (ignore (AppendLifecycleJobEvent (j_ID job) ty' pl')
        (ignore (InsertLifecycleApproval (j_ID job) a d) s)))))" for p ty c' pl ty' pl' a d
    by (rule jk.op_ok_bind [OF InsertLifecycleJob_kept], unfold jk.op_ok_def snd_conv)
       (intro allI jk.op_ok_ignore jk.R_refl InsertLifecycleApproval_kept
         AppendLifecycleJobEvent_kept appendEventStandalone_kept)
  then show ?thesis by (simp add: jk.op_ok_def InsertLifecycleJobPending_def Let_def)
qed

lemma ClaimByIdempotency_kept: "jk.op_ok (ClaimByIdempotency key a)"
proof -
  have "jk.op_ok (GetLifecycleJobByIdempotency key)"
    unfolding GetLifecycleJobByIdempotency_def find_job_def
    by (rule jk.op_ok_call, rule jk.tx_ok_read) (auto split: option.splits)
  moreover have "jk.op_ok (bind_op (SetLifecycleAAPRef i a w st) (\<lambda>_. GetLifecycleJob i))" for i w st
    by (intro jk.op_ok_bind SetLifecycleAAPRef_kept GetLifecycleJob_kept)
  ultimately show ?thesis unfolding ClaimByIdempotency_def
    by (intro jk.op_ok_bind) (auto simp: jk.op_ok_def jk.R_refl split: option.splits)
qed

lemmas job_ops_kept = InsertLifecycleJob_kept InsertLifecycleJobPending_kept PersistRenewLaunch_kept
  PersistMigrateLaunch_kept InsertMigrateJobPending_kept ClaimByIdempotency_kept ClaimLifecycleJobs_kept
  ClaimDueVerifyJobs_kept ExpireTimedOutVerifyJobs_kept ScheduleNextVerify_kept SetLifecycleAAPRef_kept
  UpdateLifecycleStatus_kept AppendLifecycleJobEvent_kept InsertLifecycleApproval_kept AppendRenewalOutboxEvent_kept

text \<open>Every operation that writes the job tables, in any order, by any replica.\<close>

inductive job_step :: "db \<Rightarrow> db \<Rightarrow> bool" where
  "InsertLifecycleJob p s = (r, s') \<Longrightarrow> job_step s s'"
| "InsertLifecycleJobPending c fp ex s = (r, s') \<Longrightarrow> job_step s s'"
| "PersistRenewLaunch c cfg fp a w ex s = (r, s') \<Longrightarrow> job_step s s'"
| "PersistMigrateLaunch c cfg fp a w ex tm nv s = (r, s') \<Longrightarrow> job_step s s'"
| "InsertMigrateJobPending c fp ex tm nv s = (r, s') \<Longrightarrow> job_step s s'"
| "ClaimByIdempotency key a s = (r, s') \<Longrightarrow> job_step s s'"
| "ClaimLifecycleJobs owner ttl limit s = (rs, s') \<Longrightarrow> job_step s s'"
| "ClaimDueVerifyJobs t limit ttl s = (rs, s') \<Longrightarrow> job_step s s'"
| "ExpireTimedOutVerifyJobs t s = (rs, s') \<Longrightarrow> job_step s s'"
| "ScheduleNextVerify i n t s = (u, s') \<Longrightarrow> job_step s s'"
| "SetLifecycleAAPRef i a w st s = (u, s') \<Longrightarrow> job_step s s'"
| "UpdateLifecycleStatus i q s = (u, s') \<Longrightarrow> job_step s s'"
| "AppendLifecycleJobEvent i ty pl s = (u, s') \<Longrightarrow> job_step s s'"
| "InsertLifecycleApproval i ac d s = (u, s') \<Longrightarrow> job_step s s'"
| "AppendRenewalOutboxEvent ty co pl s = (u, s') \<Longrightarrow> job_step s s'"

lemma job_step_kept: "job_step s s' \<Longrightarrow> jobs_kept s s'"
  by (cases rule: job_step.cases) (assumption, (rule jk.op_ok_run [rotated], assumption, rule job_ops_kept)+)

text \<open>
  C3. One job per key, for good. Whatever operations the API, the outbox clients and the workers run
  against the job tables, and whichever calls fail, ids and idempotency keys stay distinct, every
  timeline entry and approval belongs to a job, and the jobs already there stay: none is deleted, and
  none changes its id, key, kind or creation time.
\<close>

theorem jobs_keep_their_keys:
  assumes "job_step\<^sup>*\<^sup>* s s'" and "job_inv s"
  shows "job_inv s' \<and> (\<exists>new. map job_ident (t_jobs s') = map job_ident (t_jobs s) @ new)"
proof -
  have "jobs_kept s s'" using assms(1)
    by (induction rule: rtranclp_induct) (auto intro: jk.R_refl jk.R_trans job_step_kept)
  then show ?thesis using assms(2) by (auto simp: jobs_kept_def)
qed

theorem jobs_keep_their_keys_witness:
  "\<exists>s'. job_step example_jobs s' \<and> job_inv s' \<and> (\<exists>new. map job_ident (t_jobs s') = job_ident example_job # new)"
proof -
  obtain r s' where "InsertMigrateJobPending 5 ''fp'' None 0 0 example_jobs = (r, s')" by force
  then have step: "job_step example_jobs s'" by (rule job_step.intros(5))
  have "job_inv example_jobs" by code_simp
  with jobs_keep_their_keys [OF r_into_rtranclp [of job_step, OF step]] step show ?thesis
    by (auto simp: example_jobs_def)
qed

section \<open>Launches are atomic\<close>

lemma bind_op_Inr:
  "bind_op m f s = (Inr v, s') \<longleftrightarrow> (\<exists>x t. m s = (Inr x, t) \<and> f x t = (Inr v, s'))"
  by (auto simp: bind_op_def split: prod.splits sum.splits)

lemma bind_op_err: "m s = (Inl e, t) \<Longrightarrow> bind_op m f s = (Inl e, t)"
  by (simp add: bind_op_def)

lemma bind_op_ok: "m s = (Inr x, t) \<Longrightarrow> bind_op m f s = f x t"
  by (simp add: bind_op_def)

text \<open>The timeline entry and the outbox event a launch leaves.\<close>

definition timeline_entry :: "lifecycle_job \<Rightarrow> string \<Rightarrow> job_event \<Rightarrow> bool" where
  "timeline_entry job ty je \<longleftrightarrow> je_JobID je = j_ID job \<and> je_EventType je = ty"

definition pending_event :: "uuid \<Rightarrow> string \<Rightarrow> event \<Rightarrow> bool" where
  "pending_event certID ty e \<longleftrightarrow> e_CertificateID e = Some certID \<and> e_EventType e = ty \<and>
     e_DeliveredAt e = None \<and> e_Attempts e = 0 \<and> e_lease_expires_at e = None"

text \<open>What each statement of a launch has done once it has succeeded.\<close>

lemma set_renewal_config_done:
  "set_renewal_config_tx certID cfg s = (Inr u, s') \<Longrightarrow>
     s' = s\<lparr>t_certificates := upd_where (\<lambda>c. c_ID c = certID)
       (\<lambda>c. c\<lparr>c_RenewalConfig := Some cfg, c_UpdatedAt := sql_now s\<rparr>) (t_certificates s)\<rparr>"
  by (simp add: set_renewal_config_tx_def split: if_splits)

lemma insert_job_done:
  "insert_job row s = (Inr job, s') \<Longrightarrow>
     job = row \<and> j_IdempotencyKey row \<notin> j_IdempotencyKey ` set (t_jobs s) \<and>
     s' = s\<lparr>db_seq := Suc (db_seq s), t_jobs := t_jobs s @ [row]\<rparr>"
  by (auto simp: insert_job_def split: if_splits)

lemma insert_job_event_done:
  "insert_job_event (j_ID job) ty p s = (Inr u, s') \<Longrightarrow>
     \<exists>je. timeline_entry job ty je \<and> s' = s\<lparr>db_seq := Suc (db_seq s), t_job_events := t_job_events s @ [je]\<rparr>"
  by (intro exI [of _ "\<lparr>je_ID = new_uuid s, je_JobID = j_ID job, je_EventType = ty, je_Payload = p,
       je_CreatedAt = sql_now s\<rparr>"]) (simp add: insert_job_event_def timeline_entry_def split: if_splits)

lemma appendEventTx_done:
  "appendEventTx ty (Some certID) p s = (Inr u, s') \<Longrightarrow>
     \<exists>e. pending_event certID ty e \<and> s' = s\<lparr>db_seq := Suc (db_seq s), t_events := t_events s @ [e]\<rparr>"
  by (intro exI [of _ "\<lparr>e_ID = new_uuid s, e_EventType = ty, e_CertificateID = Some certID, e_Payload = p,
       e_CreatedAt = sql_now s, e_DeliveredAt = None, e_Attempts = 0, e_LastError = None,
       e_lease_owner = None, e_lease_expires_at = None\<rparr>"]) (simp add: appendEventTx_def pending_event_def split: if_splits)

lemma insert_approval_done:
  "insert_approval i actor d s = (Inr u, s') \<Longrightarrow>
     s' = s\<lparr>t_approvals := t_approvals s @ [\<lparr>ap_JobID = i, ap_Actor = actor, ap_Decision = d\<rparr>]\<rparr>"
  by (auto simp: insert_approval_def split: if_splits)

lemmas launch_done = set_renewal_config_done insert_job_done insert_job_event_done appendEventTx_done
  insert_approval_done

text \<open>
  Recording a launched renewal is all or nothing. Either the call returns an error and every table
  is as before, or the certificate has its renewal configuration, one job was added (kind renew, status
  aap_pending, the Controller's job id, under a key no job had), and with it one timeline entry, one
  undelivered outbox event and one approval.
\<close>

theorem PersistRenewLaunch_atomic:
  "case PersistRenewLaunch certID cfg fp aap wfl ex s of
     (Inl e, s') \<Rightarrow> s' = next_step s
   | (Inr job, s') \<Rightarrow>
       j_Kind job = JobKindRenew \<and> j_Status job = LifecycleAAPPending \<and> j_AAPJobID job = Some aap \<and>
       j_PredecessorCertID job = Some certID \<and> j_IdempotencyKey job = RenewIdempotencyKey (db_ustr s) certID fp \<and>
       j_IdempotencyKey job \<notin> j_IdempotencyKey ` set (t_jobs s) \<and> t_jobs s' = t_jobs s @ [job] \<and>
       (\<exists>je. timeline_entry job ''job.launched'' je \<and> t_job_events s' = t_job_events s @ [je]) \<and>
       (\<exists>e. pending_event certID ''renewal.launched'' e \<and> t_events s' = t_events s @ [e]) \<and>
       t_approvals s' = t_approvals s @ [\<lparr>ap_JobID = j_ID job, ap_Actor = ''consent'', ap_Decision = ''auto_approved''\<rparr>] \<and>
       t_certificates s' = upd_where (\<lambda>c. c_ID c = certID)
         (\<lambda>c. c\<lparr>c_RenewalConfig := Some cfg, c_UpdatedAt := sql_now s\<rparr>) (t_certificates s)"
proof (cases "PersistRenewLaunch certID cfg fp aap wfl ex s")
  case (Pair r s')
  show ?thesis
  proof (cases r)
    case (Inl e)
    then show ?thesis using Pair db_call_Inl by (auto simp: PersistRenewLaunch_def)
  next
    case (Inr job)
    then show ?thesis using Pair unfolding PersistRenewLaunch_def
      by (auto dest!: db_call_Inr launch_done simp: bind_op_Inr new_job_def sql_now_def)
  qed
qed

text \<open>
  Recording a launched migration is all or nothing, and its events are in order: on success the
  new job waits for verification with its first probe and its deadline set from the process clock, and
  the outbox has gained \<^verbatim>\<open>renewal.requested\<close> and then \<^verbatim>\<open>renewal.launched\<close>.
\<close>

theorem PersistMigrateLaunch_atomic:
  "case PersistMigrateLaunch certID cfg fp aap wfl ex timeout nextAt s of
     (Inl e, s') \<Rightarrow> s' = next_step s
   | (Inr job, s') \<Rightarrow>
       j_Kind job = JobKindMigrate \<and> j_Status job = LifecyclePendingVerify \<and> j_AAPJobID job = Some aap \<and>
       j_IdempotencyKey job = MigrateIdempotencyKey (db_ustr s) certID fp \<and>
       j_IdempotencyKey job \<notin> j_IdempotencyKey ` set (t_jobs s) \<and> t_jobs s' = t_jobs s @ [job] \<and>
       j_NextVerifyAt job = Some (if nextAt = zero_time then go_now s + 10 * second else nextAt) \<and>
       j_TimeoutAt job = go_now s + (if timeout \<le> 0 then 24 * hour else timeout) \<and>
       (\<exists>je. timeline_entry job ''job.launched'' je \<and> t_job_events s' = t_job_events s @ [je]) \<and>
       (\<exists>e1 e2. pending_event certID ''renewal.requested'' e1 \<and> pending_event certID ''renewal.launched'' e2 \<and>
          t_events s' = t_events s @ [e1, e2]) \<and>
       length (t_approvals s') = Suc (length (t_approvals s))"
proof (cases "PersistMigrateLaunch certID cfg fp aap wfl ex timeout nextAt s")
  case (Pair r s')
  show ?thesis
  proof (cases r)
    case (Inl e)
    then show ?thesis using Pair db_call_Inl by (auto simp: PersistMigrateLaunch_def)
  next
    case (Inr job)
    from Pair [unfolded Inr PersistMigrateLaunch_def, THEN db_call_Inr] obtain t where s': "s' = next_step t" and
      "bind_op (set_renewal_config_tx certID cfg) (\<lambda>_.
       bind_op (\<lambda>s. insert_job (new_migrate_job certID fp ex (Some aap) wfl timeout nextAt s) s) (\<lambda>job.
       bind_op (appendEventTx ''renewal.requested'' (Some certID) (migrate_payload certID)) (\<lambda>_.
       bind_op (insert_job_event (j_ID job) ''job.launched'' (launch_payload aap wfl certID)) (\<lambda>_.
       bind_op (appendEventTx ''renewal.launched'' (Some certID) (launch_payload aap wfl certID)) (\<lambda>_.
       bind_op (insert_approval (j_ID job) ''consent'' ''auto_approved'') (\<lambda>_ s. (Inr job, s))))))) s = (Inr job, t)"
      by blast
    then obtain s1 s2 s3 s4 s5 where
      s1: "s1 = s\<lparr>t_certificates := upd_where (\<lambda>c. c_ID c = certID)
            (\<lambda>c. c\<lparr>c_RenewalConfig := Some cfg, c_UpdatedAt := sql_now s\<rparr>) (t_certificates s)\<rparr>"
      and ins: "insert_job (new_migrate_job certID fp ex (Some aap) wfl timeout nextAt s1) s1 = (Inr job, s2)"
      and ev1: "appendEventTx ''renewal.requested'' (Some certID) (migrate_payload certID) s2 = (Inr (), s3)"
      and tl: "insert_job_event (j_ID job) ''job.launched'' (launch_payload aap wfl certID) s3 = (Inr (), s4)"
      and ev2: "appendEventTx ''renewal.launched'' (Some certID) (launch_payload aap wfl certID) s4 = (Inr (), s5)"
      and ap: "insert_approval (j_ID job) ''consent'' ''auto_approved'' s5 = (Inr (), t)"
      by (auto simp: bind_op_Inr dest!: set_renewal_config_done)
    have "job = new_migrate_job certID fp ex (Some aap) wfl timeout nextAt s1"
      using insert_job_done [OF ins] by blast
    with insert_job_done [OF ins] insert_job_event_done [OF tl] appendEventTx_done [OF ev1]
      appendEventTx_done [OF ev2] insert_approval_done [OF ap] Pair Inr show ?thesis
      by (elim exE conjE) (simp add: s' s1 new_migrate_job_def new_job_def go_now_def)
  qed
qed

text \<open>A taken key.\<close>

lemma insert_job_conflict:
  "j \<in> set (t_jobs s) \<Longrightarrow> j_IdempotencyKey j = j_IdempotencyKey row \<Longrightarrow>
     insert_job row s = (Inl ErrLifecycleIdempotencyConflict, s)"
  by (auto simp: insert_job_def)

lemma db_call_err: "\<not> db_fault s (db_step s) \<Longrightarrow> body s = (Inl e, t) \<Longrightarrow> db_call body s = (Inl e, next_step s)"
  by (simp add: db_call_def)

text \<open>
  C9. A certificate and fingerprint that already have a renewal job get no second one: recording a
  launch and enqueueing both report the idempotency conflict, and no table changes.
\<close>

theorem duplicate_renew_rejected:
  assumes "\<not> db_fault s (db_step s)" and "\<exists>c\<in>set (t_certificates s). c_ID c = certID"
    and "\<exists>j\<in>set (t_jobs s). j_IdempotencyKey j = RenewIdempotencyKey (db_ustr s) certID fp"
  shows "PersistRenewLaunch certID cfg fp aap wfl ex s = (Inl ErrLifecycleIdempotencyConflict, next_step s) \<and>
    InsertLifecycleJobPending certID fp ex s = (Inl ErrLifecycleIdempotencyConflict, next_step s)"
proof -
  obtain j where j: "j \<in> set (t_jobs s)" "j_IdempotencyKey j = RenewIdempotencyKey (db_ustr s) certID fp"
    using assms(3) by blast
  have "set_renewal_config_tx certID cfg s = (Inr (), s\<lparr>t_certificates := upd_where (\<lambda>c. c_ID c = certID)
      (\<lambda>c. c\<lparr>c_RenewalConfig := Some cfg, c_UpdatedAt := sql_now s\<rparr>) (t_certificates s)\<rparr>)" (is "_ = (_, ?s1)")
    using assms(2) hits_0_iff [of "\<lambda>c. c_ID c = certID"] by (auto simp: set_renewal_config_tx_def)
  moreover have "insert_job (new_job JobKindRenew LifecycleAAPPending (Some certID)
      (RenewIdempotencyKey (db_ustr ?s1) certID fp) ex (Some aap) wfl ?s1) ?s1 = (Inl ErrLifecycleIdempotencyConflict, ?s1)"
    by (rule insert_job_conflict [of j]) (simp_all add: j new_job_def)
  ultimately have "PersistRenewLaunch certID cfg fp aap wfl ex s = (Inl ErrLifecycleIdempotencyConflict, next_step s)"
    unfolding PersistRenewLaunch_def by (intro db_call_err assms(1)) (simp add: bind_op_ok bind_op_err)
  moreover have "InsertLifecycleJobPending certID fp ex s = (Inl ErrLifecycleIdempotencyConflict, next_step s)"
    unfolding InsertLifecycleJobPending_def InsertLifecycleJob_def
    by (rule bind_op_err, rule db_call_err, rule assms(1), rule insert_job_conflict [of j])
       (simp_all add: j new_job_def)
  ultimately show ?thesis by blast
qed

theorem duplicate_renew_rejected_witness:
  "fst (PersistRenewLaunch 5 (example_renewal) ''fp'' 2 True None example_jobs) = Inl ErrLifecycleIdempotencyConflict"
proof -
  have "\<not> db_fault example_jobs (db_step example_jobs)" "\<exists>c\<in>set (t_certificates example_jobs). c_ID c = 5"
    "\<exists>j\<in>set (t_jobs example_jobs). j_IdempotencyKey j = RenewIdempotencyKey (db_ustr example_jobs) 5 ''fp''"
    by (code_simp)+
  from duplicate_renew_rejected [OF this] show ?thesis by simp
qed

text \<open>
  C9. Keys identify what they are made of. When the text form of an identifier is injective and of
  fixed length on 128-bit values, as the 36 characters of a UUID are, two renewal keys are equal only
  for the same certificate and fingerprint, likewise two migration keys, and no renewal key is a
  migration key; so a renewal and a migration of one certificate never exclude each other.
\<close>

theorem idempotency_keys_identify:
  assumes "inj_on ustr {..<2 ^ 128}" and "\<forall>u<2 ^ 128. length (ustr u) = 36" and "a < 2 ^ 128" and "b < 2 ^ 128"
  shows "(RenewIdempotencyKey ustr a fp = RenewIdempotencyKey ustr b fq \<longleftrightarrow> a = b \<and> fp = fq) \<and>
    (MigrateIdempotencyKey ustr a fp = MigrateIdempotencyKey ustr b fq \<longleftrightarrow> a = b \<and> fp = fq) \<and>
    RenewIdempotencyKey ustr a fp \<noteq> MigrateIdempotencyKey ustr b fq"
proof -
  have "length (ustr a) = length (ustr b)" using assms(2-4) by simp
  moreover have "ustr a = ustr b \<longleftrightarrow> a = b" using inj_onD [OF assms(1)] assms(3,4) by blast
  ultimately have "ustr a @ x = ustr b @ y \<longleftrightarrow> a = b \<and> x = y" for x y by simp
  then show ?thesis by (simp add: RenewIdempotencyKey_def MigrateIdempotencyKey_def)
qed

text \<open>A text form as the hypotheses ask for: 36 hexadecimal digits, the least significant first.\<close>

fun hex_text :: "nat \<Rightarrow> uuid \<Rightarrow> string" where
  "hex_text 0 u = []"
| "hex_text (Suc n) u = ''0123456789abcdef'' ! (u mod 16) # hex_text n (u div 16)"

lemma hex_text_length: "length (hex_text n u) = n"
  by (induction n arbitrary: u) simp_all

lemma hex_text_inj: "u < 16 ^ n \<Longrightarrow> v < 16 ^ n \<Longrightarrow> hex_text n u = hex_text n v \<Longrightarrow> u = v"
proof (induction n arbitrary: u v)
  case (Suc n)
  have "distinct ''0123456789abcdef''" by code_simp
  then have "u mod 16 = v mod 16"
    using Suc.prems(3) nth_eq_iff_index_eq [of "''0123456789abcdef''" "u mod 16" "v mod 16"] by simp
  moreover have "u div 16 < 16 ^ n" "v div 16 < 16 ^ n"
    using Suc.prems(1,2) by (simp_all add: less_mult_imp_div_less mult.commute)
  then have "u div 16 = v div 16" using Suc.IH Suc.prems(3) by simp
  ultimately show ?case by (metis div_mod_decomp)
qed simp

theorem idempotency_keys_identify_witness:
  "RenewIdempotencyKey (hex_text 36) 7 ''ab'' \<noteq> RenewIdempotencyKey (hex_text 36) 8 ''ab''"
proof -
  have "inj_on (hex_text 36) {..<2 ^ 128}"
  proof (rule inj_onI)
    fix u v :: uuid assume "u \<in> {..<2 ^ 128}" "v \<in> {..<2 ^ 128}" "hex_text 36 u = hex_text 36 v"
    then show "u = v" by (intro hex_text_inj [of u 36 v]) (simp_all add: order.strict_trans2)
  qed
  from idempotency_keys_identify [OF this, of 7 8 "''ab''" "''ab''"] show ?thesis
    by (simp add: hex_text_length)
qed

section \<open>Leases\<close>

interpretation jl: leased_table j_ID job_free "claim_jobs owner locked due key upd"
  for owner locked due key upd
proof (unfold_locales, goal_cases)
  case (1 t x n rows ids rows' i)
  then show ?case using set_pick by (fastforce simp: claim_jobs_def Let_def)
next
  case (2 t x n rows ids rows')
  then show ?case by (auto simp: claim_jobs_def Let_def intro!: map_upd_where)
next
  case (3 t x n rows ids rows' r u)
  then show ?case
    by (auto simp: claim_jobs_def Let_def job_free_def elim!: in_upd_whereE split: if_splits)
next
  case (4 t x n rows ids rows' r)
  then show ?case by (auto simp: claim_jobs_def Let_def set_upd_where)
next
  case (5 t x n rows ids rows')
  then show ?case using length_pick by (auto simp: claim_jobs_def Let_def)
qed

text \<open>
  The actions on leases. \<open>Work_claim\<close> and \<open>Verify_claim\<close> are the two ways a replica takes jobs; both
  stamp the same lease columns. A status update that clears the lease, and a rescheduling, release it.
\<close>

datatype job_action = Work_claim string duration int
  | Verify_claim time int duration
  | Insert_job insert_params
  | Set_status uuid update_params
  | Set_aap_ref uuid int bool job_status
  | Reschedule uuid int time

fun claimed_ids :: "(error + lifecycle_job list) \<times> db \<Rightarrow> uuid list \<times> db" where
  "claimed_ids (Inl e, s) = ([], s)"
| "claimed_ids (Inr js, s) = (map j_ID js, s)"

fun job_act :: "job_action \<Rightarrow> db \<Rightarrow> uuid list \<times> db" where
  "job_act (Work_claim owner ttl limit) s = claimed_ids (ClaimLifecycleJobs owner ttl limit s)"
| "job_act (Verify_claim now limit ttl) s = claimed_ids (ClaimDueVerifyJobs now limit ttl s)"
| "job_act (Insert_job p) s = ([], ignore (InsertLifecycleJob p) s)"
| "job_act (Set_status i p) s = ([], ignore (UpdateLifecycleStatus i p) s)"
| "job_act (Set_aap_ref i a w st) s = ([], ignore (SetLifecycleAAPRef i a w st) s)"
| "job_act (Reschedule i n t) s = ([], ignore (ScheduleNextVerify i n t) s)"

fun job_run :: "job_action list \<Rightarrow> db \<Rightarrow> uuid list \<times> db" where
  "job_run [] s = ([], s)"
| "job_run (a # as) s =
     (case job_act a s of (ids, s') \<Rightarrow> case job_run as s' of (ids', s'') \<Rightarrow> (ids @ ids', s''))"

fun job_releases :: "uuid \<Rightarrow> job_action \<Rightarrow> bool" where
  "job_releases i (Set_status j p) \<longleftrightarrow> j = i \<and> up_ClearLease p"
| "job_releases i (Reschedule j n t) \<longleftrightarrow> j = i"
| "job_releases i _ \<longleftrightarrow> False"

text \<open>The instants a verification claim names are not past \<open>x\<close>.\<close>

fun acts_before :: "time \<Rightarrow> job_action \<Rightarrow> bool" where
  "acts_before x (Verify_claim now limit ttl) \<longleftrightarrow> now \<le> x"
| "acts_before x _ \<longleftrightarrow> True"

definition job_guarded :: "uuid \<Rightarrow> time \<Rightarrow> lifecycle_job list \<Rightarrow> bool" where
  "job_guarded i x rows \<longleftrightarrow> distinct (map j_ID rows) \<and> i \<in> j_ID ` set rows \<and> jl.held_until i x rows"

definition same_env :: "db \<Rightarrow> db \<Rightarrow> bool" where
  "same_env s s' \<longleftrightarrow> db_now s' = db_now s \<and> db_clock s' = db_clock s \<and> db_step s \<le> db_step s'"

interpretation env: op_relation same_env
  by unfold_locales (auto simp: same_env_def)

lemma GetLifecycleJob_env: "env.op_ok (GetLifecycleJob i)"
  unfolding GetLifecycleJob_def find_job_def
  by (rule env.op_ok_call, rule env.tx_ok_read) (auto split: option.splits)

lemma GetLifecycleJob_jobs: "t_jobs (snd (GetLifecycleJob i s)) = t_jobs s"
  by (auto simp: GetLifecycleJob_def find_job_def db_call_def split: option.splits)

lemma GetLifecycleJob_ID: "GetLifecycleJob i s = (Inr j, s') \<Longrightarrow> j_ID j = i \<and> j \<in> set (t_jobs s)"
  by (auto simp: GetLifecycleJob_def find_job_def db_call_def split: option.splits if_splits dest!: find_Some_in)

lemma get_all_jobs: "t_jobs (snd (get_all GetLifecycleJob ids s)) = t_jobs s"
  by (rule get_all_keeps [where P = "\<lambda>t. t_jobs t = t_jobs s"]) (simp_all add: GetLifecycleJob_jobs)

lemma get_all_jobs_ids: "get_all GetLifecycleJob ids s = (Inr js, s') \<Longrightarrow> map j_ID js = ids"
proof (induction ids arbitrary: s js)
  case (Cons i ids)
  then show ?case by (auto simp: bind_op_Inr dest: GetLifecycleJob_ID)
qed simp

lemma get_all_jobs_env: "same_env s (snd (get_all GetLifecycleJob ids s))"
  using env.op_ok_get_all [OF GetLifecycleJob_env] by (simp add: env.op_ok_def)

definition claim_op :: "string \<Rightarrow> (time \<Rightarrow> lifecycle_job \<Rightarrow> bool) \<Rightarrow> (lifecycle_job \<Rightarrow> time) \<Rightarrow> (db \<Rightarrow> time) \<Rightarrow> time \<Rightarrow> nat \<Rightarrow>
    lifecycle_job list op" where
  "claim_op owner due key now x n = bind_op (db_call (\<lambda>s.
     case claim_jobs owner (db_locked s (db_step s)) due key (sql_now s) (now s) x n (t_jobs s)
     of (ids, rows) \<Rightarrow> (Inr ids, s\<lparr>t_jobs := rows\<rparr>))) (\<lambda>ids. get_all GetLifecycleJob ids)"

definition lease_ttl :: "duration \<Rightarrow> duration" where
  "lease_ttl ttl = (if ttl \<le> 0 then 2 * minute else ttl)"

lemma ClaimLifecycleJobs_op:
  "ClaimLifecycleJobs owner ttl limit s = claim_op owner (\<lambda>_ j. in_flight (j_Status j)) j_CreatedAt sql_now
     (go_now s + lease_ttl ttl) (nat (if limit \<le> 0 then 10 else limit)) s"
  by (simp add: ClaimLifecycleJobs_def claim_op_def Let_def lease_ttl_def)

lemma ClaimDueVerifyJobs_op:
  "ClaimDueVerifyJobs t limit ttl s = claim_op ''verify-worker'' verify_due
     (\<lambda>j. case j_NextVerifyAt j of None \<Rightarrow> 0 | Some t \<Rightarrow> t) (\<lambda>_. if t = zero_time then go_now s else t)
     ((if t = zero_time then go_now s else t) + lease_ttl ttl) (nat (if limit \<le> 0 then 10 else limit)) s"
  by (simp add: ClaimDueVerifyJobs_def claim_op_def Let_def lease_ttl_def)

lemma claim_op_claim:
  assumes "claim_op owner due key now x n s = (r, s')"
  obtains "t_jobs s' = t_jobs s" "same_env s s'" "isl r"
  | ids where "claim_jobs owner (db_locked s (db_step s)) due key (sql_now s) (now s) x n (t_jobs s) = (ids, t_jobs s')"
      "same_env s s'" "\<And>js. r = Inr js \<Longrightarrow> map j_ID js = ids"
proof (cases "db_fault s (db_step s)")
  case True
  then have "isl r \<and> s' = next_step s" using assms by (auto simp: claim_op_def bind_op_def db_call_def)
  then show thesis using that(1) env.R_step by simp
next
  case False
  obtain ids rows where cl:
    "claim_jobs owner (db_locked s (db_step s)) due key (sql_now s) (now s) x n (t_jobs s) = (ids, rows)" by force
  let ?s1 = "next_step (s\<lparr>t_jobs := rows\<rparr>)"
  have g: "get_all GetLifecycleJob ids ?s1 = (r, s')"
    using assms False cl by (simp add: claim_op_def bind_op_def db_call_def)
  then have "t_jobs s' = rows" "same_env ?s1 s'"
    using get_all_jobs [of ids ?s1] get_all_jobs_env [of ?s1 ids] by simp_all
  moreover from this(2) have "same_env s s'" by (simp add: same_env_def)
  moreover have "map j_ID js = ids" if "r = Inr js" for js using g that get_all_jobs_ids by simp
  ultimately show thesis using that(2) cl by simp
qed

lemma claimed_ids_fst: "claimed_ids (r, s) = (ids, s') \<Longrightarrow> s' = s \<and> ids = (case r of Inl _ \<Rightarrow> [] | Inr js \<Rightarrow> map j_ID js)"
  by (cases r) auto

lemma job_guarded_claim:
  assumes "job_guarded i x (t_jobs s)" and "now s \<le> x"
    and "claimed_ids (claim_op owner due key now y n s) = (ids, s')"
  shows "job_guarded i x (t_jobs s') \<and> i \<notin> set ids \<and> same_env s s'"
proof -
  obtain r where op: "claim_op owner due key now y n s = (r, s')"
    and ids: "ids = (case r of Inl _ \<Rightarrow> [] | Inr js \<Rightarrow> map j_ID js)"
    using assms(3) claimed_ids_fst by (metis surj_pair)
  from op show ?thesis
  proof (cases rule: claim_op_claim)
    case 1
    then show ?thesis using assms(1) ids by (auto split: sum.splits)
  next
    case (2 got)
    note cl = 2(1)
    have keys: "map j_ID (t_jobs s') = map j_ID (t_jobs s)" by (rule jl.claim_keys [OF cl])
    then have "j_ID ` set (t_jobs s') = j_ID ` set (t_jobs s)" by (metis list.set_map)
    then have "job_guarded i x (t_jobs s')" using jl.held_kept [OF _ cl assms(2)] assms(1) keys
      by (simp add: job_guarded_def)
    moreover have "i \<notin> set got" using jl.held_not_claimed [OF _ cl assms(2)] assms(1)
      by (auto simp: job_guarded_def)
    ultimately show ?thesis using 2 ids by (auto split: sum.splits)
  qed
qed

lemma job_guarded_insert:
  "job_guarded i x rows \<Longrightarrow> \<forall>r\<in>set rows. j_ID r \<noteq> j_ID j \<Longrightarrow> job_guarded i x (rows @ [j])"
  by (auto simp: job_guarded_def jl.held_until_def)

lemma job_guarded_upd:
  assumes "job_guarded i x rows" and "\<And>j. j_ID (f j) = j_ID j"
    and "k = i \<Longrightarrow> (\<And>j. j_LeaseExpiresAt (f j) = j_LeaseExpiresAt j)"
  shows "job_guarded i x (upd_where (\<lambda>j. j_ID j = k) f rows)"
proof -
  have "map j_ID (upd_where (\<lambda>j. j_ID j = k) f rows) = map j_ID rows" by (rule map_upd_where) (rule assms(2))
  moreover from this have "j_ID ` set (upd_where (\<lambda>j. j_ID j = k) f rows) = j_ID ` set rows"
    by (metis list.set_map)
  moreover have "jl.held_until i x (upd_where (\<lambda>j. j_ID j = k) f rows)"
    unfolding jl.held_until_def
  proof (intro ballI impI allI)
    fix r u assume r: "r \<in> set (upd_where (\<lambda>j. j_ID j = k) f rows)" "j_ID r = i" and u: "u \<le> x"
    obtain q where q: "q \<in> set rows" "r = (if j_ID q = k then f q else q)" using r(1) by (rule in_upd_whereE)
    then have "j_ID q = i" "j_LeaseExpiresAt r = j_LeaseExpiresAt q"
      using r(2) assms(2,3) by (auto split: if_splits)
    then show "\<not> job_free u r" using q(1) u assms(1)
      by (simp add: job_guarded_def jl.held_until_def job_free_def)
  qed
  ultimately show ?thesis using assms(1) by (simp add: job_guarded_def)
qed

lemma update_job_guarded:
  assumes "job_guarded i x (t_jobs s)" and "\<And>now j. j_ID (f now j) = j_ID j"
    and "k = i \<Longrightarrow> (\<And>now j. j_LeaseExpiresAt (f now j) = j_LeaseExpiresAt j)"
  shows "job_guarded i x (t_jobs (ignore (update_job k f) s)) \<and> same_env s (ignore (update_job k f) s)"
  using assms by (auto simp: update_job_def ignore_def db_call_def same_env_def intro!: job_guarded_upd)

lemma job_act_guarded:
  assumes "job_guarded i x (t_jobs s)" and "\<not> job_releases i a" and "acts_before x a"
    and "db_now s (db_step s) \<le> x" and "db_clock s (db_step s) \<le> x" and "job_act a s = (ids, s')"
  shows "job_guarded i x (t_jobs s') \<and> i \<notin> set ids \<and> same_env s s'"
proof (cases a)
  case (Work_claim owner ttl limit)
  then show ?thesis using assms(4,6)
    by (intro job_guarded_claim [OF assms(1), where now = sql_now])
       (simp_all add: ClaimLifecycleJobs_op, simp add: sql_now_def)
next
  case (Verify_claim now limit ttl)
  then show ?thesis using assms(3,5,6)
    by (intro job_guarded_claim [OF assms(1), where now = "\<lambda>_. if now = zero_time then go_now s else now"])
       (simp_all add: ClaimDueVerifyJobs_op, simp add: go_now_def)
next
  case (Insert_job p)
  then show ?thesis using assms
    by (auto simp: InsertLifecycleJob_def insert_job_def ignore_def db_call_def same_env_def intro!: job_guarded_insert)
next
  case (Set_status k p)
  then show ?thesis using assms
    by (auto simp: UpdateLifecycleStatus_def ignore_def db_call_def same_env_def intro!: job_guarded_upd)
next
  case (Set_aap_ref k n w st)
  then show ?thesis using assms update_job_guarded [OF assms(1)] by (auto simp: SetLifecycleAAPRef_def)
next
  case (Reschedule k n t)
  then show ?thesis using assms update_job_guarded [OF assms(1)] by (auto simp: ScheduleNextVerify_def)
qed

lemma job_act_env: "same_env s (snd (job_act a s))"
proof -
  have upd: "same_env s (ignore (update_job k f) s)" for k f
    by (auto simp: update_job_def ignore_def db_call_def same_env_def)
  have cl: "same_env s (snd (claimed_ids (claim_op owner due key now y n s)))" for owner due key now y n
  proof -
    obtain r s' where op: "claim_op owner due key now y n s = (r, s')" by force
    then have "same_env s s'" by (cases rule: claim_op_claim) auto
    then show ?thesis using op by (cases r) auto
  qed
  have "same_env s (ignore (InsertLifecycleJob p) s)" "same_env s (ignore (UpdateLifecycleStatus i q) s)" for p i q
    by (auto simp: InsertLifecycleJob_def insert_job_def UpdateLifecycleStatus_def ignore_def db_call_def same_env_def)
  then show ?thesis
    by (cases a) (simp_all add: upd cl ClaimLifecycleJobs_op ClaimDueVerifyJobs_op SetLifecycleAAPRef_def
      ScheduleNextVerify_def)
qed

lemma job_run_env: "same_env s (snd (job_run as s))"
proof (induction as arbitrary: s)
  case (Cons a as)
  have "same_env s (snd (job_run as (snd (job_act a s))))" by (rule env.R_trans [OF job_act_env Cons.IH])
  then show ?case by (simp add: case_prod_beta)
qed (simp add: env.R_refl)

lemma job_run_guarded:
  assumes "job_guarded i x (t_jobs s)" and "\<forall>a\<in>set as. \<not> job_releases i a \<and> acts_before x a"
    and "\<forall>k\<le>db_step (snd (job_run as s)). db_now s k \<le> x \<and> db_clock s k \<le> x"
  shows "i \<notin> set (fst (job_run as s))"
  using assms
proof (induction as arbitrary: s)
  case Nil
  then show ?case by simp
next
  case (Cons a as)
  obtain ids s' where act: "job_act a s = (ids, s')" by force
  have tail: "snd (job_run (a # as) s) = snd (job_run as s')" using act by (simp split: prod.splits)
  have "db_step s \<le> db_step (snd (job_run (a # as) s))" using job_run_env same_env_def by blast
  then have "job_guarded i x (t_jobs s') \<and> i \<notin> set ids \<and> same_env s s'"
    using job_act_guarded [OF Cons.prems(1) _ _ _ _ act] Cons.prems(2,3) by simp
  then show ?case using Cons.IH [of s'] Cons.prems(2,3) tail act
    by (simp add: same_env_def split: prod.splits)
qed

text \<open>The instant until which the jobs of a claim are leased.\<close>

fun lease_end :: "job_action \<Rightarrow> db \<Rightarrow> time" where
  "lease_end (Work_claim owner ttl limit) s = go_now s + lease_ttl ttl"
| "lease_end (Verify_claim now limit ttl) s = (if now = zero_time then go_now s else now) + lease_ttl ttl"
| "lease_end _ s = go_now s"

lemma claim_guards:
  assumes "distinct (map j_ID (t_jobs s))" and "claimed_ids (claim_op owner due key now x n s) = (ids, s')"
    and "i \<in> set ids"
  shows "job_guarded i x (t_jobs s') \<and> same_env s s'"
proof -
  obtain r where op: "claim_op owner due key now x n s = (r, s')"
    and ids: "ids = (case r of Inl _ \<Rightarrow> [] | Inr js \<Rightarrow> map j_ID js)"
    using assms(2) claimed_ids_fst by (metis surj_pair)
  from op show ?thesis
  proof (cases rule: claim_op_claim)
    case 1
    then show ?thesis using assms(3) ids by (auto split: sum.splits)
  next
    case (2 got)
    have i: "i \<in> set got" using ids 2(3) assms(3) by (auto split: sum.splits)
    have keys: "map j_ID (t_jobs s') = map j_ID (t_jobs s)" by (rule jl.claim_keys [OF 2(1)])
    moreover have "i \<in> j_ID ` set (t_jobs s')"
      using jl.claim_ids [OF 2(1) i] keys by (metis image_eqI list.set_map)
    ultimately show ?thesis using jl.claim_holds [OF 2(1) i] assms(1) 2(2) by (simp add: job_guarded_def)
  qed
qed



section \<open>Deadlines and references\<close>

text \<open>
  The sweep for missed deadlines is exact. When it returns, no job that waits for verification is
  past its deadline; the rows returned are those it has just closed, in table order, each now timed
  out, unleased and with a reason; every other job is as before. When it fails, nothing has changed.
\<close>

theorem ExpireTimedOutVerifyJobs_exact:
  "case ExpireTimedOutVerifyJobs t s of
     (Inl e, s') \<Rightarrow> t_jobs s' = t_jobs s
   | (Inr out, s') \<Rightarrow>
       let now = (if t = zero_time then go_now s else t) in
       filter (verify_overdue now) (t_jobs s') = [] \<and>
       map j_ID out = map j_ID (filter (verify_overdue now) (t_jobs s)) \<and> set out \<subseteq> set (t_jobs s') \<and>
       list_all (\<lambda>j. j_Status j = LifecycleTimedOut \<and> j_LeaseExpiresAt j = None \<and> j_FailureReason j \<noteq> None) out \<and>
       list_all2 (\<lambda>j j'. if verify_overdue now j then j' \<in> set out \<and> j_ID j' = j_ID j else j' = j) (t_jobs s) (t_jobs s')"
proof (cases "db_fault s (db_step s)")
  case True
  then show ?thesis by (simp add: ExpireTimedOutVerifyJobs_def db_call_def Let_def)
next
  case False
  let ?now = "if t = zero_time then go_now s else t"
  have open_: "\<not> verify_overdue now (expire_row u j)" for now u j by (simp add: verify_overdue_def expire_row_def)
  have closed: "j_Status (expire_row u j) = LifecycleTimedOut \<and> j_LeaseExpiresAt (expire_row u j) = None \<and>
      j_FailureReason (expire_row u j) \<noteq> None \<and> j_ID (expire_row u j) = j_ID j" for u j
    by (cases "j_FailureReason j") (simp_all add: expire_row_def)
  have "list_all2 (\<lambda>j j'. if verify_overdue now j then j' \<in> set (map f (filter (verify_overdue now) rows)) \<and> j_ID j' = j_ID j
      else j' = j) rows (upd_where (verify_overdue now) f rows)" if "\<And>j. j_ID (f j) = j_ID j" for f now rows
    using that by (auto simp: upd_where_def list.rel_map intro!: list.rel_refl_strong)
  from this [of "expire_row (sql_now s)" ?now "t_jobs s"] False show ?thesis
    by (auto simp: ExpireTimedOutVerifyJobs_def db_call_def Let_def open_ closed [unfolded not_None_eq]
        set_upd_where comp_def filter_empty_conv list_all_iff)
qed

lemma find_job_eval:
  "\<not> db_fault s (db_step s) \<Longrightarrow> find_job p s =
     (case List.find p (t_jobs s) of None \<Rightarrow> (Inl ErrLifecycleJobNotFound, next_step s) | Some j \<Rightarrow> (Inr j, next_step s))"
  by (auto simp: find_job_def db_call_def split: option.splits)

lemma find_by_key:
  "distinct (map k rows) \<Longrightarrow> j \<in> set rows \<Longrightarrow> k j = v \<Longrightarrow> List.find (\<lambda>r. k r = v) rows = Some j"
proof (induction rows)
  case (Cons r rows)
  then show ?case by (cases "r = j") (auto simp: image_iff)
qed simp

text \<open>
  Attaching the Controller's job id under a key happens once. When no call fails, a job that has no
  id yet gets this one and is returned with it, in status aap_pending; a job that has this id is
  returned as it is, so repeating the call is harmless; a job with another id reports a conflict and
  is left alone; an unknown key is not found.
\<close>

theorem ClaimByIdempotency_once:
  assumes "job_inv s" and "\<forall>k. \<not> db_fault s k"
  shows "case List.find (\<lambda>j. j_IdempotencyKey j = key) (t_jobs s) of
      None \<Rightarrow> ClaimByIdempotency key a s = (Inl ErrLifecycleJobNotFound, next_step s)
    | Some j \<Rightarrow> (case j_AAPJobID j of
        Some b \<Rightarrow> ClaimByIdempotency key a s =
          (if b = a then Inr j else Inl ErrLifecycleAAPRefConflict, next_step s)
      | None \<Rightarrow> \<exists>j' s'. ClaimByIdempotency key a s = (Inr j', s') \<and> j_ID j' = j_ID j \<and>
          j_IdempotencyKey j' = key \<and> j_AAPJobID j' = Some a \<and> j_Status j' = LifecycleAAPPending \<and>
          ClaimByIdempotency key a s' = (Inr j', next_step s'))"
proof (cases "List.find (\<lambda>j. j_IdempotencyKey j = key) (t_jobs s)")
  case None
  then show ?thesis using assms(2)
    by (simp add: ClaimByIdempotency_def GetLifecycleJobByIdempotency_def find_job_eval bind_op_def)
next
  case (Some j)
  note j = find_Some_in [OF Some]
  show ?thesis
  proof (cases "j_AAPJobID j")
    case (Some b)
    then show ?thesis using assms(2) \<open>List.find _ _ = Some j\<close>
      by (simp add: ClaimByIdempotency_def GetLifecycleJobByIdempotency_def find_job_eval bind_op_def)
  next
    case None
    define rows where "rows = upd_where (\<lambda>r. j_ID r = j_ID j) (\<lambda>r. r\<lparr>j_AAPJobID := Some a,
      j_AAPWorkflow := j_AAPWorkflow j, j_Status := LifecycleAAPPending, j_UpdatedAt := sql_now (next_step s)\<rparr>) (t_jobs s)"
    define j' where "j' = j\<lparr>j_AAPJobID := Some a, j_Status := LifecycleAAPPending, j_UpdatedAt := sql_now (next_step s)\<rparr>"
    have inr: "j' \<in> set rows" using j by (force simp: rows_def j'_def set_upd_where)
    have keys: "map j_ID rows = map j_ID (t_jobs s)" "map j_IdempotencyKey rows = map j_IdempotencyKey (t_jobs s)"
      by (simp_all add: rows_def map_upd_where)
    have f1: "List.find (\<lambda>r. j_ID r = j_ID j) rows = Some j'"
      using keys(1) assms(1) by (intro find_by_key [OF _ inr]) (simp_all add: job_inv_def j'_def)
    have f2: "List.find (\<lambda>r. j_IdempotencyKey r = key) rows = Some j'"
      using keys(2) assms(1) j by (intro find_by_key [OF _ inr]) (simp_all add: job_inv_def j'_def)
    have h: "hits (\<lambda>r. j_ID r = j_ID j) (t_jobs s) \<noteq> 0" using j by (auto simp: hits_0_iff)
    define s2 where "s2 = next_step (next_step (s\<lparr>t_jobs := rows, db_step := Suc (db_step s)\<rparr>))"
    have s2: "t_jobs s2 = rows" "db_fault s2 = db_fault s" by (simp_all add: s2_def)
    have set_ref: "SetLifecycleAAPRef (j_ID j) a (j_AAPWorkflow j) LifecycleAAPPending (next_step s) =
        (Inr (), next_step (s\<lparr>t_jobs := rows, db_step := Suc (db_step s)\<rparr>))"
      using h assms(2) by (simp add: SetLifecycleAAPRef_def update_job_def db_call_def rows_def next_step_def)
    have "ClaimByIdempotency key a s = (Inr j', s2)"
      using None \<open>List.find _ _ = Some j\<close> assms(2) f1 set_ref
      by (simp add: ClaimByIdempotency_def GetLifecycleJobByIdempotency_def GetLifecycleJob_def find_job_eval bind_op_def s2_def)
    moreover have "ClaimByIdempotency key a s2 = (Inr j', next_step s2)"
      using f2 assms(2) s2
      by (simp add: ClaimByIdempotency_def GetLifecycleJobByIdempotency_def find_job_eval bind_op_def j'_def)
    ultimately show ?thesis using None \<open>List.find _ _ = Some j\<close> j by (simp add: j'_def)
  qed
qed

theorem ClaimByIdempotency_once_witness:
  "case List.find (\<lambda>j. j_IdempotencyKey j = RenewIdempotencyKey nat_str 5 ''fp'') (t_jobs example_jobs) of
     None \<Rightarrow> False
   | Some j \<Rightarrow> \<exists>j' s'. ClaimByIdempotency (RenewIdempotencyKey nat_str 5 ''fp'') 42 example_jobs = (Inr j', s') \<and>
       j_AAPJobID j' = Some 42"
proof -
  let ?key = "RenewIdempotencyKey nat_str 5 ''fp''"
  have "job_inv example_jobs" by code_simp
  moreover have "\<forall>k. \<not> db_fault example_jobs k" by (simp add: example_jobs_def example_store_def empty_db_def)
  ultimately have *: "case List.find (\<lambda>j. j_IdempotencyKey j = ?key) (t_jobs example_jobs) of
      None \<Rightarrow> ClaimByIdempotency ?key 42 example_jobs = (Inl ErrLifecycleJobNotFound, next_step example_jobs)
    | Some j \<Rightarrow> (case j_AAPJobID j of
        Some b \<Rightarrow> ClaimByIdempotency ?key 42 example_jobs =
          (if b = 42 then Inr j else Inl ErrLifecycleAAPRefConflict, next_step example_jobs)
      | None \<Rightarrow> \<exists>j' s'. ClaimByIdempotency ?key 42 example_jobs = (Inr j', s') \<and> j_ID j' = j_ID j \<and>
          j_IdempotencyKey j' = ?key \<and> j_AAPJobID j' = Some 42 \<and> j_Status j' = LifecycleAAPPending \<and>
          ClaimByIdempotency ?key 42 s' = (Inr j', next_step s'))"
    by (intro ClaimByIdempotency_once) simp_all
  have "case List.find (\<lambda>j. j_IdempotencyKey j = ?key) (t_jobs example_jobs) of
      None \<Rightarrow> False | Some j \<Rightarrow> j_AAPJobID j = None" by code_simp
  with * show ?thesis by (auto split: option.splits)
qed

end
