(* ===== verification/Compliance.thy ===== *)
theory Compliance
  imports Store_Model
begin

text \<open>
  \<^verbatim>\<open>internal/compliance\<close>: the SC-081, PCI and crypto packs, the severity scale, the
  evaluator that runs the packs over certificates and the paging loop that loads them.
  \<^verbatim>\<open>time.Now\<close> is the argument \<open>now\<close>; the store's \<^verbatim>\<open>ListCertificates\<close> is the
  argument \<open>st\<close> of the functions that load certificates.
\<close>

section \<open>Types\<close>

record finding =
  RuleID :: string
  Pack :: string
  Severity :: string
  FTitle :: string
  Detail :: string
  CertID :: uuid
  Fingerprint :: string
  SubjectCN :: string

record algorithm_inventory =
  RSA2048Plus :: int
  RSAUnder2048 :: int
  ECDSA :: int
  Ed25519 :: int
  SHA1Signatures :: int

record compliance_summary =
  ScanID :: uuid
  GeneratedAt :: time
  TotalCerts :: int
  FindingsBySeverity :: "string \<Rightarrow> int"
  FindingsByPack :: "string \<Rightarrow> int"
  AlgorithmInventory :: algorithm_inventory
  SC081ViolationCount :: int
  PCIFindingCount :: int
  Findings :: "finding list"

record cert_input =
  ci_ID :: uuid
  ci_Fingerprint :: string
  ci_SubjectCN :: string
  ci_NotBefore :: time
  ci_NotAfter :: time
  ci_KeyType :: string
  ci_KeyBits :: int
  ci_SignatureAlgorithm :: string
  ci_CertScope :: string
  ci_Environment :: "string option"
  ci_Owner :: "string option"
  ci_Tags :: "string list"
  ci_ManagedStatus :: string
  ci_DaysUntilExpiry :: int

definition CertInputFromStore :: "certificate \<Rightarrow> cert_input" where
  "CertInputFromStore c = \<lparr>ci_ID = c_ID c, ci_Fingerprint = c_FingerprintSHA256 c,
     ci_SubjectCN = (case c_SubjectCN c of None \<Rightarrow> [] | Some cn \<Rightarrow> cn),
     ci_NotBefore = c_NotBefore c, ci_NotAfter = c_NotAfter c, ci_KeyType = c_KeyType c,
     ci_KeyBits = c_KeyBits c, ci_SignatureAlgorithm = c_SignatureAlgorithm c,
     ci_CertScope = c_CertScope c, ci_Environment = c_Environment c, ci_Owner = c_Owner c,
     ci_Tags = c_Tags c, ci_ManagedStatus = c_ManagedStatus c,
     ci_DaysUntilExpiry = c_DaysUntilExpiry c\<rparr>"

definition mk_finding :: "cert_input \<Rightarrow> string \<Rightarrow> string \<Rightarrow> string \<Rightarrow> string \<Rightarrow> string \<Rightarrow> finding" where
  "mk_finding c rule pack sev title detail =
     \<lparr>RuleID = rule, Pack = pack, Severity = sev, FTitle = title, Detail = detail,
      CertID = ci_ID c, Fingerprint = ci_Fingerprint c, SubjectCN = ci_SubjectCN c\<rparr>"

section \<open>Severities\<close>

definition MapPackSeverity :: "string \<Rightarrow> string \<Rightarrow> string" where
  "MapPackSeverity pack severity =
     (if severity \<in> {''critical'', ''high'', ''medium'', ''low'', ''info''} then severity
      else if severity = ''warning'' then (if pack = ''pci'' then ''medium'' else ''high'')
      else ''info'')"

definition ScoreSeverity :: "string \<Rightarrow> int" where
  "ScoreSeverity severity =
     (if severity = ''critical'' then 90 else if severity = ''high'' then 70
      else if severity = ''medium'' then 40 else if severity = ''low'' then 20
      else if severity = ''info'' then 5 else 0)"

definition MapFindingForPersist :: "finding \<Rightarrow> finding" where
  "MapFindingForPersist f = f\<lparr>Severity := MapPackSeverity (Pack f) (Severity f)\<rparr>"

section \<open>SC-081\<close>

text \<open>\<^verbatim>\<open>time.Date(y, m, d, 0, 0, 0, 0, time.UTC)\<close> and \<^verbatim>\<open>Format("2006-01-02")\<close> in the
  proleptic Gregorian calendar.\<close>

definition date_utc :: "int \<Rightarrow> int \<Rightarrow> int \<Rightarrow> time" where
  "date_utc y m d =
    (let y' = (if m \<le> 2 then y - 1 else y); era = y' div 400; yoe = y' mod 400;
         doy = (153 * (if m > 2 then m - 3 else m + 9) + 2) div 5 + d - 1;
         doe = yoe * 365 + yoe div 4 - yoe div 100 + doy
     in (era * 146097 + doe - 719468) * day)"

definition pad2 :: "int \<Rightarrow> string" where
  "pad2 n = (if n < 10 then ''0'' @ itoa n else itoa n)"

definition format_date :: "time \<Rightarrow> string" where
  "format_date t =
    (let z = t div day + 719468; era = z div 146097; doe = z mod 146097;
         yoe = (doe - doe div 1460 + doe div 36524 - doe div 146096) div 365;
         doy = doe - (365 * yoe + yoe div 4 - yoe div 100); mp = (5 * doy + 2) div 153;
         d = doy - (153 * mp + 2) div 5 + 1; m = (if mp < 10 then mp + 3 else mp - 9);
         y = yoe + era * 400 + (if m \<le> 2 then 1 else 0)
     in itoa y @ ''-'' @ pad2 m @ ''-'' @ pad2 d)"

record sc081_ceiling =
  effective :: time
  maxDays :: int
  ceilRuleID :: string

definition sc081Ceilings :: "sc081_ceiling list" where
  "sc081Ceilings =
    [\<lparr>effective = date_utc 2029 3 15, maxDays = 47, ceilRuleID = ''sc081.validity.47d''\<rparr>,
     \<lparr>effective = date_utc 2028 3 15, maxDays = 64, ceilRuleID = ''sc081.validity.64d''\<rparr>,
     \<lparr>effective = date_utc 2027 3 15, maxDays = 99, ceilRuleID = ''sc081.validity.99d''\<rparr>,
     \<lparr>effective = date_utc 2026 3 15, maxDays = 199, ceilRuleID = ''sc081.validity.199d''\<rparr>]"

definition sc081CeilingFor :: "time \<Rightarrow> sc081_ceiling option" where
  "sc081CeilingFor notBefore = List.find (\<lambda>c. \<not> notBefore < effective c) sc081Ceilings"

definition validityDays :: "time \<Rightarrow> time \<Rightarrow> int" where
  "validityDays notBefore notAfter = ceil_days_of (time_sub notAfter notBefore)"

definition isProd :: "string option \<Rightarrow> bool" where
  "isProd env \<longleftrightarrow> env = Some ''prod''"

definition sc081ValidityFinding :: "cert_input \<Rightarrow> finding option" where
  "sc081ValidityFinding c =
    (case sc081CeilingFor (ci_NotBefore c) of None \<Rightarrow> None
     | Some cl \<Rightarrow>
        (let maxValidity = maxDays cl * 24 * hour in
         if time_sub (ci_NotAfter c) (ci_NotBefore c) \<le> maxValidity then None
         else Some (mk_finding c (ceilRuleID cl) ''sc081'' ''critical''
           ''SC-081 issued validity exceeds ceiling''
           (''Certificate issued with '' @ itoa (validityDays (ci_NotBefore c) (ci_NotAfter c)) @
            ''-day validity; SC-081 ceiling is '' @ itoa (maxDays cl) @ '' days from '' @
            format_date (effective cl)))))"

definition sc081ExpirySeverity :: "cert_input \<Rightarrow> string \<Rightarrow> string" where
  "sc081ExpirySeverity c base =
     (if ci_CertScope c = ScopeInternal \<and> \<not> isProd (ci_Environment c) then ''info'' else base)"

definition sc081ExpiryFindingAt :: "cert_input \<Rightarrow> time \<Rightarrow> finding option" where
  "sc081ExpiryFindingAt c now =
    (if ci_NotAfter c < now then
       (let daysAgo = days_of (time_sub now (ci_NotAfter c)) in
        Some (mk_finding c ''sc081.expiry.expired'' ''sc081'' (sc081ExpirySeverity c ''critical'')
          ''Certificate has expired'' (''Certificate expired '' @ itoa daysAgo @ '' day(s) ago'')))
     else
       (let days = days_of (time_sub (ci_NotAfter c) now) in
        if days \<le> 14 then
          Some (mk_finding c ''sc081.expiry.critical'' ''sc081'' (sc081ExpirySeverity c ''critical'')
            ''Certificate expires within 14 days'' (''Certificate expires in '' @ itoa days @ '' days''))
        else if days \<le> 60 then
          Some (mk_finding c ''sc081.expiry.warning'' ''sc081'' (sc081ExpirySeverity c ''warning'')
            ''Certificate expires within 60 days'' (''Certificate expires in '' @ itoa days @ '' days''))
        else None))"

definition EvaluateSC081 :: "time \<Rightarrow> cert_input \<Rightarrow> finding list" where
  "EvaluateSC081 now c =
     (case sc081ValidityFinding c of None \<Rightarrow> [] | Some f \<Rightarrow> [f]) @
     (case sc081ExpiryFindingAt c now of None \<Rightarrow> [] | Some f \<Rightarrow> [f])"

section \<open>PCI and crypto\<close>

definition isMissingOwner :: "string option \<Rightarrow> bool" where
  "isMissingOwner owner \<longleftrightarrow> owner = None \<or> owner = Some []"

definition EvaluatePCI :: "cert_input \<Rightarrow> finding list" where
  "EvaluatePCI c =
    (if ci_CertScope c = ScopeExternal \<and> isMissingOwner (ci_Owner c) then
       [mk_finding c ''pci.inventory.missing_owner'' ''pci'' ''warning''
          ''External certificate missing owner''
          ''PCI inventory requires an owner for externally scoped certificates''] else []) @
    (if isProd (ci_Environment c) \<and> (isMissingOwner (ci_Owner c) \<or> ci_Tags c = []) then
       [mk_finding c ''pci.inventory.untagged_prod'' ''pci'' ''warning''
          ''Production certificate missing inventory metadata''
          ''Production certificates require owner and tags for PCI inventory completeness''] else []) @
    (if ci_ManagedStatus c = ''unmanaged'' \<and> ci_CertScope c = ScopeExternal \<and> isProd (ci_Environment c) then
       [mk_finding c ''pci.inventory.not_in_vault'' ''pci'' ''info''
          ''External production certificate not in Vault''
          (''Certificate '' @ ci_Fingerprint c @ '' is unmanaged and not correlated to Vault PKI'')] else [])"

definition containsSHA1 :: "string \<Rightarrow> bool" where
  "containsSHA1 alg = (let upper = to_upper alg in
     str_contains upper ''SHA1'' \<or> str_contains upper ''SHA-1'')"

definition EvaluateCrypto :: "cert_input \<Rightarrow> finding list" where
  "EvaluateCrypto c =
    (if equal_fold (ci_KeyType c) ''RSA'' \<and> ci_KeyBits c < 2048 then
       [mk_finding c ''crypto.rsa.weak_key'' ''crypto'' ''critical''
          ''RSA key below 2048 bits'' ''RSA keys must be at least 2048 bits''] else []) @
    (if containsSHA1 (ci_SignatureAlgorithm c) then
       [mk_finding c ''crypto.signature.sha1'' ''crypto'' ''critical''
          ''SHA-1 signature algorithm'' ''SHA-1 signed certificates are deprecated''] else []) @
    (if equal_fold (ci_KeyType c) ''ECDSA'' \<and> ci_KeyBits c < 256 then
       [mk_finding c ''crypto.key.ecdsa.weak'' ''crypto'' ''warning''
          ''ECDSA key below 256 bits'' ''ECDSA keys should be at least 256 bits''] else [])"

section \<open>Evaluator\<close>

definition severityRank :: "string \<Rightarrow> int" where
  "severityRank s =
     (if s = ''critical'' then 0 else if s = ''high'' then 1 else if s = ''warning'' then 1
      else if s = ''medium'' then 2 else if s = ''low'' then 3 else if s = ''info'' then 4 else 99)"

text \<open>\<^verbatim>\<open>sort.SliceStable\<close> by rank, then pack, then rule: the stable sort by that key.\<close>

definition finding_key :: "finding \<Rightarrow> int \<times> string \<times> string" where
  "finding_key f = (severityRank (Severity f), Pack f, RuleID f)"

definition sortFindings :: "finding list \<Rightarrow> finding list" where
  "sortFindings fs = sort_key finding_key fs"

definition EvaluateCert :: "time \<Rightarrow> certificate \<Rightarrow> finding list" where
  "EvaluateCert now c = (let i = CertInputFromStore c in
     sortFindings (EvaluateSC081 now i @ EvaluatePCI i @ EvaluateCrypto i))"

definition isSC081Violation :: "finding \<Rightarrow> bool" where
  "isSC081Violation f \<longleftrightarrow> Pack f = ''sc081'' \<and> Severity f \<noteq> ''info''"

definition updateAlgorithmInventory :: "algorithm_inventory \<Rightarrow> certificate \<Rightarrow> algorithm_inventory" where
  "updateAlgorithmInventory iv c =
    (let i1 = (if equal_fold (c_KeyType c) ''RSA'' \<and> c_KeyBits c \<ge> 2048 then iv\<lparr>RSA2048Plus := RSA2048Plus iv + 1\<rparr>
               else if equal_fold (c_KeyType c) ''RSA'' \<and> c_KeyBits c < 2048 then iv\<lparr>RSAUnder2048 := RSAUnder2048 iv + 1\<rparr>
               else if equal_fold (c_KeyType c) ''ECDSA'' then iv\<lparr>ECDSA := ECDSA iv + 1\<rparr>
               else if equal_fold (c_KeyType c) ''Ed25519'' \<or> equal_fold (c_KeyType c) ''ED25519'' then iv\<lparr>Ed25519 := Ed25519 iv + 1\<rparr>
               else iv)
     in if containsSHA1 (c_SignatureAlgorithm c) then i1\<lparr>SHA1Signatures := SHA1Signatures i1 + 1\<rparr> else i1)"

text \<open>The body of the inner loop of \<^verbatim>\<open>EvaluateCerts\<close>, and of its outer loop.\<close>

definition add_finding :: "compliance_summary \<Rightarrow> finding \<Rightarrow> compliance_summary" where
  "add_finding s f = s\<lparr>Findings := Findings s @ [f],
     FindingsBySeverity := (FindingsBySeverity s)(Severity f := FindingsBySeverity s (Severity f) + 1),
     FindingsByPack := (FindingsByPack s)(Pack f := FindingsByPack s (Pack f) + 1),
     SC081ViolationCount := SC081ViolationCount s + (if isSC081Violation f then 1 else 0),
     PCIFindingCount := PCIFindingCount s + (if Pack f = ''pci'' then 1 else 0)\<rparr>"

definition add_cert :: "time \<Rightarrow> compliance_summary \<Rightarrow> certificate \<Rightarrow> compliance_summary" where
  "add_cert now s c = foldl add_finding
     (s\<lparr>AlgorithmInventory := updateAlgorithmInventory (AlgorithmInventory s) c\<rparr>) (EvaluateCert now c)"

definition EvaluateCerts :: "time \<Rightarrow> certificate list \<Rightarrow> compliance_summary" where
  "EvaluateCerts now certs =
    (let s0 = \<lparr>ScanID = 0, GeneratedAt = now, TotalCerts = int (length certs),
           FindingsBySeverity = (\<lambda>_. 0), FindingsByPack = (\<lambda>_. 0),
           AlgorithmInventory = \<lparr>RSA2048Plus = 0, RSAUnder2048 = 0, ECDSA = 0, Ed25519 = 0, SHA1Signatures = 0\<rparr>,
           SC081ViolationCount = 0, PCIFindingCount = 0, Findings = []\<rparr>;
         s = foldl (add_cert now) s0 certs
     in s\<lparr>Findings := sortFindings (Findings s)\<rparr>)"

text \<open>
  The paging loop. The number of pages depends on what the store answers, so a store whose total
  keeps growing would keep it running: \<open>None\<close> is that outcome.
\<close>

partial_function (option) load_pages ::
  "(int \<Rightarrow> error + certificate list \<times> int) \<Rightarrow> int \<Rightarrow> certificate list \<Rightarrow> (error + certificate list) option" where
  "load_pages page offset all =
     (case page offset of Inl e \<Rightarrow> Some (Inl e)
      | Inr (batch, tot) \<Rightarrow>
         (let all' = all @ batch; offset' = offset + int (length batch) in
          if offset' \<ge> tot \<or> length batch = 0 then Some (Inr all')
          else load_pages page offset' all'))"

definition loadAllCertificates ::
  "(certificate_filter \<Rightarrow> error + certificate list \<times> int) \<Rightarrow> uuid option \<Rightarrow> (error + certificate list) option" where
  "loadAllCertificates st scanID =
    (let filter0 = zero_filter\<lparr>cf_Limit := 500, cf_Offset := 0\<rparr>;
         filter1 = (case scanID of None \<Rightarrow> filter0 | Some i \<Rightarrow> filter0\<lparr>cf_ScanID := i\<rparr>)
     in load_pages (\<lambda>offset. st (filter1\<lparr>cf_Offset := offset\<rparr>)) 0 [])"

definition EvaluateScan :: "time \<Rightarrow>
  (certificate_filter \<Rightarrow> error + certificate list \<times> int) \<Rightarrow> uuid option \<Rightarrow> (error + compliance_summary) option" where
  "EvaluateScan now st scanID =
    (case loadAllCertificates st scanID of None \<Rightarrow> None
     | Some (Inl e) \<Rightarrow> Some (Inl e)
     | Some (Inr certs) \<Rightarrow> (let summary = EvaluateCerts now certs in
         Some (Inr (case scanID of None \<Rightarrow> summary | Some i \<Rightarrow> summary\<lparr>ScanID := i\<rparr>))))"

definition CountSC081Violations :: "time \<Rightarrow>
  (certificate_filter \<Rightarrow> error + certificate list \<times> int) \<Rightarrow> uuid option \<Rightarrow> (error + int) option" where
  "CountSC081Violations now st scanID =
    (case loadAllCertificates st scanID of None \<Rightarrow> None
     | Some (Inl e) \<Rightarrow> Some (Inl e)
     | Some (Inr certs) \<Rightarrow> Some (Inr (foldl (\<lambda>n c.
         foldl (\<lambda>m f. if isSC081Violation f then m + 1 else m) n (EvaluateSC081 now (CertInputFromStore c))) 0 certs)))"

section \<open>Properties\<close>

text \<open>The ceiling in force at an issuance date, read off the four dates of SC-081v3.\<close>

definition sc081_limit :: "time \<Rightarrow> int option" where
  "sc081_limit nb =
    (if date_utc 2029 3 15 \<le> nb then Some 47 else if date_utc 2028 3 15 \<le> nb then Some 64
     else if date_utc 2027 3 15 \<le> nb then Some 99 else if date_utc 2026 3 15 \<le> nb then Some 199
     else None)"

lemma ceiling_dates:
  "date_utc 2026 3 15 = 20527 * day" "date_utc 2027 3 15 = 20892 * day"
  "date_utc 2028 3 15 = 21258 * day" "date_utc 2029 3 15 = 21623 * day"
  by (simp_all add: date_utc_def)

lemma itoa_ceilings: "itoa 47 = ''47''" "itoa 64 = ''64''" "itoa 99 = ''99''" "itoa 199 = ''199''"
  by code_simp+

lemma ceiling_limit: "map_option maxDays (sc081CeilingFor nb) = sc081_limit nb"
  by (simp add: sc081CeilingFor_def sc081Ceilings_def sc081_limit_def not_less)

lemma sc081_limit_range: "sc081_limit nb = Some k \<Longrightarrow> 47 \<le> k \<and> k \<le> 199"
  by (auto simp: sc081_limit_def split: if_splits)

lemma time_sub_gt: "0 \<le> k \<Longrightarrow> k < max_duration \<Longrightarrow> k < time_sub a b \<longleftrightarrow> k < a - b"
  by (auto simp: time_sub_def min_duration_def)

lemma hours_over_day:
  fixes a b c e :: rat
  assumes "b - a \<le> 1 / 2 ^ 31 + 1 / 2 ^ 51" and "c + e \<le> b / 24" and "e = 1 / 86400"
  shows "c + 1 / 2 ^ 20 \<le> a / 24"
proof -
  have "b - a \<le> 1 / 2147483648 + 1 / 2251799813685248" using assms(1) by simp
  then have "c + 1 / 1048576 \<le> a / 24" using assms(2,3) by linarith
  then show ?thesis by simp
qed

text \<open>A validity that exceeds \<open>k\<close> days by a second or more is counted as more than \<open>k\<close> days.\<close>

lemma ceil_days_of_exceeds:
  assumes "k * day + second \<le> d" and "d \<le> max_duration" and "0 \<le> k"
  shows "k < ceil_days_of d"
proof -
  have d0: "0 \<le> d" using assms(1,3) by (smt (verit) day_nonneg mult_nonneg_nonneg second_pos)
  have "(of_int (k * day + second) :: rat) \<le> of_int d" using assms(1) by (simp only: of_int_le_iff)
  then have x: "of_int k + 1 / 86400 \<le> (of_int d / of_int hour / 24 :: rat)"
    by (simp add: go_time field_simps)
  have e: "of_int d / of_int hour - hours d \<le> 1 / 2 ^ 31 + 1 / 2 ^ 51"
    using abs_le_D2 [OF hours_error [OF d0 assms(2)]] by (simp only: minus_diff_eq)
  have h: "of_int k + 1 / 2 ^ 20 \<le> hours d / 24" by (rule hours_over_day [OF e x refl])
  have "d div hour \<le> max_duration div hour" using assms(2) by (intro zdiv_mono1) simp_all
  also have "\<dots> < 2562048" by (simp add: max_duration_def go_time)
  finally have "(of_int (d div hour + 1) :: rat) \<le> 2562048" by simp
  then have "hours d \<le> 2562048" using hours_between(2) [OF d0] by linarith
  moreover have "0 \<le> hours d / 24" using hours_nonneg [OF d0] by simp
  ultimately have "\<bar>hours d / 24\<bar> < 2 ^ 17" by simp
  then have "\<bar>f64 (hours d / 24) - hours d / 24\<bar> \<le> 1 / 2 ^ 36"
    using f64_error [of _ 17 35] by simp
  then have "hours d / 24 - f64 (hours d / 24) \<le> 1 / 2 ^ 36"
    by (subst minus_diff_eq [symmetric]) (rule abs_le_D2)
  moreover have "(1::rat) / 2 ^ 36 < 1 / 2 ^ 20" by simp
  ultimately have "of_int k < f64 (hours d / 24)" using h by linarith
  then show ?thesis by (simp add: ceil_days_of_def less_ceiling_iff)
qed

text \<open>
  C13. The SC-081 validity rule flags exactly the certificates whose validity is longer than the
  ceiling in force when they were issued (47, 64, 99 or 199 days, none before 2026-03-15): the
  comparison is exact, with no rounding to whole days, and the saturation of
  \<^verbatim>\<open>Time.Sub\<close> at 292 years hides no violation. The finding is critical and names the rule
  of that ceiling.
\<close>

theorem sc081_validity_exact:
  "(case sc081ValidityFinding c of
      None \<Rightarrow> (case sc081_limit (ci_NotBefore c) of None \<Rightarrow> True
                | Some k \<Rightarrow> ci_NotAfter c - ci_NotBefore c \<le> k * day)
    | Some f \<Rightarrow> (\<exists>k. sc081_limit (ci_NotBefore c) = Some k \<and> k * day < ci_NotAfter c - ci_NotBefore c \<and>
        RuleID f = ''sc081.validity.'' @ itoa k @ ''d'' \<and> Severity f = ''critical'' \<and> CertID f = ci_ID c))"
proof (cases "sc081CeilingFor (ci_NotBefore c)")
  case None
  then have "sc081_limit (ci_NotBefore c) = None" using ceiling_limit [of "ci_NotBefore c"] by simp
  with None show ?thesis by (simp add: sc081ValidityFinding_def)
next
  case (Some cl)
  then have lim: "sc081_limit (ci_NotBefore c) = Some (maxDays cl)"
    using ceiling_limit [of "ci_NotBefore c"] by simp
  have "cl \<in> set sc081Ceilings" using Some find_Some_in unfolding sc081CeilingFor_def by metis
  then have rule: "ceilRuleID cl = ''sc081.validity.'' @ itoa (maxDays cl) @ ''d''"
    by (auto simp: sc081Ceilings_def itoa_ceilings)
  have "47 \<le> maxDays cl \<and> maxDays cl \<le> 199" by (rule sc081_limit_range [OF lim])
  then have "maxDays cl * 24 * hour < time_sub (ci_NotAfter c) (ci_NotBefore c) \<longleftrightarrow>
      maxDays cl * 24 * hour < ci_NotAfter c - ci_NotBefore c"
    by (intro time_sub_gt) (simp_all add: max_duration_def go_time)
  then show ?thesis using Some lim rule
    by (auto simp: sc081ValidityFinding_def mk_finding_def Let_def day_def not_le split: option.splits)
qed

text \<open>
  The expiry rule follows the live \<open>NotAfter\<close>: it reports an expired certificate exactly when
  \<open>NotAfter\<close> is before now, reports nothing when more than 61 days remain, reports the critical
  rule while fewer than 15 days remain and the warning rule between; and it grades the finding
  below a violation exactly for certificates that are internal and not in production.
\<close>

theorem sc081_expiry_bands:
  "(ci_NotAfter c < now \<longrightarrow> map_option RuleID (sc081ExpiryFindingAt c now) = Some ''sc081.expiry.expired'') \<and>
   (now \<le> ci_NotAfter c \<and> ci_NotAfter c - now + 10000 \<le> 15 * day \<longrightarrow>
      map_option RuleID (sc081ExpiryFindingAt c now) = Some ''sc081.expiry.critical'') \<and>
   (15 * day \<le> ci_NotAfter c - now \<and> ci_NotAfter c - now + 10000 \<le> 61 * day \<longrightarrow>
      map_option RuleID (sc081ExpiryFindingAt c now) = Some ''sc081.expiry.warning'') \<and>
   (61 * day \<le> ci_NotAfter c - now \<longrightarrow> sc081ExpiryFindingAt c now = None) \<and>
   (\<forall>f. sc081ExpiryFindingAt c now = Some f \<longrightarrow>
      (isSC081Violation f \<longleftrightarrow> \<not> (ci_CertScope c = ScopeInternal \<and> \<not> isProd (ci_Environment c))))"
proof (intro conjI impI)
  let ?d = "ci_NotAfter c - now"
  have sub: "time_sub (ci_NotAfter c) now = min max_duration ?d" if "now \<le> ci_NotAfter c"
    using that by (rule time_sub_nonneg)
  have small: "min max_duration ?d = ?d" if "?d + 10000 \<le> 61 * day"
    using that by (simp add: max_duration_def go_time)
  show "map_option RuleID (sc081ExpiryFindingAt c now) = Some ''sc081.expiry.critical''"
    if a: "now \<le> ci_NotAfter c \<and> ?d + 10000 \<le> 15 * day"
  proof -
    have "days_of ?d \<le> 14" using a by (intro days_le_window) simp_all
    moreover have "?d + 10000 \<le> 61 * day" using a by (smt (verit) day_nonneg)
    ultimately show ?thesis using a sub small
      by (simp add: sc081ExpiryFindingAt_def mk_finding_def Let_def)
  qed
  show "map_option RuleID (sc081ExpiryFindingAt c now) = Some ''sc081.expiry.warning''"
    if a: "15 * day \<le> ?d \<and> ?d + 10000 \<le> 61 * day"
  proof -
    have le: "now \<le> ci_NotAfter c" using a by (smt (verit) day_pos)
    have "days_of ?d \<le> 60" using a le by (intro days_le_window) simp_all
    moreover have "14 < days_of (min max_duration ?d)" using a by (intro days_gt_window) simp_all
    ultimately show ?thesis using a le sub small
      by (simp add: sc081ExpiryFindingAt_def mk_finding_def Let_def)
  qed
  show "sc081ExpiryFindingAt c now = None" if a: "61 * day \<le> ?d"
  proof -
    have le: "now \<le> ci_NotAfter c" using a by (smt (verit) day_pos)
    have "60 < days_of (min max_duration ?d)" using a by (intro days_gt_window) simp_all
    then show ?thesis using le sub by (simp add: sc081ExpiryFindingAt_def Let_def)
  qed
qed (auto simp: sc081ExpiryFindingAt_def mk_finding_def isSC081Violation_def sc081ExpirySeverity_def Let_def
      split: if_splits)

definition example_input :: cert_input where
  "example_input = \<lparr>ci_ID = 7, ci_Fingerprint = ''ab12'', ci_SubjectCN = ''www.example.com'',
     ci_NotBefore = 21000 * day, ci_NotAfter = 21100 * day, ci_KeyType = ''RSA'', ci_KeyBits = 2048,
     ci_SignatureAlgorithm = ''SHA256-RSA'', ci_CertScope = ScopeExternal, ci_Environment = None,
     ci_Owner = None, ci_Tags = [], ci_ManagedStatus = ''unmanaged'', ci_DaysUntilExpiry = 10\<rparr>"

theorem sc081_expiry_bands_witness:
  "map_option RuleID (sc081ExpiryFindingAt example_input (21101 * day)) = Some ''sc081.expiry.expired'' \<and>
   map_option RuleID (sc081ExpiryFindingAt example_input (21090 * day)) = Some ''sc081.expiry.critical'' \<and>
   map_option RuleID (sc081ExpiryFindingAt example_input (21070 * day)) = Some ''sc081.expiry.warning'' \<and>
   sc081ExpiryFindingAt example_input (21000 * day) = None"
  using sc081_expiry_bands [of example_input "21101 * day"] sc081_expiry_bands [of example_input "21090 * day"]
    sc081_expiry_bands [of example_input "21070 * day"] sc081_expiry_bands [of example_input "21000 * day"]
  by (simp add: example_input_def go_time)

text \<open>
  The day count an SC-081 validity finding reports is rounded up, not truncated to the
  compliant boundary: a validity that exceeds \<open>k\<close> days by at least a second (the resolution of
  X.509 dates) is reported as more than \<open>k\<close> days, despite the float64 arithmetic.
\<close>

theorem validityDays_rounds_up:
  assumes "0 \<le> k" and "k < 106751" and "k * day + second \<le> notAfter - notBefore"
  shows "k < validityDays notBefore notAfter"
proof -
  have "(k + 1) * day \<le> 106751 * day" using assms(2) by (intro mult_right_mono) simp_all
  moreover have "106751 * day \<le> max_duration" by (simp add: max_duration_def go_time)
  moreover have "second \<le> day" by (simp add: go_time)
  moreover have "(k + 1) * day = k * day + day" by (simp add: algebra_simps)
  ultimately have "k * day + second \<le> max_duration" by linarith
  then have le: "k * day + second \<le> min max_duration (notAfter - notBefore)" using assms(3) by simp
  have "0 \<le> k * day + second" using assms(1) by (simp add: less_imp_le)
  then have "notBefore \<le> notAfter" using assms(3) by linarith
  then show ?thesis unfolding validityDays_def
    using ceil_days_of_exceeds [OF le _ assms(1)] by (simp add: time_sub_nonneg)
qed

theorem validityDays_rounds_up_witness: "47 < validityDays 0 (47 * day + second)"
  using validityDays_rounds_up [of 47 "47 * day + second" 0] by simp

text \<open>
  Whatever a pack emits, the severity that is stored is one of the five the database admits;
  mapping is idempotent, and only a pack's own \<^verbatim>\<open>warning\<close> or an unknown word is changed. The
  score of a stored severity is positive and orders the five levels.
\<close>

theorem MapPackSeverity_five_levels:
  "MapPackSeverity p sev \<in> {''critical'', ''high'', ''medium'', ''low'', ''info''} \<and>
   MapPackSeverity p (MapPackSeverity p sev) = MapPackSeverity p sev \<and>
   0 < ScoreSeverity (MapPackSeverity p sev) \<and>
   (ScoreSeverity (MapPackSeverity p sev) < ScoreSeverity (MapPackSeverity q sev') \<longleftrightarrow>
      severityRank (MapPackSeverity q sev') < severityRank (MapPackSeverity p sev))"
  by (auto simp: MapPackSeverity_def ScoreSeverity_def severityRank_def)

lemma sortFindings_mset [simp]: "mset (sortFindings fs) = mset fs"
  and sortFindings_set [simp]: "set (sortFindings fs) = set fs"
  and sortFindings_length [simp]: "length (sortFindings fs) = length fs"
  by (simp_all add: sortFindings_def)

lemma sortFindings_sorted: "sorted (map finding_key (sortFindings fs))"
  by (simp add: sortFindings_def)

text \<open>Counting along the loops of \<^verbatim>\<open>EvaluateCerts\<close>.\<close>

definition tally :: "('a \<Rightarrow> bool) \<Rightarrow> 'a list \<Rightarrow> int" where
  "tally p xs = int (length (filter p xs))"

lemma tally_simps [simp]:
  "tally p [] = 0" "tally p (x # xs) = (if p x then 1 else 0) + tally p xs"
  "tally p (xs @ ys) = tally p xs + tally p ys"
  by (simp_all add: tally_def)

lemma tally_mset: "mset xs = mset ys \<Longrightarrow> tally p xs = tally p ys"
  unfolding tally_def by (metis mset_filter size_mset)

lemma add_findings:
  "Findings (foldl add_finding s fs) = Findings s @ fs"
  "FindingsBySeverity (foldl add_finding s fs) k = FindingsBySeverity s k + tally (\<lambda>f. Severity f = k) fs"
  "FindingsByPack (foldl add_finding s fs) k = FindingsByPack s k + tally (\<lambda>f. Pack f = k) fs"
  "SC081ViolationCount (foldl add_finding s fs) = SC081ViolationCount s + tally isSC081Violation fs"
  "PCIFindingCount (foldl add_finding s fs) = PCIFindingCount s + tally (\<lambda>f. Pack f = ''pci'') fs"
  "AlgorithmInventory (foldl add_finding s fs) = AlgorithmInventory s"
  "TotalCerts (foldl add_finding s fs) = TotalCerts s"
  by (induction fs arbitrary: s) (auto simp: add_finding_def)

definition all_findings :: "time \<Rightarrow> certificate list \<Rightarrow> finding list" where
  "all_findings now certs = concat (map (EvaluateCert now) certs)"

lemma all_findings_Cons [simp]: "all_findings now [] = []"
    "all_findings now (c # cs) = EvaluateCert now c @ all_findings now cs"
  by (simp_all add: all_findings_def)

lemma add_certs:
  "Findings (foldl (add_cert now) s cs) = Findings s @ all_findings now cs"
  "FindingsBySeverity (foldl (add_cert now) s cs) k =
     FindingsBySeverity s k + tally (\<lambda>f. Severity f = k) (all_findings now cs)"
  "FindingsByPack (foldl (add_cert now) s cs) k =
     FindingsByPack s k + tally (\<lambda>f. Pack f = k) (all_findings now cs)"
  "SC081ViolationCount (foldl (add_cert now) s cs) =
     SC081ViolationCount s + tally isSC081Violation (all_findings now cs)"
  "PCIFindingCount (foldl (add_cert now) s cs) =
     PCIFindingCount s + tally (\<lambda>f. Pack f = ''pci'') (all_findings now cs)"
  "AlgorithmInventory (foldl (add_cert now) s cs) = foldl updateAlgorithmInventory (AlgorithmInventory s) cs"
  "TotalCerts (foldl (add_cert now) s cs) = TotalCerts s"
  by (induction cs arbitrary: s) (simp_all add: add_cert_def add_findings)

lemma inventory_total:
  "RSA2048Plus (foldl updateAlgorithmInventory i cs) + RSAUnder2048 (foldl updateAlgorithmInventory i cs) +
   ECDSA (foldl updateAlgorithmInventory i cs) + Ed25519 (foldl updateAlgorithmInventory i cs)
   \<le> RSA2048Plus i + RSAUnder2048 i + ECDSA i + Ed25519 i + int (length cs)"
proof (induction cs arbitrary: i)
  case Nil
  then show ?case by simp
next
  case (Cons c cs)
  have "RSA2048Plus (updateAlgorithmInventory i c) + RSAUnder2048 (updateAlgorithmInventory i c) +
      ECDSA (updateAlgorithmInventory i c) + Ed25519 (updateAlgorithmInventory i c)
      \<le> RSA2048Plus i + RSAUnder2048 i + ECDSA i + Ed25519 i + 1"
    by (simp add: updateAlgorithmInventory_def Let_def)
  then show ?case using Cons.IH [of "updateAlgorithmInventory i c"] by simp
qed

text \<open>
  The compliance summary is consistent with itself: its findings are those of every
  certificate, none lost and none added, sorted by severity rank, pack and rule; every counter
  (by severity, by pack, SC-081 violations, PCI findings) equals the number of findings of that
  sort; and the algorithm inventory counts no certificate twice.
\<close>

theorem EvaluateCerts_consistent:
  "mset (Findings (EvaluateCerts now certs)) = mset (all_findings now certs) \<and>
   sorted (map finding_key (Findings (EvaluateCerts now certs))) \<and>
   (\<forall>k. FindingsBySeverity (EvaluateCerts now certs) k =
          tally (\<lambda>f. Severity f = k) (Findings (EvaluateCerts now certs))) \<and>
   (\<forall>k. FindingsByPack (EvaluateCerts now certs) k =
          tally (\<lambda>f. Pack f = k) (Findings (EvaluateCerts now certs))) \<and>
   SC081ViolationCount (EvaluateCerts now certs) =
     tally isSC081Violation (Findings (EvaluateCerts now certs)) \<and>
   PCIFindingCount (EvaluateCerts now certs) =
     tally (\<lambda>f. Pack f = ''pci'') (Findings (EvaluateCerts now certs)) \<and>
   RSA2048Plus (AlgorithmInventory (EvaluateCerts now certs)) +
     RSAUnder2048 (AlgorithmInventory (EvaluateCerts now certs)) +
     ECDSA (AlgorithmInventory (EvaluateCerts now certs)) +
     Ed25519 (AlgorithmInventory (EvaluateCerts now certs)) \<le> TotalCerts (EvaluateCerts now certs)"
proof -
  have t: "tally p (sortFindings (all_findings now certs)) = tally p (all_findings now certs)" for p
    by (rule tally_mset) simp
  show ?thesis
    using inventory_total [of "\<lparr>RSA2048Plus = 0, RSAUnder2048 = 0, ECDSA = 0, Ed25519 = 0, SHA1Signatures = 0\<rparr>" certs]
    by (simp add: EvaluateCerts_def Let_def add_certs sortFindings_sorted t)
qed

text \<open>Only the SC-081 pack emits findings of pack \<^verbatim>\<open>sc081\<close>.\<close>

lemma pci_no_violation: "tally isSC081Violation (EvaluatePCI i) = 0"
  and crypto_no_violation: "tally isSC081Violation (EvaluateCrypto i) = 0"
  by (simp_all add: EvaluatePCI_def EvaluateCrypto_def isSC081Violation_def mk_finding_def)

lemma tally_EvaluateCert:
  "tally isSC081Violation (EvaluateCert now c) = tally isSC081Violation (EvaluateSC081 now (CertInputFromStore c))"
proof -
  have "tally isSC081Violation (EvaluateCert now c) = tally isSC081Violation
      (EvaluateSC081 now (CertInputFromStore c) @ EvaluatePCI (CertInputFromStore c) @ EvaluateCrypto (CertInputFromStore c))"
    by (rule tally_mset) (simp add: EvaluateCert_def Let_def)
  then show ?thesis by (simp add: pci_no_violation crypto_no_violation)
qed

lemma foldl_tally: "foldl (\<lambda>m f. if p f then m + 1 else m) n fs = n + tally p fs"
  by (induction fs arbitrary: n) simp_all

lemma foldl_count_violations:
  "foldl (\<lambda>n c. foldl (\<lambda>m f. if isSC081Violation f then m + 1 else m) n
      (EvaluateSC081 now (CertInputFromStore c))) n cs = n + tally isSC081Violation (all_findings now cs)"
  by (induction cs arbitrary: n) (simp_all add: foldl_tally tally_EvaluateCert)

text \<open>
  \<^verbatim>\<open>CountSC081Violations\<close>, which runs the SC-081 pack alone, agrees with the count of the
  full evaluation on every store and every outcome: the same number, the same error, or both loops
  still running.
\<close>

theorem CountSC081Violations_eq:
  "CountSC081Violations now st scanID =
     map_option (map_sum id SC081ViolationCount) (EvaluateScan now st scanID)"
  by (simp add: CountSC081Violations_def EvaluateScan_def foldl_count_violations EvaluateCerts_def Let_def
      add_certs split: option.splits sum.splits)

subsection \<open>Paging\<close>

text \<open>
  What the loops rely on: the store answers a page of a fixed list of rows, with its length as the
  total. Three loops of the sources share it (compliance, posture, report).
\<close>

locale cert_pager =
  fixes page :: "int \<Rightarrow> error + certificate list \<times> int" and rows :: "certificate list" and lim :: nat
  assumes page_rows: "page (int k) = Inr (take lim (drop k rows), int (length rows))"
    and lim_pos: "0 < lim"
begin

lemma pages_all: "k \<le> length rows \<Longrightarrow> all = take k rows \<Longrightarrow> load_pages page (int k) all = Some (Inr rows)"
proof (induction "length rows - k" arbitrary: k all rule: less_induct)
  case less
  define batch where "batch = take lim (drop k rows)"
  have eq: "load_pages page (int k) all =
      (if int k + int (length batch) \<ge> int (length rows) \<or> length batch = 0 then Some (Inr (all @ batch))
       else load_pages page (int k + int (length batch)) (all @ batch))"
    by (subst load_pages.simps) (simp add: page_rows Let_def flip: batch_def)
  have app: "all @ batch = take (k + length batch) rows"
    using less.prems unfolding batch_def by (simp add: take_add) (simp add: min_def)
  show ?case
  proof (cases "length rows \<le> k + length batch \<or> length batch = 0")
    case True
    moreover have "length batch = 0 \<Longrightarrow> length rows \<le> k" using lim_pos by (auto simp: batch_def)
    ultimately have "length rows \<le> k + length batch" by auto
    then show ?thesis using eq app by simp
  next
    case False
    then have "load_pages page (int (k + length batch)) (all @ batch) = Some (Inr rows)"
      by (intro less.hyps) (use app in \<open>auto simp: diff_less_mono2\<close>)
    then show ?thesis using eq False by simp
  qed
qed

lemma pages_complete: "load_pages page 0 [] = Some (Inr rows)"
  using pages_all [of 0 "[]"] by simp

end

end
