(* ===== verification/Certificate_Store.thy ===== *)
theory Certificate_Store
  imports Lifecycle_Jobs Compliance
begin

text \<open>
  The certificate and issuer operations of \<^verbatim>\<open>internal/store/store.go\<close> and
  \<^verbatim>\<open>internal/store/certificates.go\<close>. Enum columns refuse values outside their type and foreign
  keys refuse missing rows, as the migrations declare them; deleting a row cascades as they say.
\<close>

section \<open>Pattern matching\<close>

text \<open>SQL's \<^verbatim>\<open>LIKE\<close>, with the backslash as escape character, on text of one byte per character.\<close>

function like :: "string \<Rightarrow> string \<Rightarrow> bool" where
  "like [] s = (s = [])"
| "like (c # p) s =
     (if c = CHR ''%'' then like p s \<or> (case s of [] \<Rightarrow> False | _ # s' \<Rightarrow> like (c # p) s')
      else if c = CHR ''_'' then (case s of [] \<Rightarrow> False | _ # s' \<Rightarrow> like p s')
      else if c = CHR 0x5C then
        (case p of [] \<Rightarrow> False | d # p' \<Rightarrow> (case s of [] \<Rightarrow> False | x # s' \<Rightarrow> x = d \<and> like p' s'))
      else (case s of [] \<Rightarrow> False | x # s' \<Rightarrow> x = c \<and> like p s'))"
  by pat_completeness auto
termination by (relation "measure (\<lambda>(p, s). length p + length s)") auto

definition ilike :: "string option \<Rightarrow> string \<Rightarrow> bool" where
  "ilike v pat \<longleftrightarrow> (case v of None \<Rightarrow> False | Some s \<Rightarrow> like (to_lower pat) (to_lower s))"

section \<open>Reading certificates\<close>

definition observed_in :: "uuid \<Rightarrow> db \<Rightarrow> certificate \<Rightarrow> bool" where
  "observed_in scanID s c \<longleftrightarrow> (\<exists>ob\<in>set (t_observations s). o_CertificateID ob = c_ID c \<and> o_ScanID ob = scanID)"

text \<open>The columns of a select, with the observation count that the subquery computes.\<close>

definition select_cert :: "db \<Rightarrow> certificate \<Rightarrow> certificate" where
  "select_cert s c = c\<lparr>c_ObservationCount := hits (\<lambda>ob. o_CertificateID ob = c_ID c) (t_observations s),
     c_PQCTag := (if c_PQCTag c = [] then ''unknown'' else c_PQCTag c)\<rparr>"

definition cert_status_enum :: "string list" where
  "cert_status_enum = [''valid'', ''expiring_soon'', ''expired'', ''revoked'']"

definition chain_status_enum :: "string list" where
  "chain_status_enum = [''complete'', ''self_signed'', ''incomplete'', ''untrusted_root'']"

definition managed_status_enum :: "string list" where
  "managed_status_enum = [''managed_in_vault'', ''unmanaged'', ''imported'']"

definition cert_matches :: "certificate_filter \<Rightarrow> db \<Rightarrow> certificate \<Rightarrow> bool" where
  "cert_matches f s c \<longleftrightarrow>
     (cf_Status f = [] \<or> c_Status c = cf_Status f) \<and>
     (cf_ChainStatus f = [] \<or> c_ChainStatus c = cf_ChainStatus f) \<and>
     (cf_Search f = [] \<or> (let pat = ''%'' @ cf_Search f @ ''%'' in
        ilike (c_SubjectCN c) pat \<or> ilike (Some (c_FingerprintSHA256 c)) pat \<or>
        ilike (Some (db_jsonb_text s (c_SubjectAltNames c))) pat)) \<and>
     (cf_ScanID f = 0 \<or> observed_in (cf_ScanID f) s c) \<and>
     (cf_PQCTag f = [] \<or> c_PQCTag c = cf_PQCTag f) \<and>
     (case cf_MinRisk f of None \<Rightarrow> True | Some r \<Rightarrow> c_RiskScore c \<ge> r)"

text \<open>The \<^verbatim>\<open>ORDER BY\<close> clause: by risk if asked, then the most recently seen first.\<close>

definition cert_order :: "certificate_filter \<Rightarrow> certificate \<Rightarrow> int \<times> int" where
  "cert_order f c =
     ((if cf_SortBy f = ''risk_score'' then (if cf_SortDesc f then - c_RiskScore c else c_RiskScore c) else 0),
      - c_LastSeen c)"

definition cert_rows :: "certificate_filter \<Rightarrow> db \<Rightarrow> certificate list" where
  "cert_rows f s = map (select_cert s) (sort_key (cert_order f) (filter (cert_matches f s) (t_certificates s)))"

text \<open>A filter on a value outside the enum, or a negative offset, makes the query fail.\<close>

definition bad_filter :: "certificate_filter \<Rightarrow> bool" where
  "bad_filter f \<longleftrightarrow> (cf_Status f \<noteq> [] \<and> cf_Status f \<notin> set cert_status_enum) \<or>
     (cf_ChainStatus f \<noteq> [] \<and> cf_ChainStatus f \<notin> set chain_status_enum)"

definition ListCertificates :: "certificate_filter \<Rightarrow> (certificate list \<times> int) op" where
  "ListCertificates f =
     (let lim = (if cf_Limit f \<le> 0 then 50 else cf_Limit f) in
      bind_op (db_call (\<lambda>s. if bad_filter f then (Inl ErrDB, s)
                 else (Inr (int (length (filter (cert_matches f s) (t_certificates s)))), s))) (\<lambda>tot.
      bind_op (db_call (\<lambda>s. if cf_Offset f < 0 then (Inl ErrDB, s)
                 else (Inr (take (nat lim) (drop (nat (cf_Offset f)) (cert_rows f s))), s))) (\<lambda>certs s.
        (Inr (certs, tot), s))))"

definition GetCertificate :: "uuid \<Rightarrow> certificate op" where
  "GetCertificate i = db_call (\<lambda>s. case List.find (\<lambda>c. c_ID c = i) (t_certificates s) of
     None \<Rightarrow> (Inl ErrCertificateNotFound, s) | Some c \<Rightarrow> (Inr (select_cert s c), s))"

definition renewable :: "int \<Rightarrow> certificate \<Rightarrow> bool" where
  "renewable withinDays c \<longleftrightarrow> c_RenewalConfig c \<noteq> None \<and>
     c_ManagedStatus c \<in> {''imported'', ''managed_in_vault''} \<and> c_Status c \<noteq> ''revoked'' \<and>
     \<not> c_IsCA c \<and> c_DaysUntilExpiry c \<le> withinDays"

definition ListRenewable :: "int \<Rightarrow> certificate list op" where
  "ListRenewable withinDays = db_call (\<lambda>s.
     (Inr (map (select_cert s) (sort_key c_DaysUntilExpiry (filter (renewable withinDays) (t_certificates s)))), s))"

definition GetCertificateObservations :: "uuid \<Rightarrow> observation list op" where
  "GetCertificateObservations certID = db_call (\<lambda>s.
     (Inr (sort_key (\<lambda>ob. - o_ObservedAt ob) (filter (\<lambda>ob. o_CertificateID ob = certID) (t_observations s))), s))"

definition CountByManagedStatus :: "uuid option \<Rightarrow> (int \<times> int) op" where
  "CountByManagedStatus scanID = db_call (\<lambda>s.
     let rows = filter (\<lambda>c. case scanID of None \<Rightarrow> True | Some i \<Rightarrow> observed_in i s c) (t_certificates s) in
     (Inr (int (hits (\<lambda>c. c_ManagedStatus c = ''managed_in_vault'') rows), int (length rows)), s))"

section \<open>Discovery\<close>

record parsed_certificate =
  pc_SerialNumber :: string
  pc_FingerprintSHA256 :: string
  pc_SubjectCN :: string
  pc_SubjectAltNames :: "string list"
  pc_IssuerDN :: string
  pc_AuthorityKeyID :: string
  pc_NotBefore :: time
  pc_NotAfter :: time
  pc_KeyType :: string
  pc_KeyBits :: int
  pc_SignatureAlgorithm :: string
  pc_IsCA :: bool
  pc_KeyUsage :: "string list"
  pc_ExtKeyUsage :: "string list"
  pc_PEM :: string
  pc_CRLDistributionPoints :: "string list"
  pc_OCSPServers :: "string list"
  pc_ChainStatus :: string
  pc_HostnameMatchesSAN :: bool
  pc_PQCTag :: string
  pc_Notes :: string

record probe_observation =
  po_IP :: string
  po_Port :: int
  po_Hostname :: string
  po_SNI :: string
  po_TLSVersion :: string
  po_CipherSuite :: string
  po_ObservedAt :: time

definition nullStr :: "string \<Rightarrow> string option" where
  "nullStr v = (if v = [] then None else Some v)"

definition pqcTagOrUnknown :: "string \<Rightarrow> string" where
  "pqcTagOrUnknown tag = (if tag \<in> {''classic'', ''hybrid'', ''pqc'', ''unknown''} then tag else ''unknown'')"

text \<open>The marks that keep a revoked status through a rescan. The underscores are \<^verbatim>\<open>LIKE\<close> wildcards.\<close>

definition revocation_recorded :: "certificate \<Rightarrow> bool" where
  "revocation_recorded c \<longleftrightarrow> (case c_RevocationStatus c of None \<Rightarrow> False
     | Some r \<Rightarrow> r = ''revoked_in_vault'' \<or> like ''revoked_via_%'' r)"

definition new_cert :: "parsed_certificate \<Rightarrow> probe_observation \<Rightarrow> string \<Rightarrow> int \<Rightarrow> string \<Rightarrow> db \<Rightarrow> certificate" where
  "new_cert parsed ob st days certScope s = \<lparr>c_ID = new_uuid s, c_SerialNumber = pc_SerialNumber parsed,
     c_FingerprintSHA256 = pc_FingerprintSHA256 parsed, c_SubjectCN = nullStr (pc_SubjectCN parsed),
     c_SubjectAltNames = pc_SubjectAltNames parsed, c_IssuerDN = pc_IssuerDN parsed,
     c_AuthorityKeyID = nullStr (pc_AuthorityKeyID parsed), c_NotBefore = pc_NotBefore parsed,
     c_NotAfter = pc_NotAfter parsed, c_KeyType = pc_KeyType parsed, c_KeyBits = pc_KeyBits parsed,
     c_SignatureAlgorithm = pc_SignatureAlgorithm parsed, c_IsCA = pc_IsCA parsed, c_KeyUsage = pc_KeyUsage parsed,
     c_ExtKeyUsage = pc_ExtKeyUsage parsed, c_PEM = pc_PEM parsed, c_DaysUntilExpiry = days, c_Status = st,
     c_RevocationStatus = None, c_RevocationCheckedAt = None,
     c_CRLDistributionPoints = pc_CRLDistributionPoints parsed, c_OCSPServers = pc_OCSPServers parsed,
     c_FirstDiscovered = po_ObservedAt ob, c_LastSeen = po_ObservedAt ob,
     c_HostnameMatchesSAN = pc_HostnameMatchesSAN parsed, c_ChainStatus = pc_ChainStatus parsed,
     c_ManagedStatus = ''unmanaged'', c_CertScope = certScope, c_VaultIssuerRef = None, c_VaultPKIMount = None,
     c_Owner = None, c_Team = None, c_Environment = None, c_Tags = [], c_RiskScore = 0, c_RiskReasons = [],
     c_PQCTag = pqcTagOrUnknown (pc_PQCTag parsed), c_RemediationState = ''none'', c_RenewalConfig = None,
     c_ObservationCount = 0, c_CreatedAt = sql_now s, c_UpdatedAt = sql_now s\<rparr>"

definition rescan_row :: "parsed_certificate \<Rightarrow> probe_observation \<Rightarrow> string \<Rightarrow> int \<Rightarrow> string \<Rightarrow> time \<Rightarrow> certificate \<Rightarrow> certificate" where
  "rescan_row parsed ob st days certScope now c = c\<lparr>c_LastSeen := po_ObservedAt ob, c_DaysUntilExpiry := days,
     c_Status := (if revocation_recorded c then c_Status c else st), c_CertScope := certScope,
     c_PQCTag := pqcTagOrUnknown (pc_PQCTag parsed), c_UpdatedAt := now\<rparr>"

text \<open>\<^verbatim>\<open>INSERT ... ON CONFLICT (fingerprint_sha256) DO UPDATE ... RETURNING id\<close>.\<close>

definition upsert_cert_row :: "parsed_certificate \<Rightarrow> probe_observation \<Rightarrow> string \<Rightarrow> int \<Rightarrow> string \<Rightarrow> uuid op" where
  "upsert_cert_row parsed ob st days certScope s =
     (if pc_ChainStatus parsed \<notin> set chain_status_enum then (Inl ErrDB, s)
      else case List.find (\<lambda>c. c_FingerprintSHA256 c = pc_FingerprintSHA256 parsed) (t_certificates s) of
        Some c \<Rightarrow> (Inr (c_ID c), s\<lparr>t_certificates :=
          upd_where (\<lambda>r. c_FingerprintSHA256 r = pc_FingerprintSHA256 parsed)
            (rescan_row parsed ob st days certScope (sql_now s)) (t_certificates s)\<rparr>)
      | None \<Rightarrow> if \<not> pk_free c_ID (new_uuid s) (t_certificates s) then (Inl ErrDB, s)
          else (Inr (new_uuid s), s\<lparr>db_seq := Suc (db_seq s),
            t_certificates := t_certificates s @ [new_cert parsed ob st days certScope s]\<rparr>))"

text \<open>The unique key of observations has a nullable column: rows without SNI never conflict.\<close>

definition same_observation :: "uuid \<Rightarrow> uuid \<Rightarrow> probe_observation \<Rightarrow> observation \<Rightarrow> bool" where
  "same_observation certID scanID ob r \<longleftrightarrow> o_CertificateID r = certID \<and> o_ScanID r = scanID \<and> o_IP r = po_IP ob \<and>
     o_Port r = po_Port ob \<and> o_SNI r \<noteq> None \<and> o_SNI r = nullStr (po_SNI ob)"

definition upsert_observation :: "uuid \<Rightarrow> uuid \<Rightarrow> probe_observation \<Rightarrow> unit op" where
  "upsert_observation certID scanID ob s =
     (if \<not> fk_cert (Some certID) s \<or> \<not> (\<exists>sc\<in>set (t_scans s). s_ID sc = scanID) then (Inl ErrDB, s)
      else if \<exists>r\<in>set (t_observations s). same_observation certID scanID ob r
      then (Inr (), s\<lparr>t_observations := upd_where (same_observation certID scanID ob)
             (\<lambda>r. r\<lparr>o_ObservedAt := po_ObservedAt ob\<rparr>) (t_observations s)\<rparr>)
      else if \<not> pk_free o_ID (new_uuid s) (t_observations s) then (Inl ErrDB, s)
      else (Inr (), s\<lparr>db_seq := Suc (db_seq s), t_observations := t_observations s @
        [\<lparr>o_ID = new_uuid s, o_CertificateID = certID, o_ScanID = scanID, o_IP = po_IP ob, o_Port = po_Port ob,
          o_Hostname = nullStr (po_Hostname ob), o_SNI = nullStr (po_SNI ob), o_TLSVersion = nullStr (po_TLSVersion ob),
          o_CipherSuite = nullStr (po_CipherSuite ob), o_ObservedAt = po_ObservedAt ob\<rparr>]\<rparr>))"

definition cataloguePayload :: "uuid \<Rightarrow> string \<Rightarrow> string \<Rightarrow> string \<Rightarrow> int \<Rightarrow> string \<Rightarrow> string \<Rightarrow> json" where
  "cataloguePayload certID fp cn st days managed certScope = JObj [(''cert_scope'', JStr certScope),
     (''certificate_id'', JId certID), (''days_until_expiry'', JNum days), (''fingerprint_sha256'', JStr fp),
     (''managed_status'', JStr managed), (''status'', JStr st), (''subject_cn'', JStr cn)]"

definition emitDiscoveryCatalogueEvents ::
  "uuid \<Rightarrow> parsed_certificate \<Rightarrow> string \<Rightarrow> int \<Rightarrow> string \<Rightarrow> bool \<Rightarrow> string \<Rightarrow> unit op" where
  "emitDiscoveryCatalogueEvents certID parsed st days certScope inserted prevStatus =
     (let payload = cataloguePayload certID (pc_FingerprintSHA256 parsed) (pc_SubjectCN parsed) st days ''unmanaged'' certScope in
      bind_op (if inserted then bind_op (appendEventStandalone ''cert.discovered'' (Some certID) payload)
                   (\<lambda>_. appendEventStandalone ''blind_spot.detected'' (Some certID) payload)
               else (\<lambda>s. (Inr (), s))) (\<lambda>_.
      if st = status_str StatusExpiringSoon \<and> (inserted \<or> prevStatus \<noteq> status_str StatusExpiringSoon)
      then appendEventStandalone ''cert.expiring'' (Some certID) payload
      else (\<lambda>s. (Inr (), s))))"

definition UpsertCertificate :: "int \<Rightarrow> uuid \<Rightarrow> parsed_certificate \<Rightarrow> probe_observation \<Rightarrow> uuid op" where
  "UpsertCertificate expiringSoonDays scanID parsed ob s =
     (case Compute (go_now s) (pc_NotAfter parsed) expiringSoonDays False of (status, days) \<Rightarrow>
      let st = status_str status;
          hostname = (if po_Hostname ob = [] then po_SNI ob else po_Hostname ob);
          certScope = ClassifyScope (pc_ChainStatus parsed) (pc_IssuerDN parsed) hostname [] in
      bind_op (db_call (\<lambda>s. (Inr (List.find (\<lambda>c. c_FingerprintSHA256 c = pc_FingerprintSHA256 parsed) (t_certificates s)), s)))
        (\<lambda>existing. bind_op (db_call (upsert_cert_row parsed ob st days certScope)) (\<lambda>certID.
         bind_op (db_call (upsert_observation certID scanID ob)) (\<lambda>_.
         bind_op (emitDiscoveryCatalogueEvents certID parsed st days certScope (existing = None)
                    (case existing of None \<Rightarrow> [] | Some c \<Rightarrow> c_Status c)) (\<lambda>_ s.
           (Inr certID, s))))) s)"

section \<open>Other writes\<close>

record enrichment_update =
  eu_Owner :: "string option"
  eu_Team :: "string option"
  eu_Environment :: "string option"
  eu_Tags :: "string list option"

definition UpdateCertificateEnrichment :: "uuid \<Rightarrow> enrichment_update \<Rightarrow> certificate op" where
  "UpdateCertificateEnrichment i u = bind_op (db_call (\<lambda>s.
     (Inr (), s\<lparr>t_certificates := upd_where (\<lambda>c. c_ID c = i)
        (\<lambda>c. c\<lparr>c_Owner := coalesce (eu_Owner u) (c_Owner c), c_Team := coalesce (eu_Team u) (c_Team c),
               c_Environment := coalesce (eu_Environment u) (c_Environment c),
               c_Tags := (case eu_Tags u of None \<Rightarrow> c_Tags c | Some ts \<Rightarrow> ts), c_UpdatedAt := sql_now s\<rparr>)
        (t_certificates s)\<rparr>))) (\<lambda>_. GetCertificate i)"

definition SetRenewalConfig :: "uuid \<Rightarrow> renewal_config \<Rightarrow> certificate op" where
  "SetRenewalConfig i cfg = bind_op (db_call (set_renewal_config_tx i cfg)) (\<lambda>_. GetCertificate i)"

definition MarkRevoked :: "uuid \<Rightarrow> string \<Rightarrow> unit op" where
  "MarkRevoked i source = db_call (bind_op (\<lambda>s.
     if hits (\<lambda>c. c_ID c = i) (t_certificates s) = 0 then (Inl ErrCertificateNotFound, s)
     else (Inr (), s\<lparr>t_certificates := upd_where (\<lambda>c. c_ID c = i)
        (\<lambda>c. c\<lparr>c_Status := ''revoked'', c_RevocationStatus := Some (''revoked_via_'' @ source),
               c_RevocationCheckedAt := Some (sql_now s), c_UpdatedAt := sql_now s\<rparr>) (t_certificates s)\<rparr>))
     (\<lambda>_. appendEventTx ''cert.revoked'' (Some i)
        (JObj [(''revocation_status'', JStr (''revoked_via_'' @ source)), (''source'', JStr source)])))"

definition SetManagedStatus :: "uuid \<Rightarrow> string \<Rightarrow> certificate op" where
  "SetManagedStatus i st = bind_op (db_call (\<lambda>s.
      if st \<notin> set managed_status_enum then (Inl ErrDB, s)
      else let p = (\<lambda>c. c_ID c = i \<and> c_ManagedStatus c \<noteq> ''managed_in_vault'') in
        (Inr (hits p (t_certificates s)), s\<lparr>t_certificates := upd_where p
           (\<lambda>c. c\<lparr>c_ManagedStatus := st, c_UpdatedAt := sql_now s\<rparr>) (t_certificates s)\<rparr>)))
     (\<lambda>n. if n = 0 then bind_op (GetCertificate i) (\<lambda>_ s. (Inl ErrManagedByVault, s)) else GetCertificate i)"

record managed_update =
  mu_ManagedStatus :: string
  mu_VaultPKIMount :: string
  mu_VaultIssuerRef :: "string option"
  mu_Revoked :: bool

definition reconcile_row :: "managed_update \<Rightarrow> time \<Rightarrow> certificate \<Rightarrow> certificate" where
  "reconcile_row u now c = c\<lparr>c_ManagedStatus := mu_ManagedStatus u, c_VaultPKIMount := Some (mu_VaultPKIMount u),
     c_VaultIssuerRef := mu_VaultIssuerRef u, c_Status := (if mu_Revoked u then ''revoked'' else c_Status c),
     c_RevocationStatus := (if mu_Revoked u then Some ''revoked_in_vault''
        else if c_RevocationStatus c = Some ''revoked_in_vault'' then None else c_RevocationStatus c),
     c_RevocationCheckedAt := Some now, c_UpdatedAt := now\<rparr>"

definition UpdateManagedStatusByFingerprint :: "string \<Rightarrow> managed_update \<Rightarrow> bool op" where
  "UpdateManagedStatusByFingerprint fingerprint u = db_call (\<lambda>s.
     if mu_ManagedStatus u \<notin> set managed_status_enum then (Inl ErrDB, s)
     else (Inr (hits (\<lambda>c. c_FingerprintSHA256 c = fingerprint) (t_certificates s) > 0),
       s\<lparr>t_certificates := upd_where (\<lambda>c. c_FingerprintSHA256 c = fingerprint)
          (reconcile_row u (sql_now s)) (t_certificates s)\<rparr>))"

text \<open>Deletes: observations, findings and waivers go with the row, events and jobs lose the reference.\<close>

definition clear_ref :: "uuid \<Rightarrow> uuid option \<Rightarrow> uuid option" where
  "clear_ref i r = (if r = Some i then None else r)"

definition DeleteCertificate :: "uuid \<Rightarrow> unit op" where
  "DeleteCertificate i = db_call (\<lambda>s.
     if hits (\<lambda>c. c_ID c = i) (t_certificates s) = 0 then (Inl ErrCertificateNotFound, s)
     else (Inr (), s\<lparr>t_certificates := filter (\<lambda>c. c_ID c \<noteq> i) (t_certificates s),
        t_observations := filter (\<lambda>ob. o_CertificateID ob \<noteq> i) (t_observations s),
        t_events := map (\<lambda>e. e\<lparr>e_CertificateID := clear_ref i (e_CertificateID e)\<rparr>) (t_events s),
        t_jobs := map (\<lambda>j. j\<lparr>j_PredecessorCertID := clear_ref i (j_PredecessorCertID j),
                             j_SuccessorCertID := clear_ref i (j_SuccessorCertID j)\<rparr>) (t_jobs s),
        t_findings := filter (\<lambda>f. f_CertID f \<noteq> i) (t_findings s),
        t_waivers := filter (\<lambda>w. w_CertID w \<noteq> i) (t_waivers s)\<rparr>))"

definition DeleteScan :: "uuid \<Rightarrow> unit op" where
  "DeleteScan i = db_call (\<lambda>s.
     if hits (\<lambda>sc. s_ID sc = i) (t_scans s) = 0 then (Inl ErrScanNotFound, s)
     else (Inr (), s\<lparr>t_scans := filter (\<lambda>sc. s_ID sc \<noteq> i) (t_scans s),
        t_observations := filter (\<lambda>ob. o_ScanID ob \<noteq> i) (t_observations s)\<rparr>))"

section \<open>Issuers\<close>

definition UpsertIssuer :: "int \<Rightarrow> parsed_certificate \<Rightarrow> string list \<Rightarrow> unit op" where
  "UpsertIssuer expiringSoonDays parsed caChain s =
     (case Compute (go_now s) (pc_NotAfter parsed) expiringSoonDays False of (status, days) \<Rightarrow>
      db_call (\<lambda>s.
        if \<exists>i\<in>set (t_issuers s). i_FingerprintSHA256 i = pc_FingerprintSHA256 parsed
        then (Inr (), s\<lparr>t_issuers := upd_where (\<lambda>i. i_FingerprintSHA256 i = pc_FingerprintSHA256 parsed)
               (\<lambda>i. i\<lparr>i_DaysUntilExpiry := days, i_Status := status_str status, i_CAChain := caChain\<rparr>) (t_issuers s)\<rparr>)
        else if \<not> pk_free i_ID (new_uuid s) (t_issuers s) then (Inl ErrDB, s)
        else (Inr (), s\<lparr>db_seq := Suc (db_seq s), t_issuers := t_issuers s @
          [\<lparr>i_ID = new_uuid s, i_FingerprintSHA256 = pc_FingerprintSHA256 parsed, i_SerialNumber = pc_SerialNumber parsed,
            i_SubjectCN = nullStr (pc_SubjectCN parsed), i_IssuerDN = pc_IssuerDN parsed, i_NotBefore = pc_NotBefore parsed,
            i_NotAfter = pc_NotAfter parsed, i_KeyType = pc_KeyType parsed, i_KeyBits = pc_KeyBits parsed,
            i_IsCA = pc_IsCA parsed, i_PEM = pc_PEM parsed, i_DaysUntilExpiry = days, i_Status = status_str status,
            i_IssuerName = None, i_IssuerID = None, i_CAChain = caChain, i_VaultIssuerRef = None,
            i_VaultPKIMount = None\<rparr>]\<rparr>)) s)"

definition ListIssuers :: "int \<Rightarrow> int \<Rightarrow> issuer list op" where
  "ListIssuers limit offset = db_call (\<lambda>s.
     let lim = (if limit \<le> 0 then 50 else limit) in
     if offset < 0 then (Inl ErrDB, s)
     else (Inr (take (nat lim) (drop (nat offset) (sort_key i_NotAfter (t_issuers s)))), s))"

definition GetIssuerPEMForCert :: "string \<Rightarrow> string op" where
  "GetIssuerPEMForCert issuerDN = db_call (\<lambda>s.
     (Inr (case pick (\<lambda>i. i_IsCA i \<and> (case i_SubjectCN i of None \<Rightarrow> False
                 | Some cn \<Rightarrow> cn \<noteq> [] \<and> str_contains issuerDN cn)) (\<lambda>i. - i_NotAfter i) 1 (t_issuers s)
           of [] \<Rightarrow> [] | i # _ \<Rightarrow> i_PEM i), s))"

definition GetIssuer :: "uuid \<Rightarrow> issuer op" where
  "GetIssuer i = db_call (\<lambda>s. case List.find (\<lambda>r. i_ID r = i) (t_issuers s) of
     None \<Rightarrow> (Inl ErrIssuerNotFound, s) | Some r \<Rightarrow> (Inr r, s))"

definition SetIssuerVaultRef :: "uuid \<Rightarrow> string \<Rightarrow> string \<Rightarrow> issuer op" where
  "SetIssuerVaultRef i issuerRef mount = bind_op (db_call (\<lambda>s.
     if hits (\<lambda>r. i_ID r = i) (t_issuers s) = 0 then (Inl ErrIssuerNotFound, s)
     else (Inr (), s\<lparr>t_issuers := upd_where (\<lambda>r. i_ID r = i)
       (\<lambda>r. r\<lparr>i_VaultIssuerRef := Some issuerRef, i_VaultPKIMount := Some mount\<rparr>) (t_issuers s)\<rparr>))) (\<lambda>_. GetIssuer i)"

definition DeleteIssuer :: "uuid \<Rightarrow> unit op" where
  "DeleteIssuer i = db_call (\<lambda>s.
     if hits (\<lambda>r. i_ID r = i) (t_issuers s) = 0 then (Inl ErrIssuerNotFound, s)
     else (Inr (), s\<lparr>t_issuers := filter (\<lambda>r. i_ID r \<noteq> i) (t_issuers s)\<rparr>))"

section \<open>One row per fingerprint\<close>

definition cert_inv :: "db \<Rightarrow> bool" where
  "cert_inv s \<longleftrightarrow> distinct (map c_ID (t_certificates s)) \<and> distinct (map c_FingerprintSHA256 (t_certificates s))"

definition certs_kept :: "db \<Rightarrow> db \<Rightarrow> bool" where
  "certs_kept s s' \<longleftrightarrow> (cert_inv s \<longrightarrow> cert_inv s')"

interpretation ck: op_relation certs_kept
  by unfold_locales (auto simp: certs_kept_def cert_inv_def)

lemma certs_kept_same: "t_certificates s' = t_certificates s \<Longrightarrow> certs_kept s s'"
  by (simp add: certs_kept_def cert_inv_def)

lemma certs_kept_upd:
  assumes "\<And>c. c_ID (f c) = c_ID c" and "\<And>c. c_FingerprintSHA256 (f c) = c_FingerprintSHA256 c"
  shows "certs_kept s (s\<lparr>t_certificates := upd_where p f (t_certificates s)\<rparr>)"
  using assms by (simp add: certs_kept_def cert_inv_def map_upd_where)

lemma GetCertificate_read: "GetCertificate i s = (r, s') \<Longrightarrow> s' = next_step s"
  by (auto simp: GetCertificate_def db_call_def split: option.splits if_splits)

lemma appendEventTx_certs: "appendEventTx ty c p s = (r, s') \<Longrightarrow> t_certificates s' = t_certificates s"
  by (auto simp: appendEventTx_def split: if_splits)

text \<open>
  The rules below reduce an operation on certificates to its statements, for any relation that holds
  when the table of certificates is unchanged.
\<close>

locale cert_relation = op_relation +
  assumes R_same: "t_certificates s' = t_certificates s \<Longrightarrow> R s s'"
begin

lemma GetCertificate_ok: "op_ok (GetCertificate i)"
  unfolding op_ok_def by (metis GetCertificate_read R_step surjective_pairing)

lemma appendEventTx_ok: "tx_ok (appendEventTx ty c p)"
  by (rule tx_okI) (auto dest: appendEventTx_certs intro: R_same)

lemma appendEventStandalone_ok: "op_ok (appendEventStandalone ty c p)"
  unfolding appendEventStandalone_def by (intro op_ok_call appendEventTx_ok)

lemma upsert_observation_ok: "tx_ok (upsert_observation c sc ob)"
  by (rule tx_okI) (auto simp: upsert_observation_def split: if_splits intro!: R_same)

lemma emit_ok: "op_ok (emitDiscoveryCatalogueEvents c parsed st days sc ins prev)"
  unfolding emitDiscoveryCatalogueEvents_def Let_def
  by (intro op_ok_bind) (auto intro!: op_ok_bind appendEventStandalone_ok op_ok_ret)

lemma UpsertCertificate_ok:
  assumes "\<And>st days sc. tx_ok (upsert_cert_row parsed ob st days sc)"
  shows "op_ok (UpsertCertificate esd scanID parsed ob)"
proof -
  have "op_ok (bind_op (db_call (\<lambda>s. (Inr (g s), s))) (\<lambda>existing.
      bind_op (db_call (upsert_cert_row parsed ob st days sc)) (\<lambda>certID.
      bind_op (db_call (upsert_observation certID scanID ob)) (\<lambda>_.
      bind_op (emitDiscoveryCatalogueEvents certID parsed st days sc (ins existing) (prev existing)) (\<lambda>_ s.
        (Inr certID, s))))))" for g :: "db \<Rightarrow> certificate option" and st days sc ins prev
    by (intro op_ok_bind op_ok_call tx_ok_ret assms upsert_observation_ok emit_ok op_ok_ret)
  then show ?thesis
    by (simp add: op_ok_def UpsertCertificate_def Let_def split: prod.splits)
qed

end

interpretation ck: cert_relation certs_kept
  by unfold_locales (rule certs_kept_same)

lemma new_cert_key [simp]:
  "c_ID (new_cert parsed ob st days sc s) = new_uuid s"
  "c_FingerprintSHA256 (new_cert parsed ob st days sc s) = pc_FingerprintSHA256 parsed"
  by (simp_all add: new_cert_def)

lemma upsert_cert_row_kept: "ck.tx_ok (upsert_cert_row parsed ob st days sc)"
proof (rule ck.tx_okI)
  fix s v s' assume run: "upsert_cert_row parsed ob st days sc s = (Inr v, s')"
  show "certs_kept s s'"
  proof (cases "List.find (\<lambda>c. c_FingerprintSHA256 c = pc_FingerprintSHA256 parsed) (t_certificates s)")
    case None
    then have "pc_FingerprintSHA256 parsed \<notin> c_FingerprintSHA256 ` set (t_certificates s)"
      by (auto simp: find_None_iff)
    moreover have "s' = s\<lparr>db_seq := Suc (db_seq s), t_certificates := t_certificates s @ [new_cert parsed ob st days sc s]\<rparr>"
      "new_uuid s \<notin> c_ID ` set (t_certificates s)"
      using run None by (auto simp: upsert_cert_row_def pk_free_def split: if_splits)
    ultimately show ?thesis by (simp add: certs_kept_def cert_inv_def)
  next
    case (Some c)
    then show ?thesis using run
      by (auto simp: upsert_cert_row_def rescan_row_def split: if_splits intro!: certs_kept_upd)
  qed
qed

lemma upd_cert_tx:
  "(\<And>s c. c_ID (f s c) = c_ID c) \<Longrightarrow> (\<And>s c. c_FingerprintSHA256 (f s c) = c_FingerprintSHA256 c) \<Longrightarrow>
     ck.tx_ok (\<lambda>s. (Inr (g s), s\<lparr>t_certificates := upd_where p (f s) (t_certificates s)\<rparr>))"
  by (rule ck.tx_okI) (auto intro!: certs_kept_upd)

text \<open>Every operation that writes the table of certificates.\<close>

inductive cert_step :: "db \<Rightarrow> db \<Rightarrow> bool" where
  "UpsertCertificate esd scanID parsed ob s = (r, s') \<Longrightarrow> cert_step s s'"
| "UpdateCertificateEnrichment i u s = (c, s') \<Longrightarrow> cert_step s s'"
| "SetRenewalConfig i cfg s = (c, s') \<Longrightarrow> cert_step s s'"
| "MarkRevoked i source s = (v, s') \<Longrightarrow> cert_step s s'"
| "SetManagedStatus i st s = (c, s') \<Longrightarrow> cert_step s s'"
| "UpdateManagedStatusByFingerprint fp mu s = (b, s') \<Longrightarrow> cert_step s s'"
| "DeleteCertificate i s = (v, s') \<Longrightarrow> cert_step s s'"
| "PersistRenewLaunch i cfg fp a w ex s = (j, s') \<Longrightarrow> cert_step s s'"
| "PersistMigrateLaunch i cfg fp a w ex tm nv s = (j, s') \<Longrightarrow> cert_step s s'"

lemma UpdateCertificateEnrichment_kept: "ck.op_ok (UpdateCertificateEnrichment i u)"
  unfolding UpdateCertificateEnrichment_def
  by (intro ck.op_ok_bind ck.op_ok_call upd_cert_tx ck.GetCertificate_ok) simp_all

lemma set_renewal_config_certs: "ck.tx_ok (set_renewal_config_tx i cfg)"
  by (rule ck.tx_okI) (auto dest!: set_renewal_config_done intro!: certs_kept_upd)

lemma SetRenewalConfig_kept: "ck.op_ok (SetRenewalConfig i cfg)"
  unfolding SetRenewalConfig_def
  by (intro ck.op_ok_bind ck.op_ok_call set_renewal_config_certs ck.GetCertificate_ok)

lemma MarkRevoked_kept: "ck.op_ok (MarkRevoked i source)"
  unfolding MarkRevoked_def
  by (intro ck.op_ok_call ck.tx_ok_bind ck.appendEventTx_ok, rule ck.tx_okI)
     (auto split: if_splits intro!: certs_kept_upd)

lemma SetManagedStatus_kept: "ck.op_ok (SetManagedStatus i st)"
proof -
  have "ck.tx_ok (\<lambda>s. if st \<notin> set managed_status_enum then (Inl ErrDB, s)
      else let p = (\<lambda>c. c_ID c = i \<and> c_ManagedStatus c \<noteq> ''managed_in_vault'') in
        (Inr (hits p (t_certificates s)), s\<lparr>t_certificates := upd_where p
           (\<lambda>c. c\<lparr>c_ManagedStatus := st, c_UpdatedAt := sql_now s\<rparr>) (t_certificates s)\<rparr>))"
    by (rule ck.tx_okI) (auto simp: Let_def split: if_splits intro!: certs_kept_upd)
  then show ?thesis unfolding SetManagedStatus_def
    by (intro ck.op_ok_bind ck.op_ok_call) (auto intro!: ck.op_ok_bind ck.GetCertificate_ok ck.op_ok_ret)
qed

lemma UpdateManagedStatusByFingerprint_kept: "ck.op_ok (UpdateManagedStatusByFingerprint fp u)"
  unfolding UpdateManagedStatusByFingerprint_def
  by (rule ck.op_ok_call, rule ck.tx_okI) (auto simp: reconcile_row_def split: if_splits intro!: certs_kept_upd)

lemma DeleteCertificate_kept: "ck.op_ok (DeleteCertificate i)"
  unfolding DeleteCertificate_def
  by (rule ck.op_ok_call, rule ck.tx_okI)
     (auto simp: certs_kept_def cert_inv_def distinct_map_filter split: if_splits)

lemma job_row_certs:
  "ck.tx_ok (\<lambda>s. insert_job (row s) s)" "ck.tx_ok (insert_job_event i ty p)" "ck.tx_ok (insert_approval i a d)"
  by (rule ck.tx_okI, rule certs_kept_same,
      auto simp: insert_job_def insert_job_event_def insert_approval_def split: if_splits)+

lemmas cert_ops_kept = ck.UpsertCertificate_ok [OF upsert_cert_row_kept] UpdateCertificateEnrichment_kept
  SetRenewalConfig_kept MarkRevoked_kept SetManagedStatus_kept UpdateManagedStatusByFingerprint_kept DeleteCertificate_kept

lemma launch_certs: "ck.op_ok (PersistRenewLaunch i cfg fp a w ex)" "ck.op_ok (PersistMigrateLaunch i cfg fp a w ex tm nv)"
  unfolding PersistRenewLaunch_def PersistMigrateLaunch_def
  by (intro ck.op_ok_call ck.tx_ok_bind set_renewal_config_certs job_row_certs ck.appendEventTx_ok ck.tx_ok_ret)+

lemma cert_step_kept: "cert_step s s' \<Longrightarrow> certs_kept s s'"
  by (cases rule: cert_step.cases) (assumption, (rule ck.op_ok_run [rotated], assumption, rule cert_ops_kept launch_certs)+)

text \<open>
  A certificate is one row. Whatever the scanner, the API, the reconciler and the launches write,
  and whichever calls fail, no two rows of the inventory share an id or a fingerprint.
\<close>

theorem one_row_per_fingerprint:
  assumes "cert_step\<^sup>*\<^sup>* s s'" and "cert_inv s"
  shows "cert_inv s'"
proof -
  have "certs_kept s s'" using assms(1)
    by (induction rule: rtranclp_induct) (auto intro: ck.R_refl ck.R_trans cert_step_kept)
  then show ?thesis using assms(2) by (simp add: certs_kept_def)
qed

theorem one_row_per_fingerprint_witness:
  "\<exists>s'. cert_step example_store s' \<and> cert_inv s'"
proof -
  obtain v s' where "MarkRevoked 5 ''crl'' example_store = (v, s')" by force
  then have step: "cert_step example_store s'" by (rule cert_step.intros(4))
  have "cert_inv example_store" by code_simp
  with one_row_per_fingerprint [OF r_into_rtranclp [of cert_step, OF step]] step show ?thesis by blast
qed

section \<open>Revocation\<close>

declare like.simps [simp del]

lemma like_literal: "c \<notin> {CHR ''%'', CHR ''_'', CHR 0x5C} \<Longrightarrow> like (c # p) (c # s) = like p s"
  by (simp add: like.simps)

lemma like_one: "like (CHR ''_'' # p) (x # s) = like p s"
  by (simp add: like.simps)

lemma like_any: "like ''%'' v"
  by (induction v) (simp_all add: like.simps)

lemma like_revoked_via: "like ''revoked_via_%'' (''revoked_via_'' @ source)"
  by (simp add: like_literal like_one like_any)

text \<open>A revocation found by a check of its own (CRL, OCSP), as against one read from Vault.\<close>

definition via_row :: "certificate \<Rightarrow> bool" where
  "via_row c \<longleftrightarrow> c_Status c = ''revoked'' \<and>
     (case c_RevocationStatus c of None \<Rightarrow> False | Some r \<Rightarrow> r \<noteq> ''revoked_in_vault'' \<and> like ''revoked_via_%'' r)"

definition via_revoked :: "uuid \<Rightarrow> db \<Rightarrow> bool" where
  "via_revoked i s \<longleftrightarrow> i \<in> c_ID ` set (t_certificates s) \<and> (\<forall>c\<in>set (t_certificates s). c_ID c = i \<longrightarrow> via_row c)"

definition revoked_kept :: "uuid \<Rightarrow> db \<Rightarrow> db \<Rightarrow> bool" where
  "revoked_kept i s s' \<longleftrightarrow> (via_revoked i s \<longrightarrow> via_revoked i s')"

interpretation rk: cert_relation "revoked_kept i" for i
proof
  show "revoked_kept i s s" "revoked_kept i s (next_step s)" for s
    by (simp_all add: revoked_kept_def via_revoked_def)
  show "revoked_kept i s t \<Longrightarrow> revoked_kept i t u \<Longrightarrow> revoked_kept i s u" for s t u
    by (simp add: revoked_kept_def)
  show "t_certificates s' = t_certificates s \<Longrightarrow> revoked_kept i s s'" for s s'
    by (simp add: revoked_kept_def via_revoked_def)
qed

text \<open>The row a recorded revocation leaves.\<close>

definition revoked_row :: "string \<Rightarrow> time \<Rightarrow> certificate \<Rightarrow> certificate" where
  "revoked_row source now c = c\<lparr>c_Status := ''revoked'', c_RevocationStatus := Some (''revoked_via_'' @ source),
     c_RevocationCheckedAt := Some now, c_UpdatedAt := now\<rparr>"

lemma revoked_row_via: "via_row (revoked_row source now c)" and revoked_row_ID [simp]: "c_ID (revoked_row source now c) = c_ID c"
proof -
  have "''revoked_via_'' @ source \<noteq> ''revoked_in_vault''" by simp
  then show "via_row (revoked_row source now c)" using like_revoked_via [of source]
    by (simp add: via_row_def revoked_row_def)
qed (simp add: revoked_row_def)

lemma revoked_kept_upd:
  assumes "\<And>c. c_ID (f c) = c_ID c" and "\<And>c. via_row c \<Longrightarrow> via_row (f c)"
  shows "revoked_kept i s (s\<lparr>t_certificates := upd_where p f (t_certificates s)\<rparr>)"
  using assms keys_upd_where [of c_ID f p, OF assms(1)]
  by (auto simp: revoked_kept_def via_revoked_def elim!: in_upd_whereE)

lemma via_recorded: "via_row c \<Longrightarrow> revocation_recorded c"
  by (auto simp: via_row_def revocation_recorded_def split: option.splits)

lemma upsert_cert_row_revoked: "rk.tx_ok i (upsert_cert_row parsed ob st days sc)"
proof (rule rk.tx_okI)
  fix s v s' assume run: "upsert_cert_row parsed ob st days sc s = (Inr v, s')"
  show "revoked_kept i s s'"
  proof (cases "List.find (\<lambda>c. c_FingerprintSHA256 c = pc_FingerprintSHA256 parsed) (t_certificates s)")
    case None
    then have "s' = s\<lparr>db_seq := Suc (db_seq s), t_certificates := t_certificates s @ [new_cert parsed ob st days sc s]\<rparr>"
      "new_uuid s \<notin> c_ID ` set (t_certificates s)"
      using run by (auto simp: upsert_cert_row_def pk_free_def split: if_splits)
    then show ?thesis by (auto simp: revoked_kept_def via_revoked_def)
  next
    case (Some c)
    have "via_row (rescan_row parsed ob st days sc now c)" if "via_row c" for now c
      using that via_recorded [OF that] by (simp add: rescan_row_def via_row_def)
    then show ?thesis using run Some
      by (auto simp: upsert_cert_row_def rescan_row_def split: if_splits intro!: revoked_kept_upd)
  qed
qed

lemma MarkRevoked_revoked: "rk.op_ok i (MarkRevoked j source)"
  unfolding MarkRevoked_def revoked_row_def [symmetric]
  by (intro rk.op_ok_call rk.tx_ok_bind rk.appendEventTx_ok, intro rk.tx_okI)
     (auto split: if_splits intro!: revoked_kept_upd simp: revoked_row_via)

lemma revoked_upd_ok:
  "(\<And>s c. c_ID (f s c) = c_ID c) \<Longrightarrow> (\<And>s c. via_row c \<Longrightarrow> via_row (f s c)) \<Longrightarrow>
     rk.tx_ok i (\<lambda>s. (Inr (g s), s\<lparr>t_certificates := upd_where p (f s) (t_certificates s)\<rparr>))"
  by (rule rk.tx_okI) (auto intro!: revoked_kept_upd)

lemma UpdateCertificateEnrichment_revoked: "rk.op_ok i (UpdateCertificateEnrichment j u)"
  unfolding UpdateCertificateEnrichment_def
  by (intro rk.op_ok_bind rk.op_ok_call revoked_upd_ok rk.GetCertificate_ok) (simp_all add: via_row_def)

lemma set_renewal_config_revoked: "rk.tx_ok i (set_renewal_config_tx j cfg)"
  by (rule rk.tx_okI) (auto dest!: set_renewal_config_done intro!: revoked_kept_upd simp: via_row_def)

lemma SetRenewalConfig_revoked: "rk.op_ok i (SetRenewalConfig j cfg)"
  unfolding SetRenewalConfig_def
  by (intro rk.op_ok_bind rk.op_ok_call set_renewal_config_revoked rk.GetCertificate_ok)

lemma SetManagedStatus_revoked: "rk.op_ok i (SetManagedStatus j st)"
proof -
  have "rk.tx_ok i (\<lambda>s. if st \<notin> set managed_status_enum then (Inl ErrDB, s)
      else let p = (\<lambda>c. c_ID c = j \<and> c_ManagedStatus c \<noteq> ''managed_in_vault'') in
        (Inr (hits p (t_certificates s)), s\<lparr>t_certificates := upd_where p
           (\<lambda>c. c\<lparr>c_ManagedStatus := st, c_UpdatedAt := sql_now s\<rparr>) (t_certificates s)\<rparr>))"
    by (rule rk.tx_okI) (auto simp: Let_def via_row_def split: if_splits intro!: revoked_kept_upd)
  then show ?thesis unfolding SetManagedStatus_def
    by (intro rk.op_ok_bind rk.op_ok_call) (auto intro!: rk.op_ok_bind rk.GetCertificate_ok rk.op_ok_ret)
qed

lemma reconcile_live_revoked:
  assumes "\<not> mu_Revoked u"
  shows "rk.op_ok i (UpdateManagedStatusByFingerprint fp u)"
proof -
  have "via_row (reconcile_row u now c)" if "via_row c" for now c
    using that assms by (auto simp: reconcile_row_def via_row_def split: option.splits)
  moreover have "c_ID (reconcile_row u now c) = c_ID c" for now c by (simp add: reconcile_row_def)
  ultimately show ?thesis unfolding UpdateManagedStatusByFingerprint_def
    by (intro rk.op_ok_call rk.tx_okI) (auto split: if_splits intro!: revoked_kept_upd)
qed

lemma job_row_revoked:
  "rk.tx_ok i (\<lambda>s. insert_job (row s) s)" "rk.tx_ok i (insert_job_event k ty p)" "rk.tx_ok i (insert_approval k a d)"
  by (rule rk.tx_okI, rule rk.R_same,
      auto simp: insert_job_def insert_job_event_def insert_approval_def split: if_splits)+

lemma launch_revoked:
  "rk.op_ok i (PersistRenewLaunch c cfg fp a w ex)" "rk.op_ok i (PersistMigrateLaunch c cfg fp a w ex tm nv)"
  unfolding PersistRenewLaunch_def PersistMigrateLaunch_def
  by (intro rk.op_ok_call rk.tx_ok_bind set_renewal_config_revoked job_row_revoked rk.appendEventTx_ok rk.tx_ok_ret)+

lemma DeleteCertificate_revoked: "j \<noteq> i \<Longrightarrow> rk.op_ok i (DeleteCertificate j)"
  unfolding DeleteCertificate_def
  by (intro rk.op_ok_call rk.tx_okI) (auto simp: revoked_kept_def via_revoked_def split: if_splits)

text \<open>
  The writes that may follow a revocation of certificate \<open>i\<close>: all of them but its deletion and a
  reconciliation that finds it revoked in Vault too, which replaces the mark by Vault's own.
\<close>

inductive after_revocation :: "uuid \<Rightarrow> db \<Rightarrow> db \<Rightarrow> bool" for i where
  "UpsertCertificate esd scanID parsed ob s = (r, s') \<Longrightarrow> after_revocation i s s'"
| "UpdateCertificateEnrichment j u s = (c, s') \<Longrightarrow> after_revocation i s s'"
| "SetRenewalConfig j cfg s = (c, s') \<Longrightarrow> after_revocation i s s'"
| "MarkRevoked j source s = (v, s') \<Longrightarrow> after_revocation i s s'"
| "SetManagedStatus j st s = (c, s') \<Longrightarrow> after_revocation i s s'"
| "UpdateManagedStatusByFingerprint fp mu s = (b, s') \<Longrightarrow> \<not> mu_Revoked mu \<Longrightarrow> after_revocation i s s'"
| "DeleteCertificate j s = (v, s') \<Longrightarrow> j \<noteq> i \<Longrightarrow> after_revocation i s s'"
| "PersistRenewLaunch j cfg fp a w ex s = (jb, s') \<Longrightarrow> after_revocation i s s'"
| "PersistMigrateLaunch j cfg fp a w ex tm nv s = (jb, s') \<Longrightarrow> after_revocation i s s'"

lemmas revoked_ops = rk.UpsertCertificate_ok [OF upsert_cert_row_revoked] UpdateCertificateEnrichment_revoked
  SetRenewalConfig_revoked MarkRevoked_revoked SetManagedStatus_revoked launch_revoked

lemma after_revocation_kept: "after_revocation i s s' \<Longrightarrow> revoked_kept i s s'"
  by (induction rule: after_revocation.induct)
     (blast intro: rk.op_ok_run revoked_ops reconcile_live_revoked DeleteCertificate_revoked)+

lemma MarkRevoked_done:
  assumes "MarkRevoked i source s = (Inr u, s')"
  shows "via_revoked i s' \<and> (\<exists>e. pending_event i ''cert.revoked'' e \<and> t_events s' = t_events s @ [e])"
proof -
  from assms [unfolded MarkRevoked_def, folded revoked_row_def, THEN db_call_Inr] obtain t s1 where s': "s' = next_step t" and
    hit: "hits (\<lambda>c. c_ID c = i) (t_certificates s) \<noteq> 0" and
    s1: "s1 = s\<lparr>t_certificates := upd_where (\<lambda>c. c_ID c = i) (revoked_row source (sql_now s)) (t_certificates s)\<rparr>" and
    ev: "appendEventTx ''cert.revoked'' (Some i)
        (JObj [(''revocation_status'', JStr (''revoked_via_'' @ source)), (''source'', JStr source)]) s1 = (Inr u, t)"
    by (auto simp: bind_op_Inr split: if_splits)
  obtain e where e: "pending_event i ''cert.revoked'' e" "t = s1\<lparr>db_seq := Suc (db_seq s1), t_events := t_events s1 @ [e]\<rparr>"
    using appendEventTx_done [OF ev] by blast
  have keys: "c_ID ` set (t_certificates s') = c_ID ` set (t_certificates s)"
    by (simp add: s' e(2) s1 keys_upd_where)
  have rows: "via_row c" if "c \<in> set (t_certificates s')" "c_ID c = i" for c
  proof -
    have "c \<in> set (upd_where (\<lambda>c. c_ID c = i) (revoked_row source (sql_now s)) (t_certificates s))"
      using that(1) by (simp add: s' e(2) s1)
    then obtain q where "c = (if c_ID q = i then revoked_row source (sql_now s) q else q)" by (rule in_upd_whereE)
    then show ?thesis using that(2) revoked_row_via by (cases "c_ID q = i") simp_all
  qed
  from hit have "i \<in> c_ID ` set (t_certificates s)" by (auto simp: hits_0_iff)
  then have "via_revoked i s'" using keys rows by (simp add: via_revoked_def)
  then show ?thesis using e by (auto simp: s' s1)
qed

text \<open>
  C8. A revocation is durable. Once a verified revocation check has been recorded for a certificate,
  its \<^verbatim>\<open>cert.revoked\<close> event is in the outbox, and no rescan, enrichment, launch, import or
  reconciliation with a Vault that lists the certificate as live makes it anything but revoked again.
\<close>

theorem revocation_durable:
  assumes "MarkRevoked i source s = (Inr u, s1)" and "(after_revocation i)\<^sup>*\<^sup>* s1 s2"
  shows "(\<exists>e. pending_event i ''cert.revoked'' e \<and> t_events s1 = t_events s @ [e]) \<and>
    (\<exists>c\<in>set (t_certificates s2). c_ID c = i) \<and> (\<forall>c\<in>set (t_certificates s2). c_ID c = i \<longrightarrow> c_Status c = ''revoked'')"
proof -
  have "revoked_kept i s1 s2" using assms(2)
    by (induction rule: rtranclp_induct) (auto intro: rk.R_refl rk.R_trans after_revocation_kept)
  then have "via_revoked i s2" using MarkRevoked_done [OF assms(1)] by (simp add: revoked_kept_def)
  then show ?thesis using MarkRevoked_done [OF assms(1)] by (auto simp: via_revoked_def via_row_def)
qed

theorem revocation_durable_witness:
  "\<exists>s1 s2 c. MarkRevoked 5 ''crl'' example_store = (Inr (), s1) \<and> after_revocation 5 s1 s2 \<and>
     c \<in> set (t_certificates s2) \<and> c_ID c = 5 \<and> c_Status c = ''revoked''"
proof -
  have "fst (MarkRevoked 5 ''crl'' example_store) = Inr ()" by code_simp
  then obtain s1 where 1: "MarkRevoked 5 ''crl'' example_store = (Inr (), s1)" by (metis prod.collapse)
  obtain r s2 where "SetManagedStatus 5 ''imported'' s1 = (r, s2)" by force
  then have step: "after_revocation 5 s1 s2" by (rule after_revocation.intros(5))
  from revocation_durable [OF 1 r_into_rtranclp [of "after_revocation 5", OF step]] 1 step show ?thesis by blast
qed

section \<open>Discovery\<close>

lemma appendEventStandalone_done:
  "appendEventStandalone ty (Some certID) p s = (Inr u, s') \<Longrightarrow>
     t_certificates s' = t_certificates s \<and> t_observations s' = t_observations s \<and>
     (\<exists>e. pending_event certID ty e \<and> t_events s' = t_events s @ [e])"
  unfolding appendEventStandalone_def by (auto dest!: db_call_Inr appendEventTx_done)

text \<open>The events a discovery owes: their types, in order.\<close>

definition catalogue_types :: "string \<Rightarrow> bool \<Rightarrow> string \<Rightarrow> string list" where
  "catalogue_types st inserted prevStatus =
     (if inserted then [''cert.discovered'', ''blind_spot.detected''] else []) @
     (if st = ''expiring_soon'' \<and> (inserted \<or> prevStatus \<noteq> ''expiring_soon'') then [''cert.expiring''] else [])"

definition events_added :: "uuid \<Rightarrow> string list \<Rightarrow> db \<Rightarrow> db \<Rightarrow> bool" where
  "events_added certID types s s' \<longleftrightarrow>
     (\<exists>es. t_events s' = t_events s @ es \<and> list_all2 (pending_event certID) types es)"

lemma events_added_trans:
  "events_added i xs s t \<Longrightarrow> events_added i ys t u \<Longrightarrow> events_added i (xs @ ys) s u"
  unfolding events_added_def by (elim exE conjE) (auto intro!: list_all2_appendI)

lemma events_added_one:
  "appendEventStandalone ty (Some i) p s = (Inr u, s') \<Longrightarrow> events_added i [ty] s s'"
  by (auto dest!: appendEventStandalone_done simp: events_added_def)

lemma emit_done:
  assumes "emitDiscoveryCatalogueEvents i parsed st days sc inserted prev s = (Inr u, s')"
  shows "events_added i (catalogue_types st inserted prev) s s' \<and> t_certificates s' = t_certificates s
     \<and> t_observations s' = t_observations s"
proof -
  let ?pl = "cataloguePayload i (pc_FingerprintSHA256 parsed) (pc_SubjectCN parsed) st days ''unmanaged'' sc"
  let ?second = "st = ''expiring_soon'' \<and> (inserted \<or> prev \<noteq> ''expiring_soon'')"
  obtain t v where
    1: "(if inserted then bind_op (appendEventStandalone ''cert.discovered'' (Some i) ?pl)
           (\<lambda>_. appendEventStandalone ''blind_spot.detected'' (Some i) ?pl) else (\<lambda>s. (Inr (), s))) s = (Inr v, t)"
    and 2: "(if ?second then appendEventStandalone ''cert.expiring'' (Some i) ?pl else (\<lambda>s. (Inr (), s))) t = (Inr u, s')"
    using assms by (auto simp: emitDiscoveryCatalogueEvents_def Let_def bind_op_Inr)
  have first: "events_added i (if inserted then [''cert.discovered'', ''blind_spot.detected''] else []) s t
      \<and> t_certificates t = t_certificates s \<and> t_observations t = t_observations s"
  proof (cases inserted)
    case True
    then obtain w x where a: "appendEventStandalone ''cert.discovered'' (Some i) ?pl s = (Inr x, w)"
      and b: "appendEventStandalone ''blind_spot.detected'' (Some i) ?pl w = (Inr v, t)"
      using 1 by (auto simp: bind_op_Inr)
    from events_added_trans [OF events_added_one [OF a] events_added_one [OF b]]
      appendEventStandalone_done [OF a] appendEventStandalone_done [OF b] True show ?thesis by simp
  qed (use 1 in \<open>simp add: events_added_def\<close>)
  have second: "events_added i (if ?second then [''cert.expiring''] else []) t s'
      \<and> t_certificates s' = t_certificates t \<and> t_observations s' = t_observations t"
  proof (cases ?second)
    case True
    then have a: "appendEventStandalone ''cert.expiring'' (Some i) ?pl t = (Inr u, s')" using 2 by simp
    show ?thesis using True events_added_one [OF a] appendEventStandalone_done [OF a] by simp
  next
    case False
    then have "s' = t" using 2 by (simp split: if_splits)
    then show ?thesis using False by (simp add: events_added_def)
  qed
  show ?thesis unfolding catalogue_types_def
    by (intro conjI events_added_trans [OF conjunct1 [OF first] conjunct1 [OF second]]) (use first second in simp_all)
qed

lemma upsert_observation_done:
  "upsert_observation certID scanID ob s = (Inr u, s') \<Longrightarrow> t_certificates s' = t_certificates s \<and> t_events s' = t_events s \<and>
     (\<exists>r\<in>set (t_observations s'). o_CertificateID r = certID \<and> o_ScanID r = scanID \<and> o_ObservedAt r = po_ObservedAt ob)"
proof (cases "\<exists>r\<in>set (t_observations s). same_observation certID scanID ob r")
  case True
  assume run: "upsert_observation certID scanID ob s = (Inr u, s')"
  obtain r where r: "r \<in> set (t_observations s)" "same_observation certID scanID ob r" using True by blast
  have "s' = s\<lparr>t_observations := upd_where (same_observation certID scanID ob)
      (\<lambda>r. r\<lparr>o_ObservedAt := po_ObservedAt ob\<rparr>) (t_observations s)\<rparr>"
    using run True by (simp add: upsert_observation_def split: if_splits)
  moreover have "r\<lparr>o_ObservedAt := po_ObservedAt ob\<rparr> \<in> set (upd_where (same_observation certID scanID ob)
      (\<lambda>r. r\<lparr>o_ObservedAt := po_ObservedAt ob\<rparr>) (t_observations s))"
    unfolding set_upd_where using r by blast
  ultimately show ?thesis using r(2)
    by (auto simp: same_observation_def intro!: bexI [of _ "r\<lparr>o_ObservedAt := po_ObservedAt ob\<rparr>"])
next
  case False
  assume "upsert_observation certID scanID ob s = (Inr u, s')"
  then show ?thesis using False by (auto simp: upsert_observation_def split: if_splits)
qed

lemma db_call_read:
  "db_call (\<lambda>s. (Inr (g s), s)) s = (Inr x, t) \<longleftrightarrow> \<not> db_fault s (db_step s) \<and> x = g s \<and> t = next_step s"
  by (auto simp: db_call_def)

text \<open>The three calls and the events of a successful upsert.\<close>

lemma UpsertCertificate_calls:
  assumes "UpsertCertificate esd scanID parsed ob s = (Inr i, s')"
    and "Compute (go_now s) (pc_NotAfter parsed) esd False = (status, days)"
  obtains s1 s2 sc where
    "upsert_cert_row parsed ob (status_str status) days sc (next_step s) = (Inr i, s1)"
    "\<exists>r\<in>set (t_observations s'). o_CertificateID r = i \<and> o_ScanID r = scanID \<and> o_ObservedAt r = po_ObservedAt ob"
    "t_certificates s' = t_certificates s1"
    "events_added i (catalogue_types (status_str status)
       (List.find (\<lambda>c. c_FingerprintSHA256 c = pc_FingerprintSHA256 parsed) (t_certificates s) = None)
       (case List.find (\<lambda>c. c_FingerprintSHA256 c = pc_FingerprintSHA256 parsed) (t_certificates s)
        of None \<Rightarrow> [] | Some c \<Rightarrow> c_Status c)) s1 s'"
proof -
  let ?ex = "List.find (\<lambda>c. c_FingerprintSHA256 c = pc_FingerprintSHA256 parsed) (t_certificates s)"
  define sc where "sc = ClassifyScope (pc_ChainStatus parsed) (pc_IssuerDN parsed)
    (if po_Hostname ob = [] then po_SNI ob else po_Hostname ob) []"
  from assms obtain t1 t2 where
    row: "db_call (upsert_cert_row parsed ob (status_str status) days sc) (next_step s) = (Inr i, t1)" and
    obs: "db_call (upsert_observation i scanID ob) t1 = (Inr (), t2)" and
    ev: "emitDiscoveryCatalogueEvents i parsed (status_str status) days sc (?ex = None)
      (case ?ex of None \<Rightarrow> [] | Some c \<Rightarrow> c_Status c) t2 = (Inr (), s')"
    by (auto simp: UpsertCertificate_def Let_def bind_op_Inr sc_def db_call_read)
  from db_call_Inr [OF row] obtain s1 where s1:
    "upsert_cert_row parsed ob (status_str status) days sc (next_step s) = (Inr i, s1)" "t1 = next_step s1" by blast
  from db_call_Inr [OF obs] obtain s2 where s2: "upsert_observation i scanID ob t1 = (Inr (), s2)" "t2 = next_step s2" by blast
  note o = upsert_observation_done [OF s2(1)] and e = emit_done [OF ev]
  show thesis
  proof (rule that [OF s1(1)])
    show "\<exists>r\<in>set (t_observations s'). o_CertificateID r = i \<and> o_ScanID r = scanID \<and> o_ObservedAt r = po_ObservedAt ob"
      using o e s2(2) by simp
    show "t_certificates s' = t_certificates s1" using o e s1(2) s2(2) by simp
    show "events_added i (catalogue_types (status_str status) (?ex = None) (case ?ex of None \<Rightarrow> [] | Some c \<Rightarrow> c_Status c)) s1 s'"
      using e o s1(2) s2(2) by (simp add: events_added_def)
  qed
qed


text \<open>A first probe of a server, from a scan on record.\<close>

definition example_scan :: scan where
  "example_scan = \<lparr>s_ID = 3, s_Source = ''network'', s_Status = ScanRunning, s_CIDRs = [], s_Hostnames = [], s_Ports = [443],
     s_Concurrency = 1, s_StartedAt = None, s_FinishedAt = None, s_TargetsTotal = 1, s_TargetsScanned = 0,
     s_TargetsSucceeded = 0, s_TargetsFailed = 0, s_CertsFound = 0, s_UpsertFailures = 0, s_ExpansionWarnings = [],
     s_FailureSamples = [], s_Error = None, s_ClaimedBy = None, s_ClaimedAt = None, s_CreatedAt = 0\<rparr>"

definition example_parsed :: parsed_certificate where
  "example_parsed = \<lparr>pc_SerialNumber = ''01'', pc_FingerprintSHA256 = ''fp'', pc_SubjectCN = ''a.corp'', pc_SubjectAltNames = [],
     pc_IssuerDN = ''CN=CA'', pc_AuthorityKeyID = [], pc_NotBefore = 0, pc_NotAfter = 0, pc_KeyType = ''RSA'', pc_KeyBits = 2048,
     pc_SignatureAlgorithm = ''SHA256-RSA'', pc_IsCA = False, pc_KeyUsage = [], pc_ExtKeyUsage = [], pc_PEM = [],
     pc_CRLDistributionPoints = [], pc_OCSPServers = [], pc_ChainStatus = ''complete'', pc_HostnameMatchesSAN = True,
     pc_PQCTag = ''classic'', pc_Notes = []\<rparr>"

definition example_probe :: probe_observation where
  "example_probe = \<lparr>po_IP = ''10.0.0.1'', po_Port = 443, po_Hostname = [], po_SNI = ''a.corp'', po_TLSVersion = ''TLS1.3'',
     po_CipherSuite = [], po_ObservedAt = 0\<rparr>"

definition scanning_db :: "(nat \<Rightarrow> bool) \<Rightarrow> db" where
  "scanning_db fault = empty_db\<lparr>t_scans := [example_scan], db_fault := fault\<rparr>"

lemma example_compute: "Compute 0 0 30 False = (StatusExpiringSoon, 0)"
  using days_of_exact [of 0] by (simp add: Compute_def time_sub_def max_duration_def min_duration_def day_def hour_def minute_def second_def)

lemma example_scope: "ClassifyScope ''complete'' ''CN=CA'' ''a.corp'' [] = ''internal''"
  by code_simp

lemmas upsert_eval = UpsertCertificate_def bind_op_def db_call_def upsert_cert_row_def upsert_observation_def
  emitDiscoveryCatalogueEvents_def appendEventStandalone_def appendEventTx_def Let_def example_compute example_scope
  fk_cert_def pk_free_def step_defs nullStr_def same_observation_def upd_where_def rescan_row_def new_cert_def
  revocation_recorded_def pqcTagOrUnknown_def chain_status_enum_def cataloguePayload_def

lemmas scanning_eval = upsert_eval scanning_db_def empty_db_def example_parsed_def example_probe_def example_scan_def


text \<open>
  Discovery is not transactional with its events. If the call that appends
  \<^verbatim>\<open>cert.discovered\<close> fails, the certificate stays in the inventory; when the scan sees it again it is
  already known, so the upsert succeeds and the event is never written. (The comment on the outbox
  table says a committed change can never lose its event; that holds of \<^verbatim>\<open>MarkRevoked\<close> and the
  launches, not of discovery.)
\<close>

theorem discovery_event_lost:
  "\<exists>s s1 i s2. t_certificates s = [] \<and> t_events s = [] \<and>
     UpsertCertificate 30 3 example_parsed example_probe s = (Inl ErrDB, s1) \<and>
     UpsertCertificate 30 3 example_parsed example_probe s1 = (Inr i, s2) \<and>
     map c_ID (t_certificates s2) = [i] \<and> t_events s2 = []"
proof -
  let ?s = "scanning_db (\<lambda>k. k = 3)"
  obtain s1 where s1: "UpsertCertificate 30 3 example_parsed example_probe ?s = (Inl ErrDB, s1)"
    by (simp add: scanning_eval)
  have "t_certificates ?s = []" "t_events ?s = []" by (simp_all add: scanning_db_def empty_db_def)
  moreover have "\<exists>i s2. UpsertCertificate 30 3 example_parsed example_probe
      (snd (UpsertCertificate 30 3 example_parsed example_probe ?s)) = (Inr i, s2) \<and>
      map c_ID (t_certificates s2) = [i] \<and> t_events s2 = []"
    by (simp add: scanning_eval)
  ultimately show ?thesis using s1 by (metis snd_conv)
qed

section \<open>Import into the catalogue\<close>

lemma GetCertificate_eval:
  "\<not> db_fault s (db_step s) \<Longrightarrow> GetCertificate i s =
     (case List.find (\<lambda>c. c_ID c = i) (t_certificates s) of
        None \<Rightarrow> (Inl ErrCertificateNotFound, next_step s) | Some c \<Rightarrow> (Inr (select_cert s c), next_step s))"
  by (auto simp: GetCertificate_def db_call_def split: option.splits)

text \<open>
  A manual import never takes a certificate from Vault. When no call fails, a row that
  reconciliation marked as managed in Vault is left exactly as it is, whatever status is asked for; and
  the caller is told which case it was: unknown certificate, managed by Vault, or the row with the
  new status.
\<close>

theorem SetManagedStatus_respects_vault:
  assumes "cert_inv s" and "\<forall>k. \<not> db_fault s k" and "st \<in> set managed_status_enum"
  shows "(\<forall>c\<in>set (t_certificates s). c_ManagedStatus c = ''managed_in_vault'' \<longrightarrow>
       c \<in> set (t_certificates (snd (SetManagedStatus i st s)))) \<and>
    (case List.find (\<lambda>c. c_ID c = i) (t_certificates s) of
       None \<Rightarrow> fst (SetManagedStatus i st s) = Inl ErrCertificateNotFound
     | Some c \<Rightarrow> if c_ManagedStatus c = ''managed_in_vault''
         then fst (SetManagedStatus i st s) = Inl ErrManagedByVault
         else \<exists>c'. fst (SetManagedStatus i st s) = Inr c' \<and> c_ID c' = i \<and> c_ManagedStatus c' = st)"
proof -
  let ?p = "\<lambda>c. c_ID c = i \<and> c_ManagedStatus c \<noteq> ''managed_in_vault''"
  define rows where "rows = upd_where ?p (\<lambda>c. c\<lparr>c_ManagedStatus := st, c_UpdatedAt := sql_now s\<rparr>) (t_certificates s)"
  let ?s1 = "next_step (s\<lparr>t_certificates := rows\<rparr>)"
  have run: "SetManagedStatus i st s = (if hits ?p (t_certificates s) = 0
      then bind_op (GetCertificate i) (\<lambda>_ s. (Inl ErrManagedByVault, s)) ?s1 else GetCertificate i ?s1)"
    using assms(2,3) by (simp add: SetManagedStatus_def bind_op_def db_call_def Let_def rows_def)
  have state: "t_certificates (snd (SetManagedStatus i st s)) = rows"
    using assms(2) by (auto simp: run bind_op_def GetCertificate_eval split: option.splits)
  have "c \<in> set rows" if "c \<in> set (t_certificates s)" "c_ManagedStatus c = ''managed_in_vault''" for c
    using that by (simp add: rows_def set_upd_where)
  moreover have "case List.find (\<lambda>c. c_ID c = i) (t_certificates s) of
       None \<Rightarrow> fst (SetManagedStatus i st s) = Inl ErrCertificateNotFound
     | Some c \<Rightarrow> if c_ManagedStatus c = ''managed_in_vault''
         then fst (SetManagedStatus i st s) = Inl ErrManagedByVault
         else \<exists>c'. fst (SetManagedStatus i st s) = Inr c' \<and> c_ID c' = i \<and> c_ManagedStatus c' = st"
  proof (cases "List.find (\<lambda>c. c_ID c = i) (t_certificates s)")
    case None
    then have none: "\<forall>c\<in>set (t_certificates s). c_ID c \<noteq> i" by (auto simp: find_None_iff)
    then have "rows = t_certificates s" unfolding rows_def by (intro upd_where_none) auto
    moreover have "hits ?p (t_certificates s) = 0" using none by (simp add: hits_0_iff)
    ultimately show ?thesis using None assms(2) by (simp add: run bind_op_def GetCertificate_eval)
  next
    case (Some c)
    note c = find_Some_in [OF Some]
    have only: "q = c" if "q \<in> set (t_certificates s)" "c_ID q = i" for q
      using distinct_map_unique [of c_ID "t_certificates s" q c] that c assms(1) by (simp add: cert_inv_def)
    show ?thesis
    proof (cases "c_ManagedStatus c = ''managed_in_vault''")
      case True
      then have no: "\<forall>q\<in>set (t_certificates s). \<not> ?p q" using only by blast
      then have "rows = t_certificates s" unfolding rows_def by (rule upd_where_none)
      moreover have "hits ?p (t_certificates s) = 0" using no by (simp add: hits_0_iff)
      ultimately show ?thesis using Some True assms(2) by (simp add: run bind_op_def GetCertificate_eval)
    next
      case False
      let ?c' = "c\<lparr>c_ManagedStatus := st, c_UpdatedAt := sql_now s\<rparr>"
      have "?c' \<in> set rows" using c False by (auto simp: rows_def set_upd_where)
      moreover have "map c_ID rows = map c_ID (t_certificates s)" unfolding rows_def by (rule map_upd_where) simp
      ultimately have "List.find (\<lambda>c. c_ID c = i) rows = Some ?c'"
        using c assms(1) by (intro find_by_key) (simp_all add: cert_inv_def)
      moreover have "hits ?p (t_certificates s) \<noteq> 0" using c False by (auto simp: hits_0_iff)
      ultimately show ?thesis using Some False assms(2) c
        by (simp add: run GetCertificate_eval select_cert_def)
    qed
  qed
  ultimately show ?thesis by (simp add: state)
qed

theorem SetManagedStatus_respects_vault_witness:
  "\<exists>c'. fst (SetManagedStatus 5 ''imported'' example_store) = Inr c' \<and> c_ManagedStatus c' = ''imported''"
proof -
  have "cert_inv example_store" by code_simp
  moreover have "\<forall>k. \<not> db_fault example_store k" by (simp add: example_store_def empty_db_def)
  moreover have "''imported'' \<in> set managed_status_enum" by (simp add: managed_status_enum_def)
  ultimately have "case List.find (\<lambda>c. c_ID c = 5) (t_certificates example_store) of
       None \<Rightarrow> fst (SetManagedStatus 5 ''imported'' example_store) = Inl ErrCertificateNotFound
     | Some c \<Rightarrow> if c_ManagedStatus c = ''managed_in_vault''
         then fst (SetManagedStatus 5 ''imported'' example_store) = Inl ErrManagedByVault
         else \<exists>c'. fst (SetManagedStatus 5 ''imported'' example_store) = Inr c' \<and> c_ID c' = 5 \<and> c_ManagedStatus c' = ''imported''"
    using SetManagedStatus_respects_vault [of example_store "''imported''" 5] by blast
  then show ?thesis by (auto simp: example_store_def blank_cert_def)
qed

section \<open>Paging\<close>

text \<open>One page of a query on a store at rest, and the contract of the paging loops on it.\<close>

definition cert_page :: "certificate_filter \<Rightarrow> db \<Rightarrow> int \<Rightarrow> error + certificate list \<times> int" where
  "cert_page f s offset = fst (ListCertificates (f\<lparr>cf_Offset := offset\<rparr>) (s\<lparr>db_fault := (\<lambda>_. False)\<rparr>))"

definition scan_filter :: "uuid option \<Rightarrow> certificate_filter" where
  "scan_filter scanID = (case scanID of None \<Rightarrow> zero_filter\<lparr>cf_Limit := 500\<rparr>
     | Some i \<Rightarrow> zero_filter\<lparr>cf_Limit := 500, cf_ScanID := i\<rparr>)"

lemma cert_page_rows:
  assumes "cf_Limit f > 0" and "\<not> bad_filter f"
  shows "cert_page f s (int k) = Inr (take (nat (cf_Limit f)) (drop k (cert_rows f s)), int (length (cert_rows f s)))"
proof -
  have "cert_matches (f\<lparr>cf_Offset := x\<rparr>) (s\<lparr>db_fault := g, db_step := n\<rparr>) = cert_matches f s" for x g n
    by (rule ext) (simp add: cert_matches_def observed_in_def Let_def)
  moreover have "cert_order (f\<lparr>cf_Offset := x\<rparr>) = cert_order f" for x by (rule ext) (simp add: cert_order_def)
  moreover have "select_cert (s\<lparr>db_fault := g, db_step := n\<rparr>) = select_cert s" for g n
    by (rule ext) (simp add: select_cert_def)
  moreover have "bad_filter (f\<lparr>cf_Offset := x\<rparr>) = bad_filter f" for x by (simp add: bad_filter_def)
  moreover have "cert_matches (f\<lparr>cf_Offset := x\<rparr>) (s\<lparr>db_fault := g\<rparr>) = cert_matches f s" for x g
    by (rule ext) (simp add: cert_matches_def observed_in_def Let_def)
  ultimately show ?thesis using assms
    by (simp add: cert_page_def ListCertificates_def bind_op_def db_call_def Let_def cert_rows_def next_step_def)
qed

lemma scan_filter_ok: "cf_Limit (scan_filter scanID) = 500" "\<not> bad_filter (scan_filter scanID)"
  by (simp_all add: scan_filter_def zero_filter_def bad_filter_def split: option.splits)

interpretation scan_pages: cert_pager "cert_page (scan_filter scanID) s" "cert_rows (scan_filter scanID) s" 500
  for scanID s
  by unfold_locales (simp_all add: cert_page_rows scan_filter_ok)

lemma loadAll_on_store:
  assumes "\<forall>k. \<not> db_fault s k"
  shows "loadAllCertificates (\<lambda>f. fst (ListCertificates f s)) scanID = Some (Inr (cert_rows (scan_filter scanID) s))"
proof -
  have "db_fault s = (\<lambda>_. False)" using assms by auto
  then have s: "s\<lparr>db_fault := \<lambda>_. False\<rparr> = s" by (cases s) simp
  have "cert_page f s = (\<lambda>offset. fst (ListCertificates (f\<lparr>cf_Offset := offset\<rparr>) s))" for f
    by (rule ext) (simp add: cert_page_def s)
  then have "loadAllCertificates (\<lambda>f. fst (ListCertificates f s)) scanID = load_pages (cert_page (scan_filter scanID) s) 0 []"
    by (cases scanID) (simp_all add: loadAllCertificates_def Let_def scan_filter_def)
  then show ?thesis using scan_pages.pages_complete by simp
qed

text \<open>
  The compliance report of a scan reads the whole inventory. Over a store at rest the paging loop
  ends, and the summary is the evaluation of every certificate the scan observed (of every certificate
  there is, without a scan), each once, however many pages that takes.
\<close>

theorem EvaluateScan_complete:
  assumes "\<forall>k. \<not> db_fault s k"
  shows "\<exists>certs. mset (map c_ID certs) = mset (map c_ID (filter
        (\<lambda>c. case scanID of None \<Rightarrow> True | Some i \<Rightarrow> i = 0 \<or> observed_in i s c) (t_certificates s))) \<and>
    map_option (map_sum id (\<lambda>sm. sm\<lparr>ScanID := 0\<rparr>)) (EvaluateScan now (\<lambda>f. fst (ListCertificates f s)) scanID)
      = Some (Inr ((EvaluateCerts now certs)\<lparr>ScanID := 0\<rparr>))"
proof -
  let ?certs = "cert_rows (scan_filter scanID) s"
  have "map c_ID ?certs = map c_ID (sort_key (cert_order (scan_filter scanID)) (filter (cert_matches (scan_filter scanID) s) (t_certificates s)))"
    by (simp add: cert_rows_def select_cert_def comp_def)
  moreover have "cert_matches (scan_filter scanID) s = (\<lambda>c. case scanID of None \<Rightarrow> True | Some i \<Rightarrow> i = 0 \<or> observed_in i s c)"
    by (rule ext, cases scanID) (simp_all add: cert_matches_def scan_filter_def zero_filter_def)
  ultimately have "mset (map c_ID ?certs) = mset (map c_ID (filter
        (\<lambda>c. case scanID of None \<Rightarrow> True | Some i \<Rightarrow> i = 0 \<or> observed_in i s c) (t_certificates s)))"
    by simp
  moreover have "map_option (map_sum id (\<lambda>sm. sm\<lparr>ScanID := 0\<rparr>)) (EvaluateScan now (\<lambda>f. fst (ListCertificates f s)) scanID)
      = Some (Inr ((EvaluateCerts now ?certs)\<lparr>ScanID := 0\<rparr>))"
    by (simp add: EvaluateScan_def loadAll_on_store [OF assms] Let_def split: option.splits)
  ultimately show ?thesis by blast
qed

theorem EvaluateScan_complete_witness:
  "\<exists>certs. mset (map c_ID certs) = {#5#} \<and>
     map_option (map_sum id (\<lambda>sm. sm\<lparr>ScanID := 0\<rparr>)) (EvaluateScan 0 (\<lambda>f. fst (ListCertificates f example_store)) None)
       = Some (Inr ((EvaluateCerts 0 certs)\<lparr>ScanID := 0\<rparr>))"
proof -
  have "\<forall>k. \<not> db_fault example_store k" by (simp add: example_store_def empty_db_def)
  from EvaluateScan_complete [OF this, of None 0] show ?thesis
    by (simp add: example_store_def blank_cert_def)
qed

end
