(* ===== verification/Http_Reply.thy ===== *)
theory Http_Reply
  imports Access Certificate_Store
begin

text \<open>
  Answers of the API (\<^verbatim>\<open>internal/api/response.go\<close>): a status with a body, or an error body with the
  request id. A handler is a function of the store that returns its answer and the store after it; the
  path parameter \<^verbatim>\<open>id\<close> comes as \<^verbatim>\<open>uuid.Parse\<close> reads it.
\<close>

section \<open>Answers\<close>

datatype 'a reply = Reply nat 'a | Problem nat string string

type_synonym 'a handler = "db \<Rightarrow> 'a reply \<times> db"

text \<open>A handler with a loop that may not end.\<close>

type_synonym 'a loop_handler = "db \<Rightarrow> ('a reply \<times> db) option"

fun reply_code :: "'a reply \<Rightarrow> nat" where
  "reply_code (Reply n v) = n"
| "reply_code (Problem n msg rid) = n"

definition writeJSON :: "nat \<Rightarrow> 'a \<Rightarrow> 'a handler" where
  "writeJSON status v s = (Reply status v, s)"

definition writeError :: "request \<Rightarrow> nat \<Rightarrow> string \<Rightarrow> 'a handler" where
  "writeError r status msg s = (Problem status msg (rq_RequestID r), s)"

definition writeServerError :: "request \<Rightarrow> error \<Rightarrow> string \<Rightarrow> 'a handler" where
  "writeServerError r err msg = writeError r 500 msg"

definition writeLookupError :: "request \<Rightarrow> error \<Rightarrow> error \<Rightarrow> string \<Rightarrow> string \<Rightarrow> 'a handler" where
  "writeLookupError r err notFound notFoundMsg serverMsg =
     (if err = notFound then writeError r 404 notFoundMsg else writeServerError r err serverMsg)"

text \<open>The two ways handlers go on: with a parsed id, and with the result of a store call.\<close>

definition with_id :: "request \<Rightarrow> string \<Rightarrow> uuid option \<Rightarrow> (uuid \<Rightarrow> 'a handler) \<Rightarrow> 'a handler" where
  "with_id r msg idp k = (case idp of None \<Rightarrow> writeError r 400 msg | Some i \<Rightarrow> k i)"

definition try_op :: "'b op \<Rightarrow> (error \<Rightarrow> 'a handler) \<Rightarrow> ('b \<Rightarrow> 'a handler) \<Rightarrow> 'a handler" where
  "try_op m fail k s = (case m s of (Inl e, s') \<Rightarrow> fail e s' | (Inr v, s') \<Rightarrow> k v s')"

definition parseScanID :: "request \<Rightarrow> uuid option \<Rightarrow> (uuid \<Rightarrow> 'a handler) \<Rightarrow> 'a handler" where
  "parseScanID r idp k = with_id r ''invalid scan id'' idp k"

section \<open>Reasoning on handlers\<close>

lemma try_opE:
  assumes "try_op m f k s = (rep, s')"
  obtains e t where "m s = (Inl e, t)" "f e t = (rep, s')" | v t where "m s = (Inr v, t)" "k v t = (rep, s')"
  using assms by (auto simp: try_op_def split: prod.splits sum.splits)

lemma with_idE:
  assumes "with_id r msg idp k s = (rep, s')"
  obtains "idp = None" "s' = s" "rep = Problem 400 msg (rq_RequestID r)" | i where "idp = Some i" "k i s = (rep, s')"
  using assms by (auto simp: with_id_def writeError_def split: option.splits)

lemma writes_keep [simp]:
  "writeError r n msg s = (rep, s') \<longleftrightarrow> rep = Problem n msg (rq_RequestID r) \<and> s' = s"
  "writeJSON n v s = (rep', s') \<longleftrightarrow> rep' = Reply n v \<and> s' = s"
  "writeServerError r e msg s = (rep, s') \<longleftrightarrow> rep = Problem 500 msg (rq_RequestID r) \<and> s' = s"
  "writeLookupError r e nf m1 m2 s = (rep, s') \<longleftrightarrow>
     rep = (if e = nf then Problem 404 m1 (rq_RequestID r) else Problem 500 m2 (rq_RequestID r)) \<and> s' = s"
  by (auto simp: writeJSON_def writeError_def writeServerError_def writeLookupError_def)

lemmas reply_simps = writeJSON_def writeError_def writeServerError_def writeLookupError_def with_id_def

text \<open>A handler keeps a relation between the stores before and after when each of its calls does.\<close>

definition handler_ok :: "(db \<Rightarrow> db \<Rightarrow> bool) \<Rightarrow> 'a handler \<Rightarrow> bool" where
  "handler_ok R h \<longleftrightarrow> (\<forall>s. R s (snd (h s)))"

lemma handler_okD: "handler_ok R h \<Longrightarrow> h s = (rep, s') \<Longrightarrow> R s s'"
  by (auto simp: handler_ok_def dest: spec [of _ s])

lemma handler_ok_writeError [intro]: "reflp R \<Longrightarrow> handler_ok R (writeError r n msg)"
  by (simp add: handler_ok_def writeError_def reflpD)

lemma handler_ok_writeJSON [intro]: "reflp R \<Longrightarrow> handler_ok R (writeJSON n v)"
  by (simp add: handler_ok_def writeJSON_def reflpD)

lemma handler_ok_lookup [intro]: "reflp R \<Longrightarrow> handler_ok R (writeLookupError r e nf m1 m2)"
  by (simp add: handler_ok_def reply_simps reflpD)

lemma handler_ok_server [intro]: "reflp R \<Longrightarrow> handler_ok R (writeServerError r e m)"
  by (simp add: handler_ok_def reply_simps reflpD)

lemma handler_ok_id: "reflp R \<Longrightarrow> (\<And>i. handler_ok R (k i)) \<Longrightarrow> handler_ok R (with_id r msg idp k)"
  by (auto simp: with_id_def split: option.splits)

lemma handler_ok_try:
  assumes "transp R" and "\<And>s. R s (snd (m s))" and "\<And>e. handler_ok R (f e)" and "\<And>v. handler_ok R (k v)"
  shows "handler_ok R (try_op m f k)"
proof (unfold handler_ok_def, intro allI)
  fix s
  show "R s (snd (try_op m f k s))"
  proof (cases "m s")
    case (Pair x t)
    then have "R s t" using assms(2) [of s] by simp
    moreover have "R t (snd (try_op m f k s))"
      using assms(3,4) Pair by (auto simp: try_op_def handler_ok_def split: sum.splits)
    ultimately show ?thesis by (rule transpD [OF assms(1)])
  qed
qed

end
