(* ===== verification/Scan_Queue.thy ===== *)
theory Scan_Queue
  imports Certificate_Store
begin

text \<open>
  The durable scan queue: the scan operations of \<^verbatim>\<open>internal/store/store.go\<close> and the counters of
  \<^verbatim>\<open>internal/store/diagnostics.go\<close>. A scan waits as a pending row, a replica claims it by stamping
  \<^verbatim>\<open>claimed_at\<close>, keeps it with heartbeats and ends it as completed or failed; a running scan whose
  stamp is older than the lease is claimed anew. Slices that are nil and empty are one list here
  (\<^verbatim>\<open>CreateScanWithSource\<close> replaces nil slices itself).
\<close>

section \<open>Operations\<close>

text \<open>The row of an \<^verbatim>\<open>INSERT INTO scans\<close>, with the defaults of the other columns.\<close>

definition new_scan :: "string \<Rightarrow> string list \<Rightarrow> string list \<Rightarrow> int list \<Rightarrow> int \<Rightarrow> db \<Rightarrow> scan" where
  "new_scan source cidrs hostnames ports concurrency s =
     \<lparr>s_ID = new_uuid s, s_Source = source, s_Status = ScanPending, s_CIDRs = cidrs, s_Hostnames = hostnames,
      s_Ports = ports, s_Concurrency = concurrency, s_StartedAt = None, s_FinishedAt = None, s_TargetsTotal = 0,
      s_TargetsScanned = 0, s_TargetsSucceeded = 0, s_TargetsFailed = 0, s_CertsFound = 0, s_UpsertFailures = 0,
      s_ExpansionWarnings = [], s_FailureSamples = [], s_Error = None, s_ClaimedBy = None, s_ClaimedAt = None,
      s_CreatedAt = sql_now s\<rparr>"

definition pending_count :: "scan list \<Rightarrow> nat" where
  "pending_count rows = hits (\<lambda>sc. s_Status sc = ScanPending) rows"

definition CreateScanWithSource :: "string \<Rightarrow> string list \<Rightarrow> string list \<Rightarrow> int list \<Rightarrow> int \<Rightarrow> int \<Rightarrow> scan op" where
  "CreateScanWithSource source cidrs hostnames ports concurrency maxPending = db_call (\<lambda>s.
     let row = new_scan (if source = [] then ''network'' else source) cidrs hostnames ports concurrency s in
     if maxPending > 0 \<and> \<not> int (pending_count (t_scans s)) < maxPending then (Inl ErrScanQueueFull, s)
     else if \<not> pk_free s_ID (s_ID row) (t_scans s) then (Inl ErrDB, s)
     else (Inr row, s\<lparr>db_seq := Suc (db_seq s), t_scans := t_scans s @ [row]\<rparr>))"

definition CreateScan :: "string list \<Rightarrow> string list \<Rightarrow> int list \<Rightarrow> int \<Rightarrow> int \<Rightarrow> scan op" where
  "CreateScan cidrs hostnames ports concurrency maxPending =
     CreateScanWithSource ''network'' cidrs hostnames ports concurrency maxPending"

definition GetScan :: "uuid \<Rightarrow> scan op" where
  "GetScan i = db_call (\<lambda>s. case List.find (\<lambda>sc. s_ID sc = i) (t_scans s) of
     None \<Rightarrow> (Inl ErrScanNotFound, s) | Some sc \<Rightarrow> (Inr sc, s))"

definition ListScans :: "int \<Rightarrow> int \<Rightarrow> scan list op" where
  "ListScans limit offset = db_call (\<lambda>s.
     let lim = (if limit \<le> 0 then 50 else limit) in
     if offset < 0 then (Inl ErrDB, s)
     else (Inr (take (nat lim) (drop (nat offset) (sort_key (\<lambda>sc. - s_CreatedAt sc) (t_scans s)))), s))"

text \<open>The condition of the claiming query on a row, and its transaction: select, then stamp.\<close>

definition scan_free :: "time \<Rightarrow> scan \<Rightarrow> bool" where
  "scan_free staleBefore sc \<longleftrightarrow> s_Status sc \<in> {ScanPending, ScanRunning} \<and>
     (s_Status sc = ScanPending \<or> (case s_ClaimedAt sc of None \<Rightarrow> True | Some t \<Rightarrow> t < staleBefore))"

definition claim_scans :: "string \<Rightarrow> (uuid \<Rightarrow> bool) \<Rightarrow> time \<Rightarrow> time \<Rightarrow> nat \<Rightarrow> scan list \<Rightarrow> uuid list \<times> scan list" where
  "claim_scans owner locked staleBefore now n rows =
     (let ids = map s_ID (pick (\<lambda>sc. scan_free staleBefore sc \<and> \<not> locked (s_ID sc)) s_CreatedAt n rows)
      in (ids, upd_where (\<lambda>sc. s_ID sc \<in> set ids)
            (\<lambda>sc. sc\<lparr>s_Status := ScanRunning, s_ClaimedBy := Some owner, s_ClaimedAt := Some now,
                     s_StartedAt := coalesce (s_StartedAt sc) (Some now)\<rparr>) rows))"

text \<open>
  The process clock is read once for \<^verbatim>\<open>staleBefore\<close>, before the transaction begins, and again inside it
  for the stamp; the second reading is the one after the call.
\<close>

definition ClaimNextScans :: "string \<Rightarrow> duration \<Rightarrow> int \<Rightarrow> scan list op" where
  "ClaimNextScans owner leaseTTL limit s =
     (if owner = [] then (Inl ErrClaimOwnerRequired, s)
      else let ttl = (if leaseTTL \<le> 0 then 30 * second else leaseTTL);
               lim = (if limit \<le> 0 then 1 else limit);
               staleBefore = go_now s - ttl in
        bind_op (db_call (\<lambda>s. case claim_scans owner (db_locked s (db_step s)) staleBefore (go_now (next_step s)) (nat lim) (t_scans s)
            of (ids, rows) \<Rightarrow> (Inr ids, s\<lparr>t_scans := rows\<rparr>)))
          (\<lambda>ids. get_all GetScan ids) s)"

text \<open>\<^verbatim>\<open>UPDATE scans SET ... WHERE id = $1 AND claimed_by = $2 AND status = 'running'\<close>.\<close>

definition holds_claim :: "uuid \<Rightarrow> string \<Rightarrow> scan \<Rightarrow> bool" where
  "holds_claim i owner sc \<longleftrightarrow> s_ID sc = i \<and> s_ClaimedBy sc = Some owner \<and> s_Status sc = ScanRunning"

definition HeartbeatScanClaim :: "uuid \<Rightarrow> string \<Rightarrow> unit op" where
  "HeartbeatScanClaim i owner = db_call (\<lambda>s.
     if hits (holds_claim i owner) (t_scans s) = 0 then (Inl ErrScanNotFound, s)
     else (Inr (), s\<lparr>t_scans := upd_where (holds_claim i owner) (\<lambda>sc. sc\<lparr>s_ClaimedAt := Some (sql_now s)\<rparr>) (t_scans s)\<rparr>))"

definition ReleaseScanClaim :: "uuid \<Rightarrow> string \<Rightarrow> unit op" where
  "ReleaseScanClaim i owner = db_call (\<lambda>s. (Inr (), s\<lparr>t_scans :=
     upd_where (holds_claim i owner) (\<lambda>sc. sc\<lparr>s_ClaimedBy := None, s_ClaimedAt := None\<rparr>) (t_scans s)\<rparr>))"

text \<open>The updates by id alone; no row is no error.\<close>

definition update_scan :: "uuid \<Rightarrow> (time \<Rightarrow> scan \<Rightarrow> scan) \<Rightarrow> unit op" where
  "update_scan i f s = db_call (\<lambda>t. (Inr (), t\<lparr>t_scans := upd_where (\<lambda>sc. s_ID sc = i) (f (go_now s)) (t_scans t)\<rparr>)) s"

definition UpdateScanRunning :: "uuid \<Rightarrow> int \<Rightarrow> unit op" where
  "UpdateScanRunning i targetsTotal = update_scan i (\<lambda>now sc.
     sc\<lparr>s_Status := ScanRunning, s_StartedAt := Some now, s_TargetsTotal := targetsTotal\<rparr>)"

definition UpdateScanProgress :: "uuid \<Rightarrow> int \<Rightarrow> int \<Rightarrow> unit op" where
  "UpdateScanProgress i scanned certsFound = update_scan i (\<lambda>_ sc.
     sc\<lparr>s_TargetsScanned := scanned, s_CertsFound := certsFound\<rparr>)"

section \<open>Counters\<close>

definition MaxFailureSamples :: nat where
  "MaxFailureSamples = 50"

record scan_summary =
  sm_TargetsTotal :: int
  sm_TargetsScanned :: int
  sm_TargetsSucceeded :: int
  sm_TargetsFailed :: int
  sm_CertsFound :: int
  sm_UpsertFailures :: int
  sm_ExpansionWarnings :: "string list"
  sm_FailureSamples :: "target_failure_sample list"

record scan_stats =
  st_Scanned :: int
  st_Succeeded :: int
  st_Failed :: int
  st_CertsFound :: int
  st_UpsertFailures :: int
  st_FailureSamples :: "target_failure_sample list"

text \<open>\<^verbatim>\<open>scanner.Target\<close>.\<close>

record target =
  tg_IP :: string
  tg_Port :: int
  tg_Hostname :: string

definition addSample :: "target \<Rightarrow> string \<Rightarrow> string \<Rightarrow> scan_stats \<Rightarrow> scan_stats" where
  "addSample target reason kind st =
     (if length (st_FailureSamples st) \<ge> MaxFailureSamples then st
      else let sni = (if tg_Hostname target = [] then tg_IP target else tg_Hostname target) in
        st\<lparr>st_FailureSamples := st_FailureSamples st @ [\<lparr>ts_IP = tg_IP target, ts_Port = tg_Port target,
             ts_Hostname = tg_Hostname target, ts_SNI = sni, ts_Reason = reason, ts_Kind = kind\<rparr>]\<rparr>)"

definition RecordProbeFailure :: "target \<Rightarrow> string \<Rightarrow> scan_stats \<Rightarrow> scan_stats" where
  "RecordProbeFailure target reason st = addSample target reason ''probe'' (st\<lparr>st_Failed := st_Failed st + 1\<rparr>)"

definition RecordProbeSuccess :: "scan_stats \<Rightarrow> scan_stats" where
  "RecordProbeSuccess st = st\<lparr>st_Succeeded := st_Succeeded st + 1\<rparr>"

definition RecordUpsertFailure :: "target \<Rightarrow> string \<Rightarrow> scan_stats \<Rightarrow> scan_stats" where
  "RecordUpsertFailure target reason st = addSample target reason ''upsert'' (st\<lparr>st_UpsertFailures := st_UpsertFailures st + 1\<rparr>)"

definition RecordCertFound :: "scan_stats \<Rightarrow> scan_stats" where
  "RecordCertFound st = st\<lparr>st_CertsFound := st_CertsFound st + 1\<rparr>"

definition Summary :: "scan_stats \<Rightarrow> int \<Rightarrow> string list \<Rightarrow> scan_summary" where
  "Summary st targetsTotal warnings =
     \<lparr>sm_TargetsTotal = targetsTotal, sm_TargetsScanned = st_Scanned st, sm_TargetsSucceeded = st_Succeeded st,
      sm_TargetsFailed = st_Failed st, sm_CertsFound = st_CertsFound st, sm_UpsertFailures = st_UpsertFailures st,
      sm_ExpansionWarnings = warnings, sm_FailureSamples = st_FailureSamples st\<rparr>"

section \<open>Ends of a scan\<close>

definition CompleteScan :: "uuid \<Rightarrow> scan_summary \<Rightarrow> unit op" where
  "CompleteScan i summary = update_scan i (\<lambda>now sc.
     sc\<lparr>s_Status := ScanCompleted, s_FinishedAt := Some now, s_TargetsScanned := sm_TargetsScanned summary,
       s_TargetsSucceeded := sm_TargetsSucceeded summary, s_TargetsFailed := sm_TargetsFailed summary,
       s_CertsFound := sm_CertsFound summary, s_UpsertFailures := sm_UpsertFailures summary,
       s_ExpansionWarnings := sm_ExpansionWarnings summary, s_FailureSamples := sm_FailureSamples summary,
       s_Error := None, s_ClaimedBy := None, s_ClaimedAt := None\<rparr>)"

definition FailScan :: "uuid \<Rightarrow> string \<Rightarrow> unit op" where
  "FailScan i errMsg = update_scan i (\<lambda>now sc.
     sc\<lparr>s_Status := ScanFailed, s_FinishedAt := Some now, s_Error := Some errMsg, s_ClaimedBy := None, s_ClaimedAt := None\<rparr>)"

section \<open>The queue\<close>

lemma pending_count_snoc: "pending_count (rows @ [r]) = pending_count rows + (if s_Status r = ScanPending then 1 else 0)"
  by (simp add: pending_count_def hits_def)

text \<open>
  The bound on the queue. With a positive bound, a scan is refused exactly when that many scans are
  already pending, and then nothing changes; otherwise exactly one pending row is added, so the
  number of pending scans stays within the bound. A bound of zero or less admits every scan.
\<close>

theorem CreateScan_bounded:
  assumes "\<not> db_fault s (db_step s)" and "pk_free s_ID (new_uuid s) (t_scans s)"
  shows "case CreateScanWithSource source cidrs hostnames ports concurrency maxPending s of
      (Inl e, s') \<Rightarrow> e = ErrScanQueueFull \<and> 0 < maxPending \<and> maxPending \<le> int (pending_count (t_scans s)) \<and> s' = next_step s
    | (Inr row, s') \<Rightarrow> (maxPending \<le> 0 \<or> int (pending_count (t_scans s')) \<le> maxPending) \<and> s_Status row = ScanPending \<and>
        t_scans s' = t_scans s @ [row] \<and> pending_count (t_scans s') = Suc (pending_count (t_scans s)) \<and>
        s_Source row = (if source = [] then ''network'' else source) \<and> s_ClaimedAt row = None"
  using assms by (auto simp: CreateScanWithSource_def db_call_def Let_def new_scan_def pending_count_snoc)

theorem CreateScan_bounded_witness:
  "fst (CreateScanWithSource [] [''10.0.0.0/30''] [] [443] 50 1 example_store) \<noteq> Inl ErrScanQueueFull"
proof -
  have "\<not> db_fault example_store (db_step example_store)" "pk_free s_ID (new_uuid example_store) (t_scans example_store)"
    and empty: "pending_count (t_scans example_store) = 0"
    by (simp_all add: example_store_def empty_db_def pk_free_def pending_count_def hits_def)
  from CreateScan_bounded [OF this(1,2), of 1 "[]" "[''10.0.0.0/30'']" "[]" "[443]" 50] empty
  show ?thesis by (auto split: prod.splits sum.splits)
qed

section \<open>Claims\<close>

interpretation sl: leased_table s_ID scan_free "claim_scans owner locked"
  for owner locked
proof (unfold_locales, goal_cases)
  case (1 t x n rows ids rows' i)
  then show ?case using set_pick by (fastforce simp: claim_scans_def Let_def)
next
  case (2 t x n rows ids rows')
  then show ?case by (auto simp: claim_scans_def Let_def intro!: map_upd_where)
next
  case (3 t x n rows ids rows' r u)
  then show ?case
    by (auto simp: claim_scans_def Let_def scan_free_def elim!: in_upd_whereE split: if_splits)
next
  case (4 t x n rows ids rows' r)
  then show ?case by (auto simp: claim_scans_def Let_def set_upd_where)
next
  case (5 t x n rows ids rows')
  then show ?case using length_pick by (auto simp: claim_scans_def Let_def)
qed

text \<open>What replicas do to the queue.\<close>

datatype scan_action = Claim_scans string duration int
  | Create string "string list" "string list" "int list" int int
  | Heartbeat uuid string
  | Release uuid string
  | Running uuid int
  | Progress uuid int int
  | Complete uuid scan_summary
  | Fail uuid string

fun handed_out :: "(error + scan list) \<times> db \<Rightarrow> uuid list \<times> db" where
  "handed_out (Inl e, s) = ([], s)"
| "handed_out (Inr scs, s) = (map s_ID scs, s)"

fun scan_act :: "scan_action \<Rightarrow> db \<Rightarrow> uuid list \<times> db" where
  "scan_act (Claim_scans owner ttl limit) s = handed_out (ClaimNextScans owner ttl limit s)"
| "scan_act (Create src cidrs hosts ports conc mx) s = ([], ignore (CreateScanWithSource src cidrs hosts ports conc mx) s)"
| "scan_act (Heartbeat i owner) s = ([], ignore (HeartbeatScanClaim i owner) s)"
| "scan_act (Release i owner) s = ([], ignore (ReleaseScanClaim i owner) s)"
| "scan_act (Running i n) s = ([], ignore (UpdateScanRunning i n) s)"
| "scan_act (Progress i n c) s = ([], ignore (UpdateScanProgress i n c) s)"
| "scan_act (Complete i sm) s = ([], ignore (CompleteScan i sm) s)"
| "scan_act (Fail i e) s = ([], ignore (FailScan i e) s)"

fun scan_run :: "scan_action list \<Rightarrow> db \<Rightarrow> uuid list \<times> db" where
  "scan_run [] s = ([], s)"
| "scan_run (a # as) s =
     (case scan_act a s of (ids, s') \<Rightarrow> case scan_run as s' of (ids', s'') \<Rightarrow> (ids @ ids', s''))"

text \<open>The holder of a claim ends it by releasing, completing or failing the scan.\<close>

fun ends_claim :: "uuid \<Rightarrow> scan_action \<Rightarrow> bool" where
  "ends_claim i (Release j owner) \<longleftrightarrow> j = i"
| "ends_claim i (Complete j sm) \<longleftrightarrow> j = i"
| "ends_claim i (Fail j e) \<longleftrightarrow> j = i"
| "ends_claim i _ \<longleftrightarrow> False"

definition scan_ttl :: "duration \<Rightarrow> duration" where
  "scan_ttl ttl = (if ttl \<le> 0 then 30 * second else ttl)"

text \<open>The stamp of the claim after an action, and that the stamp is fresh whenever somebody claims.\<close>

fun stamp_after :: "uuid \<Rightarrow> string \<Rightarrow> time \<Rightarrow> scan_action \<Rightarrow> db \<Rightarrow> time" where
  "stamp_after i owner x (Heartbeat j o') s =
     (if j = i \<and> o' = owner \<and> \<not> db_fault s (db_step s) then sql_now s else x)"
| "stamp_after i owner x _ s = x"

fun fresh_for :: "time \<Rightarrow> scan_action \<Rightarrow> db \<Rightarrow> bool" where
  "fresh_for x (Claim_scans owner ttl limit) s \<longleftrightarrow> go_now s - scan_ttl ttl \<le> x"
| "fresh_for x _ s \<longleftrightarrow> True"

fun keeps_up :: "uuid \<Rightarrow> string \<Rightarrow> time \<Rightarrow> scan_action list \<Rightarrow> db \<Rightarrow> bool" where
  "keeps_up i owner x [] s \<longleftrightarrow> True"
| "keeps_up i owner x (a # as) s \<longleftrightarrow> \<not> ends_claim i a \<and> fresh_for x a s \<and>
     keeps_up i owner (stamp_after i owner x a s) as (snd (scan_act a s))"

definition scan_held :: "uuid \<Rightarrow> string \<Rightarrow> time \<Rightarrow> scan list \<Rightarrow> bool" where
  "scan_held i owner x rows \<longleftrightarrow> distinct (map s_ID rows) \<and>
     (\<exists>r\<in>set rows. holds_claim i owner r \<and> s_ClaimedAt r = Some x)"

lemma scan_held_until:
  assumes "scan_held i owner x rows"
  shows "sl.held_until i x rows"
proof -
  from assms obtain r where r: "r \<in> set rows" "holds_claim i owner r" "s_ClaimedAt r = Some x" and d: "distinct (map s_ID rows)"
    by (auto simp: scan_held_def)
  show ?thesis unfolding sl.held_until_def
  proof (intro ballI impI allI)
    fix q u assume "q \<in> set rows" "s_ID q = i" and u: "u \<le> x"
    then have "q = r" using distinct_map_unique [OF d _ r(1)] r(2) by (simp add: holds_claim_def)
    then show "\<not> scan_free u q" using r u by (simp add: scan_free_def holds_claim_def)
  qed
qed

lemma scan_held_upd:
  assumes "scan_held i owner x rows" and "\<And>r. s_ID (f r) = s_ID r"
    and "\<And>r. holds_claim i owner r \<Longrightarrow> s_ClaimedAt r = Some x \<Longrightarrow> p r \<Longrightarrow> holds_claim i owner (f r) \<and> s_ClaimedAt (f r) = Some y"
    and "\<And>r. holds_claim i owner r \<Longrightarrow> \<not> p r \<Longrightarrow> y = x"
  shows "scan_held i owner y (upd_where p f rows)"
proof -
  have "map s_ID (upd_where p f rows) = map s_ID rows" by (rule map_upd_where) (rule assms(2))
  moreover obtain r where r: "r \<in> set rows" "holds_claim i owner r" "s_ClaimedAt r = Some x" and d: "distinct (map s_ID rows)"
    using assms(1) by (auto simp: scan_held_def)
  moreover have "\<exists>q\<in>set (upd_where p f rows). holds_claim i owner q \<and> s_ClaimedAt q = Some y"
  proof (cases "p r")
    case True
    then show ?thesis using assms(3) [OF r(2,3)] r(1) by (intro bexI [of _ "f r"]) (simp_all add: set_upd_where)
  next
    case False
    then show ?thesis using assms(4) [OF r(2)] r by (intro bexI [of _ r]) (simp_all add: set_upd_where)
  qed
  ultimately show ?thesis by (simp add: scan_held_def)
qed

lemma GetScan_scans: "t_scans (snd (GetScan i s)) = t_scans s"
  by (auto simp: GetScan_def db_call_def split: option.splits)

lemma GetScan_ID: "GetScan i s = (Inr sc, s') \<Longrightarrow> s_ID sc = i"
  by (auto simp: GetScan_def db_call_def split: option.splits if_splits dest!: find_Some_in)

lemma get_all_scans: "t_scans (snd (get_all GetScan ids s)) = t_scans s"
  by (rule get_all_keeps [where P = "\<lambda>t. t_scans t = t_scans s"]) (simp_all add: GetScan_scans)

lemma get_all_scans_ids: "get_all GetScan ids s = (Inr scs, s') \<Longrightarrow> map s_ID scs = ids"
proof (induction ids arbitrary: s scs)
  case (Cons i ids)
  then show ?case by (auto simp: bind_op_Inr dest: GetScan_ID)
qed simp

lemma ClaimNextScans_claim:
  assumes "ClaimNextScans owner ttl limit s = (r, s')"
  obtains "t_scans s' = t_scans s" "isl r"
  | ids n where "claim_scans owner (db_locked s (db_step s)) (go_now s - scan_ttl ttl) (go_now (next_step s)) n (t_scans s) = (ids, t_scans s')"
      "\<And>scs. r = Inr scs \<Longrightarrow> map s_ID scs = ids"
proof (cases "owner = [] \<or> db_fault s (db_step s)")
  case True
  then have "isl r \<and> t_scans s' = t_scans s"
    using assms by (auto simp: ClaimNextScans_def bind_op_def db_call_def Let_def split: if_splits)
  then show thesis using that(1) by simp
next
  case False
  let ?n = "nat (if limit \<le> 0 then 1 else limit)"
  obtain ids rows where cl: "claim_scans owner (db_locked s (db_step s)) (go_now s - scan_ttl ttl) (go_now (next_step s))
      ?n (t_scans s) = (ids, rows)" by force
  have g: "get_all GetScan ids (next_step (s\<lparr>t_scans := rows\<rparr>)) = (r, s')"
    using assms False cl by (simp add: ClaimNextScans_def bind_op_def db_call_def Let_def scan_ttl_def)
  then have "t_scans s' = rows" using get_all_scans [of ids "next_step (s\<lparr>t_scans := rows\<rparr>)"] by simp
  moreover have "map s_ID scs = ids" if "r = Inr scs" for scs using g that get_all_scans_ids by simp
  ultimately show thesis using that(2) cl by simp
qed

lemma claim_keeps_held:
  assumes "scan_held i owner x rows" and cl: "claim_scans o' locked u now n rows = (ids, rows')" and "u \<le> x"
  shows "i \<notin> set ids \<and> scan_held i owner x rows'"
proof -
  have i: "i \<notin> set ids" using sl.held_not_claimed [OF scan_held_until [OF assms(1)] cl assms(3)] .
  moreover obtain r where "r \<in> set rows" "holds_claim i owner r" "s_ClaimedAt r = Some x" using assms(1) by (auto simp: scan_held_def)
  moreover from this i have "r \<in> set rows'" using sl.claim_frame [OF cl] by (simp add: holds_claim_def)
  ultimately show ?thesis using assms(1) sl.claim_keys [OF cl] by (auto simp: scan_held_def)
qed

lemma update_scan_scans:
  "t_scans (ignore (update_scan i f) s) =
     (if db_fault s (db_step s) then t_scans s else upd_where (\<lambda>sc. s_ID sc = i) (f (go_now s)) (t_scans s))"
  by (simp add: ignore_def update_scan_def db_call_def)

lemma update_scan_held:
  assumes "scan_held i owner x (t_scans s)"
    and "\<And>now sc. s_ID (f now sc) = s_ID sc \<and> s_ClaimedBy (f now sc) = s_ClaimedBy sc \<and> s_ClaimedAt (f now sc) = s_ClaimedAt sc"
    and "\<And>now sc. s_Status sc = ScanRunning \<Longrightarrow> s_Status (f now sc) = ScanRunning"
  shows "scan_held i owner x (t_scans (ignore (update_scan j f) s))"
  using assms scan_held_upd [OF assms(1), of "f (go_now s)" "\<lambda>sc. s_ID sc = j" x]
  by (simp add: update_scan_scans holds_claim_def)

lemma end_other_held:
  assumes "scan_held i owner x (t_scans s)" and "j \<noteq> i" and "\<And>now sc. s_ID (f now sc) = s_ID sc"
  shows "scan_held i owner x (t_scans (ignore (update_scan j f) s))"
  using assms scan_held_upd [OF assms(1), of "f (go_now s)" "\<lambda>sc. s_ID sc = j" x]
  by (simp add: update_scan_scans holds_claim_def)

lemma heartbeat_held:
  assumes "scan_held i owner x (t_scans s)"
  shows "scan_held i owner (stamp_after i owner x (Heartbeat j o') s) (t_scans (ignore (HeartbeatScanClaim j o') s))"
proof (cases "j = i \<and> o' = owner \<and> \<not> db_fault s (db_step s)")
  case True
  have "hits (holds_claim i owner) (t_scans s) \<noteq> 0" using assms by (auto simp: scan_held_def hits_0_iff)
  then have "t_scans (ignore (HeartbeatScanClaim j o') s) =
      upd_where (holds_claim i owner) (\<lambda>sc. sc\<lparr>s_ClaimedAt := Some (sql_now s)\<rparr>) (t_scans s)"
    using True by (simp add: ignore_def HeartbeatScanClaim_def db_call_def)
  moreover have "scan_held i owner (sql_now s) \<dots>"
    by (rule scan_held_upd [OF assms]) (simp_all add: holds_claim_def)
  ultimately show ?thesis using True by simp
next
  case False
  have "scan_held i owner x (upd_where (holds_claim j o') (\<lambda>sc. sc\<lparr>s_ClaimedAt := Some (sql_now s)\<rparr>) (t_scans s))"
    if "\<not> (j = i \<and> o' = owner)"
    by (rule scan_held_upd [OF assms]) (use that in \<open>auto simp: holds_claim_def\<close>)
  then show ?thesis using False assms by (auto simp: ignore_def HeartbeatScanClaim_def db_call_def)
qed

lemma scan_act_held:
  assumes "scan_held i owner x (t_scans s)" and "\<not> ends_claim i a" and "fresh_for x a s" and "scan_act a s = (ids, s')"
  shows "i \<notin> set ids \<and> scan_held i owner (stamp_after i owner x a s) (t_scans s')"
proof (cases a)
  case (Claim_scans o' ttl limit)
  then have op: "handed_out (ClaimNextScans o' ttl limit s) = (ids, s')" and fresh: "go_now s - scan_ttl ttl \<le> x"
    using assms(3,4) by simp_all
  obtain r where run: "ClaimNextScans o' ttl limit s = (r, s')" and ids: "ids = (case r of Inl _ \<Rightarrow> [] | Inr scs \<Rightarrow> map s_ID scs)"
    using op by (cases "ClaimNextScans o' ttl limit s"; cases "fst (ClaimNextScans o' ttl limit s)") auto
  from run have "i \<notin> set ids \<and> scan_held i owner x (t_scans s')"
  proof (cases rule: ClaimNextScans_claim)
    case 1
    then show ?thesis using ids assms(1) by (auto split: sum.splits)
  next
    case (2 got n)
    then show ?thesis using claim_keeps_held [OF assms(1) 2(1) fresh] ids by (auto split: sum.splits)
  qed
  then show ?thesis using Claim_scans by simp
next
  case (Create src cidrs hosts ports conc mx)
  then show ?thesis using assms(1,4)
    by (auto simp: scan_held_def ignore_def CreateScanWithSource_def db_call_def Let_def pk_free_def) (blast+)
next
  case (Heartbeat j o')
  then show ?thesis using heartbeat_held [OF assms(1), of j o'] assms(4) by (auto simp del: stamp_after.simps)
next
  case (Release j o')
  then have "scan_held i owner x (upd_where (holds_claim j o') (\<lambda>sc. sc\<lparr>s_ClaimedBy := None, s_ClaimedAt := None\<rparr>) (t_scans s))"
    using assms(2) by (intro scan_held_upd [OF assms(1)]) (auto simp: holds_claim_def)
  then show ?thesis using Release assms(1,4) by (auto simp: ignore_def ReleaseScanClaim_def db_call_def)
next
  case (Running j n)
  then show ?thesis using assms(1,4) by (auto simp: UpdateScanRunning_def intro!: update_scan_held)
next
  case (Progress j n c)
  then show ?thesis using assms(1,4) by (auto simp: UpdateScanProgress_def intro!: update_scan_held)
qed (use assms in \<open>auto simp: CompleteScan_def FailScan_def intro!: end_other_held\<close>)

lemma scan_run_held:
  "scan_held i owner x (t_scans s) \<Longrightarrow> keeps_up i owner x as s \<Longrightarrow> i \<notin> set (fst (scan_run as s))"
proof (induction as arbitrary: x s)
  case (Cons a as)
  obtain ids s' where act: "scan_act a s = (ids, s')" by force
  note k = scan_act_held [OF Cons.prems(1) _ _ act]
  then have "i \<notin> set ids" "scan_held i owner (stamp_after i owner x a s) (t_scans s')" using Cons.prems(2) by auto
  moreover from this(2) have "i \<notin> set (fst (scan_run as s'))" using Cons.IH Cons.prems(2) act by simp
  ultimately show ?case using act by (auto split: prod.splits)
qed simp


definition example_queue :: db where
  "example_queue = empty_db\<lparr>t_scans := [(new_scan ''network'' [] [''h''] [443] 50 empty_db)\<lparr>s_ID := 3\<rparr>]\<rparr>"


end
