(* ===== verification/Scan_Targets.thy ===== *)
theory Scan_Targets
  imports Scan_Queue
begin

text \<open>
  Expansion of a scan request to probe targets (\<^verbatim>\<open>internal/scanner/scanner.go\<close>). Addresses are the
  numbers \<^verbatim>\<open>net/netip\<close> keeps; reading a prefix from text, printing an address and the name service are
  parameters. The texts of warnings and errors are kept as values.
\<close>

section \<open>Addresses\<close>

datatype addr = V4 nat | V6 nat

record prefix =
  px_Addr :: addr
  px_Bits :: nat

text \<open>\<^verbatim>\<open>net.IP.To4\<close> and \<^verbatim>\<open>netip.Addr.Unmap\<close>: an IPv4 address, also one mapped into IPv6.\<close>

fun To4 :: "addr \<Rightarrow> nat option" where
  "To4 (V4 a) = Some a"
| "To4 (V6 a) = (if a div 2 ^ 32 = 65535 then Some (a mod 2 ^ 32) else None)"

text \<open>The classes of \<^verbatim>\<open>netip\<close>; IPv4-mapped addresses are classified as IPv4.\<close>

definition IsPrivate :: "addr \<Rightarrow> bool" where
  "IsPrivate x = (case To4 x of
     Some a \<Rightarrow> a div 2 ^ 24 = 10 \<or> a div 2 ^ 20 = 172 * 16 + 1 \<or> a div 2 ^ 16 = 192 * 256 + 168
   | None \<Rightarrow> (case x of V4 a \<Rightarrow> False | V6 a \<Rightarrow> a div 2 ^ 121 = 126))"

definition IsLoopback :: "addr \<Rightarrow> bool" where
  "IsLoopback x = (case To4 x of Some a \<Rightarrow> a div 2 ^ 24 = 127 | None \<Rightarrow> x = V6 1)"

definition IsLinkLocalUnicast :: "addr \<Rightarrow> bool" where
  "IsLinkLocalUnicast x = (case To4 x of Some a \<Rightarrow> a div 2 ^ 16 = 169 * 256 + 254
   | None \<Rightarrow> (case x of V4 a \<Rightarrow> False | V6 a \<Rightarrow> a div 2 ^ 118 = 1018))"

definition IsLinkLocalMulticast :: "addr \<Rightarrow> bool" where
  "IsLinkLocalMulticast x = (case To4 x of Some a \<Rightarrow> a div 2 ^ 8 = 224 * 65536
   | None \<Rightarrow> (case x of V4 a \<Rightarrow> False | V6 a \<Rightarrow> a div 2 ^ 120 = 255 \<and> a div 2 ^ 112 mod 16 = 2))"

definition isPrivateAddr :: "addr \<Rightarrow> bool" where
  "isPrivateAddr a \<longleftrightarrow> IsPrivate a \<or> IsLoopback a \<or> IsLinkLocalUnicast a \<or> IsLinkLocalMulticast a"

definition isPrivatePrefix :: "prefix \<Rightarrow> bool" where
  "isPrivatePrefix p \<longleftrightarrow> isPrivateAddr (px_Addr p)"

fun Is4 :: "addr \<Rightarrow> bool" where
  "Is4 (V4 a) \<longleftrightarrow> True"
| "Is4 (V6 a) \<longleftrightarrow> False"

lemmas address_classes = isPrivateAddr_def IsPrivate_def IsLoopback_def IsLinkLocalUnicast_def IsLinkLocalMulticast_def

text \<open>
  The addresses of \<^verbatim>\<open>for addr := prefix.Masked().Addr(); prefix.Contains(addr); addr = addr.Next()\<close>: from
  the masked address on, all that share the prefix.
\<close>

definition block :: "nat \<Rightarrow> nat \<Rightarrow> nat \<Rightarrow> nat list" where
  "block width bits a = (let m = 2 ^ (width - bits); base = a div m * m in [base ..< base + m])"

fun prefix_addrs :: "prefix \<Rightarrow> addr list" where
  "prefix_addrs \<lparr>px_Addr = V4 a, px_Bits = bits\<rparr> = map V4 (block 32 bits a)"
| "prefix_addrs \<lparr>px_Addr = V6 a, px_Bits = bits\<rparr> = map V6 (block 128 bits a)"

section \<open>Expansion\<close>

datatype scan_error = InvalidCIDR string string | PrivateRange string | TooLarge string
  | NoResolvable "scan_warning list" | NoHostTargets | NoTargets
  and scan_warning = LookupFailed string string | NoAddresses string | PrivateSkipped string nat | NoIPv4 string

definition at_ports :: "(addr \<Rightarrow> string) \<Rightarrow> string \<Rightarrow> int list \<Rightarrow> addr \<Rightarrow> target list" where
  "at_ports addr_str host ports a = map (\<lambda>port. \<lparr>tg_IP = addr_str a, tg_Port = port, tg_Hostname = host\<rparr>) ports"

fun ExpandTargets :: "(string \<Rightarrow> string + prefix) \<Rightarrow> (addr \<Rightarrow> string) \<Rightarrow> string list \<Rightarrow> int list \<Rightarrow> bool \<Rightarrow> scan_error + target list" where
  "ExpandTargets parse addr_str [] ports allowPrivate = Inr []"
| "ExpandTargets parse addr_str (cidr # cidrs) ports allowPrivate =
     (case parse cidr of
        Inl err \<Rightarrow> Inl (InvalidCIDR cidr err)
      | Inr p \<Rightarrow>
         if \<not> allowPrivate \<and> isPrivatePrefix p then Inl (PrivateRange cidr)
         else if Is4 (px_Addr p) \<and> px_Bits p < 16 then Inl (TooLarge cidr)
         else case ExpandTargets parse addr_str cidrs ports allowPrivate of
           Inl e \<Rightarrow> Inl e
         | Inr rest \<Rightarrow> Inr (concat (map (at_ports addr_str [] ports) (prefix_addrs p)) @ rest))"

fun resolved_loop :: "(addr \<Rightarrow> string) \<Rightarrow> string \<Rightarrow> addr list \<Rightarrow> int list \<Rightarrow> bool \<Rightarrow> target list \<Rightarrow> scan_warning list \<Rightarrow> bool \<Rightarrow>
    target list \<times> scan_warning list \<times> bool" where
  "resolved_loop addr_str host [] ports allowPrivate targets warnings added = (targets, warnings, added)"
| "resolved_loop addr_str host (ip # ips) ports allowPrivate targets warnings added =
     (case To4 ip of
        None \<Rightarrow> resolved_loop addr_str host ips ports allowPrivate targets warnings added
      | Some a \<Rightarrow>
         if \<not> allowPrivate \<and> isPrivateAddr (V4 a)
         then resolved_loop addr_str host ips ports allowPrivate targets (warnings @ [PrivateSkipped host a]) added
         else resolved_loop addr_str host ips ports allowPrivate (targets @ at_ports addr_str host ports (V4 a)) warnings True)"

definition targetsFromResolvedIPs :: "(addr \<Rightarrow> string) \<Rightarrow> string \<Rightarrow> addr list \<Rightarrow> int list \<Rightarrow> bool \<Rightarrow> target list \<times> scan_warning list" where
  "targetsFromResolvedIPs addr_str host ips ports allowPrivate =
     (case resolved_loop addr_str host ips ports allowPrivate [] [] False of (targets, warnings, added) \<Rightarrow>
        (targets, if \<not> added \<and> warnings = [] then [NoIPv4 host] else warnings))"

fun hosts_loop :: "(string \<Rightarrow> string + addr list) \<Rightarrow> (addr \<Rightarrow> string) \<Rightarrow> string list \<Rightarrow> int list \<Rightarrow> bool \<Rightarrow> target list \<Rightarrow> scan_warning list \<Rightarrow>
    target list \<times> scan_warning list" where
  "hosts_loop lookup addr_str [] ports allowPrivate targets warnings = (targets, warnings)"
| "hosts_loop lookup addr_str (h # hs) ports allowPrivate targets warnings =
     (let host = trim_space h in
      if host = [] then hosts_loop lookup addr_str hs ports allowPrivate targets warnings
      else case lookup host of
        Inl err \<Rightarrow> hosts_loop lookup addr_str hs ports allowPrivate targets (warnings @ [LookupFailed host err])
      | Inr [] \<Rightarrow> hosts_loop lookup addr_str hs ports allowPrivate targets (warnings @ [NoAddresses host])
      | Inr ips \<Rightarrow>
         (case targetsFromResolvedIPs addr_str host ips ports allowPrivate of (hostTargets, hostWarnings) \<Rightarrow>
            hosts_loop lookup addr_str hs ports allowPrivate (targets @ hostTargets)
              (warnings @ hostWarnings @ (if hostTargets = [] \<and> hostWarnings = [] then [NoIPv4 host] else []))))"

text \<open>Targets and warnings, with the error when there is no target.\<close>

definition ExpandHostnamesPartial :: "(string \<Rightarrow> string + addr list) \<Rightarrow> (addr \<Rightarrow> string) \<Rightarrow> string list \<Rightarrow> int list \<Rightarrow> bool \<Rightarrow>
    target list \<times> scan_warning list \<times> scan_error option" where
  "ExpandHostnamesPartial lookup addr_str hostnames ports allowPrivate =
     (case hosts_loop lookup addr_str hostnames ports allowPrivate [] [] of (targets, warnings) \<Rightarrow>
        if targets = [] then ([], warnings, Some (if warnings \<noteq> [] then NoResolvable warnings else NoHostTargets))
        else (targets, warnings, None))"

definition ExpandScanTargets :: "(string \<Rightarrow> string + prefix) \<Rightarrow> (string \<Rightarrow> string + addr list) \<Rightarrow> (addr \<Rightarrow> string) \<Rightarrow>
    string list \<Rightarrow> string list \<Rightarrow> int list \<Rightarrow> bool \<Rightarrow> scan_error + target list \<times> scan_warning list" where
  "ExpandScanTargets parse lookup addr_str cidrs hostnames ports allowPrivate =
     (case (if cidrs \<noteq> [] then ExpandTargets parse addr_str cidrs ports allowPrivate else Inr []) of
        Inl e \<Rightarrow> Inl e
      | Inr targets \<Rightarrow>
         (case (if hostnames \<noteq> [] then ExpandHostnamesPartial lookup addr_str hostnames ports allowPrivate else ([], [], None)) of
            (fromHost, warnings, err) \<Rightarrow>
              if err \<noteq> None \<and> fromHost = [] \<and> targets = [] then Inl (the err)
              else if targets @ fromHost = [] then Inl NoTargets
              else Inr (targets @ fromHost, warnings)))"

section \<open>The private-range policy\<close>

lemma block_div:
  assumes "x \<in> set (block width bits a)" and "width - bits \<le> k"
  shows "x div 2 ^ k = a div 2 ^ k"
proof -
  let ?m = "2 ^ (width - bits) :: nat"
  obtain d where k: "2 ^ k = ?m * 2 ^ d" using assms(2) by (metis le_add_diff_inverse power_add)
  have "x div ?m = a div ?m"
  proof (rule div_nat_eqI)
    show "?m * (a div ?m) \<le> x" "x < ?m * Suc (a div ?m)"
      using assms(1) by (auto simp: block_def Let_def algebra_simps)
  qed
  then show ?thesis unfolding k by (simp add: div_mult2_eq)
qed

lemma length_block: "length (block width bits a) = 2 ^ (width - bits)"
  by (simp add: block_def Let_def)

text \<open>The classes of an IPv4 address, except that of multicast, depend on its upper half only.\<close>

lemma private_upper_half:
  assumes "x div 2 ^ 16 = a div (2 ^ 16 :: nat)"
  shows "IsPrivate (V4 x) = IsPrivate (V4 a)" "IsLoopback (V4 x) = IsLoopback (V4 a)"
    "IsLinkLocalUnicast (V4 x) = IsLinkLocalUnicast (V4 a)"
proof -
  have "x div 2 ^ 24 = a div 2 ^ 24" "x div 2 ^ 20 = a div 2 ^ 20"
    using div_mult2_eq [of x "2 ^ 16" "2 ^ 8"] div_mult2_eq [of a "2 ^ 16" "2 ^ 8"]
      div_mult2_eq [of x "2 ^ 16" "2 ^ 4"] div_mult2_eq [of a "2 ^ 16" "2 ^ 4"] assms by simp_all
  with assms show "IsPrivate (V4 x) = IsPrivate (V4 a)" "IsLoopback (V4 x) = IsLoopback (V4 a)"
      "IsLinkLocalUnicast (V4 x) = IsLinkLocalUnicast (V4 a)"
    by (simp_all add: IsPrivate_def IsLoopback_def IsLinkLocalUnicast_def)
qed

definition outside_v4 :: "addr \<Rightarrow> bool" where
  "outside_v4 a \<longleftrightarrow> Is4 a \<longrightarrow> \<not> IsPrivate a \<and> \<not> IsLoopback a \<and> \<not> IsLinkLocalUnicast a"

definition target_of :: "(addr \<Rightarrow> string) \<Rightarrow> int list \<Rightarrow> (addr \<Rightarrow> bool) \<Rightarrow> target \<Rightarrow> bool" where
  "target_of addr_str ports P t \<longleftrightarrow> tg_Port t \<in> set ports \<and> (\<exists>a. tg_IP t = addr_str a \<and> P a)"

lemma at_ports_of: "P a \<Longrightarrow> t \<in> set (at_ports addr_str host ports a) \<Longrightarrow> target_of addr_str ports P t"
  by (auto simp: at_ports_def target_of_def)

lemma prefix_outside:
  assumes "\<not> isPrivatePrefix p" and "Is4 (px_Addr p) \<Longrightarrow> 16 \<le> px_Bits p" and "a \<in> set (prefix_addrs p)"
  shows "outside_v4 a"
proof (cases p rule: prefix_addrs.cases)
  case (1 b bits)
  then obtain x where x: "a = V4 x" "x \<in> set (block 32 bits b)" using assms(3) by auto
  have "x div 2 ^ 16 = b div 2 ^ 16" by (rule block_div [OF x(2)]) (use assms(2) 1 in simp)
  from private_upper_half [OF this] show ?thesis using assms(1) 1 x(1)
    by (simp add: outside_v4_def isPrivatePrefix_def isPrivateAddr_def)
next
  case (2 b bits)
  then show ?thesis using assms(3) by (auto simp: outside_v4_def)
qed

lemma ExpandTargets_outside:
  "ExpandTargets parse addr_str cidrs ports False = Inr targets \<Longrightarrow> t \<in> set targets \<Longrightarrow> target_of addr_str ports outside_v4 t"
proof (induction cidrs arbitrary: targets)
  case (Cons cidr cidrs)
  then obtain p rest where p: "\<not> isPrivatePrefix p" "Is4 (px_Addr p) \<Longrightarrow> 16 \<le> px_Bits p"
    and rest: "ExpandTargets parse addr_str cidrs ports False = Inr rest"
    and ts: "targets = concat (map (at_ports addr_str [] ports) (prefix_addrs p)) @ rest"
    by (auto split: sum.splits if_splits)
  then show ?case using Cons.IH [OF rest] Cons.prems(2) prefix_outside [OF p] at_ports_of by fastforce
qed simp

lemma resolved_loop_outside:
  assumes "resolved_loop addr_str host ips ports False targets warnings added = (targets', warnings', added')"
    and "\<forall>t\<in>set targets. target_of addr_str ports outside_v4 t"
  shows "\<forall>t\<in>set targets'. target_of addr_str ports outside_v4 t"
  using assms
proof (induction ips arbitrary: targets warnings added)
  case (Cons ip ips)
  have "outside_v4 (V4 a)" if "\<not> isPrivateAddr (V4 a)" for a using that by (simp add: isPrivateAddr_def outside_v4_def)
  then have "\<forall>t\<in>set (targets @ at_ports addr_str host ports (V4 a)). target_of addr_str ports outside_v4 t" if "\<not> isPrivateAddr (V4 a)" for a
    using that Cons.prems(2) at_ports_of by fastforce
  with Cons show ?case by (auto split: option.splits if_splits)
qed simp

lemma hosts_loop_outside:
  assumes "hosts_loop lookup addr_str hosts ports False targets warnings = (targets', warnings')"
    and "\<forall>t\<in>set targets. target_of addr_str ports outside_v4 t"
  shows "\<forall>t\<in>set targets'. target_of addr_str ports outside_v4 t"
  using assms
proof (induction hosts arbitrary: targets warnings)
  case (Cons h hs)
  have new: "\<forall>t\<in>set ts. target_of addr_str ports outside_v4 t"
    if "targetsFromResolvedIPs addr_str host ips ports False = (ts, ws)" for host ips ts ws
    using that resolved_loop_outside [of addr_str host ips ports "[]" "[]" False]
    by (auto simp: targetsFromResolvedIPs_def split: prod.splits)
  show ?case
  proof (cases "lookup (trim_space h)")
    case (Inl e)
    then show ?thesis using Cons by (auto simp: Let_def split: if_splits)
  next
    case (Inr ips)
    obtain ts ws where r: "targetsFromResolvedIPs addr_str (trim_space h) ips ports False = (ts, ws)" by force
    have "\<forall>t\<in>set (targets @ ts). target_of addr_str ports outside_v4 t" using new [OF r] Cons.prems(2) by auto
    then show ?thesis using Cons Inr r by (cases ips) (auto simp: Let_def split: if_splits)
  qed
qed simp

text \<open>
  C22. The private-range policy. Unless private ranges are allowed, no IPv4 target of a scan is a private,
  loopback or link-local address, whether it comes from a CIDR of the request or from the name
  service, and every target has a requested port.
\<close>

theorem expand_respects_policy:
  assumes "ExpandScanTargets parse lookup addr_str cidrs hostnames ports False = Inr (targets, warnings)"
  shows "targets \<noteq> [] \<and> (\<forall>t\<in>set targets. target_of addr_str ports outside_v4 t)"
proof -
  obtain tc where tc: "(if cidrs \<noteq> [] then ExpandTargets parse addr_str cidrs ports False else Inr []) = Inr tc"
    using assms by (auto simp: ExpandScanTargets_def split: sum.splits)
  obtain th ws err where th: "(if hostnames \<noteq> [] then ExpandHostnamesPartial lookup addr_str hostnames ports False else ([], [], None)) = (th, ws, err)"
    by (metis prod_cases3)
  have ts: "targets = tc @ th" "targets \<noteq> []"
    using assms tc th by (auto simp: ExpandScanTargets_def split: if_splits)
  have "\<forall>t\<in>set tc. target_of addr_str ports outside_v4 t" using tc ExpandTargets_outside by (fastforce split: if_splits)
  moreover have "\<forall>t\<in>set th. target_of addr_str ports outside_v4 t"
    using th hosts_loop_outside [of lookup addr_str hostnames ports "[]" "[]"]
    by (auto simp: ExpandHostnamesPartial_def split: if_splits prod.splits)
  ultimately show ?thesis using ts by auto
qed

definition example_parse :: "string \<Rightarrow> string + prefix" where
  "example_parse c = (if c = ''8.8.8.0/31'' then Inr \<lparr>px_Addr = V4 134744072, px_Bits = 31\<rparr> else Inl ''no prefix'')"

lemma trim_host: "trim_space ''h'' = ''h''"
  by code_simp

theorem expand_respects_policy_witness:
  "\<exists>targets. ExpandScanTargets example_parse (\<lambda>_. Inr [V4 167772161, V4 16843009]) (\<lambda>a. case a of V4 n \<Rightarrow> nat_str n | V6 n \<Rightarrow> [])
     [''8.8.8.0/31''] [''h''] [443] False = Inr (targets, [PrivateSkipped ''h'' 167772161]) \<and> length targets = 3 \<and>
     list_all (target_of (\<lambda>a. case a of V4 n \<Rightarrow> nat_str n | V6 n \<Rightarrow> []) [443] outside_v4) targets"
proof -
  let ?addr_str = "\<lambda>a. case a of V4 n \<Rightarrow> nat_str n | V6 n \<Rightarrow> []"
  let ?r = "ExpandScanTargets example_parse (\<lambda>_. Inr [V4 167772161, V4 16843009]) ?addr_str [''8.8.8.0/31''] [''h''] [443] False"
  have "map_sum id (\<lambda>(ts, ws). (length ts, ws)) ?r = Inr (3, [PrivateSkipped ''h'' 167772161])"
    by (simp add: ExpandScanTargets_def example_parse_def isPrivatePrefix_def address_classes block_def upt_conv_Cons at_ports_def
        ExpandHostnamesPartial_def targetsFromResolvedIPs_def trim_host Let_def)
  then obtain targets where r: "?r = Inr (targets, [PrivateSkipped ''h'' 167772161])" "length targets = 3"
    by (cases ?r) auto
  from expand_respects_policy [OF r(1)] r show ?thesis by (auto simp: list_all_iff)
qed

text \<open>
  The policy can be passed by with IPv6. The check looks at the address written in the prefix, not at
  the block it stands for: the prefix \<^verbatim>\<open>::/127\<close> is let through with private ranges blocked, and expands
  to the loopback address \<^verbatim>\<open>::1\<close>.
\<close>

theorem loopback_by_prefix:
  assumes "parse cidr = Inr \<lparr>px_Addr = V6 0, px_Bits = 127\<rparr>"
  shows "ExpandScanTargets parse lookup addr_str [cidr] [] [443] False =
      Inr ([\<lparr>tg_IP = addr_str (V6 0), tg_Port = 443, tg_Hostname = []\<rparr>, \<lparr>tg_IP = addr_str (V6 1), tg_Port = 443, tg_Hostname = []\<rparr>], []) \<and>
    IsLoopback (V6 1)"
proof -
  have "\<not> isPrivateAddr (V6 0)" and "IsLoopback (V6 1)" and "block 128 127 0 = [0, 1]"
    by (simp_all add: address_classes block_def upt_conv_Cons)
  then show ?thesis using assms by (simp add: ExpandScanTargets_def isPrivatePrefix_def at_ports_def)
qed

theorem loopback_by_prefix_witness:
  "map_sum id (map tg_IP \<circ> fst) (ExpandScanTargets (\<lambda>_. Inr \<lparr>px_Addr = V6 0, px_Bits = 127\<rparr>) (\<lambda>_. Inl [])
     (\<lambda>a. if a = V6 1 then ''::1'' else ''::'') [''::/127''] [] [443] False) = Inr [''::'', ''::1'']"
  using loopback_by_prefix [of "\<lambda>_. Inr \<lparr>px_Addr = V6 0, px_Bits = 127\<rparr>" "''::/127''" "\<lambda>_. Inl []" "\<lambda>a. if a = V6 1 then ''::1'' else ''::''"]
  by simp

end
