(* ===== verification/Revocation.thy ===== *)
theory Revocation
  imports Http_Reply Scan_Targets
begin

text \<open>
  Revocation checks: \<^verbatim>\<open>internal/revocation\<close> (OCSP, stapled OCSP and CRL), the addresses its HTTP client
  dials, and the handler that records a verified revocation. PEM and DER decoding, signatures, URL
  parsing and HTTP are a record of functions; what they answer is arbitrary.
\<close>

section \<open>Results\<close>

datatype rev_status = StatusGood | StatusRevoked | StatusUnknown

record rev_result =
  rv_Status :: rev_status
  rv_Source :: string
  rv_Verified :: bool
  rv_RevokedAt :: "time option"
  rv_CRLURL :: string

record check_input =
  ci_SerialHex :: string
  ci_LeafPEM :: string
  ci_IssuerPEM :: string
  ci_OCSPServers :: "string list"
  ci_CRLURLs :: "string list"

text \<open>
  The libraries: \<open>parse_cert\<close> is \<^verbatim>\<open>pem.Decode\<close> and \<^verbatim>\<open>x509.ParseCertificate\<close>, \<open>http_get\<close> and
  \<open>http_post\<close> give the status and the body of a request that got an answer, \<open>ocsp_for_cert\<close> is
  \<^verbatim>\<open>ocsp.ParseResponseForCert\<close>: the status and the revocation time, when the response verifies for the leaf
  under the issuer.
\<close>

datatype ocsp_status = OCSP_Good | OCSP_Revoked | OCSP_Unknown

record crl_list =
  crl_Entries :: "(int \<times> time) list"
  crl_Raw :: string

record 'c rev_libs =
  parse_cert :: "string \<Rightarrow> 'c option"
  url_scheme :: "string \<Rightarrow> string option"
  http_get :: "string \<Rightarrow> (nat \<times> string) option"
  http_post :: "string \<Rightarrow> string \<Rightarrow> (nat \<times> string) option"
  create_request :: "'c \<Rightarrow> 'c \<Rightarrow> string option"
  ocsp_for_cert :: "string \<Rightarrow> 'c \<Rightarrow> 'c \<Rightarrow> (ocsp_status \<times> time) option"
  cert_signed_by :: "'c \<Rightarrow> 'c \<Rightarrow> bool"
  parse_crl :: "string \<Rightarrow> crl_list option"
  crl_signed_by :: "crl_list \<Rightarrow> 'c \<Rightarrow> bool"

section \<open>OCSP\<close>

definition web_url :: "'c rev_libs \<Rightarrow> string \<Rightarrow> bool" where
  "web_url L u \<longleftrightarrow> url_scheme L u = Some ''http'' \<or> url_scheme L u = Some ''https''"

text \<open>\<^verbatim>\<open>io.LimitReader\<close> caps what is read of an answer.\<close>

definition limit_body :: "nat \<Rightarrow> (nat \<times> string) option \<Rightarrow> string option" where
  "limit_body cap resp = (case resp of None \<Rightarrow> None | Some (code, body) \<Rightarrow> if code \<noteq> 200 then None else Some (take cap body))"

definition postOCSP :: "'c rev_libs \<Rightarrow> string \<Rightarrow> string \<Rightarrow> string option" where
  "postOCSP L server reqDER = limit_body (2 ^ 20) (http_post L server reqDER)"

definition apply_ocsp :: "rev_result \<Rightarrow> ocsp_status \<times> time \<Rightarrow> rev_result" where
  "apply_ocsp res a = (let res = res\<lparr>rv_Verified := True\<rparr> in
     case a of (OCSP_Good, _) \<Rightarrow> res\<lparr>rv_Status := StatusGood\<rparr>
     | (OCSP_Revoked, t) \<Rightarrow> res\<lparr>rv_Status := StatusRevoked, rv_RevokedAt := Some t\<rparr>
     | (OCSP_Unknown, _) \<Rightarrow> res\<lparr>rv_Status := StatusUnknown\<rparr>)"

fun ocsp_loop :: "'c rev_libs \<Rightarrow> string \<Rightarrow> 'c \<Rightarrow> 'c \<Rightarrow> rev_result \<Rightarrow> string list \<Rightarrow> rev_result" where
  "ocsp_loop L reqDER leaf issuer res [] = res"
| "ocsp_loop L reqDER leaf issuer res (server # servers) =
     (if \<not> web_url L server then ocsp_loop L reqDER leaf issuer res servers
      else case postOCSP L server reqDER of
        None \<Rightarrow> ocsp_loop L reqDER leaf issuer res servers
      | Some respDER \<Rightarrow>
         (case ocsp_for_cert L respDER leaf issuer of
            None \<Rightarrow> ocsp_loop L reqDER leaf issuer res servers
          | Some a \<Rightarrow> apply_ocsp res a))"

definition no_result :: "string \<Rightarrow> rev_result" where
  "no_result source = \<lparr>rv_Status = StatusUnknown, rv_Source = source, rv_Verified = False, rv_RevokedAt = None, rv_CRLURL = []\<rparr>"

definition CheckOCSP :: "'c rev_libs \<Rightarrow> string \<Rightarrow> string \<Rightarrow> string list \<Rightarrow> string + rev_result" where
  "CheckOCSP L leafPEM issuerPEM ocspServers =
     (let res = no_result ''ocsp'' in
      if ocspServers = [] \<or> issuerPEM = [] \<or> leafPEM = [] then Inr res
      else case (parse_cert L leafPEM, parse_cert L issuerPEM) of
        (Some leaf, Some issuer) \<Rightarrow>
          (case create_request L leaf issuer of
             None \<Rightarrow> Inl ''create ocsp request''
           | Some reqDER \<Rightarrow> Inr (ocsp_loop L reqDER leaf issuer res ocspServers))
      | _ \<Rightarrow> Inr res)"

definition ParseStapledOCSP :: "'c rev_libs \<Rightarrow> string \<Rightarrow> string \<Rightarrow> string \<Rightarrow> rev_result" where
  "ParseStapledOCSP L stapled leafPEM issuerPEM =
     (let res = no_result ''ocsp_stapled'' in
      if stapled = [] \<or> leafPEM = [] \<or> issuerPEM = [] then res
      else case (parse_cert L leafPEM, parse_cert L issuerPEM) of
        (Some leaf, Some issuer) \<Rightarrow>
          if \<not> cert_signed_by L leaf issuer then res
          else (case ocsp_for_cert L stapled leaf issuer of None \<Rightarrow> res | Some a \<Rightarrow> apply_ocsp res a)
      | _ \<Rightarrow> res)"

section \<open>CRL\<close>

text \<open>\<^verbatim>\<open>new(big.Int).SetString(s, 16)\<close>: an optional sign and hexadecimal digits.\<close>

definition hex_digit :: "char \<Rightarrow> int option" where
  "hex_digit c = (let n = int (of_char c) in
     if 48 \<le> n \<and> n \<le> 57 then Some (n - 48)
     else if 97 \<le> n \<and> n \<le> 102 then Some (n - 87)
     else if 65 \<le> n \<and> n \<le> 70 then Some (n - 55) else None)"

fun hex_digits :: "int \<Rightarrow> string \<Rightarrow> int option" where
  "hex_digits acc [] = Some acc"
| "hex_digits acc (c # cs) = (case hex_digit c of None \<Rightarrow> None | Some d \<Rightarrow> hex_digits (16 * acc + d) cs)"

definition hex_nonempty :: "string \<Rightarrow> int option" where
  "hex_nonempty cs = (if cs = [] then None else hex_digits 0 cs)"

definition big_hex :: "string \<Rightarrow> int option" where
  "big_hex s = (case s of [] \<Rightarrow> None | c # cs \<Rightarrow>
     if c = CHR ''-'' then map_option uminus (hex_nonempty cs)
     else if c = CHR ''+'' then hex_nonempty cs else hex_nonempty s)"

definition fetchCRL :: "'c rev_libs \<Rightarrow> string \<Rightarrow> string option" where
  "fetchCRL L url = (if \<not> web_url L url then None else limit_body (16 * 2 ^ 20) (http_get L url))"

fun crl_loop :: "'c rev_libs \<Rightarrow> string list \<Rightarrow> (crl_list \<times> string) option" where
  "crl_loop L [] = None"
| "crl_loop L (u # us) = (case fetchCRL L u of None \<Rightarrow> crl_loop L us
     | Some der \<Rightarrow> (case parse_crl L der of None \<Rightarrow> crl_loop L us | Some crl \<Rightarrow> Some (crl, u)))"

definition CheckCRL :: "'c rev_libs \<Rightarrow> string \<Rightarrow> string list \<Rightarrow> string \<Rightarrow> string + rev_result" where
  "CheckCRL L serialHex crlURLs issuerPEM =
     (let res = no_result ''crl'' in
      if crlURLs = [] then Inr res
      else case big_hex serialHex of None \<Rightarrow> Inl ''invalid serial''
      | Some serial \<Rightarrow>
         (case crl_loop L crlURLs of None \<Rightarrow> Inr res
          | Some (crl, u) \<Rightarrow>
             let res = res\<lparr>rv_CRLURL := u, rv_Verified := issuerPEM \<noteq> [] \<and>
                 (case parse_cert L issuerPEM of None \<Rightarrow> False | Some issuer \<Rightarrow> crl_signed_by L crl issuer)\<rparr> in
             (case List.find (\<lambda>e. fst e = serial) (crl_Entries crl) of
                Some (_, t) \<Rightarrow> Inr (res\<lparr>rv_Status := StatusRevoked, rv_RevokedAt := Some t\<rparr>)
              | None \<Rightarrow> Inr (res\<lparr>rv_Status := StatusGood\<rparr>))))"

definition Check :: "'c rev_libs \<Rightarrow> check_input \<Rightarrow> string + rev_result" where
  "Check L inp = (case CheckOCSP L (ci_LeafPEM inp) (ci_IssuerPEM inp) (ci_OCSPServers inp) of
       Inr r \<Rightarrow> if rv_Status r \<noteq> StatusUnknown then Inr r
          else CheckCRL L (ci_SerialHex inp) (ci_CRLURLs inp) (ci_IssuerPEM inp)
     | Inl _ \<Rightarrow> CheckCRL L (ci_SerialHex inp) (ci_CRLURLs inp) (ci_IssuerPEM inp))"

section \<open>Addresses the client dials\<close>

definition IsUnspecified :: "addr \<Rightarrow> bool" where
  "IsUnspecified x \<longleftrightarrow> To4 x = Some 0 \<or> x = V6 0"

definition cgnatRange :: "addr \<Rightarrow> bool" where
  "cgnatRange x = (case To4 x of None \<Rightarrow> False | Some a \<Rightarrow> a div 2 ^ 22 = 100 * 4 + 1)"

definition isPublicIP :: "addr \<Rightarrow> bool" where
  "isPublicIP ip \<longleftrightarrow> \<not> (IsLoopback ip \<or> IsUnspecified ip \<or> IsLinkLocalUnicast ip \<or> IsLinkLocalMulticast ip \<or>
     IsPrivate ip \<or> cgnatRange ip)"

text \<open>The dialer's \<^verbatim>\<open>Control\<close>; \<open>split_host\<close> is \<^verbatim>\<open>net.SplitHostPort\<close>, \<open>parse_ip\<close> is \<^verbatim>\<open>net.ParseIP\<close>.\<close>

definition NewFetchClient_Control :: "(string \<Rightarrow> string option) \<Rightarrow> (string \<Rightarrow> addr option) \<Rightarrow> string \<Rightarrow> bool" where
  "NewFetchClient_Control split_host parse_ip address = (case split_host address of None \<Rightarrow> False
     | Some host \<Rightarrow> (case parse_ip host of None \<Rightarrow> False | Some ip \<Rightarrow> isPublicIP ip))"

section \<open>The handler\<close>

definition rev_status_str :: "rev_status \<Rightarrow> string" where
  "rev_status_str st = (case st of StatusGood \<Rightarrow> ''good'' | StatusRevoked \<Rightarrow> ''revoked'' | StatusUnknown \<Rightarrow> ''unknown'')"

definition check_of :: "certificate \<Rightarrow> string \<Rightarrow> check_input" where
  "check_of c issuerPEM = \<lparr>ci_SerialHex = c_SerialNumber c, ci_LeafPEM = c_PEM c, ci_IssuerPEM = issuerPEM,
     ci_OCSPServers = c_OCSPServers c, ci_CRLURLs = c_CRLDistributionPoints c\<rparr>"

definition handleRevocationCheck_with :: "'c rev_libs \<Rightarrow> request \<Rightarrow> string \<Rightarrow> uuid \<Rightarrow> certificate \<Rightarrow> string \<Rightarrow> rev_result handler" where
  "handleRevocationCheck_with L r actor i cert issuerPEM =
     (case Check L (check_of cert issuerPEM) of
       Inl err \<Rightarrow> writeError r 502 ''revocation check failed''
     | Inr result \<Rightarrow>
        let finish = (\<lambda>_ s. writeJSON 200 result (auditAllow r actor ''revoke'' ''certificate'' (db_ustr s i)
              (Some (JObj [(''status'', JStr (rev_status_str (rv_Status result))), (''source'', JStr (rv_Source result)),
                 (''verified'', JBool (rv_Verified result))])) s)) in
        if rv_Status result = StatusRevoked \<and> rv_Verified result
        then try_op (MarkRevoked i (rv_Source result)) (\<lambda>e. writeServerError r e ''failed to record revocation'') finish
        else finish ())"

definition handleRevocationCheck :: "'c rev_libs \<Rightarrow> request \<Rightarrow> string \<Rightarrow> uuid option \<Rightarrow> rev_result handler" where
  "handleRevocationCheck L r actor idp = with_id r ''invalid certificate id'' idp (\<lambda>i.
     try_op (GetCertificate i) (\<lambda>e. writeLookupError r e ErrCertificateNotFound ''certificate not found'' ''failed to load certificate'') (\<lambda>cert.
     try_op (GetIssuerPEMForCert (c_IssuerDN cert)) (\<lambda>e. writeServerError r e ''failed to look up issuer'') (\<lambda>issuerPEM.
     handleRevocationCheck_with L r actor i cert issuerPEM)))"

section \<open>What a recorded revocation rests on\<close>

text \<open>
  The evidence: a response of one of the certificate's OCSP servers, fetched over http or https, that
  verifies for the leaf under the issuer and says revoked; or a revocation list of one of its
  distribution points, signed by the issuer, with the certificate's serial number.
\<close>

definition ocsp_evidence :: "'c rev_libs \<Rightarrow> check_input \<Rightarrow> bool" where
  "ocsp_evidence L inp \<longleftrightarrow> (\<exists>leaf issuer server reqDER body t. server \<in> set (ci_OCSPServers inp) \<and> web_url L server \<and>
     parse_cert L (ci_LeafPEM inp) = Some leaf \<and> parse_cert L (ci_IssuerPEM inp) = Some issuer \<and>
     http_post L server reqDER = Some (200, body) \<and> ocsp_for_cert L (take (2 ^ 20) body) leaf issuer = Some (OCSP_Revoked, t))"

definition crl_evidence :: "'c rev_libs \<Rightarrow> check_input \<Rightarrow> bool" where
  "crl_evidence L inp \<longleftrightarrow> (\<exists>u body crl issuer serial t. u \<in> set (ci_CRLURLs inp) \<and> web_url L u \<and>
     http_get L u = Some (200, body) \<and> parse_crl L (take (16 * 2 ^ 20) body) = Some crl \<and>
     parse_cert L (ci_IssuerPEM inp) = Some issuer \<and> crl_signed_by L crl issuer \<and>
     big_hex (ci_SerialHex inp) = Some serial \<and> (serial, t) \<in> set (crl_Entries crl))"

definition evidence :: "'c rev_libs \<Rightarrow> check_input \<Rightarrow> string \<Rightarrow> bool" where
  "evidence L inp source \<longleftrightarrow> (source = ''ocsp'' \<and> ocsp_evidence L inp) \<or> (source = ''crl'' \<and> crl_evidence L inp)"

lemma limit_body_Some: "limit_body cap resp = Some b \<longleftrightarrow> (\<exists>body. resp = Some (200, body) \<and> b = take cap body)"
  by (auto simp: limit_body_def split: option.splits)

lemma apply_ocsp_fields [simp]:
  "rv_Verified (apply_ocsp res a)" "rv_Source (apply_ocsp res a) = rv_Source res"
  "rv_Status (apply_ocsp res a) = StatusRevoked \<longleftrightarrow> fst a = OCSP_Revoked"
  by (auto simp: apply_ocsp_def Let_def split: prod.splits ocsp_status.splits)

lemma ocsp_loop_outcome:
  "ocsp_loop L reqDER leaf issuer res servers = res \<or>
   (\<exists>server\<in>set servers. \<exists>body a. web_url L server \<and> http_post L server reqDER = Some (200, body) \<and>
      ocsp_for_cert L (take (2 ^ 20) body) leaf issuer = Some a \<and> ocsp_loop L reqDER leaf issuer res servers = apply_ocsp res a)"
proof (induction servers)
  case (Cons server servers)
  consider "ocsp_loop L reqDER leaf issuer res (server # servers) = ocsp_loop L reqDER leaf issuer res servers"
    | body a where "web_url L server" "http_post L server reqDER = Some (200, body)"
        "ocsp_for_cert L (take (2 ^ 20) body) leaf issuer = Some a"
        "ocsp_loop L reqDER leaf issuer res (server # servers) = apply_ocsp res a"
  proof (cases "web_url L server")
    case True
    show thesis
    proof (cases "postOCSP L server reqDER")
      case None
      then show thesis using True that(1) by simp
    next
      case (Some resp)
      then obtain body where b: "http_post L server reqDER = Some (200, body)" "resp = take (2 ^ 20) body"
        by (auto simp: postOCSP_def limit_body_Some)
      show thesis
      proof (cases "ocsp_for_cert L resp leaf issuer")
        case None
        then show thesis using True Some that(1) by simp
      next
        case (Some a)
        then show thesis using True \<open>postOCSP L server reqDER = Some resp\<close> b that(2) [of body a] by simp
      qed
    qed
  qed (use that(1) in simp)
  then show ?case using Cons.IH by cases (auto simp del: ocsp_loop.simps)
qed simp

lemma CheckOCSP_revoked:
  assumes "CheckOCSP L leafPEM issuerPEM servers = Inr res" and "rv_Status res = StatusRevoked"
  shows "rv_Source res = ''ocsp'' \<and> rv_Verified res \<and> (\<exists>leaf issuer server reqDER body t. server \<in> set servers \<and> web_url L server \<and>
    parse_cert L leafPEM = Some leaf \<and> parse_cert L issuerPEM = Some issuer \<and>
    http_post L server reqDER = Some (200, body) \<and> ocsp_for_cert L (take (2 ^ 20) body) leaf issuer = Some (OCSP_Revoked, t))"
proof -
  obtain leaf issuer reqDER where p: "parse_cert L leafPEM = Some leaf" "parse_cert L issuerPEM = Some issuer"
    and res: "res = ocsp_loop L reqDER leaf issuer (no_result ''ocsp'') servers"
    using assms by (auto simp: CheckOCSP_def no_result_def Let_def split: if_splits option.splits)
  have "res \<noteq> no_result ''ocsp''" using assms(2) by (auto simp: no_result_def)
  then obtain server body a where "server \<in> set servers" "web_url L server" "http_post L server reqDER = Some (200, body)"
    "ocsp_for_cert L (take (2 ^ 20) body) leaf issuer = Some a" and ra: "res = apply_ocsp (no_result ''ocsp'') a"
    using ocsp_loop_outcome [of L reqDER leaf issuer "no_result ''ocsp''" servers] res by auto
  moreover have "fst a = OCSP_Revoked" using assms(2) ra by simp
  moreover have "rv_Source res = ''ocsp''" "rv_Verified res" using ra by (simp_all add: no_result_def)
  ultimately show ?thesis using p by (cases a) fastforce
qed

lemma crl_loop_Some:
  "crl_loop L urls = Some (crl, u) \<Longrightarrow>
   u \<in> set urls \<and> web_url L u \<and> (\<exists>body. http_get L u = Some (200, body) \<and> parse_crl L (take (16 * 2 ^ 20) body) = Some crl)"
proof (induction urls)
  case (Cons v vs)
  show ?case
  proof (cases "crl_loop L (v # vs) = crl_loop L vs")
    case True
    then show ?thesis using Cons by simp
  next
    case False
    then obtain der where "fetchCRL L v = Some der" "parse_crl L der = Some crl" "u = v"
      using Cons.prems by (auto split: option.splits)
    then show ?thesis by (auto simp: fetchCRL_def limit_body_Some split: if_splits)
  qed
qed simp

lemma CheckCRL_revoked:
  assumes "CheckCRL L serialHex urls issuerPEM = Inr res" and "rv_Status res = StatusRevoked" and "rv_Verified res"
  shows "rv_Source res = ''crl'' \<and> (\<exists>u body crl issuer serial t. u \<in> set urls \<and> web_url L u \<and>
    http_get L u = Some (200, body) \<and> parse_crl L (take (16 * 2 ^ 20) body) = Some crl \<and>
    parse_cert L issuerPEM = Some issuer \<and> crl_signed_by L crl issuer \<and> big_hex serialHex = Some serial \<and>
    (serial, t) \<in> set (crl_Entries crl))"
proof -
  obtain serial crl u where s: "big_hex serialHex = Some serial" and c: "crl_loop L urls = Some (crl, u)"
    using assms(1,2) by (auto simp: CheckCRL_def no_result_def Let_def split: if_splits option.splits)
  obtain t where f: "List.find (\<lambda>e. fst e = serial) (crl_Entries crl) = Some (serial, t)"
    using assms(1,2) s c
    by (auto simp: CheckCRL_def no_result_def Let_def split: if_splits option.splits dest: find_Some_in)
  have "rv_Source res = ''crl''" using assms(1) s c f by (auto simp: CheckCRL_def no_result_def Let_def split: if_splits)
  moreover obtain issuer where "parse_cert L issuerPEM = Some issuer" "crl_signed_by L crl issuer"
    using assms(1,3) s c f by (auto simp: CheckCRL_def no_result_def Let_def split: if_splits option.splits)
  moreover have "(serial, t) \<in> set (crl_Entries crl)" using f by (blast dest: find_Some_in)
  ultimately show ?thesis using s crl_loop_Some [OF c] by blast
qed

lemma Check_evidence:
  assumes "Check L inp = Inr res" and "rv_Status res = StatusRevoked" and "rv_Verified res"
  shows "evidence L inp (rv_Source res)"
proof (cases "CheckOCSP L (ci_LeafPEM inp) (ci_IssuerPEM inp) (ci_OCSPServers inp) = Inr res")
  case True
  from CheckOCSP_revoked [OF this assms(2)] show ?thesis unfolding evidence_def ocsp_evidence_def by blast
next
  case False
  then have "CheckCRL L (ci_SerialHex inp) (ci_CRLURLs inp) (ci_IssuerPEM inp) = Inr res"
    using assms(1) by (auto simp: Check_def split: sum.splits if_splits)
  from CheckCRL_revoked [OF this assms(2,3)] show ?thesis unfolding evidence_def crl_evidence_def by blast
qed

text \<open>The tables a call of the handler reads or writes.\<close>

lemma GetCertificate_found:
  "GetCertificate i s = (Inr c, s') \<Longrightarrow>
   s' = next_step s \<and> (\<exists>row\<in>set (t_certificates s). c_ID row = i \<and> c = select_cert s row)"
  by (auto simp: GetCertificate_def db_call_def split: if_splits option.splits dest: find_Some_in)

lemma GetCertificate_keeps: "GetCertificate i s = (x, s') \<Longrightarrow> s' = next_step s"
  by (auto simp: GetCertificate_def db_call_def split: if_splits option.splits)

lemma GetIssuerPEMForCert_keeps: "GetIssuerPEMForCert dn s = (x, s') \<Longrightarrow> s' = next_step s"
  by (auto simp: GetIssuerPEMForCert_def db_call_def split: if_splits)

lemma GetIssuerPEMForCert_from:
  assumes "GetIssuerPEMForCert dn s = (Inr pem, s')"
  shows "pem = [] \<or> pem \<in> i_PEM ` set (t_issuers s)"
proof -
  let ?p = "\<lambda>i. i_IsCA i \<and> (case i_SubjectCN i of None \<Rightarrow> False | Some cn \<Rightarrow> cn \<noteq> [] \<and> str_contains dn cn)"
  let ?rows = "pick ?p (\<lambda>i. - i_NotAfter i) 1 (t_issuers s)"
  have pem: "pem = (case ?rows of [] \<Rightarrow> [] | i # _ \<Rightarrow> i_PEM i)"
    using assms by (auto simp: GetIssuerPEMForCert_def db_call_def split: if_splits)
  show ?thesis
  proof (cases ?rows)
    case Nil
    then show ?thesis using pem by simp
  next
    case (Cons i more)
    then have "i \<in> set ?rows" by simp
    then have "i \<in> set (t_issuers s)" using set_pick by fast
    moreover have "pem = i_PEM i" using pem Cons by simp
    ultimately show ?thesis by blast
  qed
qed

lemma auditAllow_tables [simp]:
  "t_certificates (auditAllow r actor a b c d s) = t_certificates s" "t_jobs (auditAllow r actor a b c d s) = t_jobs s"
  "t_scans (auditAllow r actor a b c d s) = t_scans s" "aap_launches (auditAllow r actor a b c d s) = aap_launches s"
  by (auto simp: auditAllow_def appendAudit_def ignore_def AppendAudit_def db_call_def Let_def next_step_def)

lemma MarkRevoked_rows:
  assumes "MarkRevoked i source s = (x, s')"
  shows "case x of Inl e \<Rightarrow> t_certificates s' = t_certificates s
    | Inr u \<Rightarrow> \<exists>t. t_certificates s' = upd_where (\<lambda>c. c_ID c = i) (\<lambda>c. c\<lparr>c_Status := ''revoked'',
        c_RevocationStatus := Some (''revoked_via_'' @ source), c_RevocationCheckedAt := Some t, c_UpdatedAt := t\<rparr>) (t_certificates s)"
proof (cases x)
  case (Inl e)
  then show ?thesis using assms by (auto simp: MarkRevoked_def dest!: db_call_Inl)
next
  case (Inr u)
  then show ?thesis using assms
    by (auto simp: MarkRevoked_def bind_op_def split: if_splits sum.splits prod.splits
        dest!: db_call_Inr appendEventTx_done intro!: exI [of _ "sql_now s"])
qed

lemma handleRevocationCheck_with_outcome:
  assumes "handleRevocationCheck_with L r actor i c pem s = (rep, s')"
  shows "t_certificates s' = t_certificates s \<or> (\<exists>source t. evidence L (check_of c pem) source \<and>
    t_certificates s' = upd_where (\<lambda>c. c_ID c = i) (\<lambda>c. c\<lparr>c_Status := ''revoked'',
      c_RevocationStatus := Some (''revoked_via_'' @ source), c_RevocationCheckedAt := Some t, c_UpdatedAt := t\<rparr>) (t_certificates s))"
proof (cases "\<exists>res. Check L (check_of c pem) = Inr res \<and> rv_Status res = StatusRevoked \<and> rv_Verified res")
  case False
  then show ?thesis using assms
    by (auto simp: handleRevocationCheck_with_def Let_def split: sum.splits if_splits)
next
  case True
  then obtain res where res: "Check L (check_of c pem) = Inr res" "rv_Status res = StatusRevoked" "rv_Verified res" by blast
  obtain z s3 where m: "MarkRevoked i (rv_Source res) s = (z, s3)" by fastforce
  have "t_certificates s' = t_certificates s3"
    using assms res m by (auto simp: handleRevocationCheck_with_def Let_def try_op_def split: sum.splits)
  with MarkRevoked_rows [OF m] Check_evidence [OF res] show ?thesis by (cases z) auto
qed

text \<open>
  C26. A revocation check changes a certificate only on evidence. Whatever the request and the answers of
  the network, the handler leaves every certificate as it was, or the checked certificate has a verified
  OCSP response or signed revocation list against it, judged with an issuer of the store, and exactly its
  row becomes revoked, marked with the source of that evidence.
\<close>

theorem revocation_on_evidence:
  assumes "handleRevocationCheck L r actor idp s = (rep, s')"
  shows "t_certificates s' = t_certificates s \<or>
    (\<exists>i c issuerPEM source t. idp = Some i \<and> c \<in> set (t_certificates s) \<and> c_ID c = i \<and>
       (issuerPEM = [] \<or> issuerPEM \<in> i_PEM ` set (t_issuers s)) \<and> evidence L (check_of c issuerPEM) source \<and>
       t_certificates s' = upd_where (\<lambda>c. c_ID c = i) (\<lambda>c. c\<lparr>c_Status := ''revoked'',
         c_RevocationStatus := Some (''revoked_via_'' @ source), c_RevocationCheckedAt := Some t, c_UpdatedAt := t\<rparr>)
         (t_certificates s))"
  (is "_ \<or> ?marked")
proof -
  from assms [unfolded handleRevocationCheck_def] consider "s' = s"
    | (no_cert) i e where "GetCertificate i s = (Inl e, s')"
    | (no_issuer) i c s1 e where "GetCertificate i s = (Inr c, s1)" "GetIssuerPEMForCert (c_IssuerDN c) s1 = (Inl e, s')"
    | (checked) i c s1 pem s2 where "idp = Some i" "GetCertificate i s = (Inr c, s1)"
        "GetIssuerPEMForCert (c_IssuerDN c) s1 = (Inr pem, s2)" "handleRevocationCheck_with L r actor i c pem s2 = (rep, s')"
    by (auto elim!: with_idE try_opE)
  then show ?thesis
  proof cases
    case (checked i c s1 pem s2)
    then obtain row where row: "row \<in> set (t_certificates s)" "c_ID row = i" "check_of c = check_of row" and s1: "s1 = next_step s"
      using GetCertificate_found by (fastforce simp: check_of_def select_cert_def)
    have s2: "s2 = next_step s1" using checked(3) by (rule GetIssuerPEMForCert_keeps)
    have pem: "pem = [] \<or> pem \<in> i_PEM ` set (t_issuers s)" using GetIssuerPEMForCert_from [OF checked(3)] s1 by simp
    from handleRevocationCheck_with_outcome [OF checked(4)] show ?thesis
      using s1 s2 row pem checked(1) by auto
  qed (auto dest!: GetCertificate_keeps GetIssuerPEMForCert_keeps)
qed

text \<open>An example: a certificate with one distribution point, whose signed list names its serial number.\<close>

definition example_libs :: "nat rev_libs" where
  "example_libs = \<lparr>parse_cert = (\<lambda>pem. Some (length pem)), url_scheme = (\<lambda>_. Some ''http''),
     http_get = (\<lambda>u. Some (200, u)), http_post = (\<lambda>u b. None), create_request = (\<lambda>l i. Some []),
     ocsp_for_cert = (\<lambda>b l i. None), cert_signed_by = (\<lambda>l i. True),
     parse_crl = (\<lambda>b. Some \<lparr>crl_Entries = [(171, 7)], crl_Raw = b\<rparr>), crl_signed_by = (\<lambda>c i. True)\<rparr>"

definition example_request :: request where
  "example_request = \<lparr>rq_Method = ''POST'', rq_Path = [], rq_Authorization = [], rq_RequestID = ''r1'', rq_RemoteAddr = []\<rparr>"

definition example_issuer :: issuer where
  "example_issuer = \<lparr>i_ID = 9, i_FingerprintSHA256 = ''ca'', i_SerialNumber = [], i_SubjectCN = Some ''CA'', i_IssuerDN = ''CN=CA'',
     i_NotBefore = 0, i_NotAfter = 0, i_KeyType = [], i_KeyBits = 0, i_IsCA = True, i_PEM = ''pem'', i_DaysUntilExpiry = 0,
     i_Status = [], i_IssuerName = None, i_IssuerID = None, i_CAChain = [], i_VaultIssuerRef = None, i_VaultPKIMount = None\<rparr>"

definition example_revoked_db :: "certificate \<Rightarrow> db" where
  "example_revoked_db c = empty_db\<lparr>t_issuers := [example_issuer], t_certificates := [c]\<rparr>"

lemma example_revokes:
  assumes "c_ID c = 5" and "c_IssuerDN c = ''CN=CA''" and "Check L (check_of c ''pem'') = Inr res"
    and "rv_Status res = StatusRevoked" and "rv_Verified res"
  shows "t_certificates (snd (handleRevocationCheck L example_request [] (Some 5) (example_revoked_db c))) =
    [c\<lparr>c_Status := ''revoked'', c_RevocationStatus := Some (''revoked_via_'' @ rv_Source res),
       c_RevocationCheckedAt := Some 0, c_UpdatedAt := 0\<rparr>]"
proof -
  let ?s = "example_revoked_db c"
  have g: "GetCertificate 5 ?s = (Inr (select_cert ?s c), next_step ?s)"
    using assms(1) by (simp add: GetCertificate_def db_call_def example_revoked_db_def empty_db_def)
  have h: "GetIssuerPEMForCert (c_IssuerDN (select_cert ?s c)) (next_step ?s) = (Inr ''pem'', next_step (next_step ?s))"
    using assms(2) by (simp add: GetIssuerPEMForCert_def db_call_def example_revoked_db_def empty_db_def next_step_def
        select_cert_def pick_def example_issuer_def starts_with_def)
  have k: "check_of (select_cert ?s c) = check_of c" by (simp add: check_of_def select_cert_def fun_eq_iff)
  obtain s3 where m: "MarkRevoked 5 (rv_Source res) (next_step (next_step ?s)) = (Inr (), s3)"
      "t_certificates s3 = [c\<lparr>c_Status := ''revoked'', c_RevocationStatus := Some (''revoked_via_'' @ rv_Source res),
         c_RevocationCheckedAt := Some 0, c_UpdatedAt := 0\<rparr>]"
    using assms(1) by (simp add: MarkRevoked_def db_call_def bind_op_def appendEventTx_def example_revoked_db_def empty_db_def
        step_defs hits_def upd_where_def pk_free_def fk_cert_def Let_def)
  show ?thesis
    using assms(3-) m by (simp add: handleRevocationCheck_def with_id_def try_op_def g h handleRevocationCheck_with_def k writeJSON_def)
qed

definition example_listed :: certificate where
  "example_listed = (blank_cert 5 ''fp'')\<lparr>c_SerialNumber := ''ab'', c_IssuerDN := ''CN=CA'', c_CRLDistributionPoints := [''u'']\<rparr>"

lemma example_check:
  "Check example_libs (check_of example_listed ''pem'')
   = Inr \<lparr>rv_Status = StatusRevoked, rv_Source = ''crl'', rv_Verified = True, rv_RevokedAt = Some 7, rv_CRLURL = ''u''\<rparr>"
  by (simp add: Check_def CheckOCSP_def CheckCRL_def check_of_def example_libs_def example_listed_def blank_cert_def no_result_def
      Let_def big_hex_def hex_nonempty_def hex_digit_def fetchCRL_def web_url_def limit_body_def)

theorem revocation_on_evidence_witness:
  "\<exists>s' pem. snd (handleRevocationCheck example_libs example_request [] (Some 5) (example_revoked_db example_listed)) = s' \<and>
     map c_Status (t_certificates s') = [''revoked''] \<and>
     (evidence example_libs (check_of example_listed pem) ''crl'' \<or> evidence example_libs (check_of example_listed pem) ''ocsp'')"
proof -
  let ?h = "handleRevocationCheck example_libs example_request [] (Some 5) (example_revoked_db example_listed)"
  have st: "map c_Status (t_certificates (snd ?h)) = [''revoked'']"
    using example_revokes [OF _ _ example_check] by (simp add: example_listed_def blank_cert_def)
  then have "t_certificates (snd ?h) \<noteq> t_certificates (example_revoked_db example_listed)"
    by (auto simp: example_revoked_db_def example_listed_def blank_cert_def)
  moreover have "?h = (fst ?h, snd ?h)" by simp
  ultimately obtain c pem source where "c \<in> set (t_certificates (example_revoked_db example_listed))"
      "evidence example_libs (check_of c pem) source"
    using revocation_on_evidence by blast
  with st show ?thesis by (auto simp: evidence_def example_revoked_db_def)
qed

text \<open>
  The on-demand check trusts the issuer it finds by name. Unlike a stapled response, an OCSP answer is
  accepted without checking that the issuer signed the leaf: with a library for which no certificate
  signs another, a response still revokes.
\<close>

definition unbound_libs :: "nat rev_libs" where
  "unbound_libs = example_libs\<lparr>cert_signed_by := (\<lambda>l i. False), http_post := (\<lambda>u b. Some (200, b)),
     ocsp_for_cert := (\<lambda>b l i. Some (OCSP_Revoked, 7))\<rparr>"

definition example_leaf :: certificate where
  "example_leaf = (blank_cert 5 ''fp'')\<lparr>c_IssuerDN := ''CN=CA'', c_PEM := ''leaf'', c_OCSPServers := [''u'']\<rparr>"

lemma ocsp_issuer_unbound:
  "map c_RevocationStatus (t_certificates (snd (handleRevocationCheck unbound_libs example_request [] (Some 5) (example_revoked_db example_leaf))))
   = [Some ''revoked_via_ocsp''] \<and> rv_Status (ParseStapledOCSP unbound_libs ''staple'' ''leaf'' ''pem'') = StatusUnknown"
proof -
  have "Check unbound_libs (check_of example_leaf ''pem'')
    = Inr \<lparr>rv_Status = StatusRevoked, rv_Source = ''ocsp'', rv_Verified = True, rv_RevokedAt = Some 7, rv_CRLURL = []\<rparr>"
    by (simp add: Check_def CheckOCSP_def check_of_def unbound_libs_def example_libs_def example_leaf_def blank_cert_def no_result_def
        Let_def postOCSP_def web_url_def limit_body_def apply_ocsp_def)
  from example_revokes [OF _ _ this] show ?thesis
    by (simp add: example_leaf_def blank_cert_def ParseStapledOCSP_def unbound_libs_def example_libs_def no_result_def)
qed

section \<open>Addresses\<close>

lemma isPublicIP_not_private: "isPublicIP ip \<Longrightarrow> \<not> isPrivateAddr ip"
  by (auto simp: isPublicIP_def isPrivateAddr_def)

end
