(* ===== verification/AAP_Client.thy ===== *)
theory AAP_Client
  imports CLM_Prelude
begin

text \<open>
  The client of the Ansible Automation Platform Controller (\<^verbatim>\<open>internal/aap/client.go\<close>) and its
  adapters in \<^verbatim>\<open>cmd/clm-discovery/lifecycle_worker.go\<close>. What the Controller answers is a parameter:
  the decoded body of a response, or the error of the transport, the status or the decoder.
\<close>

section \<open>Statuses\<close>

datatype aap_status = StatusPending | StatusRunning | StatusSuccessful | StatusFailed | StatusError
  | StatusCanceled | StatusUnknown

definition IsTerminal :: "aap_status \<Rightarrow> bool" where
  "IsTerminal st \<longleftrightarrow> st \<in> {StatusSuccessful, StatusFailed, StatusError, StatusCanceled}"

definition IsSuccess :: "aap_status \<Rightarrow> bool" where
  "IsSuccess st \<longleftrightarrow> st = StatusSuccessful"

definition normalizeStatus :: "string \<Rightarrow> aap_status" where
  "normalizeStatus raw =
     (if raw \<in> {''new'', ''pending'', ''waiting''} then StatusPending
      else if raw = ''running'' then StatusRunning
      else if raw = ''successful'' then StatusSuccessful
      else if raw = ''failed'' then StatusFailed
      else if raw = ''error'' then StatusError
      else if raw = ''canceled'' then StatusCanceled
      else StatusUnknown)"

fun aap_status_str :: "aap_status \<Rightarrow> string" where
  "aap_status_str StatusPending = ''pending''"
| "aap_status_str StatusRunning = ''running''"
| "aap_status_str StatusSuccessful = ''successful''"
| "aap_status_str StatusFailed = ''failed''"
| "aap_status_str StatusError = ''error''"
| "aap_status_str StatusCanceled = ''canceled''"
| "aap_status_str StatusUnknown = ''unknown''"

section \<open>Requests\<close>

text \<open>The errors the client makes itself, and the one it passes on from a request.\<close>

datatype aap_error = NotConfigured | RequestFailed string | NoTemplate string string
  | AmbiguousTemplate string string nat | NoJobID string int | PollFailures int nat aap_error | Cancelled

record launch_response =
  lr_Job :: int
  lr_WorkflowJob :: int
  lr_ID :: int

record launch_result =
  la_JobID :: int
  la_Workflow :: bool

text \<open>
  The Controller: the templates a name query returns, the answer to a launch, the status field of a
  job, each by the path it is asked under.
\<close>

record controller =
  ct_Configured :: bool
  ct_templates :: "string \<Rightarrow> string \<Rightarrow> string + (int \<times> string) list"
  ct_launch :: "string \<Rightarrow> int \<Rightarrow> (string \<times> string) list \<Rightarrow> string + launch_response"
  ct_status :: "string \<Rightarrow> int \<Rightarrow> nat \<Rightarrow> string + string"

definition findTemplate :: "controller \<Rightarrow> string \<Rightarrow> string \<Rightarrow> aap_error + int" where
  "findTemplate c kind name =
     (if \<not> ct_Configured c then Inl NotConfigured
      else case ct_templates c kind name of Inl e \<Rightarrow> Inl (RequestFailed e)
       | Inr results \<Rightarrow> (case map fst (filter (\<lambda>(i, n). n = name) results) of
           [] \<Rightarrow> Inl (NoTemplate kind name)
         | [i] \<Rightarrow> Inr i
         | matches \<Rightarrow> Inl (AmbiguousTemplate kind name (length matches))))"

definition FindJobTemplate :: "controller \<Rightarrow> string \<Rightarrow> aap_error + int" where
  "FindJobTemplate c name = findTemplate c ''job_templates'' name"

definition FindWorkflowJobTemplate :: "controller \<Rightarrow> string \<Rightarrow> aap_error + int" where
  "FindWorkflowJobTemplate c name = findTemplate c ''workflow_job_templates'' name"

definition aap_launch :: "controller \<Rightarrow> string \<Rightarrow> int \<Rightarrow> (string \<times> string) list \<Rightarrow> bool \<Rightarrow> aap_error + launch_result" where
  "aap_launch c kind i extraVars workflow =
     (if \<not> ct_Configured c then Inl NotConfigured
      else case ct_launch c kind i extraVars of Inl e \<Rightarrow> Inl (RequestFailed e)
       | Inr out \<Rightarrow>
          (let jobID = (if workflow then lr_WorkflowJob out else lr_Job out);
               jobID = (if jobID = 0 then lr_ID out else jobID) in
           if jobID = 0 then Inl (NoJobID kind i) else Inr \<lparr>la_JobID = jobID, la_Workflow = workflow\<rparr>))"

definition LaunchJobTemplate :: "controller \<Rightarrow> int \<Rightarrow> (string \<times> string) list \<Rightarrow> aap_error + launch_result" where
  "LaunchJobTemplate c i extraVars = aap_launch c ''job_templates'' i extraVars False"

definition LaunchWorkflowJobTemplate :: "controller \<Rightarrow> int \<Rightarrow> (string \<times> string) list \<Rightarrow> aap_error + launch_result" where
  "LaunchWorkflowJobTemplate c i extraVars = aap_launch c ''workflow_job_templates'' i extraVars True"

text \<open>The \<open>n\<close>-th poll of a wait.\<close>

definition JobStatus :: "controller \<Rightarrow> launch_result \<Rightarrow> nat \<Rightarrow> aap_error + aap_status" where
  "JobStatus c res n =
     (if \<not> ct_Configured c then Inl NotConfigured
      else let kind = (if la_Workflow res then ''workflow_jobs'' else ''jobs'') in
        case ct_status c kind (la_JobID res) n of Inl e \<Rightarrow> Inl (RequestFailed e)
        | Inr raw \<Rightarrow> Inr (normalizeStatus raw))"

abbreviation maxPollFailures :: nat where "maxPollFailures \<equiv> 5"

text \<open>
  The polling loop. \<open>cancelled n\<close> says that the context ends while the loop waits after poll \<open>n\<close>. It
  may run for ever on a job that never ends; \<open>None\<close> is that outcome. The result is the error, if
  any, with the last known status.
\<close>

partial_function (option) wait_loop ::
  "(nat \<Rightarrow> aap_error + aap_status) \<Rightarrow> (nat \<Rightarrow> bool) \<Rightarrow> int \<Rightarrow> nat \<Rightarrow> nat \<Rightarrow> aap_status \<Rightarrow> (aap_error option \<times> aap_status) option" where
  "wait_loop poll cancelled jobID n failures lst =
     (case poll n of
        Inl e \<Rightarrow> if Suc failures \<ge> maxPollFailures then Some (Some (PollFailures jobID (Suc failures) e), lst)
                 else if cancelled n then Some (Some Cancelled, lst)
                 else wait_loop poll cancelled jobID (Suc n) (Suc failures) lst
      | Inr st \<Rightarrow> if IsTerminal st then Some (None, st)
                  else if cancelled n then Some (Some Cancelled, st)
                  else wait_loop poll cancelled jobID (Suc n) 0 st)"

definition WaitForJob :: "controller \<Rightarrow> (nat \<Rightarrow> bool) \<Rightarrow> launch_result \<Rightarrow> (aap_error option \<times> aap_status) option" where
  "WaitForJob c cancelled res = wait_loop (JobStatus c res) cancelled (la_JobID res) 0 0 StatusUnknown"

section \<open>Adapters\<close>

text \<open>\<^verbatim>\<open>aapLifecycleRenewer.Renew\<close>.\<close>

definition adapter_Renew :: "controller \<Rightarrow> string \<Rightarrow> bool \<Rightarrow> (string \<times> string) list \<Rightarrow> aap_error + int \<times> bool" where
  "adapter_Renew c templateName workflow extraVars =
     (case (if workflow
            then (case FindWorkflowJobTemplate c templateName of Inl e \<Rightarrow> Inl e | Inr i \<Rightarrow> LaunchWorkflowJobTemplate c i extraVars)
            else (case FindJobTemplate c templateName of Inl e \<Rightarrow> Inl e | Inr i \<Rightarrow> LaunchJobTemplate c i extraVars)) of
        Inl e \<Rightarrow> Inl e | Inr res \<Rightarrow> Inr (la_JobID res, la_Workflow res))"

section \<open>Properties\<close>

text \<open>
  What a finished wait means: a terminal status that was read, five failed polls in a row, or the
  end of the context.
\<close>

definition wait_outcome :: "(nat \<Rightarrow> aap_error + aap_status) \<Rightarrow> (nat \<Rightarrow> bool) \<Rightarrow> aap_error option \<times> aap_status \<Rightarrow> bool" where
  "wait_outcome poll cancelled res \<longleftrightarrow> (case res of
     (None, st) \<Rightarrow> IsTerminal st \<and> (\<exists>k. poll k = Inr st)
   | (Some err, st) \<Rightarrow> (\<exists>j e m. err = PollFailures j 5 e \<and> isl (poll m) \<and> isl (poll (m + 1)) \<and> isl (poll (m + 2)) \<and>
         isl (poll (m + 3)) \<and> isl (poll (m + 4))) \<or> (err = Cancelled \<and> (\<exists>k. cancelled k)))"

definition failing :: "(nat \<Rightarrow> aap_error + aap_status) \<Rightarrow> nat \<Rightarrow> nat \<Rightarrow> bool" where
  "failing poll n failures \<longleftrightarrow> failures \<le> n \<and> failures < maxPollFailures \<and> (\<forall>i<failures. isl (poll (n - Suc i)))"

lemma failing_Suc:
  "failing poll n failures \<Longrightarrow> poll n = Inl e \<Longrightarrow> Suc failures < maxPollFailures \<Longrightarrow> failing poll (Suc n) (Suc failures)"
  unfolding failing_def by (auto simp: less_Suc_eq_0_disj)

lemma failing_five:
  assumes "failing poll n failures" and "poll n = Inl e" and "Suc failures \<ge> maxPollFailures"
  shows "wait_outcome poll cancelled (Some (PollFailures jobID (Suc failures) e), st)"
proof -
  have f: "failures = 4" and "4 \<le> n" and i: "\<forall>i<4. isl (poll (n - Suc i))"
    using assms by (auto simp: failing_def)
  then obtain m where n: "n = m + 4" using le_Suc_ex [of 4 n] by (auto simp: add.commute)
  have "isl (poll m)" "isl (poll (m + 1))" "isl (poll (m + 2))" "isl (poll (m + 3))" "isl (poll (m + 4))"
    using i [rule_format, of 3] i [rule_format, of 2] i [rule_format, of 1] i [rule_format, of 0] assms(2)
    unfolding n by (simp_all add: numeral_eq_Suc)
  then show ?thesis unfolding wait_outcome_def f by auto
qed

lemma wait_loop_outcome:
  assumes "wait_loop poll cancelled jobID n failures lst = Some res"
  shows "failing poll n failures \<longrightarrow> wait_outcome poll cancelled res"
proof (rule wait_loop.raw_induct [where P = "\<lambda>poll cancelled jobID n failures lst res.
      failing poll n failures \<longrightarrow> wait_outcome poll cancelled res", OF _ assms], intro impI)
  fix wl :: "(nat \<Rightarrow> aap_error + aap_status) \<Rightarrow> (nat \<Rightarrow> bool) \<Rightarrow> int \<Rightarrow> nat \<Rightarrow> nat \<Rightarrow> aap_status \<Rightarrow> (aap_error option \<times> aap_status) option"
    and poll cancelled jobID n failures lst res
  assume IH: "\<And>poll cancelled jobID n failures lst res. wl poll cancelled jobID n failures lst = Some res \<Longrightarrow>
      failing poll n failures \<longrightarrow> wait_outcome poll cancelled res"
    and body: "(case poll n of
        Inl e \<Rightarrow> if maxPollFailures \<le> Suc failures then Some (Some (PollFailures jobID (Suc failures) e), lst)
          else if cancelled n then Some (Some Cancelled, lst) else wl poll cancelled jobID (Suc n) (Suc failures) lst
      | Inr st \<Rightarrow> if IsTerminal st then Some (None, st)
          else if cancelled n then Some (Some Cancelled, st) else wl poll cancelled jobID (Suc n) 0 st) = Some res"
    and f: "failing poll n failures"
  show "wait_outcome poll cancelled res"
  proof (cases "poll n")
    case (Inl e)
    show ?thesis
    proof (cases "Suc failures \<ge> maxPollFailures \<or> cancelled n")
      case True
      then show ?thesis using body Inl failing_five [OF f Inl] by (auto simp: wait_outcome_def split: if_splits)
    next
      case False
      then show ?thesis using body Inl IH failing_Suc [OF f Inl] by simp
    qed
  next
    case (Inr st)
    have "failing poll (Suc n) 0" by (simp add: failing_def)
    then show ?thesis using body Inr IH by (auto simp: wait_outcome_def split: if_splits)
  qed
qed

lemma wait_loop_returns:
  assumes "cancelled N"
  shows "n \<le> N \<Longrightarrow> \<exists>res. wait_loop poll cancelled jobID n failures lst = Some res"
proof (induction "N - n" arbitrary: n failures lst)
  case 0
  then show ?case using assms by (subst wait_loop.simps) (auto split: sum.splits)
next
  case (Suc d)
  then have "\<exists>res. wait_loop poll cancelled jobID (Suc n) f l = Some res" for f l by simp
  then show ?case by (subst wait_loop.simps) (auto split: sum.splits)
qed

text \<open>
  C19. Waiting for a Controller job. If the context ends, the wait returns, whatever the Controller
  answers; and whenever it returns, a result without error is a terminal status the Controller
  reported, and an error is either the end of the context or exactly five failed polls in a row: a
  shorter run of failures never drops a running job.
\<close>

theorem WaitForJob_outcome:
  "(cancelled N \<longrightarrow> (\<exists>res. WaitForJob c cancelled res0 = Some res)) \<and>
   (case WaitForJob c cancelled res0 of None \<Rightarrow> True | Some res \<Rightarrow> wait_outcome (JobStatus c res0) cancelled res)"
proof -
  have "failing (JobStatus c res0) 0 0" by (simp add: failing_def)
  then show ?thesis
    using wait_loop_returns [of cancelled N 0] wait_loop_outcome [of "JobStatus c res0" cancelled]
    by (auto simp: WaitForJob_def split: option.splits)
qed

definition example_controller :: controller where
  "example_controller = \<lparr>ct_Configured = True, ct_templates = (\<lambda>_ n. Inr [(7, n)]),
     ct_launch = (\<lambda>_ _ _. Inr \<lparr>lr_Job = 11, lr_WorkflowJob = 0, lr_ID = 11\<rparr>),
     ct_status = (\<lambda>_ _ n. if n < 3 then Inl ''status 502'' else Inr ''successful'')\<rparr>"

theorem WaitForJob_outcome_witness:
  "\<exists>res. WaitForJob example_controller (\<lambda>n. n = 9) \<lparr>la_JobID = 11, la_Workflow = False\<rparr> = Some res"
  using WaitForJob_outcome [of "\<lambda>n. n = 9" 9 example_controller "\<lparr>la_JobID = 11, la_Workflow = False\<rparr>"] by simp

text \<open>
  A renewal is launched under the one template of that name. A launch is accepted only when the
  Controller is configured and exactly one of the templates it returned carries the exact name; the
  job id reported is never zero, so a launched job can always be polled.
\<close>

theorem adapter_Renew_sound:
  assumes "adapter_Renew c name workflow extra = Inr (jobID, wflow)"
  shows "ct_Configured c \<and> wflow = workflow \<and> jobID \<noteq> 0 \<and>
    (\<exists>results i. ct_templates c (if workflow then ''workflow_job_templates'' else ''job_templates'') name = Inr results \<and>
       filter (\<lambda>r. snd r = name) results = [(i, name)])"
proof -
  let ?kind = "if workflow then ''workflow_job_templates'' else ''job_templates''"
  from assms obtain i where i: "findTemplate c ?kind name = Inr i"
    and l: "aap_launch c ?kind i extra workflow = Inr \<lparr>la_JobID = jobID, la_Workflow = wflow\<rparr>"
    by (auto simp: adapter_Renew_def FindWorkflowJobTemplate_def FindJobTemplate_def LaunchWorkflowJobTemplate_def
      LaunchJobTemplate_def split: if_splits sum.splits)
  from i obtain results where r: "ct_Configured c" "ct_templates c ?kind name = Inr results"
    and one: "map fst (filter (\<lambda>(i, n). n = name) results) = [i]"
    by (auto simp: findTemplate_def split: if_splits sum.splits list.splits)
  have "filter (\<lambda>(i, n). n = name) results = filter (\<lambda>r. snd r = name) results" by (rule filter_cong) auto
  with one have "map fst (filter (\<lambda>r. snd r = name) results) = [i]" by simp
  then obtain r where f: "filter (\<lambda>r. snd r = name) results = [r]" "fst r = i" by (auto simp: map_eq_Cons_conv)
  then have "r \<in> {r \<in> set results. snd r = name}" by (metis list.set_intros(1) set_filter)
  then have "filter (\<lambda>r. snd r = name) results = [(i, name)]" using f by (cases r) auto
  moreover have "wflow = workflow \<and> jobID \<noteq> 0" using l
    by (auto simp: aap_launch_def Let_def split: if_splits sum.splits)
  ultimately show ?thesis using r by blast
qed

theorem adapter_Renew_sound_witness:
  "adapter_Renew example_controller ''renew'' False [] = Inr (11, False) \<and> (11::int) \<noteq> 0"
proof -
  have run: "adapter_Renew example_controller ''renew'' False [] = Inr (11, False)" by code_simp
  with adapter_Renew_sound [OF run] show ?thesis by blast
qed

end
