(* ===== verification/Job_Worker.thy ===== *)
theory Job_Worker
  imports Certificate_Store AAP_Client
begin

text \<open>
  The worker that drives durable jobs: \<^verbatim>\<open>internal/lifecyclejobs\<close> (\<^verbatim>\<open>backoff.go\<close>,
  \<^verbatim>\<open>verify.go\<close>, \<^verbatim>\<open>worker.go\<close>). A worker launches a job that has no Controller id yet, polls it,
  and then looks in the inventory for the certificate that replaces the old one until it finds it or
  the deadline passes.
\<close>

section \<open>Backoff\<close>

definition VerifyBackoff :: "duration list" where
  "VerifyBackoff = [10 * second, 30 * second, 60 * second, 5 * minute, 30 * minute, 60 * minute, 3 * hour, 6 * hour]"

definition NextVerifyDelay :: "int \<Rightarrow> duration" where
  "NextVerifyDelay attempt =
     (let a = (if attempt < 1 then 1 else attempt) in
      if a > int (length VerifyBackoff) then VerifyBackoff ! (length VerifyBackoff - 1)
      else VerifyBackoff ! nat (a - 1))"

definition VerifyDelay :: "int \<Rightarrow> duration" where
  "VerifyDelay attempt = NextVerifyDelay attempt"

definition NextVerifyAt :: "time \<Rightarrow> int \<Rightarrow> time \<Rightarrow> time \<times> bool" where
  "NextVerifyAt now attempt timeoutAt =
     (let nxt = now + VerifyDelay attempt in if \<not> nxt < timeoutAt then (timeoutAt, True) else (nxt, False))"

section \<open>Matching\<close>

definition MapAAPStatus :: "aap_status \<Rightarrow> job_status" where
  "MapAAPStatus st = (case st of
     StatusPending \<Rightarrow> LifecycleAAPPending
   | StatusRunning \<Rightarrow> LifecycleAAPRunning
   | StatusSuccessful \<Rightarrow> LifecycleAAPSuccessful
   | StatusFailed \<Rightarrow> LifecycleFailed | StatusError \<Rightarrow> LifecycleFailed | StatusCanceled \<Rightarrow> LifecycleFailed
   | StatusUnknown \<Rightarrow> LifecycleAAPPending)"

record expected_wire =
  ew_CommonName :: string
  ew_PredecessorFP :: string
  ew_PredecessorNotAfter :: time
  ew_TargetHosts :: string

text \<open>\<open>ow_SuccessorCertID\<close> is the identifier whose text form the Go field holds, \<open>None\<close> for the empty string.\<close>

record observed_wire =
  ow_CommonName :: string
  ow_Fingerprint :: string
  ow_NotAfter :: time
  ow_SuccessorCertID :: "uuid option"
  ow_ManagedInVault :: bool

text \<open>The reason of a mismatch; \<open>None\<close> when the predicate holds.\<close>

definition VerifyWire :: "expected_wire \<Rightarrow> observed_wire \<Rightarrow> string option" where
  "VerifyWire expected observed =
     (if ow_CommonName observed = [] \<or> ow_Fingerprint observed = [] then Some ''no successor certificate observed''
      else if ew_CommonName expected \<noteq> [] \<and> ow_CommonName observed \<noteq> ew_CommonName expected then Some ''common name mismatch''
      else if ow_Fingerprint observed = ew_PredecessorFP expected then Some ''fingerprint unchanged (predecessor still on wire)''
      else if \<not> ow_NotAfter observed > ew_PredecessorNotAfter expected then Some ''not_after not later than predecessor''
      else None)"

definition MarshalExpected :: "expected_wire \<Rightarrow> json" where
  "MarshalExpected e = JObj ([(''common_name'', JStr (ew_CommonName e)),
     (''predecessor_fingerprint'', JStr (ew_PredecessorFP e)),
     (''predecessor_not_after'', JTime (ew_PredecessorNotAfter e))] @
     (if ew_TargetHosts e = [] then [] else [(''target_hosts'', JStr (ew_TargetHosts e))]))"

text \<open>Decoding a field: absent or null leaves the zero value, another type is an error.\<close>

fun dec_str :: "json option \<Rightarrow> string option" where
  "dec_str None = Some []"
| "dec_str (Some JNull) = Some []"
| "dec_str (Some (JStr v)) = Some v"
| "dec_str (Some _) = None"

fun dec_time :: "json option \<Rightarrow> time option" where
  "dec_time None = Some zero_time"
| "dec_time (Some JNull) = Some zero_time"
| "dec_time (Some (JTime t)) = Some t"
| "dec_time (Some _) = None"

definition UnmarshalExpected :: "json \<Rightarrow> error + expected_wire" where
  "UnmarshalExpected raw =
     (case raw of JObj _ \<Rightarrow>
        (case (dec_str (jget raw ''common_name''), dec_str (jget raw ''predecessor_fingerprint''),
               dec_time (jget raw ''predecessor_not_after''), dec_str (jget raw ''target_hosts'')) of
           (Some cn, Some fp, Some na, Some th) \<Rightarrow>
             Inr \<lparr>ew_CommonName = cn, ew_PredecessorFP = fp, ew_PredecessorNotAfter = na, ew_TargetHosts = th\<rparr>
         | _ \<Rightarrow> Inl ErrExpectedPayload)
      | JNull \<Rightarrow> Inr \<lparr>ew_CommonName = [], ew_PredecessorFP = [], ew_PredecessorNotAfter = zero_time, ew_TargetHosts = []\<rparr>
      | _ \<Rightarrow> Inl ErrExpectedPayload)"

definition observed_json :: "observed_wire \<Rightarrow> json" where
  "observed_json ob = JObj (
     (if ow_CommonName ob = [] then [] else [(''common_name'', JStr (ow_CommonName ob))]) @
     (if ow_Fingerprint ob = [] then [] else [(''fingerprint'', JStr (ow_Fingerprint ob))]) @
     [(''not_after'', JTime (ow_NotAfter ob))] @
     (case ow_SuccessorCertID ob of None \<Rightarrow> [] | Some i \<Rightarrow> [(''successor_cert_id'', JId i)]) @
     (if ow_ManagedInVault ob then [(''managed_in_vault'', JBool True)] else []))"

section \<open>Worker\<close>

text \<open>
  The renewer and the poller are \<open>None\<close> when the Controller is not configured. What they answer is a
  function of the number of launches made so far, and of the number of database calls made so far.
\<close>

record worker =
  wk_Owner :: string
  wk_Interval :: duration
  wk_LeaseTTL :: duration
  wk_BatchSize :: int
  wk_PollEvery :: duration
  wk_renewer :: "(nat \<Rightarrow> (string \<times> string) list \<Rightarrow> string + int \<times> bool) option"
  wk_aap :: "(nat \<Rightarrow> int \<Rightarrow> bool \<Rightarrow> string + aap_status) option"

definition NewWorker :: "worker \<Rightarrow> worker" where
  "NewWorker cfg = cfg\<lparr>
     wk_Owner := (if wk_Owner cfg = [] then ''lifecycle-worker'' else wk_Owner cfg),
     wk_Interval := (if wk_Interval cfg \<le> 0 then 10 * second else wk_Interval cfg),
     wk_LeaseTTL := (if wk_LeaseTTL cfg \<le> 0 then 2 * minute else wk_LeaseTTL cfg),
     wk_BatchSize := (if wk_BatchSize cfg \<le> 0 then 10 else wk_BatchSize cfg),
     wk_PollEvery := (if wk_PollEvery cfg \<le> 0 then 5 * second else wk_PollEvery cfg)\<rparr>"

text \<open>The parameters of the status updates the worker makes.\<close>

definition no_update :: update_params where
  "no_update = \<lparr>up_Status = None, up_FailureReason = None, up_Expected = None, up_Observed = None,
     up_SuccessorCertID = None, up_ClearLease = False\<rparr>"

definition fail_update :: "string \<Rightarrow> update_params" where
  "fail_update reason = no_update\<lparr>up_Status := Some LifecycleFailed, up_FailureReason := Some reason, up_ClearLease := True\<rparr>"

text \<open>An update, a timeline entry and an outbox event, their errors dropped.\<close>

definition close_job :: "lifecycle_job \<Rightarrow> update_params \<Rightarrow> string \<Rightarrow> string \<Rightarrow> json \<Rightarrow> db \<Rightarrow> db" where
  "close_job job p jobEvent outboxEvent payload s =
     (let s = ignore (UpdateLifecycleStatus (j_ID job) p) s;
          s = ignore (AppendLifecycleJobEvent (j_ID job) jobEvent (Some payload)) s
      in ignore (AppendRenewalOutboxEvent outboxEvent (j_PredecessorCertID job) (Some payload)) s)"

definition launch_vars :: "certificate \<Rightarrow> renewal_config \<Rightarrow> (string \<times> string) list" where
  "launch_vars cert cfg =
     [(''cert_common_name_override'', case c_SubjectCN cert of None \<Rightarrow> [] | Some cn \<Rightarrow> cn),
      (''vault_pki_mount'', rc_Mount cfg), (''vault_pki_role'', rc_Role cfg)] @
     (if rc_Service cfg \<noteq> [] then [(''cert_service_type'', rc_Service cfg)] else []) @
     (if rc_TargetHosts cfg \<noteq> [] then [(''target_hosts'', rc_TargetHosts cfg)] else []) @
     (if rc_TTL cfg \<noteq> [] then [(''vault_cert_ttl'', rc_TTL cfg)] else []) @
     (if rc_AltNames cfg \<noteq> [] then [(''cert_alt_names_override'', rc_AltNames cfg)] else [])"

definition launch :: "worker \<Rightarrow> lifecycle_job \<Rightarrow> unit op" where
  "launch w job s =
     (if (case j_AAPJobID job of None \<Rightarrow> False | Some i \<Rightarrow> i > 0)
      then UpdateLifecycleStatus (j_ID job) (no_update\<lparr>up_Status := Some LifecycleAAPPending, up_ClearLease := True\<rparr>) s
      else case (wk_renewer w, j_PredecessorCertID job) of
        (Some renew, Some certID) \<Rightarrow>
          (case GetCertificate certID s of
             (Inl err, s) \<Rightarrow> (Inl err, s)
           | (Inr cert, s) \<Rightarrow>
              (case c_RenewalConfig cert of
                 None \<Rightarrow> (Inl (ErrExternal ''missing renewal config''),
                   ignore (UpdateLifecycleStatus (j_ID job) (fail_update ''missing renewal config'')) s)
               | Some cfg \<Rightarrow>
                  (let extra = launch_vars cert cfg;
                       answer = renew (length (aap_launches s)) extra;
                       s = s\<lparr>aap_launches := aap_launches s @ [extra]\<rparr> in
                   case answer of
                     Inl err \<Rightarrow> (Inl (ErrExternal err), close_job job (fail_update (''aap launch failed: '' @ err))
                        ''job.failed'' ''renewal.failed'' (JObj [(''error'', JStr err)]) s)
                   | Inr (jobID, workflow) \<Rightarrow>
                      (case SetLifecycleAAPRef (j_ID job) jobID workflow LifecycleAAPPending s of
                         (Inl err, s) \<Rightarrow> (Inl err, s)
                       | (Inr _, s) \<Rightarrow>
                          (let payload = JObj [(''aap_job_id'', JNum jobID), (''workflow'', JBool workflow)];
                               s = ignore (AppendLifecycleJobEvent (j_ID job) ''job.launched'' (Some payload)) s;
                               s = ignore (AppendRenewalOutboxEvent ''renewal.launched'' (j_PredecessorCertID job) (Some payload)) s;
                               s = ignore (UpdateLifecycleStatus (j_ID job) (no_update\<lparr>up_ClearLease := True\<rparr>)) s
                           in (Inr (), s))))))
      | _ \<Rightarrow> (Inl (ErrExternal ''aap renewer not configured or missing predecessor''),
              ignore (UpdateLifecycleStatus (j_ID job) (fail_update ''aap renewer not configured or missing predecessor'')) s))"

definition deadline :: "lifecycle_job \<Rightarrow> time \<Rightarrow> time" where
  "deadline job now = (if j_TimeoutAt job = zero_time then now + 24 * hour else j_TimeoutAt job)"

definition enterPendingVerify :: "lifecycle_job \<Rightarrow> unit op" where
  "enterPendingVerify job s =
     (let now = go_now s; nxt = fst (NextVerifyAt now 1 (deadline job now)) in ScheduleNextVerify (j_ID job) 0 nxt s)"

definition pollAAP :: "worker \<Rightarrow> lifecycle_job \<Rightarrow> unit op" where
  "pollAAP w job s =
     (case (j_AAPJobID job, wk_aap w) of
        (Some i, Some wait) \<Rightarrow>
          (case wait (db_step s) i (j_AAPWorkflow job) of
             Inl err \<Rightarrow> (Inl (ErrExternal err), ignore (UpdateLifecycleStatus (j_ID job) (no_update\<lparr>up_ClearLease := True\<rparr>)) s)
           | Inr st \<Rightarrow>
              (let mapped = MapAAPStatus st in
               if mapped = LifecycleFailed then
                 (Inr (), close_job job (fail_update (''aap job '' @ aap_status_str st)) ''job.failed'' ''renewal.failed''
                    (JObj [(''aap_status'', JStr (aap_status_str st))]) s)
               else if mapped = LifecycleAAPSuccessful then
                 enterPendingVerify job (ignore (AppendLifecycleJobEvent (j_ID job) ''job.aap_successful'' (Some (JObj []))) s)
               else (Inr (), ignore (UpdateLifecycleStatus (j_ID job)
                       (no_update\<lparr>up_Status := Some mapped, up_ClearLease := True\<rparr>)) s)))
      | _ \<Rightarrow> (Inl (ErrExternal ''missing aap job id or poller''),
              ignore (UpdateLifecycleStatus (j_ID job) (fail_update ''missing aap job id or poller'')) s))"

text \<open>The successor among the certificates found: the one that lives longest, the first of several.\<close>

definition is_candidate :: "expected_wire \<Rightarrow> certificate \<Rightarrow> bool" where
  "is_candidate expected c \<longleftrightarrow> c_SubjectCN c = Some (ew_CommonName expected) \<and>
     c_FingerprintSHA256 c \<noteq> ew_PredecessorFP expected"

fun best_of :: "expected_wire \<Rightarrow> certificate option \<Rightarrow> certificate list \<Rightarrow> certificate option" where
  "best_of expected best [] = best"
| "best_of expected best (c # cs) =
     best_of expected
       (if \<not> is_candidate expected c then best
        else case best of None \<Rightarrow> Some c | Some b \<Rightarrow> if c_NotAfter c > c_NotAfter b then Some c else Some b) cs"

definition empty_observed :: observed_wire where
  "empty_observed = \<lparr>ow_CommonName = [], ow_Fingerprint = [], ow_NotAfter = zero_time, ow_SuccessorCertID = None,
     ow_ManagedInVault = False\<rparr>"

definition observeSuccessor :: "expected_wire \<Rightarrow> observed_wire op" where
  "observeSuccessor expected s =
     (if ew_CommonName expected = [] then (Inr empty_observed, s)
      else bind_op (ListCertificates (zero_filter\<lparr>cf_Search := ew_CommonName expected, cf_Limit := 50\<rparr>))
        (\<lambda>(certs, _) s. (Inr (case best_of expected None certs of
             None \<Rightarrow> empty_observed\<lparr>ow_CommonName := ew_CommonName expected\<rparr>
           | Some b \<Rightarrow> \<lparr>ow_CommonName = (case c_SubjectCN b of None \<Rightarrow> [] | Some cn \<Rightarrow> cn),
               ow_Fingerprint = c_FingerprintSHA256 b, ow_NotAfter = c_NotAfter b, ow_SuccessorCertID = Some (c_ID b),
               ow_ManagedInVault = (c_ManagedStatus b = ''managed_in_vault'')\<rparr>), s)) s)"

definition verifyPending :: "lifecycle_job \<Rightarrow> time \<Rightarrow> unit op" where
  "verifyPending job now s =
     (let timeoutAt = deadline job now in
      if \<not> now < timeoutAt then
        (Inr (), close_job job (no_update\<lparr>up_Status := Some LifecycleTimedOut, up_FailureReason := Some ''verify timeout'',
            up_ClearLease := True\<rparr>) ''job.timed_out'' ''renewal.timed_out'' (JObj [(''timeout_at'', rfc3339 timeoutAt)]) s)
      else case UnmarshalExpected (j_Expected job) of
        Inl err \<Rightarrow> (Inl err, ignore (UpdateLifecycleStatus (j_ID job) (fail_update ''invalid expected payload'')) s)
      | Inr expected \<Rightarrow>
         (case observeSuccessor expected s of
            (Inl err, s) \<Rightarrow> (Inl err, s)
          | (Inr observed, s) \<Rightarrow>
             (let obs = observed_json observed in
              case VerifyWire expected observed of
                None \<Rightarrow> (Inr (), close_job job (no_update\<lparr>up_Status := Some LifecycleVerified, up_Observed := Some obs,
                    up_SuccessorCertID := ow_SuccessorCertID observed, up_ClearLease := True\<rparr>)
                    ''job.verified'' ''renewal.verified'' (JObj [(''observed'', obs)]) s)
              | Some reason \<Rightarrow>
                 (let attempt = j_VerifyAttempt job + 1 in
                  case NextVerifyAt now attempt timeoutAt of (nxt, lst) \<Rightarrow>
                  if lst \<and> \<not> nxt > now then
                    (Inr (), close_job job (no_update\<lparr>up_Status := Some LifecycleTimedOut, up_FailureReason := Some reason,
                        up_Observed := Some obs, up_ClearLease := True\<rparr>) ''job.timed_out'' ''renewal.timed_out''
                        (JObj [(''observed'', obs), (''reason'', JStr reason)]) s)
                  else let s = ignore (UpdateLifecycleStatus (j_ID job) (no_update\<lparr>up_Observed := Some obs\<rparr>)) s
                       in ScheduleNextVerify (j_ID job) attempt nxt s))))"

definition process :: "worker \<Rightarrow> lifecycle_job \<Rightarrow> unit op" where
  "process w job s = (case j_Status job of
     LifecycleLaunching \<Rightarrow> launch w job s
   | LifecycleAAPPending \<Rightarrow> pollAAP w job s
   | LifecycleAAPRunning \<Rightarrow> pollAAP w job s
   | LifecycleAAPSuccessful \<Rightarrow> enterPendingVerify job s
   | LifecycleVerifying \<Rightarrow> verifyPending job (go_now s) s
   | LifecyclePendingVerify \<Rightarrow>
       (let now = go_now s in
        if (case j_NextVerifyAt job of None \<Rightarrow> False | Some t \<Rightarrow> t > now)
        then (Inr (), ignore (UpdateLifecycleStatus (j_ID job) (no_update\<lparr>up_ClearLease := True\<rparr>)) s)
        else verifyPending job now s)
   | _ \<Rightarrow> (Inr (), ignore (UpdateLifecycleStatus (j_ID job) (fail_update ''unexpected status'')) s))"

fun each_job :: "(lifecycle_job \<Rightarrow> db \<Rightarrow> db) \<Rightarrow> lifecycle_job list \<Rightarrow> db \<Rightarrow> db" where
  "each_job f [] s = s"
| "each_job f (j # js) s = each_job f js (f j s)"

definition announce_timeout :: "lifecycle_job \<Rightarrow> db \<Rightarrow> db" where
  "announce_timeout job s =
     (let payload = JObj [(''timeout_at'', rfc3339 (j_TimeoutAt job))];
          s = ignore (AppendLifecycleJobEvent (j_ID job) ''job.timed_out'' (Some payload)) s
      in ignore (AppendRenewalOutboxEvent ''renewal.timed_out'' (j_PredecessorCertID job) (Some payload)) s)"

definition expireTimedOut :: "time \<Rightarrow> unit op" where
  "expireTimedOut now s = (case ExpireTimedOutVerifyJobs now s of
     (Inl err, s) \<Rightarrow> (Inl err, s) | (Inr expired, s) \<Rightarrow> (Inr (), each_job announce_timeout expired s))"

definition tick :: "worker \<Rightarrow> db \<Rightarrow> db" where
  "tick w s =
     (let now = go_now s;
          s = ignore (expireTimedOut now) s in
      case ClaimLifecycleJobs (wk_Owner w) (wk_LeaseTTL w) (wk_BatchSize w) s of
        (Inl _, s) \<Rightarrow> s
      | (Inr jobs, s) \<Rightarrow>
         (let s = each_job (\<lambda>job. ignore (process w job)) jobs s in
          case ClaimDueVerifyJobs now (wk_BatchSize w) (wk_LeaseTTL w) s of
            (Inl _, s) \<Rightarrow> s
          | (Inr due, s) \<Rightarrow> each_job (\<lambda>job. ignore (verifyPending job now)) due s))"

section \<open>Schedule\<close>

lemma VerifyDelay_nth:
  "VerifyDelay a = VerifyBackoff ! min (nat (max a 1 - 1)) (length VerifyBackoff - 1)"
  by (auto simp: VerifyDelay_def NextVerifyDelay_def Let_def VerifyBackoff_def min_def max_def)

lemma VerifyDelay_cases: "VerifyDelay a \<in> set VerifyBackoff"
  unfolding VerifyDelay_nth by (rule nth_mem) (simp add: VerifyBackoff_def min_def)

lemma VerifyDelay_bounds: "10 * second \<le> VerifyDelay a \<and> VerifyDelay a \<le> 6 * hour"
  using VerifyDelay_cases [of a] by (auto simp: VerifyBackoff_def hour_def minute_def second_def)

lemma VerifyBackoff_sorted: "sorted VerifyBackoff"
  by (simp add: VerifyBackoff_def hour_def minute_def second_def)

lemma VerifyDelay_mono:
  assumes "a \<le> b"
  shows "VerifyDelay a \<le> VerifyDelay b"
proof -
  let ?i = "\<lambda>a. min (nat (max a 1 - 1)) (length VerifyBackoff - 1)"
  have "?i a \<le> ?i b" using assms by auto
  moreover have "?i b < length VerifyBackoff" by (simp add: VerifyBackoff_def)
  ultimately show ?thesis unfolding VerifyDelay_nth using sorted_nth_mono [OF VerifyBackoff_sorted] by blast
qed

text \<open>
  C18. The retry schedule. Delays never shrink from one attempt to the next and stay between ten seconds
  and six hours, for every attempt number; a probe scheduled before the deadline is in the future and
  not after the deadline; it is called the last exactly when it falls on the deadline.
\<close>

theorem NextVerifyAt_schedule:
  assumes "now < timeoutAt" and "NextVerifyAt now attempt timeoutAt = (nxt, lst)"
  shows "now < nxt \<and> nxt \<le> timeoutAt \<and> (lst \<longleftrightarrow> nxt = timeoutAt) \<and>
    10 * second \<le> VerifyDelay attempt \<and> VerifyDelay attempt \<le> 6 * hour \<and> VerifyDelay attempt \<le> VerifyDelay (attempt + 1)"
proof -
  have "(0::duration) < 10 * second" by (simp add: second_def)
  also have "\<dots> \<le> VerifyDelay attempt" using VerifyDelay_bounds [of attempt] by blast
  finally have "0 < VerifyDelay attempt" .
  then show ?thesis using assms VerifyDelay_bounds [of attempt] VerifyDelay_mono [of attempt "attempt + 1"]
    by (auto simp: NextVerifyAt_def Let_def split: if_splits)
qed

theorem NextVerifyAt_schedule_witness:
  "NextVerifyAt 0 3 (hour) = (60 * second, False) \<and> (0::time) < 60 * second"
proof -
  have run: "NextVerifyAt 0 3 hour = (60 * second, False)" by code_simp
  have "(0::time) < hour" by (simp add: hour_def minute_def second_def)
  from NextVerifyAt_schedule [OF this run] run show ?thesis by blast
qed

section \<open>The expected payload\<close>

text \<open>
  What a launch stores, the worker reads back: decoding the expected payload of a job gives exactly
  the values that were encoded, empty strings included.
\<close>

theorem expected_roundtrip: "UnmarshalExpected (MarshalExpected e) = Inr e"
  by (cases e) (simp add: UnmarshalExpected_def MarshalExpected_def)

section \<open>What the worker does to jobs\<close>

text \<open>A replacement for the certificate of a job is in the inventory.\<close>

definition successor_seen :: "certificate list \<Rightarrow> json \<Rightarrow> bool" where
  "successor_seen certs expected \<longleftrightarrow> (\<exists>e c. UnmarshalExpected expected = Inr e \<and> c \<in> set certs \<and>
     ew_CommonName e \<noteq> [] \<and> c_SubjectCN c = Some (ew_CommonName e) \<and>
     c_FingerprintSHA256 c \<noteq> ew_PredecessorFP e \<and> c_NotAfter c > ew_PredecessorNotAfter e)"

definition same_fixed :: "lifecycle_job \<Rightarrow> lifecycle_job \<Rightarrow> bool" where
  "same_fixed j j' \<longleftrightarrow> job_ident j' = job_ident j \<and> j_Expected j' = j_Expected j \<and>
     j_PredecessorCertID j' = j_PredecessorCertID j \<and> j_TimeoutAt j' = j_TimeoutAt j"

lemma same_fixed_ID: "same_fixed j j' \<Longrightarrow> j_ID j' = j_ID j"
  by (simp add: same_fixed_def job_ident_def)

text \<open>Work on the jobs \<open>J\<close>: other rows are untouched, and one of theirs is verified only for a reason.\<close>

definition job_row_ok :: "certificate list \<Rightarrow> lifecycle_job set \<Rightarrow> lifecycle_job \<Rightarrow> lifecycle_job \<Rightarrow> bool" where
  "job_row_ok certs J j j' \<longleftrightarrow> same_fixed j j' \<and> (j_ID j \<notin> j_ID ` J \<longrightarrow> j' = j) \<and>
     (j_Status j' = LifecycleVerified \<longrightarrow> j_Status j = LifecycleVerified \<or>
        (\<exists>job\<in>J. j_ID job = j_ID j \<and> successor_seen certs (j_Expected job)))"

definition work_kept :: "lifecycle_job set \<Rightarrow> db \<Rightarrow> db \<Rightarrow> bool" where
  "work_kept J s s' \<longleftrightarrow> t_certificates s' = t_certificates s \<and>
     list_all2 (job_row_ok (t_certificates s) J) (t_jobs s) (t_jobs s')"

lemma job_row_ok_refl: "job_row_ok certs J j j"
  by (simp add: job_row_ok_def same_fixed_def)

lemma job_row_ok_trans: "job_row_ok certs J a b \<Longrightarrow> job_row_ok certs J b c \<Longrightarrow> job_row_ok certs J a c"
  by (auto simp: job_row_ok_def same_fixed_def job_ident_def)

interpretation wk: op_relation "work_kept J" for J
proof
  show "work_kept J s s" "work_kept J s (next_step s)" for s
    by (simp_all add: work_kept_def job_row_ok_refl list_all2_refl)
  show "work_kept J s u" if "work_kept J s t" "work_kept J t u" for s t u
    using that list_all2_trans [of "job_row_ok (t_certificates s) J" "job_row_ok (t_certificates s) J"
        "job_row_ok (t_certificates s) J" "t_jobs s" "t_jobs t" "t_jobs u", OF job_row_ok_trans]
    by (simp add: work_kept_def)
qed

lemma work_kept_same: "t_certificates s' = t_certificates s \<Longrightarrow> t_jobs s' = t_jobs s \<Longrightarrow> work_kept J s s'"
  by (simp add: work_kept_def job_row_ok_refl list_all2_refl)

lemma work_kept_upd:
  assumes "job \<in> J" and "\<And>j. same_fixed j (f j)"
    and "\<And>j. j_Status (f j) = LifecycleVerified \<Longrightarrow> j_Status j = LifecycleVerified \<or> successor_seen (t_certificates s) (j_Expected job)"
  shows "work_kept J s (s\<lparr>t_jobs := upd_where (\<lambda>j. j_ID j = j_ID job) f (t_jobs s)\<rparr>)"
  using assms by (auto simp: work_kept_def upd_where_def list.rel_map job_row_ok_def same_fixed_def intro!: list.rel_refl_strong)

lemma UpdateLifecycleStatus_work:
  assumes "job \<in> J" and "up_Expected p = None"
    and "up_Status p = Some LifecycleVerified \<Longrightarrow> successor_seen (t_certificates s) (j_Expected job)"
  shows "work_kept J s (snd (UpdateLifecycleStatus (j_ID job) p s))"
  unfolding UpdateLifecycleStatus_def
  using assms
  by (intro db_call_keeps [where P = "work_kept J s"] wk.R_step wk.R_trans [OF _ wk.R_step])
     (auto split: if_splits option.splits intro!: work_kept_upd simp: same_fixed_def job_ident_def)

lemma update_job_work:
  assumes "job \<in> J" and "\<And>now j. same_fixed j (f now j) \<and> j_Status (f now j) \<noteq> LifecycleVerified"
  shows "wk.op_ok J (update_job (j_ID job) f)"
  unfolding update_job_def using assms
  by (intro wk.op_ok_call wk.tx_okI) (auto split: if_splits intro!: work_kept_upd)

lemma SetLifecycleAAPRef_work: "job \<in> J \<Longrightarrow> st \<noteq> LifecycleVerified \<Longrightarrow> wk.op_ok J (SetLifecycleAAPRef (j_ID job) a w st)"
  unfolding SetLifecycleAAPRef_def by (rule update_job_work) (simp_all add: same_fixed_def job_ident_def)

lemma ScheduleNextVerify_work: "job \<in> J \<Longrightarrow> wk.op_ok J (ScheduleNextVerify (j_ID job) a t)"
  unfolding ScheduleNextVerify_def by (rule update_job_work) (simp_all add: same_fixed_def job_ident_def)

lemma UpdateLifecycleStatus_unverified_work:
  "job \<in> J \<Longrightarrow> up_Expected p = None \<Longrightarrow> up_Status p \<noteq> Some LifecycleVerified \<Longrightarrow>
     wk.op_ok J (UpdateLifecycleStatus (j_ID job) p)"
  unfolding wk.op_ok_def by (blast intro: UpdateLifecycleStatus_work)

lemma AppendLifecycleJobEvent_work: "wk.op_ok J (AppendLifecycleJobEvent i ty p)"
  unfolding AppendLifecycleJobEvent_def insert_job_event_def
  by (intro wk.op_ok_call wk.tx_okI) (auto split: if_splits intro!: work_kept_same)

lemma AppendRenewalOutboxEvent_work: "wk.op_ok J (AppendRenewalOutboxEvent ty c p)"
  unfolding AppendRenewalOutboxEvent_def appendEventStandalone_def appendEventTx_def
  by (intro wk.op_ok_call wk.tx_okI) (auto split: if_splits intro!: work_kept_same simp: Let_def)

lemma no_update_sel [simp]:
  "up_Status no_update = None" "up_Expected no_update = None"
  "up_Status (fail_update r) = Some LifecycleFailed" "up_Expected (fail_update r) = None"
  by (simp_all add: no_update_def fail_update_def)

lemma close_job_work:
  assumes "job \<in> J" and "up_Expected p = None"
    and "up_Status p = Some LifecycleVerified \<Longrightarrow> successor_seen (t_certificates s) (j_Expected job)"
  shows "work_kept J s (close_job job p je oe payload s)"
  using UpdateLifecycleStatus_work [OF assms]
  by (auto simp: close_job_def ignore_def [of "UpdateLifecycleStatus (j_ID job) p"]
      intro!: wk.op_ok_ignore AppendLifecycleJobEvent_work AppendRenewalOutboxEvent_work)

lemmas work_intros = UpdateLifecycleStatus_unverified_work SetLifecycleAAPRef_work ScheduleNextVerify_work
  AppendLifecycleJobEvent_work AppendRenewalOutboxEvent_work

section \<open>Observation\<close>

lemma best_of_in:
  "best_of expected best cs = Some b \<Longrightarrow> Some b \<noteq> best \<Longrightarrow> b \<in> set cs \<and> is_candidate expected b"
proof (induction cs arbitrary: best)
  case (Cons c cs)
  let ?next = "if \<not> is_candidate expected c then best
     else case best of None \<Rightarrow> Some c | Some b \<Rightarrow> if c_NotAfter c > c_NotAfter b then Some c else Some b"
  show ?case
  proof (cases "Some b = ?next")
    case True
    then show ?thesis using Cons.prems(2) by (auto split: if_splits option.splits)
  next
    case False
    then show ?thesis using Cons.IH [of ?next] Cons.prems(1) by auto
  qed
qed simp

lemma ListCertificates_rows:
  assumes "ListCertificates f s = (r, s')"
  shows "t_certificates s' = t_certificates s \<and> t_jobs s' = t_jobs s \<and>
    (\<forall>cs n. r = Inr (cs, n) \<longrightarrow> (\<exists>t. t_certificates t = t_certificates s \<and> set cs \<subseteq> select_cert t ` set (t_certificates s)))"
proof -
  have "set (take n (drop m (cert_rows f t))) \<subseteq> select_cert t ` set (t_certificates t)" for n m t
    by (auto simp: cert_rows_def dest!: in_set_takeD in_set_dropD)
  with assms show ?thesis
    by (auto simp: ListCertificates_def Let_def bind_op_def db_call_def split: if_splits prod.splits sum.splits)
       (metis next_step_tables(3))+
qed

lemma observeSuccessor_state:
  "observeSuccessor e s = (r, s') \<Longrightarrow> t_certificates s' = t_certificates s \<and> t_jobs s' = t_jobs s"
  by (auto simp: observeSuccessor_def bind_op_def split: if_splits prod.splits sum.splits dest: ListCertificates_rows)

lemma observeSuccessor_verified:
  assumes run: "observeSuccessor e s = (Inr ob, s')" and match: "VerifyWire e ob = None"
    and raw: "UnmarshalExpected expected = Inr e"
  shows "successor_seen (t_certificates s) expected"
proof -
  have ne: "ew_CommonName e \<noteq> []" using run match
    by (auto simp: observeSuccessor_def VerifyWire_def empty_observed_def split: if_splits)
  then obtain certs n where l: "ListCertificates (zero_filter\<lparr>cf_Search := ew_CommonName e, cf_Limit := 50\<rparr>) s = (Inr (certs, n), s')"
    and ob: "ob = (case best_of e None certs of
             None \<Rightarrow> empty_observed\<lparr>ow_CommonName := ew_CommonName e\<rparr>
           | Some b \<Rightarrow> \<lparr>ow_CommonName = (case c_SubjectCN b of None \<Rightarrow> [] | Some cn \<Rightarrow> cn),
               ow_Fingerprint = c_FingerprintSHA256 b, ow_NotAfter = c_NotAfter b, ow_SuccessorCertID = Some (c_ID b),
               ow_ManagedInVault = (c_ManagedStatus b = ''managed_in_vault'')\<rparr>)"
    using run by (auto simp: observeSuccessor_def bind_op_def split: prod.splits sum.splits)
  obtain b where b: "best_of e None certs = Some b"
    using ob match by (cases "best_of e None certs") (auto simp: VerifyWire_def empty_observed_def)
  then have cand: "b \<in> set certs" "is_candidate e b" using best_of_in by fastforce+
  obtain t where "set certs \<subseteq> select_cert t ` set (t_certificates s)" using ListCertificates_rows [OF l] by blast
  with cand(1) obtain c where c: "c \<in> set (t_certificates s)" "b = select_cert t c" by blast
  have "ew_PredecessorNotAfter e < c_NotAfter b"
    using match ob b by (auto simp: VerifyWire_def split: if_splits)
  then show ?thesis unfolding successor_seen_def using c cand(2) ne raw by (auto simp: is_candidate_def select_cert_def)
qed

section \<open>A tick\<close>

lemma ignore_work: "job \<in> J \<Longrightarrow> up_Expected p = None \<Longrightarrow> up_Status p \<noteq> Some LifecycleVerified \<Longrightarrow>
    work_kept J s t \<Longrightarrow> work_kept J s (ignore (UpdateLifecycleStatus (j_ID job) p) t)"
  by (rule wk.op_ok_ignore) (auto intro: work_intros)

lemma launch_work:
  assumes "job \<in> J"
  shows "work_kept J s (snd (launch w job s))"
proof -
  have get: "work_kept J s t" if "GetCertificate c s = (r, t)" for c r t
    using GetCertificate_read [OF that] wk.R_step by simp
  have log: "work_kept J s (t\<lparr>aap_launches := l\<rparr>)" if "work_kept J s t" for t l
    using that by (simp add: work_kept_def)
  have ref: "work_kept J s u"
    if "SetLifecycleAAPRef (j_ID job) i wf LifecycleAAPPending (t\<lparr>aap_launches := l\<rparr>) = (r, u)"
      and "GetCertificate c s = (r', t)" for i wf t l r u c r'
    using wk.op_ok_run [OF SetLifecycleAAPRef_work that(1), of J] log [OF get [OF that(2)]] assms wk.R_trans by blast
  have close: "work_kept J s (close_job job (fail_update r) je oe x t)" if "work_kept J s t" for r je oe x t
    using that close_job_work [OF assms, of "fail_update r" t] by (auto intro: wk.R_trans)
  show ?thesis using assms UpdateLifecycleStatus_unverified_work [OF assms, of "no_update\<lparr>up_Status := Some LifecycleAAPPending, up_ClearLease := True\<rparr>"]
    by (auto simp: launch_def Let_def wk.op_ok_def split: option.splits prod.splits sum.splits
        intro!: ignore_work wk.op_ok_ignore [OF _ AppendLifecycleJobEvent_work] wk.op_ok_ignore [OF _ AppendRenewalOutboxEvent_work] close
        intro: get ref log wk.R_refl)
qed

lemma enterPendingVerify_work: "job \<in> J \<Longrightarrow> wk.op_ok J (enterPendingVerify job)"
  using ScheduleNextVerify_work by (auto simp: wk.op_ok_def enterPendingVerify_def Let_def)

lemma pollAAP_work:
  assumes "job \<in> J"
  shows "work_kept J s (snd (pollAAP w job s))"
proof -
  have enter: "work_kept J s (snd (enterPendingVerify job t))" if "work_kept J s t" for t
    using enterPendingVerify_work [OF assms] that wk.R_trans by (auto simp: wk.op_ok_def)
  show ?thesis using assms
    by (auto simp: pollAAP_def Let_def MapAAPStatus_def split: option.splits sum.splits aap_status.splits
        intro!: ignore_work enter wk.op_ok_ignore [OF _ AppendLifecycleJobEvent_work] close_job_work wk.R_refl)
qed

lemma verifyPending_work:
  assumes "job \<in> J"
  shows "work_kept J s (snd (verifyPending job now s))"
proof (cases "now < deadline job now")
  case False
  then show ?thesis using assms by (auto simp: verifyPending_def Let_def intro!: close_job_work)
next
  case live: True
  show ?thesis
  proof (cases "UnmarshalExpected (j_Expected job)")
    case (Inl err)
    then show ?thesis using assms live by (auto simp: verifyPending_def Let_def intro!: ignore_work wk.R_refl)
  next
    case (Inr e)
    obtain r t where run: "observeSuccessor e s = (r, t)" by force
    have st: "work_kept J s t" using observeSuccessor_state [OF run] by (simp add: work_kept_same)
    have certs: "t_certificates t = t_certificates s" using observeSuccessor_state [OF run] by simp
    have close: "work_kept J s (close_job job p je oe x t)"
      if "up_Expected p = None" "up_Status p = Some LifecycleVerified \<Longrightarrow> successor_seen (t_certificates s) (j_Expected job)" for p je oe x
      using close_job_work [OF assms that(1), of t] that(2) certs st by (auto intro: wk.R_trans)
    have sched: "work_kept J s (snd (ScheduleNextVerify (j_ID job) a nxt u))" if "work_kept J s u" for a nxt u
      using ScheduleNextVerify_work [OF assms] that wk.R_trans by (auto simp: wk.op_ok_def)
    show ?thesis
    proof (cases r)
      case (Inl err)
      then show ?thesis using live \<open>UnmarshalExpected (j_Expected job) = Inr e\<close> run st by (simp add: verifyPending_def Let_def)
    next
      case (Inr ob)
      have seen: "VerifyWire e ob = None \<Longrightarrow> successor_seen (t_certificates s) (j_Expected job)"
        using observeSuccessor_verified run Inr \<open>UnmarshalExpected (j_Expected job) = Inr e\<close> by blast
      show ?thesis using live \<open>UnmarshalExpected (j_Expected job) = Inr e\<close> run Inr seen assms st
        by (auto simp: verifyPending_def Let_def split: option.splits prod.splits
            intro!: close sched ignore_work)
    qed
  qed
qed

lemma process_work:
  assumes "job \<in> J"
  shows "work_kept J s (snd (process w job s))"
  using assms enterPendingVerify_work [OF assms]
  by (auto simp: process_def Let_def wk.op_ok_def split: job_status.splits option.splits
      intro!: launch_work pollAAP_work verifyPending_work ignore_work wk.R_refl)

lemma each_job_work:
  "(\<And>job s. job \<in> set jobs \<Longrightarrow> work_kept J s (f job s)) \<Longrightarrow> work_kept J s (each_job f jobs s)"
proof (induction jobs arbitrary: s)
  case (Cons j js)
  have "work_kept J s (f j s)" using Cons.prems by simp
  moreover have "work_kept J (f j s) (each_job f js (f j s))" using Cons by simp
  ultimately show ?case using wk.R_trans by simp
qed (simp add: wk.R_refl)

text \<open>
  The relation of a tick: the inventory is untouched, rows that are not in flight are untouched, and
  a row becomes verified only if a successor is in the inventory.
\<close>

definition tick_row :: "certificate list \<Rightarrow> lifecycle_job \<Rightarrow> lifecycle_job \<Rightarrow> bool" where
  "tick_row certs j j' \<longleftrightarrow> same_fixed j j' \<and> (\<not> in_flight (j_Status j) \<longrightarrow> j' = j) \<and>
     (j_Status j' = LifecycleVerified \<longrightarrow> j_Status j = LifecycleVerified \<or> successor_seen certs (j_Expected j))"

definition tick_rel :: "db \<Rightarrow> db \<Rightarrow> bool" where
  "tick_rel s s' \<longleftrightarrow> t_certificates s' = t_certificates s \<and>
     list_all2 (tick_row (t_certificates s)) (t_jobs s) (t_jobs s')"

lemma tick_row_refl: "tick_row certs j j"
  by (simp add: tick_row_def same_fixed_def)

lemma tick_row_trans: "tick_row certs a b \<Longrightarrow> tick_row certs b c \<Longrightarrow> tick_row certs a c"
  by (auto simp: tick_row_def same_fixed_def job_ident_def)

interpretation tk: op_relation tick_rel
proof
  show "tick_rel s s" "tick_rel s (next_step s)" for s
    by (simp_all add: tick_rel_def tick_row_refl list_all2_refl)
  show "tick_rel s u" if "tick_rel s t" "tick_rel t u" for s t u
    using that list_all2_trans [of "tick_row (t_certificates s)" "tick_row (t_certificates s)"
        "tick_row (t_certificates s)" "t_jobs s" "t_jobs t" "t_jobs u", OF tick_row_trans]
    by (simp add: tick_rel_def)
qed

lemma tick_rel_ids: "tick_rel s s' \<Longrightarrow> map j_ID (t_jobs s') = map j_ID (t_jobs s)"
  by (auto simp: tick_rel_def list_all2_conv_all_nth tick_row_def same_fixed_ID intro!: nth_equalityI)

text \<open>Work on jobs that are rows in flight is a step of that relation.\<close>

lemma work_tick:
  assumes "work_kept J s s'" and "distinct (map j_ID (t_jobs s))"
    and "\<And>job. job \<in> J \<Longrightarrow> job \<in> set (t_jobs s) \<and> in_flight (j_Status job)"
  shows "tick_rel s s'"
proof -
  have row: "tick_row (t_certificates s) j j'" if "j \<in> set (t_jobs s)" "job_row_ok (t_certificates s) J j j'" for j j'
  proof -
    have own: "job = j" if "job \<in> J" "j_ID job = j_ID j" for job
      using distinct_map_unique [OF assms(2)] assms(3) [OF that(1)] that(2) \<open>j \<in> set (t_jobs s)\<close> by blast
    have "j_ID j \<notin> j_ID ` J" if "\<not> in_flight (j_Status j)" using own assms(3) that by force
    moreover have "successor_seen (t_certificates s) (j_Expected j)"
      if "job \<in> J" "j_ID job = j_ID j" "successor_seen (t_certificates s) (j_Expected job)" for job
      using own [OF that(1,2)] that(3) by simp
    ultimately show ?thesis using that(2) by (auto simp: job_row_ok_def tick_row_def)
  qed
  show ?thesis unfolding tick_rel_def
  proof
    show "list_all2 (tick_row (t_certificates s)) (t_jobs s) (t_jobs s')"
      using assms(1) row by (auto simp: work_kept_def elim!: list.rel_mono_strong)
  qed (use assms(1) in \<open>simp add: work_kept_def\<close>)
qed

lemma tick_upd:
  assumes "\<And>j. j \<in> set (t_jobs s) \<Longrightarrow> p j \<Longrightarrow> tick_row (t_certificates s) j (f j)"
  shows "tick_rel s (s\<lparr>t_jobs := upd_where p f (t_jobs s)\<rparr>)"
  using assms by (auto simp: tick_rel_def upd_where_def list.rel_map tick_row_refl intro!: list.rel_refl_strong)

lemma expire_tick: "tick_rel s (snd (ExpireTimedOutVerifyJobs now s))"
  unfolding ExpireTimedOutVerifyJobs_def Let_def
  by (intro db_call_keeps [where P = "tick_rel s"] tk.R_step)
     (auto intro!: tick_upd tk.R_trans [OF _ tk.R_step] simp: tick_row_def expire_row_def verify_overdue_def in_flight_def
        same_fixed_def job_ident_def)

lemma announce_timeout_work: "work_kept {} s (announce_timeout job s)"
  by (auto simp: announce_timeout_def Let_def intro!: wk.op_ok_ignore AppendLifecycleJobEvent_work
      AppendRenewalOutboxEvent_work wk.R_refl)

lemma work_none_tick: "work_kept {} s s' \<Longrightarrow> tick_rel s s'"
  by (auto simp: work_kept_def tick_rel_def job_row_ok_def tick_row_def elim!: list.rel_mono_strong)

lemma expireTimedOut_tick: "tick_rel s (ignore (expireTimedOut now) s)"
proof -
  obtain r t where run: "ExpireTimedOutVerifyJobs now s = (r, t)" by force
  then have "tick_rel s t" using expire_tick [of s now] by simp
  moreover have "tick_rel t (each_job announce_timeout js t)" for js
    by (rule work_none_tick, rule each_job_work) (rule announce_timeout_work)
  ultimately show ?thesis using run tk.R_trans by (auto simp: ignore_def expireTimedOut_def split: sum.splits)
qed

text \<open>A claim is a step of it, and hands out rows that are in flight.\<close>

lemma get_all_jobs_in: "get_all GetLifecycleJob ids s = (Inr js, s') \<Longrightarrow> set js \<subseteq> set (t_jobs s)"
proof (induction ids arbitrary: s js)
  case (Cons i ids)
  then obtain j t js' where j: "GetLifecycleJob i s = (Inr j, t)" and rest: "get_all GetLifecycleJob ids t = (Inr js', s')"
    and "js = j # js'" by (auto simp: bind_op_Inr)
  moreover have "t_jobs t = t_jobs s" using GetLifecycleJob_jobs [of i s] j by simp
  ultimately show ?case using Cons.IH [OF rest] GetLifecycleJob_ID [OF j] by auto
qed simp

lemma claim_tick:
  assumes op: "claim_op owner due key now x n s = (r, s')" and d: "distinct (map j_ID (t_jobs s))"
    and due: "\<And>t j. due t j \<Longrightarrow> in_flight (j_Status j)"
  shows "tick_rel s s' \<and> (\<forall>js. r = Inr js \<longrightarrow> (\<forall>job\<in>set js. job \<in> set (t_jobs s') \<and> in_flight (j_Status job)))"
proof (cases "db_fault s (db_step s)")
  case True
  then show ?thesis using op tk.R_step by (auto simp: claim_op_def bind_op_def db_call_def)
next
  case False
  obtain ids rows where cl:
    "claim_jobs owner (db_locked s (db_step s)) due key (sql_now s) (now s) x n (t_jobs s) = (ids, rows)" by force
  let ?lease = "\<lambda>j. j\<lparr>j_LeaseOwner := Some owner, j_LeaseExpiresAt := Some x, j_UpdatedAt := sql_now s\<rparr>"
  have rows: "rows = upd_where (\<lambda>j. j_ID j \<in> set ids) ?lease (t_jobs s)"
    using cl by (auto simp: claim_jobs_def Let_def)
  have "\<exists>j\<in>set (t_jobs s). j_ID j = i \<and> in_flight (j_Status j)" if "i \<in> set ids" for i
    using cl that set_pick due by (fastforce simp: claim_jobs_def Let_def)
  then have live: "in_flight (j_Status j)" if "j \<in> set (t_jobs s)" "j_ID j \<in> set ids" for j
    using distinct_map_unique [OF d] that by metis
  let ?s1 = "next_step (s\<lparr>t_jobs := rows\<rparr>)"
  have g: "get_all GetLifecycleJob ids ?s1 = (r, s')"
    using op False cl by (simp add: claim_op_def bind_op_def db_call_def)
  have s': "t_jobs s' = rows \<and> t_certificates s' = t_certificates s"
    using get_all_keeps [where P = "\<lambda>t. t_jobs t = rows \<and> t_certificates t = t_certificates s" and get = GetLifecycleJob and s = ?s1 and ids = ids] g
    by (auto simp: GetLifecycleJob_def find_job_def db_call_def split: option.splits)
  have "tick_rel s (s\<lparr>t_jobs := rows\<rparr>)" unfolding rows
    by (rule tick_upd) (auto simp: tick_row_def live same_fixed_def job_ident_def)
  then have "tick_rel s s'" using s' by (simp add: tick_rel_def)
  moreover have "job \<in> set rows \<and> in_flight (j_Status job)" if "r = Inr js" "job \<in> set js" for js job
  proof -
    have "job \<in> set rows" "j_ID job \<in> set ids"
      using get_all_jobs_in [of ids ?s1 js s'] get_all_jobs_ids [of ids ?s1 js s'] g that by auto
    then show ?thesis using live by (auto simp: rows upd_where_def split: if_splits)
  qed
  ultimately show ?thesis using s' by blast
qed

text \<open>Claiming a batch and working through it.\<close>

lemma claimed_batch_tick:
  assumes op: "claim_op owner due key now x n s = (Inr jobs, s')" and d: "distinct (map j_ID (t_jobs s))"
    and due: "\<And>t j. due t j \<Longrightarrow> in_flight (j_Status j)"
    and work: "\<And>job J t. job \<in> J \<Longrightarrow> work_kept J t (f job t)"
  shows "tick_rel s (each_job f jobs s')"
proof -
  have k: "tick_rel s s'" "\<And>job. job \<in> set jobs \<Longrightarrow> job \<in> set (t_jobs s') \<and> in_flight (j_Status job)"
    using claim_tick [OF op d] due by blast+
  have "tick_rel s' (each_job f jobs s')"
  proof (rule work_tick [where J = "set jobs"])
    show "work_kept (set jobs) s' (each_job f jobs s')" by (rule each_job_work) (rule work)
    show "distinct (map j_ID (t_jobs s'))" using d tick_rel_ids [OF k(1)] by simp
  qed (rule k(2))
  with k(1) show ?thesis by (rule tk.R_trans)
qed

lemma tick_after_expiry:
  assumes "distinct (map j_ID (t_jobs s))"
  shows "tick_rel (ignore (expireTimedOut (go_now s)) s) (tick w s)"
proof -
  have due: "verify_due t j \<Longrightarrow> in_flight (j_Status j)" for t j by (simp add: verify_due_def in_flight_def)
  let ?s1 = "ignore (expireTimedOut (go_now s)) s"
  have r1: "tick_rel ?s1 ?s1" by (rule tk.R_refl)
  have d: "distinct (map j_ID (t_jobs t))" if "tick_rel ?s1 t" for t
    using assms tick_rel_ids [OF that] tick_rel_ids [OF expireTimedOut_tick [of s "go_now s"]] by simp
  obtain r2 s2 where c1: "ClaimLifecycleJobs (wk_Owner w) (wk_LeaseTTL w) (wk_BatchSize w) ?s1 = (r2, s2)" by force
  show ?thesis
  proof (cases r2)
    case (Inl e)
    have "tick_rel ?s1 s2" using claim_tick [OF c1 [unfolded ClaimLifecycleJobs_op] d [OF r1]] by simp
    then show ?thesis using tk.R_trans [OF r1] c1 Inl by (simp add: tick_def Let_def)
  next
    case jobs: (Inr jobs)
    let ?s3 = "each_job (\<lambda>job. ignore (process w job)) jobs s2"
    have r3: "tick_rel ?s1 ?s3"
      by (rule tk.R_trans [OF r1], rule claimed_batch_tick [OF c1 [unfolded ClaimLifecycleJobs_op jobs] d [OF r1]])
         (simp_all add: ignore_def process_work)
    obtain r4 s4 where c2: "ClaimDueVerifyJobs (go_now s) (wk_BatchSize w) (wk_LeaseTTL w) ?s3 = (r4, s4)" by force
    show ?thesis
    proof (cases r4)
      case (Inl e)
      have "tick_rel ?s3 s4" using claim_tick [OF c2 [unfolded ClaimDueVerifyJobs_op] d [OF r3]] due by blast
      then show ?thesis using tk.R_trans [OF r3] c1 c2 jobs Inl by (simp add: tick_def Let_def)
    next
      case (Inr due_jobs)
      have "tick_rel ?s1 (each_job (\<lambda>job. ignore (verifyPending job (go_now s))) due_jobs s4)"
        by (rule tk.R_trans [OF r3], rule claimed_batch_tick [OF c2 [unfolded ClaimDueVerifyJobs_op Inr] d [OF r3]])
           (simp_all add: ignore_def verifyPending_work due)
      then show ?thesis using c1 c2 jobs Inr by (simp add: tick_def Let_def)
    qed
  qed
qed

text \<open>
  C15. What a tick of the worker may do to jobs, whatever calls to the database or the Controller fail
  and whatever the Controller answers. It never touches the inventory, loses, renames or re-targets a
  job, or changes a job that is not in flight: verified, failed and timed-out jobs stay as they are, and
  a job that waits for approval is not launched. And a job becomes verified only if the inventory holds
  a certificate with the expected common name, a fingerprint other than the predecessor's, and a later
  expiry.
\<close>

theorem tick_sound:
  assumes "job_inv s"
  shows "tick_rel s (tick w s)"
  using assms by (intro tk.R_trans [OF expireTimedOut_tick tick_after_expiry]) (simp add: job_inv_def)

theorem tick_sound_witness:
  "tick_rel example_jobs (tick (NewWorker \<lparr>wk_Owner = [], wk_Interval = 0, wk_LeaseTTL = 0, wk_BatchSize = 0,
     wk_PollEvery = 0, wk_renewer = Some (\<lambda>_ _. Inr (42, False)), wk_aap = None\<rparr>) example_jobs)"
  by (rule tick_sound) code_simp

text \<open>
  C17. The deadline is enforced. When the sweep at the start of a tick is not lost, every job that was
  waiting for verification past its deadline is timed out at the end of the tick, whatever else fails.
\<close>

theorem tick_enforces_deadline:
  assumes "job_inv s" and "\<not> db_fault s (db_step s)"
  shows "list_all2 (\<lambda>j j'. verify_overdue (go_now s) j \<longrightarrow> j_ID j' = j_ID j \<and> j_Status j' = LifecycleTimedOut)
    (t_jobs s) (t_jobs (tick w s))"
proof -
  let ?s1 = "ignore (expireTimedOut (go_now s)) s" and ?x = "expire_row (sql_now s)"
  let ?swept = "next_step (s\<lparr>t_jobs := upd_where (verify_overdue (go_now s)) ?x (t_jobs s)\<rparr>)"
  have "ExpireTimedOutVerifyJobs (go_now s) s = (Inr (map ?x (filter (verify_overdue (go_now s)) (t_jobs s))), ?swept)"
    using assms(2) by (simp add: ExpireTimedOutVerifyJobs_def db_call_def Let_def)
  then have "?s1 = each_job announce_timeout (map ?x (filter (verify_overdue (go_now s)) (t_jobs s))) ?swept"
    by (simp add: ignore_def expireTimedOut_def)
  moreover have "tick_rel ?swept (each_job announce_timeout js ?swept)" for js
    by (rule work_none_tick, rule each_job_work) (rule announce_timeout_work)
  ultimately have "tick_rel ?swept ?s1" by simp
  moreover have "tick_rel ?s1 (tick w s)" by (rule tick_after_expiry) (use assms(1) in \<open>simp add: job_inv_def\<close>)
  ultimately have swept: "tick_rel ?swept (tick w s)" by (rule tk.R_trans)
  show ?thesis
  proof (rule list_all2_trans)
    show "list_all2 (\<lambda>j j'. verify_overdue (go_now s) j \<longrightarrow> j_ID j' = j_ID j \<and> j_Status j' = LifecycleTimedOut)
        (t_jobs s) (t_jobs ?swept)"
      by (auto simp: upd_where_def list.rel_map expire_row_def intro!: list.rel_refl_strong)
    show "list_all2 (tick_row (t_certificates s)) (t_jobs ?swept) (t_jobs (tick w s))"
      using swept by (simp add: tick_rel_def)
  qed (auto simp: tick_row_def in_flight_def)
qed

definition overdue_jobs :: db where
  "overdue_jobs = example_jobs\<lparr>t_jobs := [example_job\<lparr>j_Status := LifecyclePendingVerify, j_TimeoutAt := - 1\<rparr>]\<rparr>"

theorem tick_enforces_deadline_witness:
  "map j_Status (t_jobs (tick (NewWorker \<lparr>wk_Owner = [], wk_Interval = 0, wk_LeaseTTL = 0, wk_BatchSize = 0,
     wk_PollEvery = 0, wk_renewer = None, wk_aap = None\<rparr>) overdue_jobs)) = [LifecycleTimedOut]"
proof -
  have i: "job_inv overdue_jobs" and f: "\<not> db_fault overdue_jobs (db_step overdue_jobs)"
    and o: "map (verify_overdue (go_now overdue_jobs)) (t_jobs overdue_jobs) = [True]" by code_simp+
  from o obtain j where j: "t_jobs overdue_jobs = [j]" "verify_overdue (go_now overdue_jobs) j" by auto
  show ?thesis using tick_enforces_deadline [OF i f, of "NewWorker \<lparr>wk_Owner = [], wk_Interval = 0, wk_LeaseTTL = 0,
     wk_BatchSize = 0, wk_PollEvery = 0, wk_renewer = None, wk_aap = None\<rparr>"] j by (auto simp: list_all2_Cons1)
qed

section \<open>Launching\<close>

definition launched_as :: "uuid \<Rightarrow> int \<Rightarrow> bool \<Rightarrow> lifecycle_job \<Rightarrow> bool" where
  "launched_as i jobID workflow j \<longleftrightarrow> j_ID j \<noteq> i \<or>
     j_AAPJobID j = Some jobID \<and> j_AAPWorkflow j = workflow \<and> j_Status j = LifecycleAAPPending"

lemma AppendLifecycleJobEvent_jobs: "t_jobs (ignore (AppendLifecycleJobEvent i ty p) s) = t_jobs s"
  by (auto simp: ignore_def AppendLifecycleJobEvent_def insert_job_event_def db_call_def)

lemma AppendRenewalOutboxEvent_jobs: "t_jobs (ignore (AppendRenewalOutboxEvent ty c p) s) = t_jobs s"
  by (auto simp: ignore_def AppendRenewalOutboxEvent_def appendEventStandalone_def appendEventTx_def db_call_def Let_def)

lemma list_all_upd_where:
  "list_all P rows \<Longrightarrow> (\<And>r. P r \<Longrightarrow> P (f r)) \<Longrightarrow> list_all P (upd_where p f rows)"
  by (induction rows) (simp_all add: upd_where_def)

lemma release_launched:
  "list_all (launched_as i jobID workflow) (t_jobs s) \<Longrightarrow>
     list_all (launched_as i jobID workflow) (t_jobs (ignore (UpdateLifecycleStatus i (no_update\<lparr>up_ClearLease := True\<rparr>)) s))"
  by (simp add: ignore_def UpdateLifecycleStatus_def db_call_def, intro impI list_all_upd_where)
     (simp_all add: launched_as_def)

lemma launches_kept:
  "aap_launches (ignore (AppendLifecycleJobEvent i ty p) s) = aap_launches s"
  "aap_launches (ignore (AppendRenewalOutboxEvent ty c p) s) = aap_launches s"
  "aap_launches (ignore (UpdateLifecycleStatus i u) s) = aap_launches s"
  by (auto simp: ignore_def AppendLifecycleJobEvent_def insert_job_event_def AppendRenewalOutboxEvent_def
      appendEventStandalone_def appendEventTx_def UpdateLifecycleStatus_def db_call_def Let_def)

text \<open>Whatever the Controller answers and whatever fails afterwards, one launch is logged.\<close>

lemma SetLifecycleAAPRef_launches: "SetLifecycleAAPRef i a w st s = (r, t) \<Longrightarrow> aap_launches t = aap_launches s"
  by (auto simp: SetLifecycleAAPRef_def update_job_def db_call_def split: if_splits)

lemma launch_log:
  assumes "j_AAPJobID job = None" and "j_PredecessorCertID job = Some certID" and "wk_renewer w = Some renew"
    and "GetCertificate certID s = (Inr cert, t)" and "c_RenewalConfig cert = Some cfg"
  shows "aap_launches (snd (launch w job s)) = aap_launches t @ [launch_vars cert cfg]"
  using assms by (auto simp: launch_def Let_def close_job_def launches_kept split: sum.splits prod.splits
      dest: SetLifecycleAAPRef_launches)

text \<open>
  C16. The launch step. A launching job without a Controller id, whose certificate has a renewal
  configuration, is launched exactly once. When the id can then be written, the row carries it and
  waits for the Controller, whatever later calls fail, so that it is not launched again. When that
  write fails, the step reports the failure and the row is as before: still launching, without an id,
  which is the one case where the job is launched a second time after its lease ends. A job that has
  an id is never launched.
\<close>

theorem launch_outcome:
  assumes "j_Status job = LifecycleLaunching" and "\<not> db_fault s (db_step s)"
    and row: "job \<in> set (t_jobs s)" and "j_PredecessorCertID job = Some certID"
    and find: "List.find (\<lambda>c. c_ID c = certID) (t_certificates s) = Some cert" and cfg: "c_RenewalConfig cert = Some cfg"
    and "wk_renewer w = Some renew" and "renew (length (aap_launches s)) (launch_vars cert cfg) = Inr (jobID, workflow)"
  shows "(j_AAPJobID job = None \<longrightarrow>
           aap_launches (snd (process w job s)) = aap_launches s @ [launch_vars cert cfg] \<and>
           (if db_fault s (Suc (db_step s)) then process w job s = (Inl ErrDB, (next_step (next_step s))\<lparr>aap_launches := aap_launches s @ [launch_vars cert cfg]\<rparr>)
            else fst (process w job s) = Inr () \<and> list_all (launched_as (j_ID job) jobID workflow) (t_jobs (snd (process w job s))))) \<and>
         (\<forall>i>0. j_AAPJobID job = Some i \<longrightarrow> aap_launches (snd (process w job s)) = aap_launches s)"
proof -
  have vars: "launch_vars (select_cert s cert) cfg = launch_vars cert cfg" by (simp add: launch_vars_def select_cert_def)
  have get: "GetCertificate certID s = (Inr (select_cert s cert), next_step s)"
    using GetCertificate_eval assms(2) find by simp
  have cfg': "c_RenewalConfig (select_cert s cert) = Some cfg" using cfg by (simp add: select_cert_def)
  let ?t = "(next_step s)\<lparr>aap_launches := aap_launches s @ [launch_vars cert cfg]\<rparr>"
  have has: "hits (\<lambda>j. j_ID j = j_ID job) (t_jobs s) \<noteq> 0" using row by (auto simp: hits_def filter_empty_conv)
  obtain r u where ref: "SetLifecycleAAPRef (j_ID job) jobID workflow LifecycleAAPPending ?t = (r, u)" by force
  have u: "if db_fault s (Suc (db_step s)) then r = Inl ErrDB \<and> u = next_step ?t
    else r = Inr () \<and> aap_launches u = aap_launches ?t \<and> list_all (launched_as (j_ID job) jobID workflow) (t_jobs u)"
    using ref has by (auto simp: SetLifecycleAAPRef_def update_job_def db_call_def upd_where_def list_all_iff launched_as_def)
  let ?payload = "JObj [(''aap_job_id'', JNum jobID), (''workflow'', JBool workflow)]"
  let ?final = "ignore (UpdateLifecycleStatus (j_ID job) (no_update\<lparr>up_ClearLease := True\<rparr>))
     (ignore (AppendRenewalOutboxEvent ''renewal.launched'' (Some certID) (Some ?payload))
       (ignore (AppendLifecycleJobEvent (j_ID job) ''job.launched'' (Some ?payload)) u))"
  have fresh: "process w job s = (case r of Inl e \<Rightarrow> (Inl e, u) | Inr _ \<Rightarrow> (Inr (), ?final))" if "j_AAPJobID job = None"
    using assms(1,4,7,8) that ref get vars cfg' by (simp add: process_def launch_def Let_def split: sum.splits)
  have old: "aap_launches (snd (process w job s)) = aap_launches s" if "i > 0" "j_AAPJobID job = Some i" for i
    using assms(1) that launches_kept(3) [of "j_ID job" _ s] by (simp add: process_def launch_def ignore_def)
  have "next_step ?t = (next_step (next_step s))\<lparr>aap_launches := aap_launches s @ [launch_vars cert cfg]\<rparr>"
    by (simp add: next_step_def)
  moreover have "list_all (launched_as (j_ID job) jobID workflow) (t_jobs u) \<Longrightarrow>
      list_all (launched_as (j_ID job) jobID workflow) (t_jobs ?final)"
    by (intro release_launched) (simp add: AppendLifecycleJobEvent_jobs AppendRenewalOutboxEvent_jobs)
  moreover have "aap_launches ?final = aap_launches u" by (simp add: launches_kept)
  ultimately show ?thesis using fresh old u by (cases "db_fault s (Suc (db_step s))") simp_all
qed

definition launchable :: db where
  "launchable = example_jobs\<lparr>t_certificates := [(blank_cert 5 ''fp'')\<lparr>c_RenewalConfig := Some example_renewal\<rparr>]\<rparr>"

theorem launch_outcome_witness:
  "list_all (launched_as 9 42 False) (t_jobs (snd (process (NewWorker \<lparr>wk_Owner = [], wk_Interval = 0, wk_LeaseTTL = 0,
     wk_BatchSize = 0, wk_PollEvery = 0, wk_renewer = Some (\<lambda>_ _. Inr (42, False)), wk_aap = None\<rparr>) example_job launchable)))"
proof -
  have pre: "j_Status example_job = LifecycleLaunching" "\<not> db_fault launchable (db_step launchable)"
    "example_job \<in> set (t_jobs launchable)" "j_PredecessorCertID example_job = Some 5"
    "List.find (\<lambda>c. c_ID c = 5) (t_certificates launchable) = Some ((blank_cert 5 ''fp'')\<lparr>c_RenewalConfig := Some example_renewal\<rparr>)"
    "c_RenewalConfig ((blank_cert 5 ''fp'')\<lparr>c_RenewalConfig := Some example_renewal\<rparr>) = Some example_renewal"
    and rest: "\<not> db_fault launchable (Suc (db_step launchable))" "j_AAPJobID example_job = None" "j_ID example_job = 9"
    by (simp_all add: example_job_def new_job_def launchable_def example_jobs_def example_store_def empty_db_def blank_cert_def)
  show ?thesis
    using launch_outcome [OF pre, of "NewWorker \<lparr>wk_Owner = [], wk_Interval = 0, wk_LeaseTTL = 0,
     wk_BatchSize = 0, wk_PollEvery = 0, wk_renewer = Some (\<lambda>_ _. Inr (42, False)), wk_aap = None\<rparr>" "\<lambda>_ _. Inr (42, False)" 42 False] rest
    by (simp add: NewWorker_def)
qed

end
