(* ===== verification/Renewal.thy ===== *)
theory Renewal
  imports Job_Worker
begin

text \<open>
  Reissue: the validators and the generated artifacts of \<^verbatim>\<open>internal/renewal/kit.go\<close>, the eligibility
  rule of \<^verbatim>\<open>internal/api/migrate.go\<close>, and the validation of launches and stored configurations in
  \<^verbatim>\<open>internal/api/server.go\<close>. Everything that reaches the Controller is evaluated there as a template, so
  these validators are the guard against injection.
\<close>

section \<open>Validators\<close>

definition ok_char :: "string \<Rightarrow> char \<Rightarrow> bool" where
  "ok_char extra c \<longleftrightarrow> c \<in> set extra \<or> is_alnum c"

definition validName :: "string \<Rightarrow> bool" where
  "validName s \<longleftrightarrow> s \<noteq> [] \<and> \<not> str_contains s ''..'' \<and> \<not> starts_with s ''/'' \<and> list_all (ok_char ''-_/'') s"

definition ValidService :: "string \<Rightarrow> bool" where
  "ValidService s \<longleftrightarrow> s = [] \<or> validName s"

definition ValidReason :: "string \<Rightarrow> bool" where
  "ValidReason s0 \<longleftrightarrow> (let s = trim_space s0 in s \<noteq> [] \<and> \<not> length s > 128 \<and>
     \<not> str_contains s ''{{'' \<and> \<not> str_contains s ''}}'' \<and> \<not> str_contains s ''{%'' \<and> list_all (ok_char ''-_ .'') s)"

text \<open>The pattern \<^verbatim>\<open>^[0-9]+(s|m|h|d)$\<close>.\<close>

definition ttlPattern :: "string \<Rightarrow> bool" where
  "ttlPattern s \<longleftrightarrow> length s > 1 \<and> last s \<in> set ''smhd'' \<and> list_all (in_range (CHR ''0'') (CHR ''9'')) (butlast s)"

definition ValidTTL :: "string \<Rightarrow> bool" where
  "ValidTTL s0 \<longleftrightarrow> (let s = trim_space s0 in s = [] \<or> ttlPattern s)"

definition validCommonName :: "string \<Rightarrow> bool" where
  "validCommonName cn0 \<longleftrightarrow> (let cn = trim_space cn0; body = trim_prefix cn ''*.'' in
     cn \<noteq> [] \<and> \<not> length cn > 253 \<and> \<not> str_contains cn ''..'' \<and>
     body \<noteq> [] \<and> \<not> starts_with body ''.'' \<and> \<not> ends_with body ''.'' \<and> list_all (ok_char ''.-'') body)"

definition ValidAltNames :: "string \<Rightarrow> bool" where
  "ValidAltNames s0 \<longleftrightarrow> (let s = trim_space s0; fields = fields_func (\<lambda>c. c = CHR '','' \<or> c = CHR '' '') s in
     s = [] \<or> (fields \<noteq> [] \<and> list_all (\<lambda>f. validCommonName (trim_space f)) fields))"

section \<open>The kit\<close>

record kit_input =
  ki_CommonName :: string
  ki_Mount :: string
  ki_Role :: string
  ki_Service :: string

record artifact =
  af_Filename :: string
  af_Language :: string
  af_Content :: string

datatype kit_error = InvalidMount | InvalidRole | InvalidCommonName | UnsupportedTarget string
  | InvalidService | InvalidTargetHosts | InvalidTTL | InvalidAltNames

definition Validate :: "kit_input \<Rightarrow> kit_error option" where
  "Validate inp =
     (if \<not> validName (ki_Mount inp) then Some InvalidMount
      else if \<not> validName (ki_Role inp) then Some InvalidRole
      else if \<not> validCommonName (ki_CommonName inp) then Some InvalidCommonName
      else None)"

definition fileSafe :: "string \<Rightarrow> string" where
  "fileSafe cn = concat (map (\<lambda>c. if c = CHR ''*'' then ''wildcard'' else [c]) cn)"

definition nl :: string where
  "nl = [CHR 0x0A]"

definition reloadLine :: "string \<Rightarrow> string \<Rightarrow> string" where
  "reloadLine service indent =
     (if trim_space service = [] then [] else indent @ ''command = \"systemctl reload '' @ service @ ''\"'' @ nl)"

definition agentHCL :: "kit_input \<Rightarrow> artifact" where
  "agentHCL inp = \<lparr>af_Filename = ''vault-agent.hcl'', af_Language = ''hcl'', af_Content = concat [
     ''# Vault Agent renewal for '', ki_CommonName inp, nl,
     ''# Auto-auth (AppRole shown; swap for k8s/jwt as appropriate).'', nl,
     ''auto_auth {'', nl,
     ''  method \"approle\" {'', nl,
     ''    config = {'', nl,
     ''      role_id_file_path   = \"/etc/vault-agent/role_id\"'', nl,
     ''      secret_id_file_path = \"/etc/vault-agent/secret_id\"'', nl,
     ''    }'', nl, ''  }'', nl,
     ''  sink \"file\" { config = { path = \"/etc/vault-agent/token\" } }'', nl,
     ''}'', nl, nl,
     ''# Issue the leaf from '', ki_Mount inp, ''/issue/'', ki_Role inp, '' and render cert + key.'', nl,
     ''template {'', nl,
     ''  contents    = <<-EOT'', nl,
     ''    {{- with secret \"'', ki_Mount inp, ''/issue/'', ki_Role inp, ''\" \"common_name='', ki_CommonName inp, ''\" -}}'', nl,
     ''    {{ .Data.certificate }}'', nl,
     ''    {{ range .Data.ca_chain }}{{ . }}'', nl,
     ''    {{ end }}'', nl,
     ''    {{- end -}}'', nl,
     ''  EOT'', nl,
     ''  destination = \"/etc/tls/'', fileSafe (ki_CommonName inp), ''.crt\"'', nl,
     reloadLine (ki_Service inp) ''  '',
     ''}'', nl, nl,
     ''template {'', nl,
     ''  contents    = <<-EOT'', nl,
     ''    {{- with secret \"'', ki_Mount inp, ''/issue/'', ki_Role inp, ''\" \"common_name='', ki_CommonName inp, ''\" -}}'', nl,
     ''    {{ .Data.private_key }}'', nl,
     ''    {{- end -}}'', nl,
     ''  EOT'', nl,
     ''  destination = \"/etc/tls/'', fileSafe (ki_CommonName inp), ''.key\"'', nl,
     ''}'', nl]\<rparr>"

definition aapPlaybook :: "kit_input \<Rightarrow> artifact" where
  "aapPlaybook inp = \<lparr>af_Filename = ''reissue-playbook.yml'', af_Language = ''yaml'', af_Content = concat ([
     ''---'', nl,
     ''# AAP playbook: reissue '', ki_CommonName inp, '' from Vault PKI and deploy.'', nl,
     ''- name: Reissue and deploy certificate'', nl,
     ''  hosts: web'', nl,
     ''  become: true'', nl,
     ''  tasks:'', nl,
     ''    - name: Issue leaf from Vault PKI'', nl,
     ''      community.hashi_vault.vault_write:'', nl,
     ''        path: '', ki_Mount inp, ''/issue/'', ki_Role inp, nl,
     ''        data:'', nl,
     ''          common_name: '', ki_CommonName inp, nl,
     ''      register: issued'', nl,
     ''    - name: Write certificate'', nl,
     ''      ansible.builtin.copy:'', nl,
     ''        content: \"{{ issued.data.data.certificate }}'', [CHR 0x5C], ''n{{ issued.data.data.ca_chain | join('', [CHR 0x27, CHR 0x5C], ''n'', [CHR 0x27], '') }}\"'', nl,
     ''        dest: /etc/tls/'', fileSafe (ki_CommonName inp), ''.crt'', nl,
     ''        mode: '', [CHR 0x27], ''0644'', [CHR 0x27], nl,
     ''    - name: Write private key'', nl,
     ''      ansible.builtin.copy:'', nl,
     ''        content: \"{{ issued.data.data.private_key }}\"'', nl,
     ''        dest: /etc/tls/'', fileSafe (ki_CommonName inp), ''.key'', nl,
     ''        mode: '', [CHR 0x27], ''0600'', [CHR 0x27], nl] @
     (if trim_space (ki_Service inp) \<noteq> []
      then [''    - name: Reload service'', nl, ''      ansible.builtin.service:'', nl, ''        name: '', ki_Service inp, nl,
            ''        state: reloaded'', nl] else []))\<rparr>"

definition Generate :: "string \<Rightarrow> kit_input \<Rightarrow> kit_error + artifact list" where
  "Generate target inp =
     (case Validate inp of Some e \<Rightarrow> Inl e
      | None \<Rightarrow> if target = ''agent'' then Inr [agentHCL inp]
         else if target = ''aap'' then Inr [aapPlaybook inp]
         else Inl (UnsupportedTarget target))"

section \<open>Launches and stored configurations\<close>

definition validateRenewalLaunch :: "string \<Rightarrow> renewal_config \<Rightarrow> kit_error option" where
  "validateRenewalLaunch cn cfg =
     (case Validate \<lparr>ki_CommonName = cn, ki_Mount = rc_Mount cfg, ki_Role = rc_Role cfg, ki_Service = rc_Service cfg\<rparr> of
        Some e \<Rightarrow> Some e
      | None \<Rightarrow>
         if \<not> ValidService (rc_Service cfg) then Some InvalidService
         else if \<not> ValidService (rc_TargetHosts cfg) then Some InvalidTargetHosts
         else if \<not> ValidTTL (rc_TTL cfg) then Some InvalidTTL
         else if \<not> ValidAltNames (rc_AltNames cfg) then Some InvalidAltNames
         else None)"

definition renewExtraVars :: "string \<Rightarrow> renewal_config \<Rightarrow> (string \<times> string) list" where
  "renewExtraVars cn cfg =
     [(''cert_common_name_override'', cn), (''vault_pki_mount'', rc_Mount cfg), (''vault_pki_role'', rc_Role cfg)] @
     (if rc_Service cfg \<noteq> [] then [(''cert_service_type'', rc_Service cfg)] else []) @
     (if rc_TargetHosts cfg \<noteq> [] then [(''target_hosts'', rc_TargetHosts cfg)] else []) @
     (if rc_TTL cfg \<noteq> [] then [(''vault_cert_ttl'', rc_TTL cfg)] else []) @
     (if rc_AltNames cfg \<noteq> [] then [(''cert_alt_names_override'', rc_AltNames cfg)] else [])"

text \<open>The body of a request that carries a configuration, each field trimmed; the mount has a default.\<close>

definition trimmed_config :: "renewal_config \<Rightarrow> string \<Rightarrow> renewal_config" where
  "trimmed_config req defaultMount =
     (let mount = trim_space (rc_Mount req) in
      \<lparr>rc_Role = trim_space (rc_Role req), rc_Mount = (if mount = [] then defaultMount else mount),
       rc_Service = trim_space (rc_Service req), rc_TargetHosts = trim_space (rc_TargetHosts req),
       rc_TTL = trim_space (rc_TTL req), rc_AltNames = trim_space (rc_AltNames req)\<rparr>)"

definition validateRenewalConfig :: "renewal_config \<Rightarrow> string \<Rightarrow> kit_error + renewal_config" where
  "validateRenewalConfig req defaultMount =
     (let cfg = trimmed_config req defaultMount in
      if rc_Role cfg = [] \<or> \<not> ValidService (rc_Role cfg) then Inl InvalidRole
      else if rc_Mount cfg = [] \<or> \<not> ValidService (rc_Mount cfg) then Inl InvalidMount
      else if \<not> ValidService (rc_Service cfg) then Inl InvalidService
      else if \<not> ValidService (rc_TargetHosts cfg) then Inl InvalidTargetHosts
      else if \<not> ValidTTL (rc_TTL cfg) then Inl InvalidTTL
      else if \<not> ValidAltNames (rc_AltNames cfg) then Inl InvalidAltNames
      else Inr cfg)"

definition revokeExtraVars :: "(uuid \<Rightarrow> string) \<Rightarrow> uuid \<Rightarrow> string \<Rightarrow> string \<Rightarrow> string \<Rightarrow> string \<Rightarrow> (string \<times> string) list" where
  "revokeExtraVars ustr certID serial fingerprint mount reason =
     [(''clm_action'', ''clm_revoke''), (''serial_number'', serial), (''fingerprint_sha256'', fingerprint),
      (''vault_pki_mount'', mount), (''certificate_id'', ustr certID), (''reason'', reason)]"

definition validMount :: "string \<Rightarrow> bool" where
  "validMount m \<longleftrightarrow> m \<noteq> [] \<and> \<not> starts_with m ''/'' \<and> \<not> str_contains m ''..'' \<and> list_all (ok_char ''-_/'') m"

section \<open>Migration\<close>

datatype migrate_error = MigrateCA | MigrateManaged | MigrateNoCN | MigrateNoObservation | MigrateOpenJob

definition migrateEligible :: "certificate \<Rightarrow> bool \<Rightarrow> bool \<Rightarrow> migrate_error option" where
  "migrateEligible c hasObservation openMigrate =
     (if c_IsCA c then Some MigrateCA
      else if c_ManagedStatus c = ''managed_in_vault'' then Some MigrateManaged
      else if (case c_SubjectCN c of None \<Rightarrow> [] | Some cn \<Rightarrow> trim_space cn) = [] then Some MigrateNoCN
      else if \<not> hasObservation then Some MigrateNoObservation
      else if openMigrate then Some MigrateOpenJob
      else None)"

definition hasOpenMigrateStatus :: "job_status \<Rightarrow> bool" where
  "hasOpenMigrateStatus st \<longleftrightarrow> st \<notin> {LifecycleVerified, LifecycleTimedOut, LifecycleFailed, LifecycleVerifyFailed}"

section \<open>Injection\<close>

text \<open>The characters of a value that passed the validators; white space only where it is trimmed away.\<close>

definition inert :: "char \<Rightarrow> bool" where
  "inert c \<longleftrightarrow> ok_char ''.-_/*,'' c \<or> is_space c"

lemma inert_mono: "list_all (ok_char extra) s \<Longrightarrow> set extra \<subseteq> set ''.-_/*, '' \<Longrightarrow> list_all inert s"
  by (auto simp: list_all_iff inert_def ok_char_def is_space_def)

lemma trim_space_frame: "\<exists>a b. s = a @ trim_space s @ b \<and> list_all is_space a \<and> list_all is_space b"
proof -
  let ?d = "dropWhile is_space s"
  have "s = takeWhile is_space s @ ?d" by simp
  moreover have "?d = rev (dropWhile is_space (rev ?d)) @ rev (takeWhile is_space (rev ?d))"
    by (metis rev_append rev_rev_ident takeWhile_dropWhile_id)
  moreover have "list_all is_space (takeWhile is_space s)" "list_all is_space (rev (takeWhile is_space (rev ?d)))"
    by (auto simp: list_all_iff dest: set_takeWhileD)
  ultimately show ?thesis unfolding trim_space_def by metis
qed

lemma trim_inert: "list_all inert (trim_space s) \<Longrightarrow> list_all inert s"
  using trim_space_frame [of s] by (auto simp: list_all_iff inert_def) (metis UnE set_append)

lemma validName_inert: "validName s \<Longrightarrow> list_all inert s"
  unfolding validName_def by (auto elim: inert_mono)

lemma ValidService_inert: "ValidService s \<Longrightarrow> list_all inert s"
  unfolding ValidService_def using validName_inert by auto

lemma validCommonName_inert:
  assumes "validCommonName cn"
  shows "list_all inert cn"
proof -
  let ?body = "trim_prefix (trim_space cn) ''*.''"
  have "list_all inert ?body" using assms by (auto simp: validCommonName_def Let_def elim: inert_mono)
  moreover have "list_all inert ''*.''" by code_simp
  moreover have "trim_space cn = ?body \<or> trim_space cn = ''*.'' @ ?body"
    by (auto simp: trim_prefix_def starts_with_iff)
  ultimately have "list_all inert (trim_space cn)" by (metis list_all_append)
  then show ?thesis by (rule trim_inert)
qed

lemma ValidTTL_inert:
  assumes "ValidTTL s"
  shows "list_all inert s"
proof -
  have "list_all inert (trim_space s)"
  proof (cases "trim_space s = []")
    case False
    then have p: "trim_space s \<noteq> []" "last (trim_space s) \<in> set ''smhd''" "list_all (in_range (CHR ''0'') (CHR ''9'')) (butlast (trim_space s))"
      using assms by (auto simp: ValidTTL_def ttlPattern_def Let_def)
    have "list_all inert ''smhd''" by code_simp
    then have "inert (last (trim_space s))" using p(2) by (auto simp: list_all_iff)
    moreover have "list_all inert (butlast (trim_space s))"
      using p(3) by (auto simp: list_all_iff inert_def ok_char_def is_alnum_def)
    ultimately show ?thesis using p(1) by (cases "trim_space s" rule: rev_cases) auto
  qed simp
  then show ?thesis by (rule trim_inert)
qed

lemma fields_func_chars:
  assumes "c \<in> set s" and "\<not> p c"
  shows "\<exists>f\<in>set (fields_func p s). c \<in> set f"
proof -
  let ?F = "\<lambda>s. foldr (\<lambda>c acc. if p c then [] # acc else (case acc of [] \<Rightarrow> [[c]] | w # ws \<Rightarrow> (c # w) # ws)) s [[]]"
  have "?F s \<noteq> [] \<and> (c \<in> set s \<longrightarrow> (\<exists>f\<in>set (?F s). c \<in> set f))"
  proof (induction s)
    case (Cons x xs)
    then obtain w ws where "?F xs = w # ws" by (cases "?F xs") auto
    then show ?case using Cons assms(2) by auto
  qed simp
  then show ?thesis using assms(1) by (auto simp: fields_func_def)
qed

lemma ValidAltNames_inert:
  assumes "ValidAltNames s"
  shows "list_all inert s"
proof (rule trim_inert, unfold list_all_iff, rule)
  fix c assume c: "c \<in> set (trim_space s)"
  let ?sep = "\<lambda>c. c = CHR '','' \<or> c = CHR '' ''"
  show "inert c"
  proof (cases "?sep c")
    case True
    then show ?thesis by (auto simp: inert_def ok_char_def is_space_def)
  next
    case False
    then obtain f where f: "f \<in> set (fields_func ?sep (trim_space s))" "c \<in> set f" using fields_func_chars [OF c, of ?sep] by blast
    then have "validCommonName (trim_space f)" using assms c by (auto simp: ValidAltNames_def Let_def list_all_iff)
    then have "list_all inert f" using validCommonName_inert trim_inert by blast
    then show ?thesis using f(2) by (simp add: list_all_iff)
  qed
qed

lemma not_inert: "list_all (\<lambda>c. \<not> inert c) (''{}%$;()<>&|#@=+!?:\"'' @ [CHR 0x27, CHR 0x5C, CHR 0x60])"
  by code_simp

lemma inert_no_template:
  assumes "list_all inert v"
  shows "CHR ''{'' \<notin> set v \<and> CHR ''}'' \<notin> set v \<and> CHR ''%'' \<notin> set v \<and> CHR 0x22 \<notin> set v \<and> CHR 0x27 \<notin> set v \<and> CHR 0x5C \<notin> set v"
  using assms not_inert by (auto simp: list_all_iff)

text \<open>
  C40. What passes the validation of a launch cannot be evaluated by the Controller. Every value of the
  variables sent with it consists of letters, digits, the characters \<^verbatim>\<open>. - _ / * ,\<close> and white space:
  there is no brace, percent sign, quote or backslash, so no template, in the common name that the
  scanned host chose or in any field of the request. And a configuration that was accepted when it
  was stored is accepted when it is launched.
\<close>

theorem launch_values_inert:
  assumes "validateRenewalLaunch cn cfg = None"
  shows "list_all (\<lambda>(k, v). list_all inert v \<and> CHR ''{'' \<notin> set v \<and> CHR ''}'' \<notin> set v \<and> CHR ''%'' \<notin> set v \<and>
      CHR 0x22 \<notin> set v \<and> CHR 0x27 \<notin> set v \<and> CHR 0x5C \<notin> set v) (renewExtraVars cn cfg) \<and>
    (\<forall>req mount cfg' cn'. validateRenewalConfig req mount = Inr cfg' \<longrightarrow> validCommonName cn' \<longrightarrow> validateRenewalLaunch cn' cfg' = None)"
proof
  have "list_all inert cn" "list_all inert (rc_Mount cfg)" "list_all inert (rc_Role cfg)" "list_all inert (rc_Service cfg)"
    "list_all inert (rc_TargetHosts cfg)" "list_all inert (rc_TTL cfg)" "list_all inert (rc_AltNames cfg)"
    using assms by (auto simp: validateRenewalLaunch_def Validate_def split: if_splits option.splits
        intro: validName_inert validCommonName_inert ValidService_inert ValidTTL_inert ValidAltNames_inert)
  then show "list_all (\<lambda>(k, v). list_all inert v \<and> CHR ''{'' \<notin> set v \<and> CHR ''}'' \<notin> set v \<and> CHR ''%'' \<notin> set v \<and>
      CHR 0x22 \<notin> set v \<and> CHR 0x27 \<notin> set v \<and> CHR 0x5C \<notin> set v) (renewExtraVars cn cfg)"
    by (simp add: renewExtraVars_def inert_no_template)
  show "\<forall>req mount cfg' cn'. validateRenewalConfig req mount = Inr cfg' \<longrightarrow> validCommonName cn' \<longrightarrow> validateRenewalLaunch cn' cfg' = None"
    by (auto simp: validateRenewalConfig_def validateRenewalLaunch_def Validate_def Let_def ValidService_def split: if_splits)
qed

theorem launch_values_inert_witness:
  "validateRenewalLaunch ''web.example.com'' example_renewal = None \<and>
   list_all (\<lambda>(k, v). CHR ''{'' \<notin> set v) (renewExtraVars ''web.example.com'' example_renewal)"
proof -
  have ok: "validateRenewalLaunch ''web.example.com'' example_renewal = None" by code_simp
  from ok launch_values_inert [OF ok] show ?thesis by (auto simp: list_all_iff)
qed

lemma str_contains_trans: "str_contains s t \<Longrightarrow> str_contains t u \<Longrightarrow> str_contains s u"
  unfolding str_contains_iff by (metis append_assoc)

lemma str_contains_concat: "x \<in> set xs \<Longrightarrow> str_contains (concat xs) x"
  unfolding str_contains_iff by (metis concat.simps(2) concat_append split_list)

text \<open>A launching job for a certificate whose common name is a template.\<close>

definition tainted :: db where
  "tainted = example_jobs\<lparr>t_certificates :=
     [(blank_cert 5 ''fp'')\<lparr>c_SubjectCN := Some ''{{ 7 }}'', c_RenewalConfig := Some example_renewal\<rparr>]\<rparr>"

text \<open>
  Two ways around the validators. The renewal kit writes the service name it was asked for into the
  generated file whatever it contains, since only mount, role and common name are checked. And the
  worker does not validate what it launches: a common name that the validator refuses, as it can come
  with a job that was enqueued without validation, reaches the Controller as it is.
\<close>

theorem unvalidated_values:
  "(\<exists>art. Generate ''agent'' \<lparr>ki_CommonName = ''a.example.com'', ki_Mount = ''pki'', ki_Role = ''web'', ki_Service = CHR ''x'' # service\<rparr> = Inr [art] \<and>
      str_contains (af_Content art) service) \<and>
   validateRenewalLaunch ''{{ 7 }}'' example_renewal = Some InvalidCommonName \<and>
   map (hd \<circ> map snd) (aap_launches (snd (process \<lparr>wk_Owner = ''w'', wk_Interval = 1, wk_LeaseTTL = 1, wk_BatchSize = 1, wk_PollEvery = 1,
     wk_renewer = Some (\<lambda>_ _. Inr (42, False)), wk_aap = None\<rparr> example_job tainted))) = [''{{ 7 }}'']"
proof (intro conjI)
  let ?s = "CHR ''x'' # service"
  let ?in = "\<lparr>ki_CommonName = ''a.example.com'', ki_Mount = ''pki'', ki_Role = ''web'', ki_Service = ?s\<rparr>"
  have valid: "validCommonName ''a.example.com''" "validName ''pki''" "validName ''web''" by code_simp+
  have "\<not> is_space (CHR ''x'')" by code_simp
  then have ne: "trim_space ?s \<noteq> []" by (simp add: trim_space_def dropWhile_eq_Nil_conv)
  have "str_contains (af_Content (agentHCL ?in)) (reloadLine ?s ''  '')"
    by (simp only: agentHCL_def artifact.simps kit_input.simps, rule str_contains_concat) simp
  moreover have "str_contains (reloadLine ?s ''  '') service"
    unfolding str_contains_iff reloadLine_def using ne
    by (intro exI [of _ "''  '' @ ''command = \"systemctl reload x''"] exI [of _ "''\"'' @ nl"]) simp
  ultimately show "\<exists>art. Generate ''agent'' ?in = Inr [art] \<and> str_contains (af_Content art) service"
    using valid str_contains_trans by (auto simp: Generate_def Validate_def)
  show "validateRenewalLaunch ''{{ 7 }}'' example_renewal = Some InvalidCommonName" by code_simp
  have get: "GetCertificate 5 tainted = (Inr (select_cert tainted ((blank_cert 5 ''fp'')\<lparr>c_SubjectCN := Some ''{{ 7 }}'', c_RenewalConfig := Some example_renewal\<rparr>)), next_step tainted)"
    by (simp add: GetCertificate_eval tainted_def example_jobs_def example_store_def empty_db_def blank_cert_def)
  have "j_Status example_job = LifecycleLaunching" "j_AAPJobID example_job = None" "j_PredecessorCertID example_job = Some 5"
    by (simp_all add: example_job_def new_job_def)
  then show "map (hd \<circ> map snd) (aap_launches (snd (process \<lparr>wk_Owner = ''w'', wk_Interval = 1, wk_LeaseTTL = 1, wk_BatchSize = 1, wk_PollEvery = 1,
     wk_renewer = Some (\<lambda>_ _. Inr (42, False)), wk_aap = None\<rparr> example_job tainted))) = [''{{ 7 }}'']"
    using launch_log [OF _ _ _ get, of example_job _ _ example_renewal]
    by (simp add: process_def select_cert_def launch_vars_def) (simp add: tainted_def example_jobs_def example_store_def empty_db_def)
qed

end
