(* ===== verification/Api_Handlers.thy ===== *)
theory Api_Handlers
  imports Revocation Renewal
begin

text \<open>
  The handlers of \<^verbatim>\<open>internal/api/server.go\<close> and the inventory document of \<^verbatim>\<open>internal/inventory\<close>. A handler
  takes what it reads of the request, already parsed: the path parameter, the query values as
  \<^verbatim>\<open>strconv.Atoi\<close> and \<^verbatim>\<open>uuid.Parse\<close> return them, the decoded body (\<open>None\<close> when decoding fails), and the
  role the middleware admitted. Launching through the AAP Controller and importing into Vault are functions of
  the server; each call is recorded.
\<close>

section \<open>The server\<close>

type_synonym launcher = "nat \<Rightarrow> (string \<times> string) list \<Rightarrow> string + int \<times> bool"

record server =
  sv_renewer :: "launcher option"
  sv_revoker :: "launcher option"
  sv_importer :: "(nat \<Rightarrow> string \<Rightarrow> string \<Rightarrow> string + string list) option"
  sv_lifecycle :: bool
  sv_AAPDefaultMount :: string
  sv_VaultAddr :: string
  sv_EDAWebhookURL :: string
  sv_ExpiringSoonDays :: int
  sv_LifecycleVerifyTimeout :: duration
  sv_DefaultConcurrency :: int
  sv_ScanQueueMaxPending :: int

text \<open>\<^verbatim>\<open>aapRenewer.Renew\<close> and \<^verbatim>\<open>aapRevoker.Revoke\<close>: \<open>controllers\<close> are the Controller's answers, launch by launch.\<close>

definition launchAAPTemplate :: "(nat \<Rightarrow> controller) \<Rightarrow> string \<Rightarrow> bool \<Rightarrow> (aap_error \<Rightarrow> string) \<Rightarrow> launcher" where
  "launchAAPTemplate controllers templateName workflow err_text n extraVars =
     (case adapter_Renew (controllers n) templateName workflow extraVars of Inl e \<Rightarrow> Inl (err_text e) | Inr ref \<Rightarrow> Inr ref)"

definition call_launcher :: "launcher \<Rightarrow> (string \<times> string) list \<Rightarrow> db \<Rightarrow> (string + int \<times> bool) \<times> db" where
  "call_launcher f extra s = (f (length (aap_launches s)) extra, s\<lparr>aap_launches := aap_launches s @ [extra]\<rparr>)"

definition launchRenewal :: "launcher \<Rightarrow> string \<Rightarrow> renewal_config \<Rightarrow> db \<Rightarrow> (string + int \<times> bool) \<times> db" where
  "launchRenewal renew cn cfg = call_launcher renew (renewExtraVars cn cfg)"

definition pagination :: "int \<Rightarrow> int \<Rightarrow> int \<times> int" where
  "pagination limit offset = (if limit \<le> 0 then 50 else limit, if offset < 0 then 0 else offset)"

definition audited :: "request \<Rightarrow> string \<Rightarrow> string \<Rightarrow> string \<Rightarrow> (db \<Rightarrow> string) \<Rightarrow> json option \<Rightarrow> 'a handler \<Rightarrow> 'a handler" where
  "audited r actor action targetType tid payload k s = k (auditAllow r actor action targetType (tid s) payload s)"

definition cert_not_found :: "request \<Rightarrow> error \<Rightarrow> 'a handler" where
  "cert_not_found r e = writeLookupError r e ErrCertificateNotFound ''certificate not found'' ''failed to load certificate''"

section \<open>Scans\<close>

record create_scan_request =
  cs_CIDRs :: "string list"
  cs_Hostnames :: "string list"
  cs_Ports :: "int list"
  cs_Concurrency :: int
  cs_Consent :: bool

definition handleCreateScan :: "server \<Rightarrow> request \<Rightarrow> string \<Rightarrow> create_scan_request option \<Rightarrow> scan handler" where
  "handleCreateScan sv r actor body =
     (case body of None \<Rightarrow> writeError r 400 ''invalid request body''
      | Some req \<Rightarrow>
         if \<not> cs_Consent req then writeError r 400 ''scan consent required; set consent=true to confirm authorized scanning''
         else if cs_CIDRs req = [] \<and> cs_Hostnames req = [] then writeError r 400 ''cidrs or hostnames required''
         else let ports = (if cs_Ports req = [] then [443, 8443, 6443, 993, 465] else cs_Ports req);
                  concurrency = (if cs_Concurrency req \<le> 0 then sv_DefaultConcurrency sv else cs_Concurrency req);
                  maxPending = (if sv_ScanQueueMaxPending sv \<le> 0 then 32 else sv_ScanQueueMaxPending sv) in
           try_op (CreateScan (cs_CIDRs req) (cs_Hostnames req) ports concurrency maxPending)
             (\<lambda>e. if e = ErrScanQueueFull then writeError r 503 ''scan queue full; retry later''
                   else writeServerError r e ''failed to create scan'')
             (\<lambda>scan. audited r actor ''create_scan'' ''scan'' (\<lambda>s. db_ustr s (s_ID scan))
                (Some (JObj [(''cidrs'', JArr (map JStr (cs_CIDRs req))), (''hostnames'', JArr (map JStr (cs_Hostnames req))),
                   (''ports'', JArr (map JNum ports))])) (writeJSON 202 scan)))"

definition handleListScans :: "request \<Rightarrow> int \<Rightarrow> int \<Rightarrow> (scan list \<times> int \<times> int) handler" where
  "handleListScans r qlimit qoffset = (case pagination qlimit qoffset of (limit, offset) \<Rightarrow>
     try_op (ListScans limit offset) (\<lambda>e. writeServerError r e ''failed to list scans'')
       (\<lambda>scans. writeJSON 200 (scans, limit, offset)))"

definition handleGetScan :: "request \<Rightarrow> uuid option \<Rightarrow> scan handler" where
  "handleGetScan r idp = with_id r ''invalid scan id'' idp (\<lambda>i.
     try_op (GetScan i) (\<lambda>e. writeLookupError r e ErrScanNotFound ''scan not found'' ''failed to load scan'') (writeJSON 200))"

definition handleListScanCertificates :: "request \<Rightarrow> uuid option \<Rightarrow> int \<Rightarrow> int \<Rightarrow> (certificate list \<times> int \<times> int \<times> int) handler" where
  "handleListScanCertificates r idp qlimit qoffset = with_id r ''invalid scan id'' idp (\<lambda>i.
     try_op (GetScan i) (\<lambda>e. writeLookupError r e ErrScanNotFound ''scan not found'' ''failed to load scan'') (\<lambda>_.
     case pagination qlimit qoffset of (limit, offset) \<Rightarrow>
       try_op (ListCertificates (zero_filter\<lparr>cf_ScanID := i, cf_Limit := limit, cf_Offset := offset\<rparr>))
         (\<lambda>e. writeServerError r e ''failed to list scan certificates'')
         (\<lambda>(certs, total). writeJSON 200 (certs, total, limit, offset))))"

definition handleDeleteScan :: "request \<Rightarrow> string \<Rightarrow> uuid option \<Rightarrow> unit handler" where
  "handleDeleteScan r actor idp = with_id r ''invalid scan id'' idp (\<lambda>i.
     try_op (DeleteScan i) (\<lambda>e. writeLookupError r e ErrScanNotFound ''scan not found'' ''failed to delete scan'')
       (\<lambda>_. audited r actor ''delete'' ''scan'' (\<lambda>s. db_ustr s i) None (writeJSON 204 ())))"

section \<open>Certificates and issuers\<close>

definition handleDeleteCertificate :: "request \<Rightarrow> string \<Rightarrow> uuid option \<Rightarrow> unit handler" where
  "handleDeleteCertificate r actor idp = with_id r ''invalid certificate id'' idp (\<lambda>i.
     try_op (DeleteCertificate i)
       (\<lambda>e. writeLookupError r e ErrCertificateNotFound ''certificate not found'' ''failed to delete certificate'')
       (\<lambda>_. audited r actor ''delete'' ''certificate'' (\<lambda>s. db_ustr s i) None (writeJSON 204 ())))"

definition handleDeleteIssuer :: "request \<Rightarrow> string \<Rightarrow> uuid option \<Rightarrow> unit handler" where
  "handleDeleteIssuer r actor idp = with_id r ''invalid issuer id'' idp (\<lambda>i.
     try_op (DeleteIssuer i) (\<lambda>e. writeLookupError r e ErrIssuerNotFound ''issuer not found'' ''failed to delete issuer'')
       (\<lambda>_. audited r actor ''delete'' ''issuer'' (\<lambda>s. db_ustr s i) None (writeJSON 204 ())))"

text \<open>The query of the list: \<open>min_risk\<close> and \<open>scan_id\<close> are absent, unreadable, or a value.\<close>

datatype 'a param = Absent | Unreadable | Value 'a

record cert_query =
  cq_status :: string
  cq_chain_status :: string
  cq_search :: string
  cq_pqc_tag :: string
  cq_sort :: string
  cq_sort_dir :: string
  cq_min_risk :: "int param"
  cq_scan_id :: "uuid param"
  cq_limit :: int
  cq_offset :: int

definition handleListCertificates :: "request \<Rightarrow> cert_query \<Rightarrow> (certificate list \<times> int \<times> int \<times> int) handler" where
  "handleListCertificates r q = (case pagination (cq_limit q) (cq_offset q) of (limit, offset) \<Rightarrow>
     let filter0 = zero_filter\<lparr>cf_Status := cq_status q, cf_ChainStatus := cq_chain_status q, cf_Search := cq_search q,
           cf_PQCTag := cq_pqc_tag q, cf_SortBy := cq_sort q, cf_Limit := limit, cf_Offset := offset,
           cf_SortDesc := cq_sort_dir q \<noteq> ''asc'' \<and> cq_sort q = ''risk_score''\<rparr> in
     case cq_min_risk q of Unreadable \<Rightarrow> writeError r 400 ''invalid min_risk''
     | mr \<Rightarrow>
       (let filter1 = filter0\<lparr>cf_MinRisk := (case mr of Value n \<Rightarrow> Some n | _ \<Rightarrow> None)\<rparr> in
        case cq_scan_id q of Unreadable \<Rightarrow> writeError r 400 ''invalid scan_id''
        | sid \<Rightarrow>
          (let filter2 = (case sid of Value i \<Rightarrow> filter1\<lparr>cf_ScanID := i\<rparr> | _ \<Rightarrow> filter1) in
           try_op (ListCertificates filter2) (\<lambda>e. writeServerError r e ''failed to list certificates'')
             (\<lambda>(certs, total). writeJSON 200 (certs, total, limit, offset)))))"

definition handleGetCertificate :: "request \<Rightarrow> uuid option \<Rightarrow> (certificate \<times> observation list) handler" where
  "handleGetCertificate r idp = with_id r ''invalid certificate id'' idp (\<lambda>i.
     try_op (GetCertificate i) (cert_not_found r) (\<lambda>cert.
     try_op (GetCertificateObservations i) (\<lambda>e. writeServerError r e ''failed to get observations'')
       (\<lambda>obs. writeJSON 200 (cert, obs))))"

definition handleGetCertificatePEM :: "request \<Rightarrow> uuid option \<Rightarrow> string handler" where
  "handleGetCertificatePEM r idp = with_id r ''invalid certificate id'' idp (\<lambda>i.
     try_op (GetCertificate i) (cert_not_found r) (\<lambda>cert. writeJSON 200 (c_PEM cert)))"

definition handleGetCertificateChoose :: "request \<Rightarrow> uuid option \<Rightarrow> choose_result handler" where
  "handleGetCertificateChoose r idp = with_id r ''invalid certificate id'' idp (\<lambda>i.
     try_op (GetCertificate i) (cert_not_found r) (\<lambda>cert.
       writeJSON 200 (ChooseRecommendation \<lparr>CertScope = c_CertScope cert, ManagedStatus = c_ManagedStatus cert,
         ChainStatus = c_ChainStatus cert, IsCA = c_IsCA cert\<rparr>)))"

definition cn_of :: "certificate \<Rightarrow> string" where
  "cn_of c = (case c_SubjectCN c of None \<Rightarrow> [] | Some cn \<Rightarrow> cn)"

text \<open>\<open>kit_text\<close> is the message of a validation error.\<close>

definition handleRenewalKit :: "(kit_error \<Rightarrow> string) \<Rightarrow> request \<Rightarrow> uuid option \<Rightarrow> string \<Rightarrow> string \<Rightarrow> string \<Rightarrow> string \<Rightarrow>
    (string \<times> artifact list) handler" where
  "handleRenewalKit kit_text r idp qtarget qmount qrole qservice = with_id r ''invalid certificate id'' idp (\<lambda>i.
     try_op (GetCertificate i) (cert_not_found r) (\<lambda>cert.
       let target = (if qtarget = [] then ''agent'' else to_lower qtarget);
           mount = (if trim_space qmount = [] then ''pki'' else trim_space qmount) in
       case Generate target \<lparr>ki_CommonName = cn_of cert, ki_Mount = mount, ki_Role = trim_space qrole, ki_Service = trim_space qservice\<rparr> of
         Inl e \<Rightarrow> writeError r 400 (kit_text e)
       | Inr arts \<Rightarrow> writeJSON 200 (target, arts)))"

definition handleListIssuers :: "request \<Rightarrow> int \<Rightarrow> int \<Rightarrow> (issuer list \<times> int \<times> int) handler" where
  "handleListIssuers r qlimit qoffset = (case pagination qlimit qoffset of (limit, offset) \<Rightarrow>
     try_op (ListIssuers limit offset) (\<lambda>e. writeServerError r e ''failed to list issuers'')
       (\<lambda>issuers. writeJSON 200 (issuers, limit, offset)))"

section \<open>Launches\<close>

record launch_body =
  lb_Consent :: bool
  lb_Config :: renewal_config
  lb_PEM :: string

definition expected_json :: "string \<Rightarrow> certificate \<Rightarrow> string \<Rightarrow> json" where
  "expected_json cn c targetHosts = JObj [(''common_name'', JStr cn), (''predecessor_fingerprint'', JStr (c_FingerprintSHA256 c)),
     (''predecessor_not_after'', rfc3339 (c_NotAfter c)), (''target_hosts'', JStr targetHosts)]"

definition ref_json :: "int \<times> bool \<Rightarrow> json" where
  "ref_json ref = JObj [(''job_id'', JNum (fst ref)), (''workflow'', JBool (snd ref))]"

definition renew_reply :: "int \<times> bool \<Rightarrow> uuid \<Rightarrow> string \<Rightarrow> renewal_config \<Rightarrow> (string \<times> json) list \<Rightarrow> json" where
  "renew_reply ref jobID cn cfg extra = JObj ([(''status'', JStr ''launched''), (''job'', ref_json ref), (''lifecycle_job_id'', JId jobID),
     (''common_name'', JStr cn), (''mount'', JStr (rc_Mount cfg)), (''role'', JStr (rc_Role cfg))] @ extra)"

definition launch_audit :: "db \<Rightarrow> renewal_config \<Rightarrow> int \<Rightarrow> uuid \<Rightarrow> json" where
  "launch_audit s cfg aapJob jobID = JObj [(''mount'', JStr (rc_Mount cfg)), (''role'', JStr (rc_Role cfg)), (''job_id'', JNum aapJob),
     (''lifecycle_job_id'', JStr (db_ustr s jobID))]"

text \<open>From the launch to the answer of \<^verbatim>\<open>handleRenewCertificate\<close>.\<close>

definition renew_launch :: "launcher \<Rightarrow> request \<Rightarrow> string \<Rightarrow> certificate \<Rightarrow> uuid \<Rightarrow> renewal_config \<Rightarrow> json handler" where
  "renew_launch renew r actor cert i cfg s =
     (let cn = cn_of cert in
      case launchRenewal renew cn cfg s of
        (Inl err, s) \<Rightarrow> writeError r 502 ''failed to launch AAP renewal'' s
      | (Inr ref, s) \<Rightarrow>
         try_op (PersistRenewLaunch i cfg (c_FingerprintSHA256 cert) (fst ref) (snd ref) (Some (expected_json cn cert (rc_TargetHosts cfg))))
           (\<lambda>perr. if perr = ErrLifecycleIdempotencyConflict
              then (\<lambda>s. try_op (GetLifecycleJobByIdempotency (RenewIdempotencyKey (db_ustr s) i (c_FingerprintSHA256 cert)))
                (\<lambda>_. writeError r 500 ''failed to persist lifecycle job'')
                (\<lambda>existing. writeJSON 202 (renew_reply ref (j_ID existing) cn cfg [(''idempotent'', JBool True)])) s)
              else writeError r 500 ''failed to persist lifecycle job'')
           (\<lambda>job s. audited r actor ''renew'' ''certificate'' (\<lambda>s. db_ustr s i) (Some (launch_audit s cfg (fst ref) (j_ID job)))
              (writeJSON 202 (renew_reply ref (j_ID job) cn cfg [])) s) s)"

definition handleRenewCertificate :: "server \<Rightarrow> (kit_error \<Rightarrow> string) \<Rightarrow> request \<Rightarrow> string \<Rightarrow> uuid option \<Rightarrow> launch_body option \<Rightarrow> json handler" where
  "handleRenewCertificate sv kit_text r actor idp body = with_id r ''invalid certificate id'' idp (\<lambda>i.
     case sv_renewer sv of None \<Rightarrow> writeError r 503 ''AAP not configured''
     | Some renew \<Rightarrow>
       if \<not> sv_lifecycle sv then writeError r 503 ''lifecycle jobs store not configured''
       else case body of None \<Rightarrow> writeError r 400 ''invalid request body''
       | Some b \<Rightarrow>
         if \<not> lb_Consent b then writeError r 400 ''consent required to launch a renewal''
         else try_op (GetCertificate i) (cert_not_found r) (\<lambda>cert.
           let cfg = trimmed_config (lb_Config b) (sv_AAPDefaultMount sv) in
           case validateRenewalLaunch (cn_of cert) cfg of
             Some e \<Rightarrow> writeError r 400 (kit_text e)
           | None \<Rightarrow> renew_launch renew r actor cert i cfg))"

definition job_status_str :: "job_status \<Rightarrow> string" where
  "job_status_str st = (case st of LifecyclePendingApproval \<Rightarrow> ''pending_approval'' | LifecycleLaunching \<Rightarrow> ''launching''
     | LifecycleAAPPending \<Rightarrow> ''aap_pending'' | LifecycleAAPRunning \<Rightarrow> ''aap_running'' | LifecycleAAPSuccessful \<Rightarrow> ''aap_successful''
     | LifecycleVerifying \<Rightarrow> ''verifying'' | LifecyclePendingVerify \<Rightarrow> ''pending_verify'' | LifecycleVerified \<Rightarrow> ''verified''
     | LifecycleVerifyFailed \<Rightarrow> ''verify_failed'' | LifecycleTimedOut \<Rightarrow> ''timed_out'' | LifecycleFailed \<Rightarrow> ''failed'')"

definition json_opt :: "('a \<Rightarrow> json) \<Rightarrow> 'a option \<Rightarrow> json" where
  "json_opt f v = (case v of None \<Rightarrow> JNull | Some x \<Rightarrow> f x)"

definition migrate_reply :: "lifecycle_job \<Rightarrow> (string \<times> json) list \<Rightarrow> json" where
  "migrate_reply job extra = JObj ([(''status'', JStr (job_status_str (j_Status job))), (''user_status'', JStr (UserStatus (j_Status job))),
     (''lifecycle_job_id'', JId (j_ID job)), (''timeout_at'', JTime (j_TimeoutAt job)),
     (''next_verify_at'', json_opt JTime (j_NextVerifyAt job))] @ extra)"

definition verify_timeout :: "server \<Rightarrow> duration" where
  "verify_timeout sv = (if sv_LifecycleVerifyTimeout sv \<le> 0 then 24 * hour else sv_LifecycleVerifyTimeout sv)"

definition migrate_launch :: "server \<Rightarrow> launcher \<Rightarrow> request \<Rightarrow> string \<Rightarrow> certificate \<Rightarrow> uuid \<Rightarrow> string \<Rightarrow> renewal_config \<Rightarrow> json handler" where
  "migrate_launch sv renew r actor cert i cn cfg s =
     (case launchRenewal renew cn cfg s of
        (Inl err, s) \<Rightarrow> writeError r 502 ''failed to launch AAP migrate'' s
      | (Inr ref, s) \<Rightarrow>
         try_op (PersistMigrateLaunch i cfg (c_FingerprintSHA256 cert) (fst ref) (snd ref)
             (Some (expected_json cn cert (rc_TargetHosts cfg))) (verify_timeout sv) (go_now s + 10 * second))
           (\<lambda>perr. if perr = ErrLifecycleIdempotencyConflict
              then (\<lambda>s. try_op (GetLifecycleJobByIdempotency (MigrateIdempotencyKey (db_ustr s) i (c_FingerprintSHA256 cert)))
                (\<lambda>_. writeError r 500 ''failed to persist lifecycle job'')
                (\<lambda>existing. writeJSON 202 (migrate_reply existing [(''idempotent'', JBool True)])) s)
              else writeError r 500 ''failed to persist lifecycle job'')
           (\<lambda>job s. audited r actor ''migrate'' ''certificate'' (\<lambda>s. db_ustr s i) (Some (launch_audit s cfg (fst ref) (j_ID job)))
              (writeJSON 202 (migrate_reply job [(''job'', ref_json ref), (''common_name'', JStr cn), (''mount'', JStr (rc_Mount cfg)),
                 (''role'', JStr (rc_Role cfg))])) s) s)"

text \<open>\<open>migrate_text\<close> is the message of an eligibility error.\<close>

definition migrate_checked :: "server \<Rightarrow> (kit_error \<Rightarrow> string) \<Rightarrow> (migrate_error \<Rightarrow> string) \<Rightarrow> launcher \<Rightarrow> request \<Rightarrow> string \<Rightarrow>
    launch_body \<Rightarrow> uuid \<Rightarrow> certificate \<Rightarrow> bool \<Rightarrow> json handler" where
  "migrate_checked sv kit_text migrate_text renew r actor b i cert hasObs =
     (case migrateEligible cert hasObs False of
        Some e \<Rightarrow> writeError r (if e = MigrateCA \<or> e = MigrateManaged then 409 else 400) (migrate_text e)
      | None \<Rightarrow>
         let cn = trim_space (cn_of cert);
             cfg = trimmed_config (lb_Config b) (sv_AAPDefaultMount sv) in
         (case validateRenewalLaunch cn cfg of
            Some e \<Rightarrow> writeError r 400 (kit_text e)
          | None \<Rightarrow> migrate_launch sv renew r actor cert i cn cfg))"

definition has_observations :: "uuid \<Rightarrow> certificate \<Rightarrow> db \<Rightarrow> bool \<times> db" where
  "has_observations i cert s =
     (if c_ObservationCount cert > 0 then (True, s)
      else case GetCertificateObservations i s of (Inl e, s') \<Rightarrow> (False, s') | (Inr obs, s') \<Rightarrow> (obs \<noteq> [], s'))"

definition handleMigrateCertificate :: "server \<Rightarrow> (kit_error \<Rightarrow> string) \<Rightarrow> (migrate_error \<Rightarrow> string) \<Rightarrow> request \<Rightarrow> string \<Rightarrow>
    uuid option \<Rightarrow> launch_body option \<Rightarrow> json handler" where
  "handleMigrateCertificate sv kit_text migrate_text r actor idp body = with_id r ''invalid certificate id'' idp (\<lambda>i.
     case sv_renewer sv of None \<Rightarrow> writeError r 503 ''AAP not configured''
     | Some renew \<Rightarrow>
       if \<not> sv_lifecycle sv then writeError r 503 ''lifecycle jobs store not configured''
       else case body of None \<Rightarrow> writeError r 400 ''invalid request body''
       | Some b \<Rightarrow>
         if trim_space (lb_PEM b) \<noteq> []
         then writeError r 400 ''leaf PEM upload is not supported; Migrate to Vault issues a new certificate via AAP''
         else if \<not> lb_Consent b then writeError r 400 ''consent required to migrate to Vault''
         else try_op (GetCertificate i) (cert_not_found r) (\<lambda>cert s.
           case has_observations i cert s of (hasObs, s) \<Rightarrow>
           (case GetLifecycleJobByIdempotency (MigrateIdempotencyKey (db_ustr s) i (c_FingerprintSHA256 cert)) s of
              (Inr existing, s) \<Rightarrow>
                 if hasOpenMigrateStatus (j_Status existing)
                 then writeJSON 202 (migrate_reply existing [(''idempotent'', JBool True)]) s
                 else migrate_checked sv kit_text migrate_text renew r actor b i cert hasObs s
            | (Inl _, s) \<Rightarrow> migrate_checked sv kit_text migrate_text renew r actor b i cert hasObs s)))"

text \<open>
  The batch: eligible leaves are enqueued, not launched, until the limit is reached. The first of the
  results is the number enqueued.
\<close>

fun enqueue_eligible :: "server \<Rightarrow> int \<Rightarrow> time \<Rightarrow> certificate list \<Rightarrow> int \<Rightarrow> db \<Rightarrow> int \<times> db" where
  "enqueue_eligible sv limit nxt [] enqueued s = (enqueued, s)"
| "enqueue_eligible sv limit nxt (c # cs) enqueued s =
     (if enqueued \<ge> limit then (enqueued, s)
      else case (case GetLifecycleJobByIdempotency (MigrateIdempotencyKey (db_ustr s) (c_ID c) (c_FingerprintSHA256 c)) s of
             (Inl _, s) \<Rightarrow> (False, s) | (Inr existing, s) \<Rightarrow> (hasOpenMigrateStatus (j_Status existing), s)) of (opened, s) \<Rightarrow>
        if migrateEligible c (c_ObservationCount c > 0) opened \<noteq> None then enqueue_eligible sv limit nxt cs enqueued s
        else case InsertMigrateJobPending (c_ID c) (c_FingerprintSHA256 c)
               (Some (JObj [(''common_name'', JStr (cn_of c)), (''predecessor_fingerprint'', JStr (c_FingerprintSHA256 c)),
                  (''predecessor_not_after'', rfc3339 (c_NotAfter c))])) (verify_timeout sv) nxt s of
            (Inl _, s) \<Rightarrow> enqueue_eligible sv limit nxt cs enqueued s
          | (Inr _, s) \<Rightarrow> enqueue_eligible sv limit nxt cs (enqueued + 1) s)"

record batch_body =
  bb_Consent :: bool
  bb_Number :: int

definition handleMigrateEligible :: "server \<Rightarrow> request \<Rightarrow> string \<Rightarrow> batch_body option \<Rightarrow> int handler" where
  "handleMigrateEligible sv r actor body =
     (if \<not> sv_lifecycle sv then writeError r 503 ''lifecycle jobs store not configured''
      else if sv_renewer sv = None \<and> trim_space (sv_EDAWebhookURL sv) = [] then writeError r 503 ''AAP and EDA webhook both unset''
      else case body of None \<Rightarrow> writeError r 400 ''invalid request body''
      | Some b \<Rightarrow>
         if \<not> bb_Consent b then writeError r 400 ''consent required''
         else let limit = (if bb_Number b \<le> 0 then 50 else bb_Number b) in
           try_op (ListCertificates (zero_filter\<lparr>cf_Limit := limit * 4\<rparr>)) (\<lambda>e. writeServerError r e ''failed to list certificates'')
             (\<lambda>(certs, total) s.
               case enqueue_eligible sv limit (go_now s + 10 * second) certs 0 s of (enqueued, s) \<Rightarrow>
                 audited r actor ''migrate_eligible'' ''certificates'' (\<lambda>_. []) (Some (JObj [(''enqueued'', JNum enqueued)]))
                   (writeJSON 202 enqueued) s))"

record claim_body =
  cb_IdempotencyKey :: string
  cb_AAPJobID :: int

definition job_reply :: "lifecycle_job \<Rightarrow> json" where
  "job_reply job = JObj [(''id'', JId (j_ID job)), (''status'', JStr (job_status_str (j_Status job))),
     (''user_status'', JStr (UserStatus (j_Status job))), (''aap_job_id'', json_opt JNum (j_AAPJobID job))]"

definition handleClaimLifecycleJob :: "server \<Rightarrow> request \<Rightarrow> claim_body option \<Rightarrow> json handler" where
  "handleClaimLifecycleJob sv r body =
     (if \<not> sv_lifecycle sv then writeError r 503 ''lifecycle jobs store not configured''
      else case body of None \<Rightarrow> writeError r 400 ''invalid request body''
      | Some b \<Rightarrow>
         if trim_space (cb_IdempotencyKey b) = [] \<or> cb_AAPJobID b \<le> 0 then writeError r 400 ''idempotency_key and aap_job_id required''
         else (\<lambda>s. case GetLifecycleJobByIdempotency (cb_IdempotencyKey b) s of (before, s) \<Rightarrow>
           try_op (ClaimByIdempotency (cb_IdempotencyKey b) (cb_AAPJobID b))
             (\<lambda>e. if e = ErrLifecycleAAPRefConflict then writeError r 409 ''aap_job_id conflict''
                   else if e = ErrLifecycleJobNotFound then writeError r 404 ''lifecycle job not found''
                   else writeServerError r e ''failed to claim lifecycle job'')
             (\<lambda>job s. let first = (case before of Inl _ \<Rightarrow> False | Inr j \<Rightarrow> j_AAPJobID j = None);
                 s = (if first then ignore (AppendRenewalOutboxEvent ''renewal.launched'' (j_PredecessorCertID job)
                        (Some (JObj [(''aap_job_id'', JNum (cb_AAPJobID b)), (''idempotency_key'', JStr (cb_IdempotencyKey b))]))) s else s) in
               writeJSON 200 (job_reply job) s) s))"

section \<open>Revocation through the Controller\<close>

record revoke_body =
  rb_Consent :: bool
  rb_Mount :: string
  rb_Reason :: string

definition revoke_launch :: "launcher \<Rightarrow> request \<Rightarrow> string \<Rightarrow> uuid \<Rightarrow> string \<Rightarrow> string \<Rightarrow> certificate \<Rightarrow> json handler" where
  "revoke_launch revoke r actor i mount reason cert s =
     (case call_launcher revoke (revokeExtraVars (db_ustr s) i (c_SerialNumber cert) (c_FingerprintSHA256 cert) mount reason) s of
        (Inl err, s) \<Rightarrow> writeError r 502 ''failed to launch AAP revoke'' s
      | (Inr ref, s) \<Rightarrow>
         audited r actor ''revoke_launch'' ''certificate'' (\<lambda>s. db_ustr s i)
           (Some (JObj [(''mount'', JStr mount), (''job_id'', JNum (fst ref)), (''reason'', JStr reason)]))
           (writeJSON 202 (JObj [(''status'', JStr ''launched''), (''job'', ref_json ref), (''mount'', JStr mount),
              (''reason'', JStr reason), (''serial'', JStr (c_SerialNumber cert)),
              (''verify'', JStr ''POST /api/v1/certificates/{id}/revocation-check after AAP success'')])) s)"

definition handleRevokeCertificate :: "server \<Rightarrow> request \<Rightarrow> string \<Rightarrow> uuid option \<Rightarrow> revoke_body option \<Rightarrow> json handler" where
  "handleRevokeCertificate sv r actor idp body = with_id r ''invalid certificate id'' idp (\<lambda>i.
     case sv_revoker sv of None \<Rightarrow> writeError r 503 ''AAP not configured''
     | Some revoke \<Rightarrow>
       (case body of None \<Rightarrow> writeError r 400 ''invalid request body''
        | Some b \<Rightarrow>
           if \<not> rb_Consent b then writeError r 400 ''consent required to launch a revoke''
           else let reason = trim_space (rb_Reason b);
                    mount = (if trim_space (rb_Mount b) = [] then sv_AAPDefaultMount sv else trim_space (rb_Mount b)) in
             if \<not> ValidReason reason then writeError r 400 ''invalid reason''
             else if Validate \<lparr>ki_CommonName = ''x.example.com'', ki_Mount = mount, ki_Role = ''web'', ki_Service = []\<rparr> \<noteq> None
             then writeError r 400 ''invalid mount''
             else try_op (GetCertificate i) (cert_not_found r) (revoke_launch revoke r actor i mount reason)))"

section \<open>Renewal of what expires\<close>

datatype batch_entry = Enqueued uuid string uuid bool | Refused uuid string string

fun enqueue_expiring :: "(kit_error \<Rightarrow> string) \<Rightarrow> certificate list \<Rightarrow> db \<Rightarrow> batch_entry list \<times> db" where
  "enqueue_expiring kit_text [] s = ([], s)"
| "enqueue_expiring kit_text (c # cs) s =
     (case c_RenewalConfig c of None \<Rightarrow> enqueue_expiring kit_text cs s
      | Some cfg \<Rightarrow>
         (let cn = cn_of c in
          case (case validateRenewalLaunch cn cfg of
              Some e \<Rightarrow> (Refused (c_ID c) cn (kit_text e), s)
            | None \<Rightarrow>
               (case InsertLifecycleJobPending (c_ID c) (c_FingerprintSHA256 c) (Some (expected_json cn c (rc_TargetHosts cfg))) s of
                  (Inr job, s) \<Rightarrow> (Enqueued (c_ID c) cn (j_ID job) False, s)
                | (Inl jerr, s) \<Rightarrow>
                   if jerr = ErrLifecycleIdempotencyConflict
                   then (case GetLifecycleJobByIdempotency (RenewIdempotencyKey (db_ustr s) (c_ID c) (c_FingerprintSHA256 c)) s of
                       (Inr existing, s) \<Rightarrow> (Enqueued (c_ID c) cn (j_ID existing) True, s)
                     | (Inl _, s) \<Rightarrow> (Refused (c_ID c) cn ''failed to enqueue lifecycle job'', s))
                   else (Refused (c_ID c) cn ''failed to enqueue lifecycle job'', s))) of (entry, s) \<Rightarrow>
          (case enqueue_expiring kit_text cs s of (entries, s) \<Rightarrow> (entry # entries, s))))"

definition is_enqueued :: "batch_entry \<Rightarrow> bool" where
  "is_enqueued e = (case e of Enqueued _ _ _ _ \<Rightarrow> True | Refused _ _ _ \<Rightarrow> False)"

record expiring_reply =
  er_within_days :: int
  er_eligible :: int
  er_enqueued :: "batch_entry list"
  er_failed :: "batch_entry list"

definition handleRenewExpiring :: "server \<Rightarrow> (kit_error \<Rightarrow> string) \<Rightarrow> request \<Rightarrow> string \<Rightarrow> batch_body option \<Rightarrow> expiring_reply handler" where
  "handleRenewExpiring sv kit_text r actor body =
     (if sv_renewer sv = None then writeError r 503 ''AAP not configured''
      else if \<not> sv_lifecycle sv then writeError r 503 ''lifecycle jobs store not configured''
      else case body of None \<Rightarrow> writeError r 400 ''invalid request body''
      | Some b \<Rightarrow>
         if \<not> bb_Consent b then writeError r 400 ''consent required to launch renewals''
         else let days = (if bb_Number b \<le> 0 then sv_ExpiringSoonDays sv else bb_Number b) in
           try_op (ListRenewable days) (\<lambda>e. writeServerError r e ''failed to list renewable certificates'') (\<lambda>certs s.
             case enqueue_expiring kit_text certs s of (entries, s) \<Rightarrow>
               let good = filter is_enqueued entries; bad = filter (\<lambda>e. \<not> is_enqueued e) entries in
               audited r actor ''renew'' [] (\<lambda>_. []) (Some (JObj [(''within_days'', JNum days), (''eligible'', JNum (int (length certs))),
                   (''enqueued'', JNum (int (length good))), (''failed'', JNum (int (length bad)))]))
                 (writeJSON 202 \<lparr>er_within_days = days, er_eligible = int (length certs), er_enqueued = good, er_failed = bad\<rparr>) s))"

section \<open>Jobs, inventory and events\<close>

definition handleGetLifecycleJob :: "server \<Rightarrow> request \<Rightarrow> uuid option \<Rightarrow> (lifecycle_job \<times> string) handler" where
  "handleGetLifecycleJob sv r idp =
     (if \<not> sv_lifecycle sv then writeError r 503 ''lifecycle jobs store not configured''
      else with_id r ''invalid lifecycle job id'' idp (\<lambda>i.
        try_op (GetLifecycleJob i)
          (\<lambda>e. writeLookupError r e ErrLifecycleJobNotFound ''lifecycle job not found'' ''failed to load lifecycle job'')
          (\<lambda>job. writeJSON 200 (job, UserStatus (j_Status job)))))"

definition handleListCertLifecycleJobs :: "server \<Rightarrow> request \<Rightarrow> uuid option \<Rightarrow> lifecycle_job list handler" where
  "handleListCertLifecycleJobs sv r idp =
     (if \<not> sv_lifecycle sv then writeError r 503 ''lifecycle jobs store not configured''
      else with_id r ''invalid certificate id'' idp (\<lambda>i.
        try_op (ListLifecycleJobsByCert i 50) (\<lambda>e. writeServerError r e ''failed to list lifecycle jobs'') (writeJSON 200)))"

definition slugifyGroup :: "string \<Rightarrow> string" where
  "slugifyGroup s = map (\<lambda>c. if is_alnum c \<or> c = CHR ''_'' then c else CHR ''_'') s"

text \<open>
  \<^verbatim>\<open>inventory.Build\<close>: the hosts with their variables in the order of the certificates, and the group of
  each host that has a service. The groups of the document are the distinct group names.
\<close>

record inventory_host =
  ih_cn :: string
  ih_vars :: "(string \<times> json) list"
  ih_group :: "string option"

definition host_vars :: "(uuid \<Rightarrow> string) \<Rightarrow> certificate \<Rightarrow> renewal_config \<Rightarrow> (string \<times> json) list" where
  "host_vars ustr c cfg =
     [(''cert_common_name_override'', JStr (cn_of c)), (''vault_pki_mount'', JStr (rc_Mount cfg)), (''vault_pki_role'', JStr (rc_Role cfg)),
      (''clm_certificate_id'', JStr (ustr (c_ID c))), (''clm_days_until_expiry'', JNum (c_DaysUntilExpiry c)),
      (''ansible_connection'', JStr ''local'')] @
     (if rc_Service cfg \<noteq> [] then [(''cert_service_type'', JStr (rc_Service cfg))] else []) @
     (if rc_TargetHosts cfg \<noteq> [] then [(''clm_target_hosts'', JStr (rc_TargetHosts cfg))] else []) @
     (if rc_TTL cfg \<noteq> [] then [(''vault_cert_ttl'', JStr (rc_TTL cfg))] else []) @
     (if rc_AltNames cfg \<noteq> [] then [(''cert_alt_names_override'', JStr (rc_AltNames cfg))] else [])"

fun Build :: "(uuid \<Rightarrow> string) \<Rightarrow> string list \<Rightarrow> certificate list \<Rightarrow> inventory_host list" where
  "Build ustr seen [] = []"
| "Build ustr seen (c # cs) =
     (case c_RenewalConfig c of None \<Rightarrow> Build ustr seen cs
      | Some cfg \<Rightarrow>
         if cn_of c = [] \<or> cn_of c \<in> set seen then Build ustr seen cs
         else \<lparr>ih_cn = cn_of c, ih_vars = host_vars ustr c cfg,
                ih_group = (if rc_Service cfg \<noteq> [] then Some (''svc_'' @ slugifyGroup (rc_Service cfg)) else None)\<rparr>
              # Build ustr (cn_of c # seen) cs)"

definition group_hosts :: "inventory_host list \<Rightarrow> string \<Rightarrow> string list" where
  "group_hosts hosts g = map ih_cn (filter (\<lambda>h. ih_group h = Some g) hosts)"

definition handleInventory :: "request \<Rightarrow> int param \<Rightarrow> inventory_host list handler" where
  "handleInventory r qwithin = try_op (ListRenewable (case qwithin of Value n \<Rightarrow> if n > 0 then n else 36500 | _ \<Rightarrow> 36500))
     (\<lambda>e. writeServerError r e ''failed to list renewable certificates'') (\<lambda>certs s. writeJSON 200 (Build (db_ustr s) [] certs) s)"

definition handleListEvents :: "request \<Rightarrow> int param \<Rightarrow> string \<Rightarrow> (event list \<times> int) handler" where
  "handleListEvents r qlimit qtype =
     (let limit = min 500 (case qlimit of Value n \<Rightarrow> if n > 0 then n else 100 | _ \<Rightarrow> 100) in
      try_op (ListEvents \<lparr>ef_Limit = limit, ef_EventType = trim_space qtype, ef_CertificateID = None\<rparr>)
        (\<lambda>e. writeServerError r e ''failed to list events'') (\<lambda>events. writeJSON 200 (events, limit)))"

section \<open>Imports\<close>

record catalog_body =
  ca_Consent :: bool
  ca_Renewal :: "renewal_config option"

definition catalog_done :: "request \<Rightarrow> string \<Rightarrow> uuid \<Rightarrow> certificate \<Rightarrow> certificate handler" where
  "catalog_done r actor i cert = audited r actor ''catalog_import'' ''certificate'' (\<lambda>s. db_ustr s i)
     (Some (JObj [(''managed_status'', JStr ''imported'')])) (writeJSON 200 cert)"

definition handleCatalogImport :: "server \<Rightarrow> (kit_error \<Rightarrow> string) \<Rightarrow> request \<Rightarrow> string \<Rightarrow> uuid option \<Rightarrow> catalog_body option \<Rightarrow> certificate handler" where
  "handleCatalogImport sv kit_text r actor idp body = with_id r ''invalid certificate id'' idp (\<lambda>i.
     case body of None \<Rightarrow> writeError r 400 ''invalid request body''
     | Some b \<Rightarrow>
       if \<not> ca_Consent b then writeError r 400 ''consent is required to catalog a certificate''
       else try_op (SetManagedStatus i ''imported'')
         (\<lambda>e. if e = ErrCertificateNotFound then writeError r 404 ''certificate not found''
               else if e = ErrManagedByVault then writeError r 409 ''certificate is managed in vault; catalog import does not apply''
               else writeServerError r e ''failed to catalog certificate'')
         (\<lambda>cert. case ca_Renewal b of None \<Rightarrow> catalog_done r actor i cert
          | Some req \<Rightarrow>
            (case validateRenewalConfig req (sv_AAPDefaultMount sv) of
               Inl e \<Rightarrow> writeError r 400 (kit_text e)
             | Inr cfg \<Rightarrow> try_op (SetRenewalConfig i cfg) (\<lambda>e. writeServerError r e ''failed to store renewal config'')
                 (catalog_done r actor i))))"

definition issuerBundle :: "issuer \<Rightarrow> string" where
  "issuerBundle i = str_join (i_PEM i # i_CAChain i) nl"

definition firstIssuerRef :: "string list \<Rightarrow> string" where
  "firstIssuerRef imported = (case imported of [] \<Rightarrow> [] | x # _ \<Rightarrow> x)"

record import_body =
  im_Consent :: bool
  im_Mount :: string

definition import_issuer :: "(nat \<Rightarrow> string \<Rightarrow> string \<Rightarrow> string + string list) \<Rightarrow> request \<Rightarrow> string \<Rightarrow> uuid \<Rightarrow> string \<Rightarrow> issuer \<Rightarrow> issuer handler" where
  "import_issuer imp r actor i mount issuer s =
     (if \<not> i_IsCA issuer then writeError r 409 ''issuer is not a CA; only CA material can be imported into Vault PKI'' s
      else let answer = imp (length (vault_imports s)) mount (issuerBundle issuer);
               s = s\<lparr>vault_imports := vault_imports s @ [(mount, issuerBundle issuer)]\<rparr> in
        case answer of Inl err \<Rightarrow> writeError r 502 ''vault import failed'' s
        | Inr imported \<Rightarrow>
           try_op (SetIssuerVaultRef i (firstIssuerRef imported) mount) (\<lambda>e. writeServerError r e ''failed to record issuer import'')
             (\<lambda>updated. audited r actor ''import_ca'' ''issuer'' (\<lambda>s. db_ustr s i) (Some (JObj [(''mount'', JStr mount)]))
                (writeJSON 200 updated)) s)"

definition handleImportIssuer :: "server \<Rightarrow> request \<Rightarrow> string \<Rightarrow> uuid option \<Rightarrow> import_body option \<Rightarrow> issuer handler" where
  "handleImportIssuer sv r actor idp body = with_id r ''invalid issuer id'' idp (\<lambda>i.
     case body of None \<Rightarrow> writeError r 400 ''invalid request body''
     | Some b \<Rightarrow>
       if \<not> im_Consent b then writeError r 400 ''consent is required to import a CA into Vault''
       else let mount = trim_space (im_Mount b) in
         if mount = [] then writeError r 400 ''mount is required''
         else if \<not> validMount mount then writeError r 400 ''invalid mount: use a simple path segment (letters, digits, -, _, /)''
         else case sv_importer sv of
           None \<Rightarrow> writeError r 503 (if sv_VaultAddr sv \<noteq> [] then ''import identity not configured'' else ''vault is not configured'')
         | Some imp \<Rightarrow>
            try_op (GetIssuer i) (\<lambda>e. writeLookupError r e ErrIssuerNotFound ''issuer not found'' ''failed to load issuer'')
              (import_issuer imp r actor i mount))"

section \<open>Consent\<close>


section \<open>Renewals\<close>

text \<open>What the calls of a launch do to the jobs and to the log of launches.\<close>

lemma PersistRenewLaunch_effect:
  "PersistRenewLaunch i cfg fp a w ex s = (res, s') \<Longrightarrow> aap_launches s' = aap_launches s \<and>
   (case res of Inl e \<Rightarrow> t_jobs s' = t_jobs s
    | Inr job \<Rightarrow> t_jobs s' = t_jobs s @ [job] \<and> j_AAPJobID job = Some a \<and> j_PredecessorCertID job = Some i)"
  by (auto simp: PersistRenewLaunch_def db_call_def bind_op_def set_renewal_config_tx_def insert_job_def insert_job_event_def
      appendEventTx_def insert_approval_def new_job_def Let_def split: if_splits)

lemma find_job_effect:
  "find_job p s = (res, s') \<Longrightarrow> s' = next_step s \<and> (case res of Inl e \<Rightarrow> True | Inr job \<Rightarrow> job \<in> set (t_jobs s) \<and> p job)"
  by (auto simp: find_job_def db_call_def split: if_splits option.splits dest: find_Some_in)

definition renew_answer :: "uuid \<Rightarrow> string \<Rightarrow> string \<Rightarrow> renewal_config \<Rightarrow> json reply \<Rightarrow> db \<Rightarrow> db \<Rightarrow> bool" where
  "renew_answer i fp cn cfg rep s s' \<longleftrightarrow> (case rep of
       Problem n msg rid \<Rightarrow> n \<in> {500, 502} \<and> t_jobs s' = t_jobs s
     | Reply n v \<Rightarrow> n = 202 \<and> (\<exists>job ref.
         (v = renew_reply ref (j_ID job) cn cfg [] \<and> t_jobs s' = t_jobs s @ [job] \<and> j_AAPJobID job = Some (fst ref) \<and>
          j_PredecessorCertID job = Some i) \<or>
         (v = renew_reply ref (j_ID job) cn cfg [(''idempotent'', JBool True)] \<and> t_jobs s' = t_jobs s \<and> job \<in> set (t_jobs s) \<and>
          j_IdempotencyKey job = RenewIdempotencyKey (db_ustr s) i fp)))"

lemma renew_launch_outcome:
  assumes "renew_launch renew r actor cert i cfg s = (rep, s')"
  shows "aap_launches s' = aap_launches s @ [renewExtraVars (cn_of cert) cfg] \<and>
    renew_answer i (c_FingerprintSHA256 cert) (cn_of cert) cfg rep s s'"
proof -
  let ?extra = "renewExtraVars (cn_of cert) cfg"
  let ?t = "s\<lparr>aap_launches := aap_launches s @ [?extra]\<rparr>"
  show ?thesis
  proof (cases "renew (length (aap_launches s)) ?extra")
    case (Inl err)
    then show ?thesis using assms
      by (auto simp: renew_launch_def launchRenewal_def call_launcher_def renew_answer_def)
  next
    case (Inr ref)
    obtain res u where p: "PersistRenewLaunch i cfg (c_FingerprintSHA256 cert) (fst ref) (snd ref)
        (Some (expected_json (cn_of cert) cert (rc_TargetHosts cfg))) ?t = (res, u)" by fastforce
    note eff = PersistRenewLaunch_effect [OF p]
    have env: "db_ustr u = db_ustr s"
      using p by (auto simp: PersistRenewLaunch_def db_call_def bind_op_def set_renewal_config_tx_def insert_job_def
          insert_job_event_def appendEventTx_def insert_approval_def new_job_def Let_def split: if_splits)
    show ?thesis
    proof (cases res)
      case (Inl perr)
      obtain x v where g: "GetLifecycleJobByIdempotency (RenewIdempotencyKey (db_ustr u) i (c_FingerprintSHA256 cert)) u = (x, v)"
        by fastforce
      note ge = find_job_effect [OF g [unfolded GetLifecycleJobByIdempotency_def]]
      from assms show ?thesis using Inr Inl p g ge eff env
        by (cases ref) (auto simp: renew_launch_def launchRenewal_def call_launcher_def try_op_def renew_answer_def
            split: if_splits sum.splits)
    next
      case job: (Inr job)
      from assms show ?thesis using Inr job p eff
        by (cases ref) (auto simp: renew_launch_def launchRenewal_def call_launcher_def try_op_def audited_def renew_answer_def)
    qed
  qed
qed

text \<open>
  C29. What a renewal request does. Either it is refused and neither a job nor a launch is added; or it
  had consent and the Controller was asked exactly once, with the variables of a validated configuration
  and the certificate's own name. Then the answer is 202 and names a job of the table: the one just
  added with the Controller's id, or the one that already held the key; or it is 500 or 502 and no job
  was added.
\<close>

theorem renew_outcome:
  assumes "handleRenewCertificate sv kit_text r actor idp body s = (rep, s')"
  shows "(aap_launches s' = aap_launches s \<and> t_jobs s' = t_jobs s \<and> (\<exists>n msg. rep = Problem n msg (rq_RequestID r))) \<or>
    (\<exists>i b c cfg. idp = Some i \<and> body = Some b \<and> lb_Consent b \<and> c \<in> set (t_certificates s) \<and> c_ID c = i \<and>
       validateRenewalLaunch (cn_of c) cfg = None \<and> aap_launches s' = aap_launches s @ [renewExtraVars (cn_of c) cfg] \<and>
       renew_answer i (c_FingerprintSHA256 c) (cn_of c) cfg rep s s')"
proof -
  from assms [unfolded handleRenewCertificate_def] consider
      "s' = s" "\<exists>n msg. rep = Problem n msg (rq_RequestID r)"
    | i e where "GetCertificate i s = (Inl e, s')" "\<exists>n msg. rep = Problem n msg (rq_RequestID r)"
    | i cert where "GetCertificate i s = (Inr cert, s')" "\<exists>n msg. rep = Problem n msg (rq_RequestID r)"
    | (launch) i b renew cert t where "idp = Some i" "body = Some b" "lb_Consent b" "GetCertificate i s = (Inr cert, t)"
        "validateRenewalLaunch (cn_of cert) (trimmed_config (lb_Config b) (sv_AAPDefaultMount sv)) = None"
        "renew_launch renew r actor cert i (trimmed_config (lb_Config b) (sv_AAPDefaultMount sv)) t = (rep, s')"
    by (auto elim!: with_idE try_opE simp: cert_not_found_def Let_def split: option.splits if_splits)
  then show ?thesis
  proof cases
    case (launch i b renew cert t)
    then obtain row where row: "row \<in> set (t_certificates s)" "c_ID row = i" "cert = select_cert s row" and t: "t = next_step s"
      using GetCertificate_found by fast
    have "cn_of cert = cn_of row" "c_FingerprintSHA256 cert = c_FingerprintSHA256 row"
      using row(3) by (simp_all add: cn_of_def select_cert_def)
    moreover have "renew_answer i fp cn cfg rep t s' = renew_answer i fp cn cfg rep s s'" for fp cn cfg
      using t by (simp add: renew_answer_def cong: reply.case_cong)
    ultimately show ?thesis using renew_launch_outcome [OF launch(6)] launch(1-3,5) row(1,2) t by auto
  qed (auto dest!: GetCertificate_keeps)
qed

definition example_server :: server where
  "example_server = \<lparr>sv_renewer = Some (\<lambda>n vars. Inr (7 + int n, False)), sv_revoker = None,
     sv_importer = Some (\<lambda>n mount bundle. Inr [''issuer-1'']), sv_lifecycle = True, sv_AAPDefaultMount = ''pki'', sv_VaultAddr = ''v'',
     sv_EDAWebhookURL = [], sv_ExpiringSoonDays = 30, sv_LifecycleVerifyTimeout = 0, sv_DefaultConcurrency = 50,
     sv_ScanQueueMaxPending = 32\<rparr>"

definition example_body :: launch_body where
  "example_body = \<lparr>lb_Consent = True, lb_Config = \<lparr>rc_Role = ''web'', rc_Mount = [], rc_Service = [], rc_TargetHosts = [], rc_TTL = [],
     rc_AltNames = []\<rparr>, lb_PEM = []\<rparr>"

definition example_named :: db where
  "example_named = empty_db\<lparr>t_certificates := [(blank_cert 5 ''fp'')\<lparr>c_SubjectCN := Some ''a.b''\<rparr>]\<rparr>"

abbreviation example_renew :: "db \<Rightarrow> json reply \<times> db" where
  "example_renew \<equiv> handleRenewCertificate example_server (\<lambda>_. []) example_request [] (Some 5) (Some example_body)"

lemma example_launched: "length (aap_launches (snd (example_renew example_named))) = 1"
  by code_simp

theorem renew_outcome_witness:
  "\<exists>cfg. aap_launches (snd (example_renew example_named)) = [renewExtraVars ''a.b'' cfg] \<and> validateRenewalLaunch ''a.b'' cfg = None"
proof -
  have "example_renew example_named = (fst (example_renew example_named), snd (example_renew example_named))" by simp
  from renew_outcome [OF this] example_launched show ?thesis
    by (auto simp: example_named_def empty_db_def cn_of_def blank_cert_def)
qed

text \<open>
  A second request for the same certificate asks the Controller again, although it adds no job: the job
  of the table keeps the id of the first launch, and the second launch is tracked by none.
\<close>

lemma relaunch_untracked:
  "map (\<lambda>s. (length (aap_launches s), map j_AAPJobID (t_jobs s))) [snd (example_renew example_named),
     snd (example_renew (snd (example_renew example_named)))] = [(1, [Some 7]), (2, [Some 7])]"
  by code_simp

section \<open>Imports\<close>

lemma GetIssuer_effect:
  "GetIssuer i s = (res, s') \<Longrightarrow> s' = next_step s \<and> (case res of Inl e \<Rightarrow> True | Inr iss \<Rightarrow> iss \<in> set (t_issuers s) \<and> i_ID iss = i)"
  by (auto simp: GetIssuer_def db_call_def split: if_splits option.splits dest: find_Some_in)

lemma SetIssuerVaultRef_imports: "SetIssuerVaultRef i ref mount s = (res, s') \<Longrightarrow> vault_imports s' = vault_imports s"
  by (auto simp: SetIssuerVaultRef_def GetIssuer_def bind_op_def db_call_def split: if_splits option.splits)

lemma auditAllow_imports [simp]: "vault_imports (auditAllow r actor a b c d s) = vault_imports s"
  by (auto simp: auditAllow_def appendAudit_def ignore_def AppendAudit_def db_call_def Let_def)

lemma import_issuer_writes:
  assumes "import_issuer imp r actor i mount iss s = (rep, s')"
  shows "vault_imports s' = vault_imports s \<or> (i_IsCA iss \<and> vault_imports s' = vault_imports s @ [(mount, issuerBundle iss)])"
  using assms
  by (auto simp: import_issuer_def Let_def try_op_def audited_def split: if_splits sum.splits prod.splits
      dest!: SetIssuerVaultRef_imports)

text \<open>
  C30. The only write to Vault. An import request writes to Vault at most once, and only with consent, a
  mount that cannot leave its path, a configured import identity, and an issuer of the inventory that is
  a CA; what it writes is that issuer's certificate with its chain.
\<close>

theorem vault_write_gated:
  assumes "handleImportIssuer sv r actor idp body s = (rep, s')"
  shows "vault_imports s' = vault_imports s \<or>
    (\<exists>i b iss. idp = Some i \<and> body = Some b \<and> im_Consent b \<and> sv_importer sv \<noteq> None \<and> validMount (trim_space (im_Mount b)) \<and>
       iss \<in> set (t_issuers s) \<and> i_ID iss = i \<and> i_IsCA iss \<and>
       vault_imports s' = vault_imports s @ [(trim_space (im_Mount b), issuerBundle iss)])"
proof -
  from assms [unfolded handleImportIssuer_def] consider "s' = s"
    | i e where "GetIssuer i s = (Inl e, s')"
    | (found) i b imp iss t where "idp = Some i" "body = Some b" "im_Consent b" "sv_importer sv = Some imp"
        "validMount (trim_space (im_Mount b))" "GetIssuer i s = (Inr iss, t)"
        "import_issuer imp r actor i (trim_space (im_Mount b)) iss t = (rep, s')"
    by (auto elim!: with_idE try_opE simp: Let_def split: option.splits if_splits)
  then show ?thesis
  proof cases
    case (found i b imp iss t)
    then show ?thesis using import_issuer_writes [OF found(7)] GetIssuer_effect [OF found(6)] by auto
  qed (auto dest!: GetIssuer_effect)
qed

definition example_import_db :: db where
  "example_import_db = empty_db\<lparr>t_issuers := [example_issuer]\<rparr>"

theorem vault_write_gated_witness:
  "vault_imports (snd (handleImportIssuer example_server example_request [] (Some 9) (Some \<lparr>im_Consent = True, im_Mount = ''pki''\<rparr>) example_import_db))
     = [(''pki'', ''pem'')] \<and> i_IsCA example_issuer"
proof -
  let ?h = "handleImportIssuer example_server example_request [] (Some 9) (Some \<lparr>im_Consent = True, im_Mount = ''pki''\<rparr>) example_import_db"
  have w: "vault_imports (snd ?h) = [(''pki'', ''pem'')]" by code_simp
  have "?h = (fst ?h, snd ?h)" by simp
  from vault_write_gated [OF this] w show ?thesis by (auto simp: example_import_db_def empty_db_def)
qed

text \<open>
  A catalogue import stores the new state before it looks at the renewal configuration: an answer of 400
  can leave the certificate imported.
\<close>

lemma catalog_import_partial:
  "let h = handleCatalogImport example_server (\<lambda>_. []) example_request [] (Some 5)
       (Some \<lparr>ca_Consent = True, ca_Renewal = Some (lb_Config example_body\<lparr>rc_Role := []\<rparr>)\<rparr>) example_named in
   reply_code (fst h) = 400 \<and> map c_ManagedStatus (t_certificates (snd h)) = [''imported'']"
  by code_simp

section \<open>The inventory document\<close>

lemma Build_cns: "set (map ih_cn (Build ustr seen cs)) \<inter> set seen = {} \<and> distinct (map ih_cn (Build ustr seen cs))"
  by (induction ustr seen cs rule: Build.induct) (auto split: option.splits)

text \<open>Each host appears once, under the first certificate with that name, and every group is one of a host.\<close>

lemma Build_first:
  assumes "cert \<in> set cs" and "c_RenewalConfig cert \<noteq> None" and "cn_of cert \<noteq> []" and "cn_of cert \<notin> set seen"
  shows "cn_of cert \<in> set (map ih_cn (Build ustr seen cs))"
  using assms
proof (induction ustr seen cs rule: Build.induct)
  case (2 ustr seen c cs)
  then show ?case by (cases "cn_of c = cn_of cert") (auto split: option.splits)
qed simp

end
