(* ===== verification/Posture.thy ===== *)
theory Posture
  imports Api_Handlers
begin

text \<open>
  Explainable posture: the operational classifier of \<^verbatim>\<open>internal/report/insight.go\<close>, its findings
  (\<^verbatim>\<open>internal/posture/ops.go\<close>), stored findings and waivers (\<^verbatim>\<open>internal/store/findings.go\<close>,
  \<^verbatim>\<open>internal/store/waivers.go\<close>), the recomputation of a certificate's risk (\<^verbatim>\<open>recompute.go\<close>) and the
  handlers of \<^verbatim>\<open>internal/api/handlers_posture.go\<close>. The collation the database sorts text by is a rank
  function. The column \<^verbatim>\<open>created_at\<close> of findings is left out.
\<close>

section \<open>Insights\<close>

record insight =
  in_Category :: string
  in_Type :: string
  in_Severity :: string
  in_Recommendation :: string
  in_SubjectCN :: string
  in_Fingerprint :: string
  in_IssuerDN :: string
  in_Description :: string
  in_Tags :: "string list"
  in_Metadata :: "(string \<times> string) list"

definition isWeakKey :: "certificate \<Rightarrow> bool" where
  "isWeakKey c \<longleftrightarrow> equal_fold (c_KeyType c) ''RSA'' \<and> c_KeyBits c > 0 \<and> c_KeyBits c < 2048"

definition certTags :: "certificate \<Rightarrow> string list" where
  "certTags c = (if c_CertScope c \<noteq> [] then [c_CertScope c] else []) @ (if c_ManagedStatus c \<noteq> [] then [c_ManagedStatus c] else [])"

definition mk_insight :: "certificate \<Rightarrow> string \<Rightarrow> string \<Rightarrow> string \<Rightarrow> string \<Rightarrow> string \<Rightarrow> insight" where
  "mk_insight c category ty severity rec desc = \<lparr>in_Category = category, in_Type = ty, in_Severity = severity,
     in_Recommendation = rec, in_SubjectCN = cn_of c, in_Fingerprint = c_FingerprintSHA256 c, in_IssuerDN = c_IssuerDN c,
     in_Description = desc, in_Tags = certTags c, in_Metadata = []\<rparr>"

definition ClassifyCertificate :: "certificate \<Rightarrow> insight list" where
  "ClassifyCertificate c =
     (if c_Status c = ''expired''
      then [mk_insight c ''certificate'' ''expired'' ''high'' ''plan_renewal'' ''Certificate has expired but is still served on the wire'']
      else if c_Status c = ''revoked''
      then [mk_insight c ''certificate'' ''revoked'' ''critical'' ''plan_renewal'' ''Certificate is revoked in Vault but still served on the wire'']
      else if c_Status c = ''expiring_soon''
      then [(mk_insight c ''certificate'' ''expiring_soon'' ''medium'' ''plan_renewal''
          (''Certificate expires in '' @ itoa (c_DaysUntilExpiry c) @ '' day(s)''))
          \<lparr>in_Metadata := [(''days_until_expiry'', itoa (c_DaysUntilExpiry c))]\<rparr>]
      else []) @
     (if c_ChainStatus c = ''incomplete''
      then [mk_insight c ''issuer'' ''incomplete_chain'' ''medium'' ''rescan'' ''Presented chain is incomplete; import the intermediate and rescan'']
      else if c_ChainStatus c = ''untrusted_root''
      then [mk_insight c ''issuer'' ''untrusted_root'' ''medium'' ''import_ca'' ''Chain terminates in an untrusted root'']
      else []) @
     (if \<not> c_HostnameMatchesSAN c
      then [mk_insight c ''certificate'' ''san_mismatch'' ''low'' ''fix_san'' ''Observed hostname does not match certificate SANs''] else []) @
     (if isWeakKey c
      then [mk_insight c ''certificate'' ''weak_key'' ''high'' ''plan_renewal'' (''Weak key: '' @ c_KeyType c @ '' '' @ itoa (c_KeyBits c) @ ''-bit'')]
      else []) @
     (if c_ManagedStatus c = ''unmanaged''
      then [if c_CertScope c = ''external''
            then mk_insight c ''governance'' ''shadow_external'' ''info'' ''monitor_external'' ''External (public CA) certificate not managed by Vault''
            else mk_insight c ''governance'' ''shadow_internal'' ''low'' ''reconcile_vault'' ''Internal certificate on the wire but not matched to Vault PKI'']
      else [])"

section \<open>Operational findings\<close>

definition hasSC081ExpiryViolation :: "finding list \<Rightarrow> bool" where
  "hasSC081ExpiryViolation fs \<longleftrightarrow> list_ex (\<lambda>f. Pack f = ''sc081'' \<and> Severity f \<noteq> ''info'' \<and>
     RuleID f \<in> {''sc081.expiry.expired'', ''sc081.expiry.critical'', ''sc081.expiry.warning''}) fs"

definition opsRuleID :: "insight \<Rightarrow> string" where
  "opsRuleID i = (if in_Type i = [] then [] else ''ops.'' @ in_Type i)"

definition opsTitle :: "insight \<Rightarrow> string" where
  "opsTitle i =
     (if in_Type i = ''expired'' then ''Certificate expired on the wire''
      else if in_Type i = ''revoked'' then ''Revoked certificate still served''
      else if in_Type i = ''expiring_soon'' then ''Certificate expiring soon''
      else if in_Type i = ''incomplete_chain'' then ''Incomplete certificate chain''
      else if in_Type i = ''untrusted_root'' then ''Untrusted root''
      else if in_Type i = ''san_mismatch'' then ''Hostname / SAN mismatch''
      else if in_Type i = ''weak_key'' then ''Weak key''
      else if in_Type i = ''shadow_external'' then ''External shadow certificate''
      else if in_Type i = ''shadow_internal'' then ''Internal shadow certificate''
      else ''Operational finding ('' @ in_Type i @ '')'')"

definition EvaluateOps :: "certificate \<Rightarrow> finding list \<Rightarrow> finding list" where
  "EvaluateOps c sc081 =
     map (\<lambda>i. \<lparr>RuleID = opsRuleID i, Pack = ''ops'', Severity = in_Severity i, FTitle = opsTitle i, Detail = in_Description i,
            CertID = c_ID c, Fingerprint = c_FingerprintSHA256 c, SubjectCN = cn_of c\<rparr>)
       (filter (\<lambda>i. opsRuleID i \<noteq> [] \<and> \<not> (hasSC081ExpiryViolation sc081 \<and> in_Type i \<in> {''expired'', ''expiring_soon''}))
         (ClassifyCertificate c))"

definition EvaluateCertAll :: "time \<Rightarrow> certificate \<Rightarrow> finding list" where
  "EvaluateCertAll now c = (let inp = CertInputFromStore c; sc081 = EvaluateSC081 now inp in
     sc081 @ EvaluatePCI inp @ EvaluateCrypto inp @ EvaluateOps c sc081)"

section \<open>Stored findings\<close>

record finding_upsert =
  fu_CertID :: uuid
  fu_RuleID :: string
  fu_Pack :: string
  fu_Severity :: string
  fu_Title :: string
  fu_Detail :: string
  fu_PolicyVersionID :: "uuid option"
  fu_Waived :: bool

definition severity_enum :: "string list" where
  "severity_enum = [''critical'', ''high'', ''medium'', ''low'', ''info'']"

definition refresh_finding :: "time \<Rightarrow> finding_upsert \<Rightarrow> finding_row \<Rightarrow> finding_row" where
  "refresh_finding now u f = f\<lparr>f_Pack := fu_Pack u, f_Severity := fu_Severity u, f_Title := fu_Title u, f_Detail := fu_Detail u,
     f_Status := ''open'', f_PolicyVersionID := fu_PolicyVersionID u, f_Waived := fu_Waived u, f_LastSeenAt := now,
     f_ResolvedAt := None, f_UpdatedAt := now\<rparr>"

text \<open>One \<^verbatim>\<open>INSERT ... ON CONFLICT (cert_id, rule_id) DO UPDATE\<close>.\<close>

definition upsert_finding :: "finding_upsert \<Rightarrow> unit op" where
  "upsert_finding u s =
     (if fu_Severity u \<notin> set severity_enum \<or> \<not> fk_cert (Some (fu_CertID u)) s then (Inl ErrDB, s)
      else if \<exists>f\<in>set (t_findings s). f_CertID f = fu_CertID u \<and> f_RuleID f = fu_RuleID u
      then (Inr (), s\<lparr>t_findings := upd_where (\<lambda>f. f_CertID f = fu_CertID u \<and> f_RuleID f = fu_RuleID u)
              (refresh_finding (sql_now s) u) (t_findings s)\<rparr>)
      else if \<not> pk_free f_ID (new_uuid s) (t_findings s) then (Inl ErrDB, s)
      else (Inr (), s\<lparr>db_seq := Suc (db_seq s), t_findings := t_findings s @
        [\<lparr>f_ID = new_uuid s, f_CertID = fu_CertID u, f_RuleID = fu_RuleID u, f_Pack = fu_Pack u, f_Severity = fu_Severity u,
          f_Title = fu_Title u, f_Detail = fu_Detail u, f_Status = ''open'', f_PolicyVersionID = fu_PolicyVersionID u,
          f_Waived = fu_Waived u, f_FirstSeenAt = sql_now s, f_LastSeenAt = sql_now s, f_ResolvedAt = None, f_UpdatedAt = sql_now s\<rparr>]\<rparr>))"

primrec upsert_findings :: "finding_upsert list \<Rightarrow> unit op" where
  "upsert_findings [] = (\<lambda>s. (Inr (), s))"
| "upsert_findings (u # us) = bind_op (upsert_finding u) (\<lambda>_. upsert_findings us)"

definition resolve_missing :: "uuid \<Rightarrow> string list \<Rightarrow> unit op" where
  "resolve_missing certID seen s = (Inr (), s\<lparr>t_findings :=
     upd_where (\<lambda>f. f_CertID f = certID \<and> f_Status f = ''open'' \<and> f_RuleID f \<notin> set seen)
       (\<lambda>f. f\<lparr>f_Status := ''resolved'', f_ResolvedAt := Some (sql_now s), f_UpdatedAt := sql_now s\<rparr>) (t_findings s)\<rparr>)"

definition is_open :: "uuid \<Rightarrow> finding_row \<Rightarrow> bool" where
  "is_open certID f \<longleftrightarrow> f_CertID f = certID \<and> f_Status f = ''open''"

definition ListOpenFindings :: "(string \<Rightarrow> nat) \<Rightarrow> uuid \<Rightarrow> finding_row list op" where
  "ListOpenFindings collate certID = db_call (\<lambda>s.
     (Inr (sort_key (\<lambda>f. (collate (f_Pack f), collate (f_RuleID f))) (filter (is_open certID) (t_findings s))), s))"

definition UpsertFindings :: "(string \<Rightarrow> nat) \<Rightarrow> uuid \<Rightarrow> finding_upsert list \<Rightarrow> finding_row list op" where
  "UpsertFindings collate certID current =
     bind_op (db_call (bind_op (upsert_findings current) (\<lambda>_. resolve_missing certID (map fu_RuleID current))))
       (\<lambda>_. ListOpenFindings collate certID)"

definition ListFindingsForScan :: "(string \<Rightarrow> nat) \<Rightarrow> uuid \<Rightarrow> finding_row list op" where
  "ListFindingsForScan collate scanID = db_call (\<lambda>s.
     (Inr (sort_key (\<lambda>f. (collate (f_Severity f), collate (f_Pack f), collate (f_RuleID f)))
        (filter (\<lambda>f. f_Status f = ''open'' \<and> (\<exists>ob\<in>set (t_observations s). o_CertificateID ob = f_CertID f \<and> o_ScanID ob = scanID))
          (t_findings s))), s))"

definition UpdateCertificateRisk :: "uuid \<Rightarrow> int \<Rightarrow> risk_reason list \<Rightarrow> unit op" where
  "UpdateCertificateRisk certID score reasons = db_call (\<lambda>s.
     if hits (\<lambda>c. c_ID c = certID) (t_certificates s) = 0 then (Inl ErrCertificateNotFound, s)
     else (Inr (), s\<lparr>t_certificates := upd_where (\<lambda>c. c_ID c = certID)
       (\<lambda>c. c\<lparr>c_RiskScore := score, c_RiskReasons := reasons, c_UpdatedAt := sql_now s\<rparr>) (t_certificates s)\<rparr>))"

definition CurrentOpsPolicyVersionID :: "uuid option op" where
  "CurrentOpsPolicyVersionID = db_call (\<lambda>s.
     (Inr (case pick (\<lambda>p. pv_Kind p = ''ops'') (\<lambda>p. - pv_Version p) 1 (t_policies s) of [] \<Rightarrow> None | p # _ \<Rightarrow> Some (pv_ID p)), s))"

text \<open>The counts by tag: the four known tags first at zero, then every tag of the table.\<close>

definition CountPQCTags :: "(string \<Rightarrow> int) op" where
  "CountPQCTags = db_call (\<lambda>s. (Inr (\<lambda>tag. int (hits (\<lambda>c. c_PQCTag c = tag) (t_certificates s))), s))"

section \<open>Waivers\<close>

definition waiver_active :: "uuid \<Rightarrow> string \<Rightarrow> time \<Rightarrow> waiver \<Rightarrow> bool" where
  "waiver_active certID ruleID now w \<longleftrightarrow> w_CertID w = certID \<and> w_RuleID w = ruleID \<and> w_RevokedAt w = None \<and> w_ExpiresAt w > now"

definition ActiveWaiver :: "uuid \<Rightarrow> string \<Rightarrow> time \<Rightarrow> waiver option op" where
  "ActiveWaiver certID ruleID now = db_call (\<lambda>s.
     (Inr (case pick (waiver_active certID ruleID now) (\<lambda>w. - w_ExpiresAt w) 1 (t_waivers s) of [] \<Rightarrow> None | w # _ \<Rightarrow> Some w), s))"

definition ListWaiversForCert :: "uuid \<Rightarrow> waiver list op" where
  "ListWaiversForCert certID = db_call (\<lambda>s.
     (Inr (sort_key (\<lambda>w. - w_CreatedAt w) (filter (\<lambda>w. w_CertID w = certID) (t_waivers s))), s))"

definition CreateWaiver :: "uuid \<Rightarrow> string \<Rightarrow> string \<Rightarrow> string \<Rightarrow> time \<Rightarrow> waiver op" where
  "CreateWaiver certID ruleID reason actor expiresAt s =
     (if actor = [] then (Inl ErrWaiverActorRequired, s)
      else if reason = [] then (Inl ErrWaiverReasonRequired, s)
      else if \<not> expiresAt > go_now s then (Inl ErrWaiverExpired, s)
      else db_call (\<lambda>s.
        if \<not> fk_cert (Some certID) s \<or> \<not> pk_free w_ID (new_uuid s) (t_waivers s) then (Inl ErrDB, s)
        else let w = \<lparr>w_ID = new_uuid s, w_CertID = certID, w_RuleID = ruleID, w_Reason = reason, w_CreatedBy = actor,
                 w_ExpiresAt = expiresAt, w_CreatedAt = sql_now s, w_RevokedAt = None\<rparr> in
          (Inr w, s\<lparr>db_seq := Suc (db_seq s), t_waivers := t_waivers s @ [w]\<rparr>)) s)"

definition RevokeWaiver :: "uuid \<Rightarrow> unit op" where
  "RevokeWaiver i = db_call (\<lambda>s.
     let p = (\<lambda>w. w_ID w = i \<and> w_RevokedAt w = None) in
     if hits p (t_waivers s) = 0 then (Inl ErrWaiverNotFound, s)
     else (Inr (), s\<lparr>t_waivers := upd_where p (\<lambda>w. w\<lparr>w_RevokedAt := Some (sql_now s)\<rparr>) (t_waivers s)\<rparr>))"

definition GetWaiver :: "uuid \<Rightarrow> waiver op" where
  "GetWaiver i = db_call (\<lambda>s. case List.find (\<lambda>w. w_ID w = i) (t_waivers s) of
     None \<Rightarrow> (Inl ErrWaiverNotFound, s) | Some w \<Rightarrow> (Inr w, s))"

section \<open>Recomputation\<close>

definition reason_of :: "finding_row \<Rightarrow> risk_reason" where
  "reason_of r = \<lparr>rr_RuleID = f_RuleID r, rr_Pack = f_Pack r, rr_Severity = f_Severity r, rr_Title = f_Title r,
     rr_Score = ScoreSeverity (f_Severity r), rr_Waived = f_Waived r\<rparr>"

fun score_loop :: "finding_row list \<Rightarrow> int \<Rightarrow> int" where
  "score_loop [] score = score"
| "score_loop (r # rs) score =
     score_loop rs (if \<not> f_Waived r \<and> ScoreSeverity (f_Severity r) > score then ScoreSeverity (f_Severity r) else score)"

definition scoreFromFindings :: "finding_row list \<Rightarrow> int \<times> risk_reason list" where
  "scoreFromFindings rows = (score_loop rows 0, map reason_of rows)"

primrec with_waivers :: "uuid \<Rightarrow> uuid option \<Rightarrow> time \<Rightarrow> finding list \<Rightarrow> finding_upsert list op" where
  "with_waivers certID policyID now [] = (\<lambda>s. (Inr [], s))"
| "with_waivers certID policyID now (f # fs) =
     bind_op (ActiveWaiver certID (RuleID f) now) (\<lambda>w.
     bind_op (with_waivers certID policyID now fs) (\<lambda>us s.
       (Inr (\<lparr>fu_CertID = certID, fu_RuleID = RuleID f, fu_Pack = Pack f, fu_Severity = Severity (MapFindingForPersist f),
              fu_Title = FTitle f, fu_Detail = Detail f, fu_PolicyVersionID = policyID, fu_Waived = (w \<noteq> None)\<rparr> # us), s)))"

definition RecomputeCert :: "(string \<Rightarrow> nat) \<Rightarrow> uuid \<Rightarrow> certificate op" where
  "RecomputeCert collate certID =
     bind_op (GetCertificate certID) (\<lambda>cert.
     bind_op CurrentOpsPolicyVersionID (\<lambda>policyID s.
       bind_op (with_waivers (c_ID cert) policyID (go_now s) (EvaluateCertAll (go_now s) cert)) (\<lambda>upserts.
       bind_op (UpsertFindings collate (c_ID cert) upserts) (\<lambda>rows.
         case scoreFromFindings rows of (score, reasons) \<Rightarrow>
         bind_op (UpdateCertificateRisk (c_ID cert) score reasons) (\<lambda>_. GetCertificate (c_ID cert)))) s))"

text \<open>The paging loop, each page read from the store as it is then; \<open>None\<close> is a loop that never ends.\<close>

partial_function (option) load_scan_pages :: "certificate_filter \<Rightarrow> certificate list \<Rightarrow> db \<Rightarrow> ((error + certificate list) \<times> db) option" where
  "load_scan_pages f all s =
     (case ListCertificates f s of (Inl e, s') \<Rightarrow> Some (Inl e, s')
      | (Inr (batch, tot), s') \<Rightarrow>
         (let all' = all @ batch; offset' = cf_Offset f + int (length batch) in
          if offset' \<ge> tot \<or> length batch = 0 then Some (Inr all', s')
          else load_scan_pages (f\<lparr>cf_Offset := offset'\<rparr>) all' s'))"

definition loadScanCerts :: "uuid \<Rightarrow> db \<Rightarrow> ((error + certificate list) \<times> db) option" where
  "loadScanCerts scanID = load_scan_pages (zero_filter\<lparr>cf_ScanID := scanID, cf_Limit := 500, cf_Offset := 0\<rparr>) []"

primrec recompute_all :: "(string \<Rightarrow> nat) \<Rightarrow> certificate list \<Rightarrow> unit op" where
  "recompute_all collate [] = (\<lambda>s. (Inr (), s))"
| "recompute_all collate (c # cs) = bind_op (RecomputeCert collate (c_ID c)) (\<lambda>_. recompute_all collate cs)"

definition RecomputeScan :: "(string \<Rightarrow> nat) \<Rightarrow> uuid \<Rightarrow> db \<Rightarrow> ((error + unit) \<times> db) option" where
  "RecomputeScan collate scanID s = (case loadScanCerts scanID s of None \<Rightarrow> None
     | Some (Inl e, s') \<Rightarrow> Some (Inl e, s')
     | Some (Inr certs, s') \<Rightarrow> Some (recompute_all collate certs s'))"

section \<open>Handlers\<close>

text \<open>The failure is logged and dropped.\<close>

definition maybeRecomputePostureAfterScan :: "(string \<Rightarrow> nat) \<Rightarrow> uuid \<Rightarrow> db \<Rightarrow> db option" where
  "maybeRecomputePostureAfterScan collate scanID s = map_option snd (RecomputeScan collate scanID s)"

definition handleListCertFindings :: "(string \<Rightarrow> nat) \<Rightarrow> request \<Rightarrow> uuid option \<Rightarrow> finding_row list handler" where
  "handleListCertFindings collate r idp = with_id r ''invalid certificate id'' idp (\<lambda>i.
     try_op (ListOpenFindings collate i) (\<lambda>e. writeServerError r e ''failed to list findings'') (writeJSON 200))"

definition handleListCertWaivers :: "request \<Rightarrow> uuid option \<Rightarrow> waiver list handler" where
  "handleListCertWaivers r idp = with_id r ''invalid certificate id'' idp (\<lambda>i.
     try_op (ListWaiversForCert i) (\<lambda>e. writeServerError r e ''failed to list waivers'') (writeJSON 200))"

record create_waiver_request =
  cw_RuleID :: string
  cw_Reason :: string
  cw_ExpiresAt :: time

definition handleCreateCertWaiver :: "(string \<Rightarrow> nat) \<Rightarrow> request \<Rightarrow> string \<Rightarrow> uuid option \<Rightarrow> create_waiver_request option \<Rightarrow> waiver handler" where
  "handleCreateCertWaiver collate r actor idp body = with_id r ''invalid certificate id'' idp (\<lambda>i.
     if actor = [] then writeError r 401 ''unauthorized''
     else case body of None \<Rightarrow> writeError r 400 ''invalid request body''
     | Some req \<Rightarrow>
       try_op (CreateWaiver i (cw_RuleID req) (cw_Reason req) actor (cw_ExpiresAt req))
         (\<lambda>e. if e = ErrWaiverExpired then writeError r 400 ''expires_at must be in the future''
               else writeServerError r e ''failed to create waiver'')
         (\<lambda>wvr s. let s' = ignore (RecomputeCert collate i) s in
            audited r actor ''create_waiver'' ''certificate'' (\<lambda>s. db_ustr s i)
              (Some (JObj [(''rule_id'', JStr (cw_RuleID req)), (''waiver_id'', JStr (db_ustr s' (w_ID wvr)))])) (writeJSON 201 wvr) s'))"

definition waiver_lookup_error :: "request \<Rightarrow> string \<Rightarrow> error \<Rightarrow> 'a handler" where
  "waiver_lookup_error r msg e = writeLookupError r e ErrWaiverNotFound ''waiver not found'' msg"

definition handleRevokeWaiver :: "(string \<Rightarrow> nat) \<Rightarrow> request \<Rightarrow> string \<Rightarrow> uuid option \<Rightarrow> unit handler" where
  "handleRevokeWaiver collate r actor idp = with_id r ''invalid waiver id'' idp (\<lambda>i.
     try_op (GetWaiver i) (waiver_lookup_error r ''failed to load waiver'') (\<lambda>wvr.
     try_op (RevokeWaiver i) (waiver_lookup_error r ''failed to revoke waiver'') (\<lambda>_ s.
       let s' = ignore (RecomputeCert collate (w_CertID wvr)) s in
       audited r actor ''revoke_waiver'' ''waiver'' (\<lambda>s. db_ustr s i)
         (Some (JObj [(''cert_id'', JStr (db_ustr s' (w_CertID wvr))), (''rule_id'', JStr (w_RuleID wvr))])) (writeJSON 204 ()) s')))"

definition handlePQCInventory :: "request \<Rightarrow> (string \<Rightarrow> int) handler" where
  "handlePQCInventory r = try_op CountPQCTags (\<lambda>e. writeServerError r e ''failed to count pqc tags'') (writeJSON 200)"

definition handleListScanFindings :: "(string \<Rightarrow> nat) \<Rightarrow> request \<Rightarrow> uuid option \<Rightarrow> finding_row list handler" where
  "handleListScanFindings collate r idp = with_id r ''invalid scan id'' idp (\<lambda>i.
     try_op (GetScan i) (\<lambda>e. writeLookupError r e ErrScanNotFound ''scan not found'' ''failed to load scan'') (\<lambda>_.
     try_op (ListFindingsForScan collate i) (\<lambda>e. writeServerError r e ''failed to list findings'') (writeJSON 200)))"

definition handlePatchCertificate :: "(string \<Rightarrow> nat) \<Rightarrow> request \<Rightarrow> uuid option \<Rightarrow> enrichment_update option \<Rightarrow> certificate handler" where
  "handlePatchCertificate collate r idp body = with_id r ''invalid certificate id'' idp (\<lambda>i.
     case body of None \<Rightarrow> writeError r 400 ''invalid request body''
     | Some req \<Rightarrow>
       try_op (UpdateCertificateEnrichment i req) (\<lambda>e. writeServerError r e ''failed to update certificate'') (\<lambda>cert s.
         case RecomputeCert collate i s of (Inr recomputed, s') \<Rightarrow> writeJSON 200 recomputed s' | (Inl _, s') \<Rightarrow> writeJSON 200 cert s'))"

section \<open>What a recomputation establishes\<close>

definition active_in :: "waiver list \<Rightarrow> uuid \<Rightarrow> time \<Rightarrow> string \<Rightarrow> bool" where
  "active_in ws i now rule \<longleftrightarrow> (\<exists>w\<in>set ws. waiver_active i rule now w)"

definition upsert_of :: "waiver list \<Rightarrow> uuid \<Rightarrow> uuid option \<Rightarrow> time \<Rightarrow> finding \<Rightarrow> finding_upsert" where
  "upsert_of ws i policyID now f = \<lparr>fu_CertID = i, fu_RuleID = RuleID f, fu_Pack = Pack f,
     fu_Severity = MapPackSeverity (Pack f) (Severity f), fu_Title = FTitle f, fu_Detail = Detail f,
     fu_PolicyVersionID = policyID, fu_Waived = active_in ws i now (RuleID f)\<rparr>"

lemma bind_op_InrE:
  assumes "bind_op m f s = (Inr v, s')"
  obtains x t where "m s = (Inr x, t)" "f x t = (Inr v, s')"
  using assms by (auto simp: bind_op_def split: prod.splits sum.splits)

lemma ActiveWaiver_result:
  assumes "ActiveWaiver i rule now s = (Inr w, s')"
  shows "w \<noteq> None \<longleftrightarrow> active_in (t_waivers s) i now rule" and "s' = next_step s"
proof -
  let ?p = "pick (waiver_active i rule now) (\<lambda>w. - w_ExpiresAt w) 1 (t_waivers s)"
  have w: "w = (case ?p of [] \<Rightarrow> None | w # _ \<Rightarrow> Some w)" and s': "s' = next_step s"
    using assms by (auto simp: ActiveWaiver_def dest: db_call_Inr)
  have "?p = [] \<longleftrightarrow> \<not> active_in (t_waivers s) i now rule"
    by (metis pick_def active_in_def filter_empty_conv length_0_conv length_sort take_eq_Nil One_nat_def nat.distinct(1))
  then show "w \<noteq> None \<longleftrightarrow> active_in (t_waivers s) i now rule" by (auto simp: w split: list.splits)
  show "s' = next_step s" by (rule s')
qed

lemma with_waivers_result:
  assumes "with_waivers i policyID now fs s = (Inr us, s')"
  shows "us = map (upsert_of (t_waivers s) i policyID now) fs \<and> t_findings s' = t_findings s \<and>
    t_certificates s' = t_certificates s"
  using assms
proof (induction fs arbitrary: s us)
  case (Cons f fs)
  from Cons.prems obtain w t us' t' where w: "ActiveWaiver i (RuleID f) now s = (Inr w, t)"
    and us': "with_waivers i policyID now fs t = (Inr us', t')" and s': "s' = t'"
    and us: "us = \<lparr>fu_CertID = i, fu_RuleID = RuleID f, fu_Pack = Pack f, fu_Severity = Severity (MapFindingForPersist f),
              fu_Title = FTitle f, fu_Detail = Detail f, fu_PolicyVersionID = policyID, fu_Waived = (w \<noteq> None)\<rparr> # us'"
    by (auto elim!: bind_op_InrE)
  from Cons.IH us' s' have "us' = map (upsert_of (t_waivers t) i policyID now) fs \<and> t_findings s' = t_findings t \<and>
    t_certificates s' = t_certificates t" by blast
  then show ?case using ActiveWaiver_result [OF w] us by (simp add: upsert_of_def MapFindingForPersist_def)
qed simp

text \<open>The rows a transaction of upserts leaves: those it does not address, and those it wrote.\<close>

definition addressed :: "finding_upsert list \<Rightarrow> finding_row \<Rightarrow> bool" where
  "addressed us f \<longleftrightarrow> (\<exists>u\<in>set us. fu_CertID u = f_CertID f \<and> fu_RuleID u = f_RuleID f)"

definition written :: "finding_upsert \<Rightarrow> finding_row \<Rightarrow> bool" where
  "written u f \<longleftrightarrow> f_CertID f = fu_CertID u \<and> f_RuleID f = fu_RuleID u \<and> f_Pack f = fu_Pack u \<and> f_Severity f = fu_Severity u \<and>
     f_Title f = fu_Title u \<and> f_Waived f = fu_Waived u \<and> f_Status f = ''open''"

lemma upsert_finding_effect:
  assumes "upsert_finding u s = (Inr (), s')"
  shows "filter (\<lambda>f. \<not> addressed [u] f) (t_findings s') = filter (\<lambda>f. \<not> addressed [u] f) (t_findings s)"
    and "\<forall>f\<in>set (t_findings s'). addressed [u] f \<longrightarrow> written u f" and "\<exists>f\<in>set (t_findings s'). written u f"
    and "t_certificates s' = t_certificates s"
proof -
  let ?p = "\<lambda>f. f_CertID f = fu_CertID u \<and> f_RuleID f = fu_RuleID u"
  have k: "addressed [u] f \<longleftrightarrow> ?p f" for f by (auto simp: addressed_def)
  have w: "written u (refresh_finding now u f)" if "?p f" for f now using that by (simp add: written_def refresh_finding_def)
  have flt: "filter (\<lambda>f. f_CertID f = fu_CertID u \<longrightarrow> f_RuleID f \<noteq> fu_RuleID u) (upd_where ?p (refresh_finding now u) fs)
      = filter (\<lambda>f. f_CertID f = fu_CertID u \<longrightarrow> f_RuleID f \<noteq> fu_RuleID u) fs" for fs now
    by (induction fs) (auto simp: upd_where_def refresh_finding_def)
  note defs = upsert_finding_def k set_upd_where
  show "filter (\<lambda>f. \<not> addressed [u] f) (t_findings s') = filter (\<lambda>f. \<not> addressed [u] f) (t_findings s)"
    using assms by (auto simp: defs flt split: if_splits)
  show "\<forall>f\<in>set (t_findings s'). addressed [u] f \<longrightarrow> written u f"
    using assms w by (auto simp: defs written_def split: if_splits)
  show "\<exists>f\<in>set (t_findings s'). written u f"
    using assms w by (fastforce simp: defs written_def split: if_splits)
  show "t_certificates s' = t_certificates s" using assms by (auto simp: defs split: if_splits)
qed

lemma upsert_findings_effect:
  assumes "upsert_findings us s = (Inr (), s')"
  shows "filter (\<lambda>f. \<not> addressed us f) (t_findings s') = filter (\<lambda>f. \<not> addressed us f) (t_findings s) \<and>
    (\<forall>f\<in>set (t_findings s'). addressed us f \<longrightarrow> (\<exists>u\<in>set us. written u f)) \<and>
    (\<forall>u\<in>set us. \<exists>f\<in>set (t_findings s'). f_CertID f = fu_CertID u \<and> f_RuleID f = fu_RuleID u) \<and>
    t_certificates s' = t_certificates s"
  using assms
proof (induction us arbitrary: s)
  case (Cons u us)
  from Cons.prems obtain t where u: "upsert_finding u s = (Inr (), t)" and us: "upsert_findings us t = (Inr (), s')"
    by (auto elim!: bind_op_InrE)
  note h = upsert_finding_effect [OF u] and ih = Cons.IH [OF us]
  have ad: "addressed (u # us) f \<longleftrightarrow> addressed [u] f \<or> addressed us f" for f by (auto simp: addressed_def)
  have kept: "f \<in> set (t_findings s') \<longleftrightarrow> f \<in> set (t_findings t)" if "\<not> addressed us f" for f
    using that arg_cong [OF conjunct1 [OF ih], of set] by auto
  have "filter (\<lambda>f. \<not> addressed (u # us) f) (t_findings s') = filter (\<lambda>f. \<not> addressed [u] f) (filter (\<lambda>f. \<not> addressed us f) (t_findings s'))"
    by (rule trans [OF _ filter_filter [symmetric]]) (simp add: ad conj_commute)
  also have "\<dots> = filter (\<lambda>f. \<not> addressed us f) (filter (\<lambda>f. \<not> addressed [u] f) (t_findings t))"
    using ih by (simp add: conj_commute)
  also have "\<dots> = filter (\<lambda>f. \<not> addressed (u # us) f) (t_findings s)"
    by (simp add: h(1)) (simp add: ad conj_commute)
  moreover have "\<exists>f\<in>set (t_findings s'). f_CertID f = fu_CertID u \<and> f_RuleID f = fu_RuleID u"
  proof -
    obtain f where f: "f \<in> set (t_findings t)" "written u f" using h(3) by blast
    show ?thesis
    proof (cases "addressed us f")
      case True
      then obtain v where "v \<in> set us" "fu_CertID v = fu_CertID u" "fu_RuleID v = fu_RuleID u"
        using f(2) by (auto simp: addressed_def written_def)
      then show ?thesis using ih by fastforce
    next
      case False
      then show ?thesis using f kept by (auto simp: written_def)
    qed
  qed
  moreover have "\<forall>f\<in>set (t_findings s'). addressed (u # us) f \<longrightarrow> (\<exists>v\<in>set (u # us). written v f)"
    using ih h(2) kept ad by (metis list.set_intros(1,2))
  ultimately show ?case using ih h(4) by simp
qed (simp add: addressed_def)

text \<open>The rows after the whole transaction, seen from the certificate.\<close>

lemma UpsertFindings_effect:
  assumes "UpsertFindings collate i us s = (Inr rows, s')" and "\<forall>u\<in>set us. fu_CertID u = i"
  shows "rows = sort_key (\<lambda>f. (collate (f_Pack f), collate (f_RuleID f))) (filter (is_open i) (t_findings s'))"
    and "f_RuleID ` set (filter (is_open i) (t_findings s')) = fu_RuleID ` set us"
    and "\<forall>f\<in>set (filter (is_open i) (t_findings s')). \<exists>u\<in>set us. written u f"
    and "filter (\<lambda>f. f_CertID f \<noteq> i) (t_findings s') = filter (\<lambda>f. f_CertID f \<noteq> i) (t_findings s)"
    and "t_certificates s' = t_certificates s"
proof -
  let ?stale = "\<lambda>f. f_CertID f = i \<and> f_Status f = ''open'' \<and> f_RuleID f \<notin> set (map fu_RuleID us)"
  let ?res = "\<lambda>now f. f\<lparr>f_Status := ''resolved'', f_ResolvedAt := Some now, f_UpdatedAt := now\<rparr>"
  from assms(1) obtain t where rows: "rows = sort_key (\<lambda>f. (collate (f_Pack f), collate (f_RuleID f))) (filter (is_open i) (t_findings s'))"
    and us: "upsert_findings us s = (Inr (), t)" and cs: "t_certificates s' = t_certificates t"
    and fs: "t_findings s' = upd_where ?stale (?res (sql_now t)) (t_findings t)"
    by (auto simp: UpsertFindings_def ListOpenFindings_def resolve_missing_def elim!: bind_op_InrE dest!: db_call_Inr)
  note e = upsert_findings_effect [OF us]
  show "rows = sort_key (\<lambda>f. (collate (f_Pack f), collate (f_RuleID f))) (filter (is_open i) (t_findings s'))" by (rule rows)
  have op: "f \<in> set (filter (is_open i) (t_findings s')) \<longleftrightarrow> f \<in> set (t_findings t) \<and> is_open i f \<and> f_RuleID f \<in> fu_RuleID ` set us" for f
  proof -
    have "\<not> is_open i (?res now f)" for now f by (simp add: is_open_def)
    then have "f \<in> set (filter (is_open i) (t_findings s')) \<longleftrightarrow> f \<in> set (t_findings t) \<and> is_open i f \<and> \<not> ?stale f"
      unfolding fs set_filter set_upd_where by blast
    then show ?thesis unfolding is_open_def by auto
  qed
  have ad: "addressed us f \<longleftrightarrow> f_CertID f = i \<and> f_RuleID f \<in> fu_RuleID ` set us" for f
    using assms(2) unfolding addressed_def image_iff by metis
  show wr: "\<forall>f\<in>set (filter (is_open i) (t_findings s')). \<exists>u\<in>set us. written u f"
  proof
    fix f assume "f \<in> set (filter (is_open i) (t_findings s'))"
    then have "f \<in> set (t_findings t)" "addressed us f" unfolding op ad is_open_def by auto
    then show "\<exists>u\<in>set us. written u f" using e by blast
  qed
  have "\<exists>f. f \<in> set (filter (is_open i) (t_findings s')) \<and> f_RuleID f = fu_RuleID u" if "u \<in> set us" for u
  proof -
    from e that assms(2) obtain f where f: "f \<in> set (t_findings t)" "f_CertID f = i" "f_RuleID f = fu_RuleID u" by fastforce
    then have "addressed us f" using that by (auto simp: ad)
    then have "f_Status f = ''open''" using e f by (auto simp: written_def)
    then have "f \<in> set (filter (is_open i) (t_findings s'))" unfolding op is_open_def using f that by auto
    then show ?thesis using f(3) by blast
  qed
  then show "f_RuleID ` set (filter (is_open i) (t_findings s')) = fu_RuleID ` set us"
    using op by (auto simp: image_iff) metis
  have "filter (\<lambda>f. f_CertID f \<noteq> i) (upd_where ?stale (?res now) fs) = filter (\<lambda>f. f_CertID f \<noteq> i) fs" for now fs
    by (induction fs) (auto simp: upd_where_def)
  moreover have "filter (\<lambda>f. f_CertID f \<noteq> i) (t_findings t) = filter (\<lambda>f. f_CertID f \<noteq> i) (t_findings s)"
  proof -
    have "filter (\<lambda>f. f_CertID f \<noteq> i) (filter (\<lambda>f. \<not> addressed us f) fs) = filter (\<lambda>f. f_CertID f \<noteq> i) fs" for fs
      by (induction fs) (auto simp: ad)
    then show ?thesis using e by metis
  qed
  ultimately show "filter (\<lambda>f. f_CertID f \<noteq> i) (t_findings s') = filter (\<lambda>f. f_CertID f \<noteq> i) (t_findings s)"
    unfolding fs by (rule trans)
  show "t_certificates s' = t_certificates s" using e cs by simp
qed

lemma score_loop_max:
  "score_loop rows a = Max (insert a (ScoreSeverity ` f_Severity ` {f \<in> set rows. \<not> f_Waived f}))"
proof (induction rows a rule: score_loop.induct)
  case (2 r rs a)
  let ?S = "ScoreSeverity ` f_Severity ` {f \<in> set rs. \<not> f_Waived f}"
  have "finite ?S" by simp
  then have S: "Max (insert x (insert y ?S)) = Max (insert (max x y) ?S)" for x y
    by (cases "?S = {}") (simp_all only: Max_insert Max_singleton finite.insertI insert_not_empty not_False_eq_True max.assoc)
  have "ScoreSeverity ` f_Severity ` {f \<in> set (r # rs). \<not> f_Waived f} =
      (if f_Waived r then ?S else insert (ScoreSeverity (f_Severity r)) ?S)" by auto
  then show ?case using 2 by (auto simp: S max_def)
qed simp

lemma UpdateCertificateRisk_read:
  assumes "UpdateCertificateRisk i score reasons s = (Inr (), t)" and "GetCertificate i t = (Inr c, s')"
  shows "c_RiskScore c = score" and "c_RiskReasons c = reasons" and "c_ID c = i" and "t_findings s' = t_findings s"
proof -
  let ?set = "\<lambda>c. c\<lparr>c_RiskScore := score, c_RiskReasons := reasons, c_UpdatedAt := sql_now s\<rparr>"
  have t: "t_certificates t = upd_where (\<lambda>c. c_ID c = i) ?set (t_certificates s)" "t_findings t = t_findings s"
    using assms(1) by (auto simp: UpdateCertificateRisk_def split: if_splits dest!: db_call_Inr)
  from assms(2) obtain c' where c': "List.find (\<lambda>c. c_ID c = i) (t_certificates t) = Some c'" "c = select_cert t c'"
    by (auto simp: GetCertificate_def split: option.splits dest!: db_call_Inr)
  then have in_t: "c' \<in> set (t_certificates t)" and id: "c_ID c' = i" by (auto dest: find_Some_in)
  from in_t [unfolded t] obtain q where "c' = (if c_ID q = i then ?set q else q)" by (rule in_upd_whereE)
  then have "c' = ?set q" using id by metis
  then show "c_RiskScore c = score" "c_RiskReasons c = reasons" "c_ID c = i"
    using id by (simp_all add: c'(2) select_cert_def)
  show "t_findings s' = t_findings s" using GetCertificate_read [OF assms(2)] t by simp
qed

text \<open>
  C31. A recomputation makes the posture of a certificate explain itself. When it returns, the open
  findings of the certificate are exactly the rules the packs and the operational classifier raise for the
  row it read, each at its stored severity; a finding is waived exactly when a waiver of its rule is
  neither revoked nor over; the risk score is the highest score of the findings that are not waived, zero
  without any; the reasons list every open finding, the waived ones too; and no finding of another
  certificate changes.
\<close>

theorem RecomputeCert_explains:
  assumes "RecomputeCert collate i s = (Inr c, s')" and "GetCertificate i s = (Inr cert, t)"
    and "opened = filter (is_open i) (t_findings s')" and "raised = EvaluateCertAll (db_clock s (db_step s + 2)) cert"
  shows "f_RuleID ` set opened = RuleID ` set raised \<and>
    (\<forall>f\<in>set opened. (\<exists>g\<in>set raised. RuleID g = f_RuleID f \<and> f_Severity f = MapPackSeverity (Pack g) (Severity g)) \<and>
      (f_Waived f \<longleftrightarrow> (\<exists>w\<in>set (t_waivers s). waiver_active i (f_RuleID f) (db_clock s (db_step s + 2)) w))) \<and>
    c_RiskScore c = Max (insert 0 (ScoreSeverity ` f_Severity ` {f \<in> set opened. \<not> f_Waived f})) \<and>
    mset (c_RiskReasons c) = mset (map reason_of opened) \<and>
    filter (\<lambda>f. f_CertID f \<noteq> i) (t_findings s') = filter (\<lambda>f. f_CertID f \<noteq> i) (t_findings s)"
proof -
  let ?now = "db_clock s (db_step s + 2)"
  have id: "c_ID cert = i" using assms(2)
    by (auto simp: GetCertificate_def select_cert_def split: option.splits dest!: db_call_Inr find_Some_in)
  have t: "t = next_step s" using assms(2) by (rule GetCertificate_read)
  from assms(1,2) id obtain policyID t2 us t3 rows t4 t5 where pol: "CurrentOpsPolicyVersionID t = (Inr policyID, t2)"
    and us: "with_waivers i policyID (go_now t2) (EvaluateCertAll (go_now t2) cert) t2 = (Inr us, t3)"
    and rows: "UpsertFindings collate i us t3 = (Inr rows, t4)"
    and risk: "UpdateCertificateRisk i (score_loop rows 0) (map reason_of rows) t4 = (Inr (), t5)"
    and c: "GetCertificate i t5 = (Inr c, s')"
    unfolding RecomputeCert_def by (auto simp: scoreFromFindings_def elim!: bind_op_InrE)
  from pol have t2: "t2 = next_step (next_step s)" by (auto simp: CurrentOpsPolicyVersionID_def t dest!: db_call_Inr)
  then have now: "go_now t2 = ?now" by (simp add: go_now_def)
  note w = with_waivers_result [OF us, unfolded now]
  then have us_eq: "us = map (upsert_of (t_waivers s) i policyID ?now) raised" by (simp add: t2 assms(4))
  then have "\<forall>u\<in>set us. fu_CertID u = i" by (simp add: upsert_of_def)
  note e = UpsertFindings_effect [OF rows this]
  note r = UpdateCertificateRisk_read [OF risk c]
  have op: "opened = filter (is_open i) (t_findings t4)" by (simp add: assms(3) r(4))
  have "f_RuleID ` set opened = RuleID ` set raised"
    using e(2) by (simp add: op us_eq upsert_of_def image_image)
  moreover have "(\<exists>g\<in>set raised. RuleID g = f_RuleID f \<and> f_Severity f = MapPackSeverity (Pack g) (Severity g)) \<and>
      (f_Waived f \<longleftrightarrow> (\<exists>w\<in>set (t_waivers s). waiver_active i (f_RuleID f) ?now w))" if "f \<in> set opened" for f
    using that e(3) by (fastforce simp: op us_eq upsert_of_def written_def active_in_def)
  moreover have "set rows = set opened" "mset rows = mset opened" using e(1) by (simp_all add: op)
  ultimately show ?thesis using r e(4) w by (simp add: score_loop_max t2 mset_map)
qed

text \<open>A certificate past its expiry, with a waiver for one of its rules.\<close>

definition posture_store :: db where
  "posture_store = empty_db\<lparr>t_certificates := [(blank_cert 5 ''ab'')\<lparr>c_Status := ''expired''\<rparr>],
     t_waivers := [\<lparr>w_ID = 8, w_CertID = 5, w_RuleID = ''ops.shadow_internal'', w_Reason = ''accepted'', w_CreatedBy = ''me'',
       w_ExpiresAt = 10, w_CreatedAt = 0, w_RevokedAt = None\<rparr>]\<rparr>"

text \<open>Without failing calls a recomputation of a stored certificate always returns.\<close>

lemma with_waivers_total:
  assumes "\<forall>k. \<not> db_fault s k"
  shows "\<exists>us. with_waivers i policyID now fs s = (Inr us, s\<lparr>db_step := db_step s + length fs\<rparr>)"
  using assms
proof (induction fs arbitrary: s)
  case (Cons f fs)
  obtain w where "ActiveWaiver i (RuleID f) now s = (Inr w, next_step s)"
    using Cons.prems by (simp add: ActiveWaiver_def db_call_def)
  moreover obtain us where "with_waivers i policyID now fs (next_step s) = (Inr us, (next_step s)\<lparr>db_step := Suc (db_step s) + length fs\<rparr>)"
    using Cons.IH [of "next_step s"] Cons.prems by auto
  ultimately show ?case by (simp add: bind_op_def next_step_def)
qed simp

lemma pk_free_image: "pk_free key x rows \<longleftrightarrow> x \<notin> key ` set rows"
  by (auto simp: pk_free_def)

lemma upsert_findings_total:
  assumes "\<forall>u\<in>set us. fu_Severity u \<in> set severity_enum \<and> fu_CertID u = i" and "fk_cert (Some i) s"
    and "inj (db_gen s (db_step s))" and "\<forall>n\<ge>db_seq s. pk_free f_ID (db_gen s (db_step s) n) (t_findings s)"
  shows "\<exists>s'. upsert_findings us s = (Inr (), s') \<and> t_certificates s' = t_certificates s \<and> db_step s' = db_step s \<and> db_fault s' = db_fault s"
  using assms
proof (induction us arbitrary: s)
  case (Cons u us)
  let ?p = "\<lambda>f. f_CertID f = fu_CertID u \<and> f_RuleID f = fu_RuleID u"
  have free: "pk_free f_ID x (upd_where p (refresh_finding now u) fs) = pk_free f_ID x fs" for x now fs p
    by (simp add: pk_free_image keys_upd_where refresh_finding_def)
  have "\<exists>t. upsert_finding u s = (Inr (), t) \<and> t_certificates t = t_certificates s \<and> db_step t = db_step s \<and> db_fault t = db_fault s \<and>
      fk_cert (Some i) t \<and> inj (db_gen t (db_step t)) \<and> (\<forall>n\<ge>db_seq t. pk_free f_ID (db_gen t (db_step t) n) (t_findings t))"
  proof (cases "\<exists>f\<in>set (t_findings s). ?p f")
    case True
    then show ?thesis using Cons.prems by (simp add: upsert_finding_def free fk_cert_def)
  next
    case False
    then show ?thesis using Cons.prems
      by (auto simp: upsert_finding_def fk_cert_def new_uuid_def pk_free_def inj_eq)
  qed
  then obtain t where u: "upsert_finding u s = (Inr (), t)" and t: "t_certificates t = t_certificates s" "db_step t = db_step s" "db_fault t = db_fault s"
      "fk_cert (Some i) t" "inj (db_gen t (db_step t))" "\<forall>n\<ge>db_seq t. pk_free f_ID (db_gen t (db_step t) n) (t_findings t)" by blast
  then show ?case using Cons.IH [of t] Cons.prems(1) by (simp add: bind_op_def)
qed simp

lemma RecomputeCert_total:
  assumes "\<forall>k. \<not> db_fault s k" and "i \<in> c_ID ` set (t_certificates s)"
    and "\<forall>k. inj (db_gen s k)" and "\<forall>k n. pk_free f_ID (db_gen s k n) (t_findings s)"
  shows "\<exists>c s'. RecomputeCert collate i s = (Inr c, s')"
proof -
  have get: "\<exists>c. GetCertificate i t = (Inr c, next_step t) \<and> c_ID c = i"
    if ok: "\<not> db_fault t (db_step t)" and ex: "i \<in> c_ID ` set (t_certificates t)" for t
  proof -
    obtain c where "List.find (\<lambda>c. c_ID c = i) (t_certificates t) = Some c" 
      using ex by (metis (mono_tags, lifting) find_None_iff imageE not_None_eq)
    then show ?thesis using ok find_Some_in by (fastforce simp: GetCertificate_def db_call_def select_cert_def)
  qed
  obtain cert where cert: "GetCertificate i s = (Inr cert, next_step s)" "c_ID cert = i" using get assms(1,2) by blast
  let ?t = "next_step (next_step s)"
  obtain policyID where pol: "CurrentOpsPolicyVersionID (next_step s) = (Inr policyID, ?t)"
    using assms(1) by (simp add: CurrentOpsPolicyVersionID_def db_call_def)
  let ?raw = "EvaluateCertAll (go_now ?t) cert"
  let ?t3 = "?t\<lparr>db_step := db_step ?t + length ?raw\<rparr>"
  obtain us where us: "with_waivers i policyID (go_now ?t) ?raw ?t = (Inr us, ?t3)"
    using with_waivers_total [of ?t i policyID "go_now ?t" ?raw] assms(1) by auto
  have "us = map (upsert_of (t_waivers ?t) i policyID (go_now ?t)) ?raw" using with_waivers_result [OF us] by simp
  then have "\<forall>u\<in>set us. fu_Severity u \<in> set severity_enum \<and> fu_CertID u = i"
    by (auto simp: upsert_of_def MapPackSeverity_def severity_enum_def)
  then obtain t4 where t4: "upsert_findings us ?t3 = (Inr (), t4)" "t_certificates t4 = t_certificates s" "db_fault t4 = db_fault s"
    using upsert_findings_total [of us i ?t3] assms by (auto simp: fk_cert_def)
  then obtain rows t5 where rows: "UpsertFindings collate i us ?t3 = (Inr rows, t5)" "t_certificates t5 = t_certificates s" "db_fault t5 = db_fault s"
    using assms(1) by (simp add: UpsertFindings_def ListOpenFindings_def resolve_missing_def bind_op_def db_call_def)
  then have "\<exists>t6. UpdateCertificateRisk i (score_loop rows 0) (map reason_of rows) t5 = (Inr (), t6) \<and> db_fault t6 = db_fault s \<and>
      c_ID ` set (t_certificates t6) = c_ID ` set (t_certificates s)"
    using assms(1,2) by (auto simp: UpdateCertificateRisk_def db_call_def hits_0_iff keys_upd_where)
  then obtain t6 where "UpdateCertificateRisk i (score_loop rows 0) (map reason_of rows) t5 = (Inr (), t6)" "db_fault t6 = db_fault s"
      "i \<in> c_ID ` set (t_certificates t6)" using assms(2) by auto
  then show ?thesis using get [of t6] assms(1) cert pol us rows
    by (auto simp: RecomputeCert_def bind_op_def scoreFromFindings_def)
qed

theorem RecomputeCert_explains_witness:
  "\<exists>c s'. RecomputeCert (\<lambda>_. 0) 5 posture_store = (Inr c, s') \<and>
     (\<forall>f\<in>set (filter (is_open 5) (t_findings s')). f_Waived f \<longleftrightarrow> f_RuleID f = ''ops.shadow_internal'')"
proof -
  have "\<exists>c s'. RecomputeCert (\<lambda>_. 0) 5 posture_store = (Inr c, s')"
    by (rule RecomputeCert_total) (simp_all add: posture_store_def empty_db_def blank_cert_def pk_free_def inj_def)
  then obtain c s' where run: "RecomputeCert (\<lambda>_. 0) 5 posture_store = (Inr c, s')" by blast
  have "case GetCertificate 5 posture_store of (Inr c, s') \<Rightarrow> True | _ \<Rightarrow> False" by code_simp
  then obtain cert t where get: "GetCertificate 5 posture_store = (Inr cert, t)" by (auto split: prod.splits sum.splits)
  from RecomputeCert_explains [OF run get refl refl]
  have "\<forall>f\<in>set (filter (is_open 5) (t_findings s')). f_Waived f \<longleftrightarrow> f_RuleID f = ''ops.shadow_internal''"
    by (auto simp: posture_store_def waiver_active_def empty_db_def)
  with run show ?thesis by blast
qed

end
