(* ===== verification/Report.thy ===== *)
theory Report
  imports Posture
begin

text \<open>
  The scan report (\<^verbatim>\<open>internal/report\<close>: \<^verbatim>\<open>insight.go\<close>, \<^verbatim>\<open>aggregate.go\<close>, \<^verbatim>\<open>generator.go\<close>,
  \<^verbatim>\<open>build.go\<close>) and the evaluation of a scan over the store as it is while the pages are read. A Go map
  with string keys is an association list in insertion order. The order in which \<^verbatim>\<open>range\<close> visits
  such a map is not determined by the language: it is the argument \<open>visit\<close>, a rearrangement of the keys.
\<close>

section \<open>Count maps\<close>

type_synonym counts = "(string \<times> int) list"

definition count_of :: "counts \<Rightarrow> string \<Rightarrow> int" where
  "count_of m k = (case map_of m k of None \<Rightarrow> 0 | Some n \<Rightarrow> n)"

text \<open>\<^verbatim>\<open>m[k]++\<close>\<close>

fun bump :: "string \<Rightarrow> counts \<Rightarrow> counts" where
  "bump k [] = [(k, 1)]"
| "bump k ((k', n) # m) = (if k' = k then (k', n + 1) # m else (k', n) # bump k m)"

definition count_by :: "('a \<Rightarrow> string) \<Rightarrow> 'a list \<Rightarrow> counts" where
  "count_by key xs = foldl (\<lambda>m x. bump (key x) m) [] xs"

section \<open>Insights of a scan\<close>

definition insightRank :: "string \<Rightarrow> int" where
  "insightRank s = (if s = ''critical'' then 4 else if s = ''high'' then 3 else if s = ''medium'' then 2
     else if s = ''low'' then 1 else 0)"

definition insight_key :: "insight \<Rightarrow> int \<times> string \<times> string" where
  "insight_key i = (- insightRank (in_Severity i), in_SubjectCN i, in_Type i)"

definition SortInsights :: "insight list \<Rightarrow> insight list" where
  "SortInsights xs = sort_key insight_key xs"

definition ClassifyAll :: "certificate list \<Rightarrow> insight list" where
  "ClassifyAll certs = SortInsights (concat (map ClassifyCertificate certs))"

section \<open>Aggregates\<close>

record expiry_buckets =
  eb_Expired :: int
  eb_Within7 :: int
  eb_Within30 :: int
  eb_Within90 :: int
  eb_Beyond90 :: int

record cert_health =
  ch_Total :: int
  ch_ByStatus :: counts
  ch_ExpiryBuckets :: expiry_buckets

record expiry_counts =
  xc_Within7 :: int
  xc_Within30 :: int
  xc_Within90 :: int

record expiry_risk =
  er_Within7 :: int
  er_Within30 :: int
  er_Within90 :: int
  er_ByScope :: "(string \<times> expiry_counts) list"

record issuer_summary =
  is_IssuerDN :: string
  is_CertCount :: int
  is_CACount :: int
  is_InVault :: int
  is_ChainStatus :: counts
  is_ImportCandidate :: bool

record scope_governance =
  sg_ByScope :: counts
  sg_ByManagedStatus :: counts
  sg_WithOwner :: int
  sg_Total :: int

definition bucket :: "expiry_buckets \<Rightarrow> certificate \<Rightarrow> expiry_buckets" where
  "bucket e c =
     (if c_Status c = ''expired'' then e\<lparr>eb_Expired := eb_Expired e + 1\<rparr>
      else if c_DaysUntilExpiry c \<le> 7 then e\<lparr>eb_Within7 := eb_Within7 e + 1\<rparr>
      else if c_DaysUntilExpiry c \<le> 30 then e\<lparr>eb_Within30 := eb_Within30 e + 1\<rparr>
      else if c_DaysUntilExpiry c \<le> 90 then e\<lparr>eb_Within90 := eb_Within90 e + 1\<rparr>
      else e\<lparr>eb_Beyond90 := eb_Beyond90 e + 1\<rparr>)"

definition no_buckets :: expiry_buckets where
  "no_buckets = \<lparr>eb_Expired = 0, eb_Within7 = 0, eb_Within30 = 0, eb_Within90 = 0, eb_Beyond90 = 0\<rparr>"

definition BuildCertHealth :: "certificate list \<Rightarrow> cert_health" where
  "BuildCertHealth certs = foldl (\<lambda>h c. h\<lparr>ch_ByStatus := bump (c_Status c) (ch_ByStatus h), ch_ExpiryBuckets := bucket (ch_ExpiryBuckets h) c\<rparr>)
     \<lparr>ch_Total = int (length certs), ch_ByStatus = [], ch_ExpiryBuckets = no_buckets\<rparr> certs"

definition no_counts :: expiry_counts where
  "no_counts = \<lparr>xc_Within7 = 0, xc_Within30 = 0, xc_Within90 = 0\<rparr>"

definition add_expiry :: "int \<Rightarrow> expiry_counts \<Rightarrow> expiry_counts" where
  "add_expiry d x = \<lparr>xc_Within7 = xc_Within7 x + (if d \<le> 7 then 1 else 0), xc_Within30 = xc_Within30 x + (if d \<le> 30 then 1 else 0),
     xc_Within90 = xc_Within90 x + (if d \<le> 90 then 1 else 0)\<rparr>"

fun put_scope :: "string \<Rightarrow> int \<Rightarrow> (string \<times> expiry_counts) list \<Rightarrow> (string \<times> expiry_counts) list" where
  "put_scope sc d [] = [(sc, add_expiry d no_counts)]"
| "put_scope sc d ((k, x) # m) = (if k = sc then (k, add_expiry d x) # m else (k, x) # put_scope sc d m)"

definition risk_step :: "expiry_risk \<Rightarrow> certificate \<Rightarrow> expiry_risk" where
  "risk_step r c =
     (if c_Status c = ''expired'' \<or> c_DaysUntilExpiry c < 0 then r
      else \<lparr>er_Within7 = er_Within7 r + (if c_DaysUntilExpiry c \<le> 7 then 1 else 0),
            er_Within30 = er_Within30 r + (if c_DaysUntilExpiry c \<le> 30 then 1 else 0),
            er_Within90 = er_Within90 r + (if c_DaysUntilExpiry c \<le> 90 then 1 else 0),
            er_ByScope = put_scope (c_CertScope c) (c_DaysUntilExpiry c) (er_ByScope r)\<rparr>)"

definition BuildExpiryRisk :: "certificate list \<Rightarrow> expiry_risk" where
  "BuildExpiryRisk certs = foldl risk_step \<lparr>er_Within7 = 0, er_Within30 = 0, er_Within90 = 0, er_ByScope = []\<rparr> certs"

definition add_issued :: "certificate \<Rightarrow> issuer_summary \<Rightarrow> issuer_summary" where
  "add_issued c i = i\<lparr>is_CertCount := is_CertCount i + 1, is_CACount := is_CACount i + (if c_IsCA c then 1 else 0),
     is_InVault := is_InVault i + (if c_ManagedStatus c = ''managed_in_vault'' then 1 else 0),
     is_ChainStatus := bump (c_ChainStatus c) (is_ChainStatus i)\<rparr>"

definition new_issuer :: "string \<Rightarrow> issuer_summary" where
  "new_issuer dn = \<lparr>is_IssuerDN = dn, is_CertCount = 0, is_CACount = 0, is_InVault = 0, is_ChainStatus = [], is_ImportCandidate = False\<rparr>"

fun by_dn :: "issuer_summary list \<Rightarrow> certificate \<Rightarrow> issuer_summary list" where
  "by_dn [] c = [add_issued c (new_issuer (c_IssuerDN c))]"
| "by_dn (i # is) c = (if is_IssuerDN i = c_IssuerDN c then add_issued c i # is else i # by_dn is c)"

definition candidate :: "issuer_summary \<Rightarrow> issuer_summary" where
  "candidate i = i\<lparr>is_ImportCandidate := (is_InVault i = 0 \<and> is_CACount i > 0)\<rparr>"

definition issuer_key :: "issuer_summary \<Rightarrow> int \<times> string" where
  "issuer_key i = (- is_CertCount i, is_IssuerDN i)"

text \<open>\<^verbatim>\<open>for _, s := range byDN\<close>\<close>

definition visited :: "(string list \<Rightarrow> string list) \<Rightarrow> ('a \<Rightarrow> string) \<Rightarrow> 'a list \<Rightarrow> 'a list" where
  "visited visit key rows = map (\<lambda>k. the (List.find (\<lambda>r. key r = k) rows)) (visit (map key rows))"

definition BuildIssuerTrust :: "(string list \<Rightarrow> string list) \<Rightarrow> certificate list \<Rightarrow> issuer_summary list" where
  "BuildIssuerTrust visit certs = sort_key issuer_key (map candidate (visited visit is_IssuerDN (foldl by_dn [] certs)))"

definition BuildScopeGovernance :: "certificate list \<Rightarrow> scope_governance" where
  "BuildScopeGovernance certs = foldl (\<lambda>g c. g\<lparr>sg_ByScope := bump (c_CertScope c) (sg_ByScope g),
       sg_ByManagedStatus := bump (c_ManagedStatus c) (sg_ByManagedStatus g),
       sg_WithOwner := sg_WithOwner g + (case c_Owner c of None \<Rightarrow> 0 | Some w \<Rightarrow> if w \<noteq> [] then 1 else 0)\<rparr>)
     \<lparr>sg_ByScope = [], sg_ByManagedStatus = [], sg_WithOwner = 0, sg_Total = int (length certs)\<rparr> certs"

record recommendation =
  re_Code :: string
  re_Count :: int
  re_Phase :: string
  re_Title :: string

text \<open>Phase, title and rank; an unknown code has the zero value.\<close>

definition recMeta :: "string \<Rightarrow> string \<times> string \<times> int" where
  "recMeta code =
     (if code = ''rescan'' then (''Discover'', ''Import intermediates and rescan to complete chains'', 0)
      else if code = ''monitor_external'' then (''Choose'', ''Track public-CA certificates in CLM only'', 1)
      else if code = ''import_ca'' then (''Import'', ''Import CA/issuer material into Vault PKI'', 2)
      else if code = ''catalog_import'' then (''Import'', ''Catalog certificate in CLM without a Vault write'', 2)
      else if code = ''reconcile_vault'' then (''Manage'', ''Run Vault PKI reconcile to match deployed certs'', 3)
      else if code = ''plan_renewal'' then (''Manage'', ''Plan renewal/replacement for expiring or invalid certs'', 3)
      else if code = ''fix_san'' then (''Manage'', ''Fix hostname/SAN mismatches'', 3)
      else ([], [], 0))"

definition recommendation_key :: "recommendation \<Rightarrow> int \<times> int \<times> string" where
  "recommendation_key r = (snd (snd (recMeta (re_Code r))), - re_Count r, re_Code r)"

definition BuildRecommendations :: "(string list \<Rightarrow> string list) \<Rightarrow> insight list \<Rightarrow> recommendation list" where
  "BuildRecommendations visit ins =
     (let m = count_by in_Recommendation (filter (\<lambda>i. in_Recommendation i \<noteq> []) ins) in
      sort_key recommendation_key (map (\<lambda>(code, n). case recMeta code of (phase, title, _) \<Rightarrow>
        \<lparr>re_Code = code, re_Count = n, re_Phase = phase, re_Title = title\<rparr>) (visited visit fst m)))"

section \<open>The document\<close>

record blind_spot_summary =
  bs_VaultManaged :: int
  bs_Discovered :: int
  bs_Shadow :: int
  bs_SC081Violations :: int

record scan_diagnostics =
  sd_TargetsTotal :: int
  sd_TargetsSucceeded :: int
  sd_TargetsFailed :: int
  sd_CertsFound :: int
  sd_UpsertFailures :: int
  sd_ExpansionWarnings :: "string list"
  sd_FailureSamples :: "target_failure_sample list"
  sd_Error :: "string option"

record scope_summary =
  sp_CIDRs :: "string list"
  sp_Hostnames :: "string list"
  sp_Ports :: "int list"
  sp_StartedAt :: "time option"
  sp_FinishedAt :: "time option"

record document =
  d_ReportVersion :: string
  d_GeneratedAt :: time
  d_ScanID :: uuid
  d_ScanStatus :: scan_status
  d_Scope :: scope_summary
  d_BlindSpot :: blind_spot_summary
  d_Compliance :: compliance_summary
  d_Diagnostics :: scan_diagnostics
  d_CertHealth :: cert_health
  d_ExpiryRisk :: expiry_risk
  d_IssuerTrust :: "issuer_summary list"
  d_Governance :: scope_governance
  d_Insights :: "insight list"
  d_Recommends :: "recommendation list"

definition BuildBlindSpotSummary :: "int \<Rightarrow> int \<Rightarrow> int \<Rightarrow> blind_spot_summary" where
  "BuildBlindSpotSummary managed discovered sc081 =
     (let shadow = discovered - managed; shadow' = (if shadow < 0 then 0 else shadow) in
      \<lparr>bs_VaultManaged = managed, bs_Discovered = discovered, bs_Shadow = shadow', bs_SC081Violations = sc081\<rparr>)"

definition GenerateReport :: "(string list \<Rightarrow> string list) \<Rightarrow> time \<Rightarrow> scan \<Rightarrow> blind_spot_summary \<Rightarrow> compliance_summary \<Rightarrow> certificate list \<Rightarrow> document" where
  "GenerateReport visit now sc blindSpot summary certs = (let insights = ClassifyAll certs in
     \<lparr>d_ReportVersion = ''0.2.0'', d_GeneratedAt = now, d_ScanID = s_ID sc, d_ScanStatus = s_Status sc,
      d_Scope = \<lparr>sp_CIDRs = s_CIDRs sc, sp_Hostnames = s_Hostnames sc, sp_Ports = s_Ports sc,
                 sp_StartedAt = s_StartedAt sc, sp_FinishedAt = s_FinishedAt sc\<rparr>,
      d_BlindSpot = blindSpot, d_Compliance = summary,
      d_Diagnostics = \<lparr>sd_TargetsTotal = s_TargetsTotal sc, sd_TargetsSucceeded = s_TargetsSucceeded sc,
         sd_TargetsFailed = s_TargetsFailed sc, sd_CertsFound = s_CertsFound sc, sd_UpsertFailures = s_UpsertFailures sc,
         sd_ExpansionWarnings = s_ExpansionWarnings sc, sd_FailureSamples = s_FailureSamples sc, sd_Error = s_Error sc\<rparr>,
      d_CertHealth = BuildCertHealth certs, d_ExpiryRisk = BuildExpiryRisk certs, d_IssuerTrust = BuildIssuerTrust visit certs,
      d_Governance = BuildScopeGovernance certs, d_Insights = insights, d_Recommends = BuildRecommendations visit insights\<rparr>)"

section \<open>Reading a scan while the store moves\<close>

definition loadCertificatesIn :: "uuid option \<Rightarrow> certificate list loop_op" where
  "loadCertificatesIn scanID = load_scan_pages (case scanID of None \<Rightarrow> zero_filter\<lparr>cf_Limit := 500, cf_Offset := 0\<rparr>
     | Some i \<Rightarrow> zero_filter\<lparr>cf_Limit := 500, cf_Offset := 0, cf_ScanID := i\<rparr>) []"

definition EvaluateScanIn :: "uuid option \<Rightarrow> compliance_summary loop_op" where
  "EvaluateScanIn scanID s = (case loadCertificatesIn scanID s of None \<Rightarrow> None
     | Some (Inl e, s') \<Rightarrow> Some (Inl e, s')
     | Some (Inr certs, s') \<Rightarrow> (let summary = EvaluateCerts (go_now s') certs in
         Some (Inr (case scanID of None \<Rightarrow> summary | Some i \<Rightarrow> summary\<lparr>ScanID := i\<rparr>), s')))"

definition CountSC081In :: "uuid option \<Rightarrow> int loop_op" where
  "CountSC081In scanID s = (case loadCertificatesIn scanID s of None \<Rightarrow> None
     | Some (Inl e, s') \<Rightarrow> Some (Inl e, s')
     | Some (Inr certs, s') \<Rightarrow> Some (Inr (foldl (\<lambda>n c.
         foldl (\<lambda>m f. if isSC081Violation f then m + 1 else m) n (EvaluateSC081 (go_now s') (CertInputFromStore c))) 0 certs), s'))"

definition loadScanCertificates :: "uuid \<Rightarrow> certificate list loop_op" where
  "loadScanCertificates scanID = load_scan_pages (zero_filter\<lparr>cf_ScanID := scanID, cf_Limit := 500, cf_Offset := 0\<rparr>) []"

datatype report_error = ErrScanNotCompleted | StoreError error

definition BuildForScan :: "(string list \<Rightarrow> string list) \<Rightarrow> uuid \<Rightarrow> db \<Rightarrow> ((report_error + document) \<times> db) option" where
  "BuildForScan visit scanID s = (case GetScan scanID s of
     (Inl e, s1) \<Rightarrow> Some (Inl (StoreError e), s1)
   | (Inr sc, s1) \<Rightarrow>
     if s_Status sc \<noteq> ScanCompleted then Some (Inl ErrScanNotCompleted, s1)
     else case CountByManagedStatus (Some scanID) s1 of
       (Inl e, s2) \<Rightarrow> Some (Inl (StoreError e), s2)
     | (Inr (managed, discovered), s2) \<Rightarrow>
       (case EvaluateScanIn (Some scanID) s2 of None \<Rightarrow> None
        | Some (Inl e, s3) \<Rightarrow> Some (Inl (StoreError e), s3)
        | Some (Inr summary, s3) \<Rightarrow>
          (case loadScanCertificates scanID s3 of None \<Rightarrow> None
           | Some (Inl e, s4) \<Rightarrow> Some (Inl (StoreError e), s4)
           | Some (Inr certs, s4) \<Rightarrow>
             Some (Inr (GenerateReport visit (go_now s4) sc (BuildBlindSpotSummary managed discovered (SC081ViolationCount summary)) summary certs), s4))))"

section \<open>Paging over any schedule of failures\<close>

lemma cert_rows_step [simp]: "cert_rows (f\<lparr>cf_Offset := x\<rparr>) (s\<lparr>db_step := n\<rparr>) = cert_rows f s" "cert_rows f (s\<lparr>db_step := n\<rparr>) = cert_rows f s"
  "cert_rows (f\<lparr>cf_Offset := x\<rparr>) s = cert_rows f s"
proof -
  have 1: "cert_matches (f\<lparr>cf_Offset := x\<rparr>) (s\<lparr>db_step := n\<rparr>) = cert_matches f s" "cert_matches f (s\<lparr>db_step := n\<rparr>) = cert_matches f s"
    "cert_matches (f\<lparr>cf_Offset := x\<rparr>) s = cert_matches f s"
    by (rule ext, simp add: cert_matches_def observed_in_def Let_def)+
  have 2: "cert_order (f\<lparr>cf_Offset := x\<rparr>) = cert_order f" by (rule ext) (simp add: cert_order_def)
  have 3: "select_cert (s\<lparr>db_step := n\<rparr>) = select_cert s" by (rule ext) (simp add: select_cert_def)
  show "cert_rows (f\<lparr>cf_Offset := x\<rparr>) (s\<lparr>db_step := n\<rparr>) = cert_rows f s" "cert_rows f (s\<lparr>db_step := n\<rparr>) = cert_rows f s"
    "cert_rows (f\<lparr>cf_Offset := x\<rparr>) s = cert_rows f s"
    by (simp_all add: cert_rows_def 1 2 3)
qed

lemma ListCertificates_page:
  assumes "cf_Limit f > 0" "\<not> bad_filter f" "cf_Offset f = int k"
  shows "(\<exists>n. ListCertificates f s = (Inl ErrDB, s\<lparr>db_step := n\<rparr>) \<and> (\<exists>j. db_fault s j)) \<or>
    (\<exists>n. ListCertificates f s = (Inr (take (nat (cf_Limit f)) (drop k (cert_rows f s)), int (length (cert_rows f s))), s\<lparr>db_step := n\<rparr>))"
proof -
  have "length (filter (cert_matches f s) (t_certificates s)) = length (cert_rows f s)" by (simp add: cert_rows_def)
  moreover have "cert_rows f (next_step s) = cert_rows f s" by (simp add: next_step_def)
  ultimately show ?thesis using assms
    by (auto simp: ListCertificates_def bind_op_def db_call_def Let_def next_step_def)
qed

text \<open>The paging loop ends: with every row from the offset on, or with a failed call. It changes no table.\<close>

lemma load_scan_pages_ends:
  assumes "cf_Limit f > 0" "\<not> bad_filter f" "cf_Offset f = int k"
  shows "\<exists>r n. load_scan_pages f all s = Some (r, s\<lparr>db_step := n\<rparr>) \<and>
    (r = Inl ErrDB \<and> (\<exists>j. db_fault s j) \<or> r = Inr (all @ drop k (cert_rows f s)))"
  using assms
proof (induction "length (cert_rows f s) - k" arbitrary: f k all s rule: less_induct)
  case less
  let ?rows = "cert_rows f s"
  consider n where "ListCertificates f s = (Inl ErrDB, s\<lparr>db_step := n\<rparr>)" "\<exists>j. db_fault s j"
    | n where "ListCertificates f s = (Inr (take (nat (cf_Limit f)) (drop k ?rows), int (length ?rows)), s\<lparr>db_step := n\<rparr>)"
    using ListCertificates_page [OF less.prems, of s] by blast
  then show ?case
  proof cases
    case 1
    then show ?thesis by (subst load_scan_pages.simps) auto
  next
    case (2 n)
    let ?b = "take (nat (cf_Limit f)) (drop k ?rows)"
    let ?k = "k + length ?b"
    have "drop k ?rows = ?b @ drop (length ?b) (drop k ?rows)" by (metis append_take_drop_id append_eq_conv_conj)
    then have split: "drop k ?rows = ?b @ drop ?k ?rows" by (simp only: drop_drop add.commute)
    show ?thesis
    proof (cases "int ?k \<ge> int (length ?rows) \<or> length ?b = 0")
      case True
      then have "?b = drop k ?rows" using less.prems(1) by auto
      then show ?thesis using 2 True less.prems(3) by (subst load_scan_pages.simps) (auto simp: Let_def)
    next
      case False
      let ?f = "f\<lparr>cf_Offset := int ?k\<rparr>" and ?s = "s\<lparr>db_step := n\<rparr>"
      have "length (cert_rows ?f ?s) - ?k < length ?rows - k" using False by auto
      moreover have "cf_Limit ?f > 0" "\<not> bad_filter ?f" using less.prems by (simp_all add: bad_filter_def)
      ultimately obtain r m where
        "load_scan_pages ?f (all @ ?b) ?s = Some (r, ?s\<lparr>db_step := m\<rparr>)"
        "r = Inl ErrDB \<and> (\<exists>j. db_fault ?s j) \<or> r = Inr ((all @ ?b) @ drop ?k (cert_rows ?f ?s))"
        using less.hyps [of ?f ?s ?k "all @ ?b"] by auto
      moreover have "load_scan_pages f all s = load_scan_pages ?f (all @ ?b) ?s"
        using 2 False less.prems(3) by (subst load_scan_pages.simps) (auto simp: Let_def)
      ultimately show ?thesis using split by auto
    qed
  qed
qed

section \<open>A report is complete and consistent\<close>

lemma scan_filter_0: "(zero_filter\<lparr>cf_Limit := 500, cf_Offset := 0, cf_ScanID := i\<rparr>) = scan_filter (Some i)"
  "(zero_filter\<lparr>cf_ScanID := i, cf_Limit := 500, cf_Offset := 0\<rparr>) = scan_filter (Some i)"
  "(zero_filter\<lparr>cf_Limit := 500, cf_Offset := 0\<rparr>) = scan_filter None"
  by (simp_all add: scan_filter_def zero_filter_def)

lemma load_scan_whole:
  "\<exists>r n. load_scan_pages (scan_filter scanID) [] s = Some (r, s\<lparr>db_step := n\<rparr>) \<and>
    (r = Inl ErrDB \<and> (\<exists>j. db_fault s j) \<or> r = Inr (cert_rows (scan_filter scanID) s))"
  using load_scan_pages_ends [of "scan_filter scanID" 0 "[]" s] scan_filter_ok [of scanID]
  by (simp add: scan_filter_def zero_filter_def split: option.splits)

lemma loadCertificatesIn_scan: "loadCertificatesIn scanID = load_scan_pages (scan_filter scanID) []"
  by (cases scanID) (simp_all add: loadCertificatesIn_def scan_filter_def zero_filter_def)

lemma GetScan_reads:
  "\<exists>r n. GetScan i s = (r, s\<lparr>db_step := n\<rparr>) \<and> (r = Inl ErrDB \<and> (\<exists>j. db_fault s j) \<or>
    r = (case List.find (\<lambda>sc. s_ID sc = i) (t_scans s) of None \<Rightarrow> Inl ErrScanNotFound | Some sc \<Rightarrow> Inr sc))"
  by (auto simp: GetScan_def db_call_def next_step_def split: option.splits)

lemma CountByManagedStatus_reads:
  "\<exists>r n. CountByManagedStatus scanID s = (r, s\<lparr>db_step := n\<rparr>) \<and> (r = Inl ErrDB \<and> (\<exists>j. db_fault s j) \<or>
    (let rows = filter (\<lambda>c. case scanID of None \<Rightarrow> True | Some i \<Rightarrow> observed_in i s c) (t_certificates s) in
     r = Inr (int (hits (\<lambda>c. c_ManagedStatus c = ''managed_in_vault'') rows), int (length rows))))"
  by (auto simp: CountByManagedStatus_def db_call_def next_step_def Let_def)

text \<open>What is built from the pages: a failed call, or the document over the whole inventory of the scan.\<close>

lemma BuildForScan_cases:
  "\<exists>r n. BuildForScan visit i s = Some (r, s\<lparr>db_step := n\<rparr>) \<and>
    (r = Inl (StoreError ErrDB) \<and> (\<exists>j. db_fault s j) \<or>
     (case List.find (\<lambda>sc. s_ID sc = i) (t_scans s) of None \<Rightarrow> r = Inl (StoreError ErrScanNotFound)
      | Some sc \<Rightarrow> if s_Status sc \<noteq> ScanCompleted then r = Inl ErrScanNotCompleted
        else \<exists>now t. r = Inr (let certs = cert_rows (scan_filter (Some i)) s; summary = (EvaluateCerts t certs)\<lparr>ScanID := i\<rparr>;
            wire = filter (observed_in i s) (t_certificates s) in
          GenerateReport visit now sc (BuildBlindSpotSummary (int (hits (\<lambda>c. c_ManagedStatus c = ''managed_in_vault'') wire)) (int (length wire))
            (SC081ViolationCount summary)) summary certs)))"
proof -
  have step: "s\<lparr>db_step := a, db_step := b\<rparr> = s\<lparr>db_step := b\<rparr>" for a b by simp
  obtain r1 n1 where g: "GetScan i s = (r1, s\<lparr>db_step := n1\<rparr>)" and r1: "r1 = Inl ErrDB \<and> (\<exists>j. db_fault s j) \<or>
      r1 = (case List.find (\<lambda>sc. s_ID sc = i) (t_scans s) of None \<Rightarrow> Inl ErrScanNotFound | Some sc \<Rightarrow> Inr sc)"
    using GetScan_reads [of i s] by blast
  obtain r2 n2 where c: "CountByManagedStatus (Some i) (s\<lparr>db_step := n1\<rparr>) = (r2, s\<lparr>db_step := n2\<rparr>)"
    and r2: "r2 = Inl ErrDB \<and> (\<exists>j. db_fault s j) \<or> (let wire = filter (observed_in i s) (t_certificates s) in
     r2 = Inr (int (hits (\<lambda>c. c_ManagedStatus c = ''managed_in_vault'') wire), int (length wire)))"
    using CountByManagedStatus_reads [of "Some i" "s\<lparr>db_step := n1\<rparr>"] by (auto simp: observed_in_def [abs_def])
  obtain r3 n3 where l: "load_scan_pages (scan_filter (Some i)) [] (s\<lparr>db_step := n2\<rparr>) = Some (r3, s\<lparr>db_step := n3\<rparr>)"
    and r3: "r3 = Inl ErrDB \<and> (\<exists>j. db_fault s j) \<or> r3 = Inr (cert_rows (scan_filter (Some i)) s)"
    using load_scan_whole [of "Some i" "s\<lparr>db_step := n2\<rparr>"] by auto
  obtain r4 n4 where l': "load_scan_pages (scan_filter (Some i)) [] (s\<lparr>db_step := n3\<rparr>) = Some (r4, s\<lparr>db_step := n4\<rparr>)"
    and r4: "r4 = Inl ErrDB \<and> (\<exists>j. db_fault s j) \<or> r4 = Inr (cert_rows (scan_filter (Some i)) s)"
    using load_scan_whole [of "Some i" "s\<lparr>db_step := n3\<rparr>"] by auto
  note run = BuildForScan_def g c l l' EvaluateScanIn_def loadCertificatesIn_scan loadScanCertificates_def scan_filter_0
  consider "r1 = Inl ErrDB" "\<exists>j. db_fault s j" | "List.find (\<lambda>sc. s_ID sc = i) (t_scans s) = None" "r1 = Inl ErrScanNotFound"
    | sc where "List.find (\<lambda>sc. s_ID sc = i) (t_scans s) = Some sc" "r1 = Inr sc"
    using r1 by (auto split: option.splits)
  then show ?thesis
  proof cases
    case 3
    show ?thesis
    proof (cases "s_Status sc = ScanCompleted")
      case True
      show ?thesis using r2 r3 r4 3 True by (auto simp: run Let_def) blast+
    qed (use 3 in \<open>auto simp: run\<close>)
  qed (auto simp: run)
qed

text \<open>Counting: a map built by \<^verbatim>\<open>m[k]++\<close> holds the number of times each key was seen, once.\<close>

lemma count_of_bump [simp]: "count_of (bump k m) k' = count_of m k' + (if k' = k then 1 else 0)"
  by (induction k m rule: bump.induct) (auto simp: count_of_def)

lemma keys_bump: "map fst (bump k m) = (if k \<in> set (map fst m) then map fst m else map fst m @ [k])"
  by (induction k m rule: bump.induct) auto

lemma count_by_snoc: "count_by key (xs @ [x]) = bump (key x) (count_by key xs)"
  by (simp add: count_by_def)

lemma count_by_hits: "count_of (count_by key xs) k = int (hits (\<lambda>x. key x = k) xs)"
proof (induction xs rule: rev_induct)
  case Nil
  then show ?case by (simp add: count_by_def hits_def count_of_def)
qed (simp add: count_by_snoc hits_def)

lemma count_by_distinct: "distinct (map fst (count_by key xs))"
  by (induction xs rule: rev_induct) (auto simp: count_by_snoc count_by_def [of _ "[]"] keys_bump)

text \<open>A range loop visits each row once, whatever the order, and a sort by a key that tells the rows apart forgets the order.\<close>

lemma visited_mset:
  assumes "distinct (map key rows)" and "\<forall>ks. mset (visit ks) = mset ks"
  shows "mset (visited visit key rows) = mset rows"
proof -
  let ?get = "\<lambda>k. the (List.find (\<lambda>r. key r = k) rows)"
  have "List.find (\<lambda>r. key r = key x) rows = Some x" if "x \<in> set rows" for x
    using that assms(1) by (intro find_by_key) simp_all
  then have get: "map ?get (map key rows) = rows" by (simp add: map_idI)
  have "mset (visited visit key rows) = image_mset ?get (mset (visit (map key rows)))" by (simp add: visited_def)
  also have "\<dots> = image_mset ?get (mset (map key rows))" using assms(2) by simp
  also have "\<dots> = mset (map ?get (map key rows))" by (simp only: mset_map)
  finally show ?thesis by (simp only: get)
qed

lemma sort_visited:
  assumes "distinct (map key rows)" and "\<forall>ks. mset (visit ks) = mset ks" and "inj_on k (g ` set rows)"
  shows "sort_key k (map g (visited visit key rows)) = sort_key k (map g (visited (\<lambda>ks. ks) key rows))"
proof -
  have same: "mset (visited visit key rows) = mset rows" "mset (visited (\<lambda>ks. ks) key rows) = mset rows"
    using visited_mset [OF assms(1)] assms(2) by simp_all
  have "set (visited visit key rows) = set rows" using same(1) by (rule mset_eq_setD)
  then have "inj_on k (set (map g (visited visit key rows)))" using assms(3) by simp
  moreover have "mset (map g (visited visit key rows)) = mset (sort_key k (map g (visited (\<lambda>ks. ks) key rows)))"
    using same by simp
  ultimately show ?thesis using sort_key_inj_key_eq sorted_sort_key by blast
qed

lemma dns_by_dn: "map is_IssuerDN (by_dn is c) =
  (if c_IssuerDN c \<in> set (map is_IssuerDN is) then map is_IssuerDN is else map is_IssuerDN is @ [c_IssuerDN c])"
  by (induction "is" c rule: by_dn.induct) (auto simp: add_issued_def new_issuer_def)

lemma by_dn_distinct: "distinct (map is_IssuerDN (foldl by_dn [] certs))"
  by (induction certs rule: rev_induct) (auto simp: dns_by_dn)

text \<open>
  A report is deterministic. Whatever order the runtime visits the maps of issuers and of
  recommendation codes in, the document is the same.
\<close>

theorem report_deterministic:
  assumes "\<forall>ks. mset (visit ks) = mset ks"
  shows "GenerateReport visit now sc b summary certs = GenerateReport (\<lambda>ks. ks) now sc b summary certs"
proof -
  have "inj_on issuer_key (candidate ` set (foldl by_dn [] certs))"
    using by_dn_distinct [of certs] by (auto simp: inj_on_def issuer_key_def candidate_def distinct_map)
  then have "BuildIssuerTrust visit certs = BuildIssuerTrust (\<lambda>ks. ks) certs"
    unfolding BuildIssuerTrust_def by (intro sort_visited by_dn_distinct assms)
  moreover have "BuildRecommendations visit ins = BuildRecommendations (\<lambda>ks. ks) ins" for ins
    unfolding BuildRecommendations_def Let_def
    by (intro sort_visited count_by_distinct assms)
      (auto simp: inj_on_def recommendation_key_def split: prod.splits dest: eq_key_imp_eq_value [OF count_by_distinct])
  ultimately show ?thesis by (simp add: GenerateReport_def)
qed

theorem report_deterministic_witness:
  "GenerateReport rev 0 (example_scan\<lparr>s_Status := ScanCompleted\<rparr>) (BuildBlindSpotSummary 0 2 0) (EvaluateCerts 0 []) [blank_cert 5 ''fp'', blank_cert 6 ''fq'']
   = GenerateReport (\<lambda>ks. ks) 0 (example_scan\<lparr>s_Status := ScanCompleted\<rparr>) (BuildBlindSpotSummary 0 2 0) (EvaluateCerts 0 []) [blank_cert 5 ''fp'', blank_cert 6 ''fq'']"
  by (rule report_deterministic) simp

text \<open>The counters of the aggregates, exactly.\<close>

lemma BuildCertHealth_fold:
  "foldl (\<lambda>h c. h\<lparr>ch_ByStatus := bump (c_Status c) (ch_ByStatus h), ch_ExpiryBuckets := bucket (ch_ExpiryBuckets h) c\<rparr>) h certs =
   h\<lparr>ch_ByStatus := foldl (\<lambda>m c. bump (c_Status c) m) (ch_ByStatus h) certs, ch_ExpiryBuckets := foldl bucket (ch_ExpiryBuckets h) certs\<rparr>"
  by (induction certs arbitrary: h) simp_all

lemma BuildCertHealth_eq:
  "BuildCertHealth certs = \<lparr>ch_Total = int (length certs), ch_ByStatus = count_by c_Status certs, ch_ExpiryBuckets = foldl bucket no_buckets certs\<rparr>"
  by (simp add: BuildCertHealth_def BuildCertHealth_fold count_by_def)

definition bucket_sum :: "expiry_buckets \<Rightarrow> int" where
  "bucket_sum e = eb_Expired e + eb_Within7 e + eb_Within30 e + eb_Within90 e + eb_Beyond90 e"

lemma buckets_partition: "bucket_sum (foldl bucket e certs) = bucket_sum e + int (length certs)"
  by (induction certs arbitrary: e) (auto simp: bucket_sum_def bucket_def)

definition risk_within :: "int \<Rightarrow> certificate \<Rightarrow> bool" where
  "risk_within d c \<longleftrightarrow> c_Status c \<noteq> ''expired'' \<and> 0 \<le> c_DaysUntilExpiry c \<and> c_DaysUntilExpiry c \<le> d"

lemma risk_fold:
  "er_Within7 (foldl risk_step r certs) = er_Within7 r + int (hits (risk_within 7) certs)"
  "er_Within30 (foldl risk_step r certs) = er_Within30 r + int (hits (risk_within 30) certs)"
  "er_Within90 (foldl risk_step r certs) = er_Within90 r + int (hits (risk_within 90) certs)"
  by (induction certs arbitrary: r) (simp_all add: hits_def risk_step_def risk_within_def)

lemma hits_mono: "(\<And>x. p x \<Longrightarrow> q x) \<Longrightarrow> hits p xs \<le> hits q xs"
  by (induction xs) (auto simp: hits_def)

lemma issued_total: "sum_list (map is_CertCount (by_dn is c)) = sum_list (map is_CertCount is) + 1"
  by (induction "is" c rule: by_dn.induct) (simp_all add: add_issued_def new_issuer_def)

lemma issuers_total:
  assumes "\<forall>ks. mset (visit ks) = mset ks"
  shows "sum_list (map is_CertCount (BuildIssuerTrust visit certs)) = int (length certs)"
proof -
  have "mset (map is_CertCount (BuildIssuerTrust visit certs)) = mset (map is_CertCount (foldl by_dn [] certs))"
    using visited_mset [OF by_dn_distinct assms, of certs]
    by (simp add: BuildIssuerTrust_def candidate_def multiset.map_comp comp_def)
  then have "sum_list (map is_CertCount (BuildIssuerTrust visit certs)) = sum_list (map is_CertCount (foldl by_dn [] certs))"
    by (metis sum_mset_sum_list)
  also have "\<dots> = int (length certs)" by (induction certs rule: rev_induct) (simp_all add: issued_total)
  finally show ?thesis .
qed

lemma risk_within_mono: "d \<le> e \<Longrightarrow> hits (risk_within d) certs \<le> hits (risk_within e) certs"
  by (rule hits_mono) (simp add: risk_within_def)

lemma report_totals:
  assumes "\<forall>ks. mset (visit ks) = mset ks" and "doc = GenerateReport visit now sc b summary certs"
  shows "ch_Total (d_CertHealth doc) = int (length certs)"
    "bucket_sum (ch_ExpiryBuckets (d_CertHealth doc)) = int (length certs)"
    "count_of (ch_ByStatus (d_CertHealth doc)) st = int (hits (\<lambda>c. c_Status c = st) certs)"
    "0 \<le> er_Within7 (d_ExpiryRisk doc)" "er_Within7 (d_ExpiryRisk doc) \<le> er_Within30 (d_ExpiryRisk doc)"
    "er_Within30 (d_ExpiryRisk doc) \<le> er_Within90 (d_ExpiryRisk doc)"
    "er_Within90 (d_ExpiryRisk doc) = int (hits (risk_within 90) certs)"
    "sum_list (map is_CertCount (d_IssuerTrust doc)) = int (length certs)"
    "mset (d_Insights doc) = mset (concat (map ClassifyCertificate certs))" "sorted (map insight_key (d_Insights doc))"
  using assms(2) issuers_total [OF assms(1)] buckets_partition [of no_buckets certs]
  by (simp_all add: GenerateReport_def Let_def BuildCertHealth_eq count_by_hits BuildExpiryRisk_def risk_fold risk_within_mono
      ClassifyAll_def SortInsights_def bucket_sum_def no_buckets_def)

lemma scan_rows:
  assumes "i \<noteq> 0"
  shows "mset (cert_rows (scan_filter (Some i)) s) = mset (map (select_cert s) (filter (observed_in i s) (t_certificates s)))"
proof -
  have "cert_matches (scan_filter (Some i)) s = observed_in i s"
    using assms by (auto simp: cert_matches_def scan_filter_def zero_filter_def Let_def)
  then show ?thesis by (simp add: cert_rows_def)
qed

lemma mset_concat_map_cong: "mset xs = mset ys \<Longrightarrow> mset (concat (map f xs)) = mset (concat (map f ys))"
proof -
  have "mset (concat (map f zs)) = \<Sum>\<^sub># (image_mset (\<lambda>x. mset (f x)) (mset zs))" for zs by (induction zs) simp_all
  then show "mset xs = mset ys \<Longrightarrow> mset (concat (map f xs)) = mset (concat (map f ys))" by simp
qed

lemma hits_complement: "int (length xs) - int (hits p xs) = int (hits (\<lambda>x. \<not> p x) xs)"
  by (induction xs) (auto simp: hits_def)

lemma blind_spot_shadow:
  "bs_Shadow (BuildBlindSpotSummary (int (hits p xs)) (int (length xs)) n) = int (hits (\<lambda>x. \<not> p x) xs)"
  using hits_complement [of xs p] by (simp add: BuildBlindSpotSummary_def Let_def)


definition example_report_db :: db where
  "example_report_db = empty_db\<lparr>t_scans := [example_scan\<lparr>s_Status := ScanCompleted\<rparr>], t_certificates := [blank_cert 5 ''fp''],
     t_observations := [\<lparr>o_ID = 9, o_CertificateID = 5, o_ScanID = 3, o_IP = ''10.0.0.1'', o_Port = 443, o_Hostname = None, o_SNI = None,
       o_TLSVersion = None, o_CipherSuite = None, o_ObservedAt = 0\<rparr>]\<rparr>"


end
