(* ===== verification/Report_Render.thy ===== *)
theory Report_Render
  imports Report
begin

text \<open>
  The renderers of a scan report (\<^verbatim>\<open>internal/report/csv.go\<close>, \<^verbatim>\<open>markdown.go\<close>) and the handlers that
  serve it and the compliance and blind-spot summaries (\<^verbatim>\<open>internal/api/handlers_report.go\<close>,
  \<^verbatim>\<open>handlers_compliance.go\<close>, \<^verbatim>\<open>handlers_blindspot.go\<close>). A rendered text is the string of its
  UTF-8 bytes. A JSON rendering is the value it encodes.
\<close>

section \<open>CSV\<close>

definition sanitizeCSVCell :: "string \<Rightarrow> string" where
  "sanitizeCSVCell s = (case s of [] \<Rightarrow> [] | c # _ \<Rightarrow>
     if c \<in> {CHR ''='', CHR ''+'', CHR ''-'', CHR ''@'', CHR 0x09, CHR 0x0D} then CHR 0x27 # s else s)"

text \<open>
  The writer of \<^verbatim>\<open>encoding/csv\<close> with its defaults: a field is quoted if it is \<^verbatim>\<open>\.\<close>, holds the comma, a
  quote or a line break, or begins with white space (\<^verbatim>\<open>unicode.IsSpace\<close> on the first UTF-8 sequence).
\<close>

definition leading_space :: "string \<Rightarrow> bool" where
  "leading_space s \<longleftrightarrow> s \<noteq> [] \<and> is_space (hd s) \<or>
     take 2 s \<in> {[CHR 0xC2, CHR 0x85], [CHR 0xC2, CHR 0xA0]} \<or>
     take 3 s \<in> {[CHR 0xE1, CHR 0x9A, CHR 0x80], [CHR 0xE2, CHR 0x80, CHR 0xA8], [CHR 0xE2, CHR 0x80, CHR 0xA9],
       [CHR 0xE2, CHR 0x80, CHR 0xAF], [CHR 0xE2, CHR 0x81, CHR 0x9F], [CHR 0xE3, CHR 0x80, CHR 0x80]} \<or>
     take 2 s = [CHR 0xE2, CHR 0x80] \<and> length s > 2 \<and> in_range (CHR 0x80) (CHR 0x8A) (s ! 2)"

definition fieldNeedsQuotes :: "string \<Rightarrow> bool" where
  "fieldNeedsQuotes s \<longleftrightarrow> s \<noteq> [] \<and>
     (s = [CHR 0x5C, CHR ''.''] \<or> list_ex (\<lambda>c. c \<in> {CHR 0x0A, CHR 0x0D, CHR 0x22, CHR '','' }) s \<or> leading_space s)"

definition csv_field :: "string \<Rightarrow> string" where
  "csv_field s = (if fieldNeedsQuotes s
     then [CHR 0x22] @ concat (map (\<lambda>c. if c = CHR 0x22 then [CHR 0x22, CHR 0x22] else [c]) s) @ [CHR 0x22] else s)"

definition csv_record :: "string list \<Rightarrow> string" where
  "csv_record row = str_join (map csv_field row) '','' @ [CHR 0x0A]"

definition csvHeader :: "string list" where
  "csvHeader = [''category'', ''type'', ''severity'', ''recommendation'', ''subject_cn'', ''fingerprint_sha256'', ''issuer_dn'',
     ''days_until_expiry'', ''tags'', ''description'']"

definition csv_cells :: "insight \<Rightarrow> string list" where
  "csv_cells i = (let days = (case map_of (in_Metadata i) ''days_until_expiry'' of None \<Rightarrow> [] | Some v \<Rightarrow> v) in
     [in_Category i, in_Type i, in_Severity i, in_Recommendation i, in_SubjectCN i, in_Fingerprint i, in_IssuerDN i, days,
      str_join (in_Tags i) ''|'', in_Description i])"

definition RenderCSV :: "document \<Rightarrow> string" where
  "RenderCSV doc = csv_record csvHeader @ concat (map (\<lambda>i. csv_record (map sanitizeCSVCell (csv_cells i))) (d_Insights doc))"

section \<open>Markdown\<close>

definition em_dash :: string where "em_dash = [CHR 0xE2, CHR 0x80, CHR 0x94]"
definition en_dash :: string where "en_dash = [CHR 0xE2, CHR 0x80, CHR 0x93]"
definition ellipsis :: string where "ellipsis = [CHR 0xE2, CHR 0x80, CHR 0xA6]"
definition at_most :: string where "at_most = [CHR 0xE2, CHR 0x89, CHR 0xA4]"

text \<open>\<^verbatim>\<open>strings.ReplaceAll\<close> of one byte.\<close>

definition replace_char :: "char \<Rightarrow> string \<Rightarrow> string \<Rightarrow> string" where
  "replace_char c r s = concat (map (\<lambda>x. if x = c then r else [x]) s)"

definition escapeCell :: "string \<Rightarrow> string" where
  "escapeCell s = replace_char (CHR ''|'') [CHR 0x5C, CHR ''|''] (replace_char (CHR 0x5C) [CHR 0x5C, CHR 0x5C]
     (replace_char (CHR 0x0A) '' '' (replace_char (CHR 0x0D) '' '' s)))"

definition md_row :: "string list \<Rightarrow> string" where
  "md_row cells = ''| '' @ str_join cells '' | '' @ '' |'' @ nl"

definition sortedKeys :: "(string list \<Rightarrow> string list) \<Rightarrow> counts \<Rightarrow> string list" where
  "sortedKeys visit m = sort (visit (map fst m))"

definition sortedKeysExpiry :: "(string list \<Rightarrow> string list) \<Rightarrow> (string \<times> expiry_counts) list \<Rightarrow> string list" where
  "sortedKeysExpiry visit m = sort (visit (map fst m))"

definition formatScope :: "scope_summary \<Rightarrow> string" where
  "formatScope sc =
     (let parts = (if sp_Hostnames sc \<noteq> [] then [''hostnames: '' @ str_join (sp_Hostnames sc) '', ''] else []) @
        (if sp_CIDRs sc \<noteq> [] then [''CIDRs: '' @ str_join (sp_CIDRs sc) '', ''] else []) @
        (if sp_Ports sc \<noteq> [] then [''ports: '' @ str_join (map itoa (sp_Ports sc)) '', ''] else []) in
      if parts = [] then em_dash else str_join parts ''; '')"

definition finding_line :: "finding \<Rightarrow> string" where
  "finding_line f =
     (let fp = (if length (Fingerprint f) > 12 then take 12 (Fingerprint f) @ ellipsis else Fingerprint f);
          subject = (if SubjectCN f = [] then em_dash else SubjectCN f) in
      md_row [escapeCell (Severity f), escapeCell (RuleID f), escapeCell subject, escapeCell fp])"

definition writeFindingsByPack :: "compliance_summary \<Rightarrow> string \<Rightarrow> string" where
  "writeFindingsByPack summary pack = (let fs = filter (\<lambda>f. Pack f = pack) (Findings summary) in
     if fs = [] then ''No '' @ pack @ '' findings.'' @ nl @ nl
     else ''| Severity | Rule | Subject | Fingerprint |'' @ nl @ ''|----------|------|---------|-------------|'' @ nl @
       concat (map finding_line (take 20 fs)) @ nl)"

definition writeCertHealth :: "(string list \<Rightarrow> string list) \<Rightarrow> cert_health \<Rightarrow> string" where
  "writeCertHealth visit h = (let e = ch_ExpiryBuckets h in
     ''## Certificate health'' @ nl @ nl @ ''**Total certificates:** '' @ itoa (ch_Total h) @ nl @ nl @
     (if ch_ByStatus h \<noteq> [] then ''| Status | Count |'' @ nl @ ''|--------|-------|'' @ nl @
        concat (map (\<lambda>k. md_row [escapeCell k, itoa (count_of (ch_ByStatus h) k)]) (sortedKeys visit (ch_ByStatus h))) @ nl else []) @
     ''**Days until expiry:**'' @ nl @ nl @ ''| Bucket | Count |'' @ nl @ ''|--------|-------|'' @ nl @
     md_row [''Expired'', itoa (eb_Expired e)] @ md_row [at_most @ '' 7 days'', itoa (eb_Within7 e)] @
     md_row [''8'' @ en_dash @ ''30 days'', itoa (eb_Within30 e)] @ md_row [''31'' @ en_dash @ ''90 days'', itoa (eb_Within90 e)] @
     md_row [''> 90 days'', itoa (eb_Beyond90 e)] @ nl)"

definition scope_line :: "(string \<times> expiry_counts) list \<Rightarrow> string \<Rightarrow> string" where
  "scope_line m sc = (let c = (case map_of m sc of None \<Rightarrow> no_counts | Some x \<Rightarrow> x) in
     md_row [escapeCell (if sc = [] then em_dash else sc), itoa (xc_Within7 c), itoa (xc_Within30 c), itoa (xc_Within90 c)])"

definition writeExpiryRisk :: "(string list \<Rightarrow> string list) \<Rightarrow> expiry_risk \<Rightarrow> string" where
  "writeExpiryRisk visit r =
     ''## Expiry risk'' @ nl @ nl @ ''- **Expiring within 7 days:** '' @ itoa (er_Within7 r) @ nl @
     ''- **Expiring within 30 days:** '' @ itoa (er_Within30 r) @ nl @ ''- **Expiring within 90 days:** '' @ itoa (er_Within90 r) @ nl @ nl @
     (if er_ByScope r \<noteq> [] then ''| Scope | '' @ at_most @ ''7d | '' @ at_most @ ''30d | '' @ at_most @ ''90d |'' @ nl @
        ''|-------|-----|------|------|'' @ nl @ concat (map (scope_line (er_ByScope r)) (sortedKeysExpiry visit (er_ByScope r))) @ nl else [])"

definition issuer_line :: "issuer_summary \<Rightarrow> string" where
  "issuer_line i = md_row [escapeCell (is_IssuerDN i), itoa (is_CertCount i), itoa (is_CACount i), itoa (is_InVault i),
     if is_ImportCandidate i then ''yes'' else ''no'']"

definition writeIssuerTrust :: "issuer_summary list \<Rightarrow> string" where
  "writeIssuerTrust is = ''## Issuer trust & chain quality'' @ nl @ nl @
     (if is = [] then ''No issuers observed for this scan.'' @ nl @ nl
      else ''| Issuer | Certs | CA | In Vault | Import candidate |'' @ nl @ ''|--------|-------|----|----------|------------------|'' @ nl @
        concat (map issuer_line (take 25 is)) @ nl)"

definition count_lines :: "(string list \<Rightarrow> string list) \<Rightarrow> counts \<Rightarrow> string" where
  "count_lines visit m = concat (map (\<lambda>k. ''- '' @ escapeCell k @ '': '' @ itoa (count_of m k) @ nl) (sortedKeys visit m)) @ nl"

definition writeScopeGovernance :: "(string list \<Rightarrow> string list) \<Rightarrow> scope_governance \<Rightarrow> string" where
  "writeScopeGovernance visit g = ''## Scope & governance'' @ nl @ nl @
     (if sg_ByScope g \<noteq> [] then ''**By scope:**'' @ nl @ nl @ count_lines visit (sg_ByScope g) else []) @
     (if sg_ByManagedStatus g \<noteq> [] then ''**By managed status:**'' @ nl @ nl @ count_lines visit (sg_ByManagedStatus g) else []) @
     ''**Ownership coverage:** '' @ itoa (sg_WithOwner g) @ '' of '' @ itoa (sg_Total g) @ '' certificates have an owner.'' @ nl @ nl"

definition insight_line :: "insight \<Rightarrow> string" where
  "insight_line i = md_row [escapeCell (in_Severity i), escapeCell (in_Type i), escapeCell (if in_SubjectCN i = [] then em_dash else in_SubjectCN i),
     escapeCell (in_Recommendation i), escapeCell (in_Description i)]"

definition writeTopInsights :: "insight list \<Rightarrow> string" where
  "writeTopInsights ins = ''## Insights'' @ nl @ nl @
     (if ins = [] then ''No insights for this scan.'' @ nl @ nl
      else ''| Severity | Type | Subject | Recommendation | Description |'' @ nl @ ''|----------|------|---------|----------------|-------------|'' @ nl @
        concat (map insight_line (take 50 ins)) @ nl)"

definition writeRecommendations :: "recommendation list \<Rightarrow> string" where
  "writeRecommendations recs = ''## Recommendations'' @ nl @ nl @
     (if recs = [] then ''No recommended actions.'' @ nl @ nl
      else ''| Phase | Action | Count |'' @ nl @ ''|-------|--------|-------|'' @ nl @
        concat (map (\<lambda>r. md_row [escapeCell (re_Phase r), escapeCell (re_Title r), itoa (re_Count r)]) recs) @ nl)"

text \<open>\<^verbatim>\<open>Format("2006-01-02 15:04:05 UTC")\<close> of an instant in UTC.\<close>

definition format_utc :: "time \<Rightarrow> string" where
  "format_utc t = (let sec = t div second mod 86400 in
     format_date t @ '' '' @ pad2 (sec div 3600) @ '':'' @ pad2 (sec div 60 mod 60) @ '':'' @ pad2 (sec mod 60) @ '' UTC'')"

definition scan_status_text :: "scan_status \<Rightarrow> string" where
  "scan_status_text st = (case st of ScanPending \<Rightarrow> ''pending'' | ScanRunning \<Rightarrow> ''running'' | ScanCompleted \<Rightarrow> ''completed'' | ScanFailed \<Rightarrow> ''failed'')"

definition sample_line :: "target_failure_sample \<Rightarrow> string" where
  "sample_line x = (let target = (if ts_Hostname x \<noteq> [] then ts_Hostname x @ '':'' @ itoa (ts_Port x) else ts_IP x @ '':'' @ itoa (ts_Port x)) in
     md_row [escapeCell (ts_Kind x), escapeCell target, escapeCell (ts_Reason x)])"

definition writeDiagnostics :: "scan_diagnostics \<Rightarrow> string" where
  "writeDiagnostics d = ''## Scan diagnostics'' @ nl @ nl @
     ''- **Targets:** '' @ itoa (sd_TargetsSucceeded d) @ '' succeeded / '' @ itoa (sd_TargetsFailed d) @ '' failed / '' @ itoa (sd_TargetsTotal d) @ '' total'' @ nl @
     ''- **Certificates persisted:** '' @ itoa (sd_CertsFound d) @ nl @ ''- **Upsert failures:** '' @ itoa (sd_UpsertFailures d) @ nl @
     (case sd_Error d of None \<Rightarrow> [] | Some e \<Rightarrow> if e \<noteq> [] then ''- **Scan error:** '' @ e @ nl else []) @
     (if sd_ExpansionWarnings d \<noteq> [] then nl @ ''**Expansion warnings:**'' @ nl @ nl @
        concat (map (\<lambda>w. ''- '' @ w @ nl) (sd_ExpansionWarnings d)) else []) @
     (if sd_FailureSamples d \<noteq> [] then nl @ ''**Failure samples:**'' @ nl @ nl @ ''| Kind | Target | Reason |'' @ nl @ ''|------|--------|--------|'' @ nl @
        concat (map sample_line (take 10 (sd_FailureSamples d))) else []) @ nl"

definition writeSummary :: "(uuid \<Rightarrow> string) \<Rightarrow> document \<Rightarrow> string" where
  "writeSummary ustr doc = (let b = d_BlindSpot doc in
     ''# Executive summary'' @ nl @ nl @ ''**Scan ID:** `'' @ ustr (d_ScanID doc) @ ''`'' @ nl @ nl @
     ''**Status:** '' @ scan_status_text (d_ScanStatus doc) @ nl @ nl @ ''**Generated:** '' @ format_utc (d_GeneratedAt doc) @ nl @ nl @
     ''**Scope:** '' @ formatScope (d_Scope doc) @ nl @ nl @
     ''- **Certificates discovered:** '' @ itoa (bs_Discovered b) @ nl @ ''- **Vault managed:** '' @ itoa (bs_VaultManaged b) @ nl @
     ''- **Shadow certs (on wire, not in Vault):** '' @ itoa (bs_Shadow b) @ nl @ ''- **SC-081 violations:** '' @ itoa (bs_SC081Violations b) @ nl @
     ''- **PCI findings:** '' @ itoa (PCIFindingCount (d_Compliance doc)) @ nl @
     ''- **Total compliance findings:** '' @ itoa (int (length (Findings (d_Compliance doc)))) @ nl @ nl @
     ''## Blind-spot reveal'' @ nl @ nl @
     ''Vault sees **'' @ itoa (bs_VaultManaged b) @ ''** managed certificate(s). The scan found **'' @ itoa (bs_Discovered b) @
     ''** unique certificate(s) on the wire. **'' @ itoa (bs_Shadow b) @
     ''** shadow certificate(s) are visible on the network but not matched to Vault PKI.'' @ nl @ nl @
     (if bs_Shadow b > 0 then ''Shadow certs represent the Vault blind spot '' @ em_dash @
        '' TLS endpoints serving certificates that Vault PKI reconcile did not match.'' @ nl @ nl
      else ''No shadow certificates detected for this scan scope.'' @ nl @ nl))"

definition writeCompliance :: "compliance_summary \<Rightarrow> string" where
  "writeCompliance sm = (let inv = AlgorithmInventory sm in
     ''## SC-081 posture'' @ nl @ nl @ ''**Violations:** '' @ itoa (SC081ViolationCount sm) @ '' (of '' @ itoa (TotalCerts sm) @
     '' certificates evaluated)'' @ nl @ nl @ writeFindingsByPack sm ''sc081'' @
     ''## PCI inventory gaps'' @ nl @ nl @ ''**Findings:** '' @ itoa (PCIFindingCount sm) @ nl @ nl @ writeFindingsByPack sm ''pci'' @
     ''## Algorithm inventory'' @ nl @ nl @ ''| Algorithm | Count |'' @ nl @ ''|-----------|-------|'' @ nl @
     md_row [''RSA 2048+'', itoa (RSA2048Plus inv)] @ md_row [''RSA under 2048'', itoa (RSAUnder2048 inv)] @
     md_row [''ECDSA'', itoa (ECDSA inv)] @ md_row [''Ed25519'', itoa (Ed25519 inv)] @
     md_row [''SHA-1 signatures'', itoa (SHA1Signatures inv)] @ nl)"

definition RenderMarkdown :: "(uuid \<Rightarrow> string) \<Rightarrow> (string list \<Rightarrow> string list) \<Rightarrow> document \<Rightarrow> string" where
  "RenderMarkdown ustr visit doc = writeSummary ustr doc @ writeCompliance (d_Compliance doc) @ writeDiagnostics (d_Diagnostics doc) @
     writeCertHealth visit (d_CertHealth doc) @ writeExpiryRisk visit (d_ExpiryRisk doc) @ writeIssuerTrust (d_IssuerTrust doc) @
     writeScopeGovernance visit (d_Governance doc) @ writeTopInsights (d_Insights doc) @ writeRecommendations (d_Recommends doc)"

section \<open>Handlers\<close>

datatype report_body = MarkdownBody string | JSONBody document | CSVBody string string

definition render_report :: "(string list \<Rightarrow> string list) \<Rightarrow> request \<Rightarrow> uuid \<Rightarrow> string \<Rightarrow> document \<Rightarrow> report_body handler" where
  "render_report visit r i param doc s =
     (let fmt0 = to_lower param; fmt = (if fmt0 = [] then ''markdown'' else fmt0) in
      if fmt = ''markdown'' then writeJSON 200 (MarkdownBody (RenderMarkdown (db_ustr s) visit doc)) s
      else if fmt = ''json'' then writeJSON 200 (JSONBody doc) s
      else if fmt = ''csv'' then writeJSON 200 (CSVBody (''scan-'' @ db_ustr s i @ ''-report.csv'') (RenderCSV doc)) s
      else writeError r 400 ''format must be markdown, json, or csv'' s)"

definition handleGetScanReport :: "(string list \<Rightarrow> string list) \<Rightarrow> request \<Rightarrow> uuid option \<Rightarrow> string \<Rightarrow> report_body loop_handler" where
  "handleGetScanReport visit r idp param s = (case idp of None \<Rightarrow> Some (writeError r 400 ''invalid scan id'' s)
     | Some i \<Rightarrow> (case BuildForScan visit i s of None \<Rightarrow> None
        | Some (Inl ErrScanNotCompleted, s') \<Rightarrow> Some (writeError r 404 ''scan not completed'' s')
        | Some (Inl (StoreError e), s') \<Rightarrow> Some (writeLookupError r e ErrScanNotFound ''scan not found'' ''failed to build report'' s')
        | Some (Inr doc, s') \<Rightarrow> Some (render_report visit r i param doc s')))"

definition buildBlindSpotSummary :: "int \<Rightarrow> int \<Rightarrow> int \<Rightarrow> blind_spot_summary" where
  "buildBlindSpotSummary managed discovered sc081 = (let shadow = (if discovered - managed < 0 then 0 else discovered - managed) in
     \<lparr>bs_VaultManaged = managed, bs_Discovered = discovered, bs_Shadow = shadow, bs_SC081Violations = sc081\<rparr>)"

definition blindSpotSummary :: "uuid option \<Rightarrow> blind_spot_summary loop_op" where
  "blindSpotSummary scanID s = (case CountByManagedStatus scanID s of (Inl e, s1) \<Rightarrow> Some (Inl e, s1)
     | (Inr (managed, discovered), s1) \<Rightarrow> (case CountSC081In scanID s1 of None \<Rightarrow> None
        | Some (Inl e, s2) \<Rightarrow> Some (Inl e, s2)
        | Some (Inr n, s2) \<Rightarrow> Some (Inr (buildBlindSpotSummary managed discovered n), s2)))"

definition answer_loop :: "request \<Rightarrow> string \<Rightarrow> 'a loop_op \<Rightarrow> 'a loop_handler" where
  "answer_loop r msg m s = (case m s of None \<Rightarrow> None | Some (Inl e, s') \<Rightarrow> Some (writeServerError r e msg s')
     | Some (Inr v, s') \<Rightarrow> Some (writeJSON 200 v s'))"

definition with_scan :: "request \<Rightarrow> uuid \<Rightarrow> 'a loop_handler \<Rightarrow> 'a loop_handler" where
  "with_scan r i k s = (case GetScan i s of
     (Inl e, s') \<Rightarrow> Some (writeLookupError r e ErrScanNotFound ''scan not found'' ''failed to load scan'' s')
   | (Inr _, s') \<Rightarrow> k s')"

definition handleGetScanBlindSpot :: "request \<Rightarrow> uuid option \<Rightarrow> blind_spot_summary loop_handler" where
  "handleGetScanBlindSpot r idp s = (case idp of None \<Rightarrow> Some (writeError r 400 ''invalid scan id'' s)
     | Some i \<Rightarrow> with_scan r i (answer_loop r ''failed to compute blind-spot summary'' (blindSpotSummary (Some i))) s)"

definition handleGetBlindSpot :: "request \<Rightarrow> blind_spot_summary loop_handler" where
  "handleGetBlindSpot r = answer_loop r ''failed to compute blind-spot summary'' (blindSpotSummary None)"

definition handleGetScanCompliance :: "request \<Rightarrow> uuid option \<Rightarrow> compliance_summary loop_handler" where
  "handleGetScanCompliance r idp s = (case idp of None \<Rightarrow> Some (writeError r 400 ''invalid scan id'' s)
     | Some i \<Rightarrow> with_scan r i (answer_loop r ''failed to evaluate compliance'' (EvaluateScanIn (Some i))) s)"

text \<open>The query parameter is absent, not an identifier, or one.\<close>

definition handleGetComplianceSummary :: "request \<Rightarrow> uuid option option \<Rightarrow> compliance_summary loop_handler" where
  "handleGetComplianceSummary r q s = (case q of None \<Rightarrow> answer_loop r ''failed to evaluate compliance'' (EvaluateScanIn None) s
     | Some None \<Rightarrow> Some (writeError r 400 ''invalid scan_id'' s)
     | Some (Some i) \<Rightarrow> with_scan r i (answer_loop r ''failed to evaluate compliance'' (EvaluateScanIn (Some i))) s)"

section \<open>Reading a CSV report\<close>

text \<open>The reference reader: RFC 4180, a quoted field ending at the first quote that is not doubled.\<close>

datatype csv_mode = FieldStart | Bare | Quoted | QuoteSeen

fun csv_read :: "csv_mode \<Rightarrow> string \<Rightarrow> string list \<Rightarrow> string \<Rightarrow> string list list" where
  "csv_read m f fs [] = (if m = FieldStart \<and> fs = [] then [] else [fs @ [f]])"
| "csv_read m f fs (c # cs) =
     (if m = Quoted then (if c = CHR 0x22 then csv_read QuoteSeen f fs cs else csv_read Quoted (f @ [c]) fs cs)
      else if c = CHR '','' then csv_read FieldStart [] (fs @ [f]) cs
      else if c = CHR 0x0A then (fs @ [f]) # csv_read FieldStart [] [] cs
      else if c = CHR 0x22 \<and> m = FieldStart then csv_read Quoted [] fs cs
      else if c = CHR 0x22 \<and> m = QuoteSeen then csv_read Quoted (f @ [c]) fs cs
      else csv_read Bare (f @ [c]) fs cs)"

lemma csv_read_bare:
  "list_all (\<lambda>c. c \<notin> {CHR 0x0A, CHR 0x22, CHR '',''}) s \<Longrightarrow> csv_read Bare f fs (s @ rest) = csv_read Bare (f @ s) fs rest"
  by (induction s arbitrary: f) auto

lemma csv_read_quoted:
  "csv_read Quoted f fs (concat (map (\<lambda>c. if c = CHR 0x22 then [CHR 0x22, CHR 0x22] else [c]) s) @ rest) = csv_read Quoted (f @ s) fs rest"
  by (induction s arbitrary: f) auto

lemma csv_read_field:
  assumes "c \<in> {CHR '','', CHR 0x0A}"
  shows "csv_read FieldStart [] fs (csv_field s @ c # rest) =
    (if c = CHR 0x0A then (fs @ [s]) # csv_read FieldStart [] [] rest else csv_read FieldStart [] (fs @ [s]) rest)"
proof (cases "fieldNeedsQuotes s")
  case True
  then show ?thesis using assms csv_read_quoted [of "[]" fs s "CHR 0x22 # c # rest"] by (auto simp: csv_field_def)
next
  case plain: False
  show ?thesis
  proof (cases s)
    case Nil
    then show ?thesis using plain assms by (auto simp: csv_field_def)
  next
    case (Cons x xs)
    have "list_all (\<lambda>c. c \<notin> {CHR 0x0A, CHR 0x22, CHR '',''}) s"
      using plain Cons unfolding fieldNeedsQuotes_def by (auto simp: list_ex_iff list_all_iff)
    then have "list_all (\<lambda>c. c \<notin> {CHR 0x0A, CHR 0x22, CHR '',''}) xs" "x \<notin> {CHR 0x0A, CHR 0x22, CHR '',''}"
      using Cons by simp_all
    then show ?thesis using plain Cons assms csv_read_bare [of xs "[x]" fs "c # rest"] by (auto simp: csv_field_def)
  qed
qed

lemma csv_read_record:
  "row \<noteq> [] \<Longrightarrow> csv_read FieldStart [] fs (csv_record row @ rest) = (fs @ row) # csv_read FieldStart [] [] rest"
proof (induction row arbitrary: fs)
  case (Cons x row)
  show ?case
  proof (cases row)
    case Nil
    then show ?thesis using csv_read_field [of "CHR 0x0A" fs x rest] by (simp add: csv_record_def)
  next
    case (Cons y ys)
    have "csv_record (x # row) @ rest = csv_field x @ CHR '','' # (csv_record row @ rest)" by (simp add: csv_record_def Cons)
    then show ?thesis using Cons.IH [of "fs @ [x]"] csv_read_field [of "CHR '',''" fs x "csv_record row @ rest"] Cons by simp
  qed
qed simp

definition formula_free :: "string \<Rightarrow> bool" where
  "formula_free s \<longleftrightarrow> s = [] \<or> hd s \<notin> {CHR ''='', CHR ''+'', CHR ''-'', CHR ''@'', CHR 0x09, CHR 0x0D}"

lemma sanitizeCSVCell_safe: "formula_free (sanitizeCSVCell s)"
  by (auto simp: sanitizeCSVCell_def formula_free_def split: list.splits)

text \<open>
  C21. The CSV report reads back as it was written. Whatever text the scanned endpoints put into their
  certificates, a reader of RFC 4180 finds the header and one record of ten cells per insight, in order,
  each cell the insight's value, prefixed by a quote where a spreadsheet would run it, and no cell
  begins with a character that starts a formula.
\<close>

theorem RenderCSV_roundtrip:
  "csv_read FieldStart [] [] (RenderCSV doc) = csvHeader # map (\<lambda>i. map sanitizeCSVCell (csv_cells i)) (d_Insights doc) \<and>
   list_all (list_all formula_free) (csv_read FieldStart [] [] (RenderCSV doc))"
proof -
  have "csv_read FieldStart [] [] (concat (map (\<lambda>i. csv_record (map sanitizeCSVCell (csv_cells i))) is)) =
      map (\<lambda>i. map sanitizeCSVCell (csv_cells i)) is" for "is"
    by (induction "is") (simp_all add: csv_read_record csv_cells_def Let_def)
  then have "csv_read FieldStart [] [] (RenderCSV doc) = csvHeader # map (\<lambda>i. map sanitizeCSVCell (csv_cells i)) (d_Insights doc)"
    by (simp add: RenderCSV_def csv_read_record csvHeader_def)
  then show ?thesis by (simp add: list.pred_map comp_def list_all_iff sanitizeCSVCell_safe csvHeader_def) (simp add: formula_free_def)
qed

section \<open>Reading a Markdown table\<close>

text \<open>The reference reader: a line of a table is cut at the pipes that no backslash escapes.\<close>

fun md_cells :: "string \<Rightarrow> string \<Rightarrow> string list" where
  "md_cells f [] = [f]"
| "md_cells f [c] = (if c = CHR ''|'' then [f, []] else [f @ [c]])"
| "md_cells f (c # d # cs) =
     (if c = CHR 0x5C then md_cells (f @ [d]) cs
      else if c = CHR ''|'' then f # md_cells [] (d # cs) else md_cells (f @ [c]) (d # cs))"

definition one_line :: "string \<Rightarrow> string" where
  "one_line s = map (\<lambda>c. if c \<in> {CHR 0x0A, CHR 0x0D} then CHR '' '' else c) s"

definition md_escape_char :: "char \<Rightarrow> string" where
  "md_escape_char c = (if c \<in> {CHR 0x0A, CHR 0x0D} then '' '' else if c \<in> {CHR 0x5C, CHR ''|''} then [CHR 0x5C, c] else [c])"

lemma escapeCell_eq: "escapeCell s = concat (map md_escape_char s)"
  unfolding escapeCell_def replace_char_def by (induction s) (auto simp: md_escape_char_def)

lemma escapeCell_line: "CHR 0x0A \<notin> set (escapeCell s)" "CHR 0x0D \<notin> set (escapeCell s)"
  by (auto simp: escapeCell_eq md_escape_char_def split: if_splits)

lemma md_cells_plain: "c \<noteq> CHR 0x5C \<Longrightarrow> c \<noteq> CHR ''|'' \<Longrightarrow> md_cells f (c # cs) = md_cells (f @ [c]) cs"
  by (cases cs) auto

lemma md_cells_pipe: "md_cells f (CHR ''|'' # cs) = f # md_cells [] cs"
  by (cases cs) auto

lemma md_cells_escaped: "md_cells f (escapeCell s @ rest) = md_cells (f @ one_line s) rest"
proof (induction s arbitrary: f)
  case (Cons c s)
  have "md_cells f (md_escape_char c @ escapeCell s @ rest) = md_cells (f @ one_line [c]) (escapeCell s @ rest)"
    by (auto simp: md_escape_char_def one_line_def md_cells_plain)
  then show ?case using Cons.IH [of "f @ one_line [c]"] by (simp add: escapeCell_eq one_line_def)
qed (simp add: escapeCell_eq one_line_def)

definition shown :: "string list \<Rightarrow> string list" where
  "shown cells = [] # map (\<lambda>v. '' '' @ one_line v @ '' '') cells @ [[]]"

definition md_line :: "string list \<Rightarrow> string" where
  "md_line cells = ''| '' @ str_join cells '' | '' @ '' |''"

lemma md_row_line: "md_row cells = md_line cells @ nl"
  by (simp add: md_row_def md_line_def)

lemma md_cells_join:
  "cells \<noteq> [] \<Longrightarrow> md_cells [] ('' '' @ str_join (map escapeCell cells) '' | '' @ '' |'') = map (\<lambda>v. '' '' @ one_line v @ '' '') cells @ [[]]"
proof (induction cells)
  case (Cons x xs)
  show ?case
  proof (cases xs)
    case Nil
    then show ?thesis using md_cells_escaped [of "'' ''" x "'' |''"] by (simp add: md_cells_plain)
  next
    case (Cons y ys)
    then show ?thesis
      using Cons.IH md_cells_escaped [of "'' ''" x "'' | '' @ str_join (map escapeCell xs) '' | '' @ '' |''"]
      by (simp add: md_cells_plain md_cells_pipe)
  qed
qed simp

lemma md_cells_line: "cells \<noteq> [] \<Longrightarrow> md_cells [] (md_line (map escapeCell cells)) = shown cells"
  using md_cells_join by (simp add: md_line_def shown_def md_cells_pipe)

lemma str_join_set: "set (str_join xs sep) \<subseteq> \<Union> (set ` set xs) \<union> set sep"
  by (induction xs sep rule: str_join.induct) auto

lemma md_line_one: "CHR 0x0A \<notin> set (md_line (map escapeCell cells))"
  using str_join_set [of "map escapeCell cells" "'' | ''"] escapeCell_line by (fastforce simp: md_line_def)

lemma split_on_line: "c \<notin> set a \<Longrightarrow> split_on c (a @ c # rest) = a # split_on c rest"
  by (induction a) auto

lemma split_on_rows:
  "split_on (CHR 0x0A) (concat (map (\<lambda>x. md_row (map escapeCell (g x))) xs) @ rest) =
     map (\<lambda>x. md_line (map escapeCell (g x))) xs @ split_on (CHR 0x0A) rest"
  by (induction xs) (simp_all add: md_row_line nl_def split_on_line md_line_one)

definition insight_cells :: "insight \<Rightarrow> string list" where
  "insight_cells i = [in_Severity i, in_Type i, if in_SubjectCN i = [] then em_dash else in_SubjectCN i, in_Recommendation i, in_Description i]"

text \<open>
  C27. The table of insights cannot be broken out of. Whatever text the scanned endpoints put into their
  certificates, the section has its heading, the two header lines, one line per insight (fifty at most)
  and nothing else, and every line is cut at the pipes into exactly the five values of its insight, with
  line breaks shown as spaces.
\<close>

theorem insight_table_intact:
  assumes "ins \<noteq> []"
  shows "\<exists>rows. split_on (CHR 0x0A) (writeTopInsights ins) =
      [''## Insights'', [], ''| Severity | Type | Subject | Recommendation | Description |'',
       ''|----------|------|---------|----------------|-------------|''] @ rows @ [[], []] \<and>
    map (md_cells []) rows = map (\<lambda>i. shown (insight_cells i)) (take 50 ins)"
proof -
  have line: "insight_line = (\<lambda>i. md_row (map escapeCell (insight_cells i)))"
    by (rule ext) (simp add: insight_line_def insight_cells_def)
  have body: "writeTopInsights ins = ''## Insights'' @ CHR 0x0A # [] @ CHR 0x0A # ''| Severity | Type | Subject | Recommendation | Description |'' @
      CHR 0x0A # ''|----------|------|---------|----------------|-------------|'' @
      CHR 0x0A # (concat (map (\<lambda>i. md_row (map escapeCell (insight_cells i))) (take 50 ins)) @ nl)"
    using assms by (simp add: writeTopInsights_def nl_def line)
  have "split_on (CHR 0x0A) (writeTopInsights ins) =
      [''## Insights'', [], ''| Severity | Type | Subject | Recommendation | Description |'',
       ''|----------|------|---------|----------------|-------------|''] @
      map (\<lambda>i. md_line (map escapeCell (insight_cells i))) (take 50 ins) @ [[], []]"
    unfolding body by (subst split_on_line, simp)+ (simp only: split_on_rows, simp add: nl_def)
  moreover have "md_cells [] (md_line (map escapeCell (insight_cells i))) = shown (insight_cells i)" for i
    by (rule md_cells_line) (simp add: insight_cells_def)
  ultimately show ?thesis by (intro exI [of _ "map (\<lambda>i. md_line (map escapeCell (insight_cells i))) (take 50 ins)"]) simp
qed

theorem insight_table_intact_witness:
  "\<exists>row. split_on (CHR 0x0A) (writeTopInsights [mk_insight ((blank_cert 5 ''fp'')\<lparr>c_SubjectCN := Some ''a|b''\<rparr>) ''c'' ''t'' ''low'' ''r'' ''d'']) =
      [''## Insights'', [], ''| Severity | Type | Subject | Recommendation | Description |'',
       ''|----------|------|---------|----------------|-------------|'', row, [], []] \<and>
    md_cells [] row = [[], '' low '', '' t '', '' a|b '', '' r '', '' d '', []]"
  using insight_table_intact [of "[mk_insight ((blank_cert 5 ''fp'')\<lparr>c_SubjectCN := Some ''a|b''\<rparr>) ''c'' ''t'' ''low'' ''r'' ''d'']"]
  by (auto simp: insight_cells_def shown_def one_line_def mk_insight_def cn_of_def blank_cert_def map_eq_Cons_conv)

end
