(* ===== verification/Cert_Parse.thy ===== *)
theory Cert_Parse
  imports Revocation
begin

text \<open>
  Reading a presented certificate: \<^verbatim>\<open>internal/cert\<close>. A parsed \<^verbatim>\<open>x509.Certificate\<close> is a record of the
  fields the code reads; SHA-256, PEM encoding, \<^verbatim>\<open>net.ParseIP\<close>, path validation and the iteration order
  of a Go map are parameters.
\<close>

section \<open>Certificates\<close>

datatype public_key = RSA_key int | ECDSA_key int | Ed25519_key | Other_key

record x509 =
  x_Raw :: string
  x_SerialNumber :: int
  x_SubjectCN :: string
  x_Subject :: string
  x_Issuer :: string
  x_AuthorityKeyId :: string
  x_NotBefore :: time
  x_NotAfter :: time
  x_PublicKey :: public_key
  x_SignatureAlgorithm :: string
  x_IsCA :: bool
  x_KeyUsage :: nat
  x_ExtKeyUsage :: "int list"
  x_DNSNames :: "string list"
  x_IPAddresses :: "string list"
  x_EmailAddresses :: "string list"
  x_CRLDistributionPoints :: "string list"
  x_OCSPServer :: "string list"

text \<open>
  What the parser calls: \<open>verify\<close> is \<^verbatim>\<open>Certificate.Verify\<close> with the given roots and intermediates, where
  no roots in the options mean the system's; \<open>system_pool\<close> tells whether \<^verbatim>\<open>x509.SystemCertPool\<close> loads.
\<close>

datatype roots = SystemRoots | EmptyRoots

record cert_libs =
  cl_sha256 :: "string \<Rightarrow> string"
  cl_pem_encode :: "string \<Rightarrow> string"
  cl_is_ip :: "string \<Rightarrow> bool"
  cl_system_pool :: bool
  cl_verify :: "roots \<Rightarrow> x509 list \<Rightarrow> x509 \<Rightarrow> bool"
  cl_map_order :: "(nat \<times> string) list \<Rightarrow> (nat \<times> string) list"

section \<open>Keys and post-quantum tags\<close>

fun key_meta :: "public_key \<Rightarrow> string \<times> int" where
  "key_meta (RSA_key bits) = (''RSA'', bits)"
| "key_meta (ECDSA_key bits) = (''ECDSA'', bits)"
| "key_meta Ed25519_key = (''Ed25519'', 256)"
| "key_meta Other_key = (''unknown'', 0)"

definition publicKeyMeta :: "x509 \<Rightarrow> string \<times> int" where
  "publicKeyMeta c = key_meta (x_PublicKey c)"

definition looksPQC :: "string \<Rightarrow> bool" where
  "looksPQC s \<longleftrightarrow> list_ex (str_contains s)
     [''ml-dsa'', ''mldsa'', ''dilithium'', ''slh-dsa'', ''slhdsa'', ''sphincs'', ''ml-kem'', ''mlkem'', ''kyber'',
      ''falcon'', ''bike'', ''hqc'']"

definition looksHybrid :: "string \<Rightarrow> bool" where
  "looksHybrid s \<longleftrightarrow> (str_contains s ''hybrid'' \<or> str_contains s ''composite'' \<or> str_contains s ''+'') \<and>
     list_ex (str_contains s) [''rsa'', ''ecdsa'', ''ed25519'', ''p256'', ''p384'', ''x25519''] \<and> looksPQC s"

definition ClassifyPQCTag :: "string \<Rightarrow> string \<Rightarrow> string" where
  "ClassifyPQCTag keyType signatureAlgorithm =
     (let kt = to_lower (trim_space keyType);
          sig = to_lower (trim_space signatureAlgorithm);
          combined = kt @ '' '' @ sig in
      if looksHybrid combined then ''hybrid''
      else if looksPQC combined then ''pqc''
      else if kt \<in> {''rsa'', ''ecdsa'', ''ed25519''} then ''classic''
      else if kt \<in> {''unknown'', []} then ''unknown''
      else if looksPQC kt then ''pqc'' else ''unknown'')"

section \<open>Names\<close>

definition collectSANs :: "x509 \<Rightarrow> string list" where
  "collectSANs c = x_DNSNames c @ x_IPAddresses c @ x_EmailAddresses c"

definition matchHostname :: "string \<Rightarrow> string \<Rightarrow> bool" where
  "matchHostname host pat \<longleftrightarrow> pat = host \<or>
     (starts_with pat ''*.'' \<and> ends_with host (drop 1 pat) \<and> str_count host CHR ''.'' \<ge> str_count pat CHR ''.'')"

definition hostnameMatchesSAN :: "cert_libs \<Rightarrow> x509 \<Rightarrow> string \<Rightarrow> string \<Rightarrow> bool" where
  "hostnameMatchesSAN L c hostname sni =
     (let check = (if trim_space sni = [] then trim_space hostname else trim_space sni) in
      if check = [] then True
      else if cl_is_ip L check then check \<in> set (x_IPAddresses c) \<or> x_IPAddresses c = []
      else let check = to_lower check in
        list_ex (\<lambda>d. matchHostname check (to_lower d)) (x_DNSNames c) \<or> equal_fold (x_SubjectCN c) check \<or>
        (x_DNSNames c = [] \<and> x_SubjectCN c = []))"

section \<open>Usages\<close>

text \<open>The bits of \<^verbatim>\<open>x509.KeyUsage\<close> by their number; the loop ranges over a map, in the order Go chooses.\<close>

definition usageMap :: "(nat \<times> string) list" where
  "usageMap = [(0, ''digital_signature''), (1, ''content_commitment''), (2, ''key_encipherment''), (3, ''data_encipherment''),
     (4, ''key_agreement''), (5, ''cert_sign''), (6, ''crl_sign''), (7, ''encipher_only''), (8, ''decipher_only'')]"

definition keyUsageStrings :: "cert_libs \<Rightarrow> x509 \<Rightarrow> string list" where
  "keyUsageStrings L c = map snd (filter (\<lambda>(u, name). odd (x_KeyUsage c div 2 ^ u)) (cl_map_order L usageMap))"

definition ekuMap :: "(int \<times> string) list" where
  "ekuMap = [(0, ''any''), (1, ''server_auth''), (2, ''client_auth''), (3, ''code_signing''), (4, ''email_protection''),
     (5, ''ipsec_end_system''), (6, ''ipsec_tunnel''), (7, ''ipsec_user''), (8, ''time_stamping''), (9, ''ocsp_signing''),
     (10, ''microsoft_server_gated_crypto''), (11, ''netscape_server_gated_crypto''),
     (12, ''microsoft_commercial_code_signing''), (13, ''microsoft_kernel_code_signing'')]"

definition extKeyUsageStrings :: "x509 \<Rightarrow> string list" where
  "extKeyUsageStrings c = map (\<lambda>u. case map_of ekuMap u of Some name \<Rightarrow> name | None \<Rightarrow> ''unknown('' @ itoa u @ '')'') (x_ExtKeyUsage c)"

section \<open>The chain\<close>

definition analyzeChain :: "cert_libs \<Rightarrow> x509 \<Rightarrow> x509 list \<Rightarrow> string" where
  "analyzeChain L leaf chain =
     (if x_Subject leaf = x_Issuer leaf then ''self_signed''
      else if cl_verify L (if cl_system_pool L then SystemRoots else EmptyRoots) (drop 1 chain) leaf then ''complete''
      else if length chain \<le> 1 then ''incomplete''
      else if cl_verify L SystemRoots (drop 1 chain) leaf then ''untrusted_root''
      else ''incomplete'')"

section \<open>Parsing\<close>

text \<open>\<^verbatim>\<open>big.Int.Text(16)\<close> and \<^verbatim>\<open>hex.EncodeToString\<close>.\<close>

definition hex_char :: "nat \<Rightarrow> char" where
  "hex_char d = (if d < 10 then char_of (48 + d) else char_of (87 + d))"

fun hex_nat :: "nat \<Rightarrow> string" where
  "hex_nat n = (if n < 16 then [hex_char n] else hex_nat (n div 16) @ [hex_char (n mod 16)])"

declare hex_nat.simps [simp del]

definition Text16 :: "int \<Rightarrow> string" where
  "Text16 n = (if n < 0 then CHR ''-'' # hex_nat (nat (- n)) else hex_nat (nat n))"

definition hex_encode :: "string \<Rightarrow> string" where
  "hex_encode bs = concat (map (\<lambda>b. [hex_char (of_char b div 16), hex_char (of_char b mod 16)]) bs)"

definition ParseCertificate :: "cert_libs \<Rightarrow> x509 \<Rightarrow> x509 list \<Rightarrow> string \<Rightarrow> string \<Rightarrow> parsed_certificate" where
  "ParseCertificate L raw chain hostname sni =
     (case publicKeyMeta raw of (keyType, keyBits) \<Rightarrow>
       \<lparr>pc_SerialNumber = Text16 (x_SerialNumber raw), pc_FingerprintSHA256 = hex_encode (cl_sha256 L (x_Raw raw)),
        pc_SubjectCN = x_SubjectCN raw, pc_SubjectAltNames = collectSANs raw, pc_IssuerDN = x_Issuer raw,
        pc_AuthorityKeyID = hex_encode (x_AuthorityKeyId raw), pc_NotBefore = x_NotBefore raw, pc_NotAfter = x_NotAfter raw,
        pc_KeyType = keyType, pc_KeyBits = keyBits, pc_SignatureAlgorithm = x_SignatureAlgorithm raw, pc_IsCA = x_IsCA raw,
        pc_KeyUsage = keyUsageStrings L raw, pc_ExtKeyUsage = extKeyUsageStrings raw, pc_PEM = cl_pem_encode L (x_Raw raw),
        pc_CRLDistributionPoints = x_CRLDistributionPoints raw, pc_OCSPServers = x_OCSPServer raw,
        pc_ChainStatus = analyzeChain L raw chain, pc_HostnameMatchesSAN = hostnameMatchesSAN L raw hostname sni,
        pc_PQCTag = ClassifyPQCTag keyType (x_SignatureAlgorithm raw), pc_Notes = []\<rparr>)"

section \<open>Serial numbers\<close>

lemma hex_digit_char:
  assumes "d < 16"
  shows "hex_digit (hex_char d) = Some (int d)"
proof -
  have "of_char (hex_char d) = (if d < 10 then 48 + d else 87 + d)"
    using assms by (simp add: hex_char_def)
  then have "int (of_char (hex_char d)) = (if d < 10 then 48 + int d else 87 + int d)"
    by (simp only: of_nat_add of_nat_numeral if_distrib [of int])
  then show ?thesis using assms unfolding hex_digit_def Let_def by (cases "d < 10") (simp_all del: of_nat_of_char)
qed

lemma hex_digits_snoc: "hex_digits a (cs @ [c]) =
   (case hex_digits a cs of None \<Rightarrow> None | Some v \<Rightarrow> map_option (\<lambda>d. 16 * v + d) (hex_digit c))"
  by (induction cs arbitrary: a) (auto split: option.splits)

lemma hex_digits_nat: "hex_digits 0 (hex_nat n) = Some (int n)"
proof (induction n rule: hex_nat.induct)
  case (1 n)
  show ?case
  proof (cases "n < 16")
    case True
    then show ?thesis by (simp add: hex_nat.simps hex_digit_char)
  next
    case False
    then have "hex_digits 0 (hex_nat (n div 16)) = Some (int (n div 16))" using 1 by blast
    then have "hex_digits 0 (hex_nat (n div 16) @ [hex_char (n mod 16)]) = Some (16 * int (n div 16) + int (n mod 16))"
      by (simp add: hex_digits_snoc hex_digit_char)
    moreover have "16 * int (n div 16) + int (n mod 16) = int n"
      by (metis mult_div_mod_eq of_nat_add of_nat_mult of_nat_numeral)
    ultimately show ?thesis using False by (simp add: hex_nat.simps [of n])
  qed
qed

lemma hex_nat_shape: "\<exists>c cs. hex_nat n = c # cs \<and> c \<noteq> CHR ''-'' \<and> c \<noteq> CHR ''+''"
proof -
  have "hex_nat n \<noteq> []" by (subst hex_nat.simps) simp
  then obtain c cs where c: "hex_nat n = c # cs" by (cases "hex_nat n") auto
  then have "hex_digit c \<noteq> None" using hex_digits_nat [of n] by (auto split: option.splits)
  then have "c \<noteq> CHR ''-''" "c \<noteq> CHR ''+''" by (auto simp: hex_digit_def Let_def)
  with c show ?thesis by blast
qed

text \<open>
  The serial number survives the inventory. The scanner stores it in base 16, the revocation check
  reads it back from there to search a revocation list: it searches for the number of the certificate,
  whatever that is.
\<close>

theorem serial_roundtrip:
  "big_hex (pc_SerialNumber (ParseCertificate L raw chain hostname sni)) = Some (x_SerialNumber raw)"
proof -
  obtain c cs where shape: "hex_nat (nat (x_SerialNumber raw)) = c # cs" "c \<noteq> CHR ''-''" "c \<noteq> CHR ''+''"
    using hex_nat_shape by blast
  obtain d ds where neg: "hex_nat (nat (- x_SerialNumber raw)) = d # ds" using hex_nat_shape by blast
  have "pc_SerialNumber (ParseCertificate L raw chain hostname sni) = Text16 (x_SerialNumber raw)"
    by (simp add: ParseCertificate_def split: prod.splits)
  then show ?thesis
    using shape neg hex_digits_nat [of "nat (x_SerialNumber raw)"] hex_digits_nat [of "nat (- x_SerialNumber raw)"]
    by (simp add: Text16_def big_hex_def hex_nonempty_def)
qed

section \<open>Host names\<close>

lemma str_count_append: "str_count (a @ b) c = str_count a c + str_count b c"
  by (induction a) auto

text \<open>
  The guard on the number of dots never refuses a name that has the suffix: a wildcard matches names of
  any depth below its domain.
\<close>

lemma wildcard_any_depth:
  "matchHostname host (''*.'' @ d) \<longleftrightarrow> host = ''*.'' @ d \<or> (\<exists>p. host = p @ ''.'' @ d)"
  by (auto simp: matchHostname_def ends_with_iff str_count_append starts_with_def)

text \<open>A root that is not trusted is not told from a chain that is incomplete when the system's pool loads.\<close>

lemma untrusted_root_unreachable: "cl_system_pool L \<Longrightarrow> analyzeChain L leaf chain \<noteq> ''untrusted_root''"
  by (simp add: analyzeChain_def)

end
