(* ===== verification/Vault_Client.thy ===== *)
theory Vault_Client
  imports Store_Model Cert_Parse
begin

text \<open>
  The Vault HTTP client: \<^verbatim>\<open>client.go\<close>, \<^verbatim>\<open>auth.go\<close> and \<^verbatim>\<open>pki.go\<close> of \<^verbatim>\<open>internal/vault\<close>. The client is a
  record that keeps the cached login and the requests it has sent; the world outside is what the server
  answers to the \<open>n\<close>-th request, the clock when \<open>n\<close> requests have been sent, and which URLs
  \<^verbatim>\<open>http.NewRequest\<close> accepts. An answer carries its text and the document \<^verbatim>\<open>encoding/json\<close> reads in it
  (\<open>None\<close> when it is not JSON; numbers are integers). The order of an object's members is the order the
  range over the decoded map takes.
\<close>

section \<open>Requests and answers\<close>

record vault_config =
  vg_Address :: string
  vg_Namespace :: string
  vg_Token :: string
  vg_AuthMethod :: string
  vg_RoleID :: string
  vg_SecretID :: string

record vault_request =
  vr_Method :: string
  vr_URL :: string
  vr_Query :: "string option"
  vr_Token :: "string option"
  vr_Namespace :: "string option"
  vr_Body :: "(string \<times> string) list"

datatype vault_response = NoResponse string | Truncated nat string | Answer nat string "json option"

record vault_client =
  vc_cfg :: vault_config
  vc_clientToken :: string
  vc_expiry :: time
  vc_renewable :: bool
  vc_sent :: "vault_request list"

record vault_world =
  vw_answer :: "nat \<Rightarrow> vault_request \<Rightarrow> vault_response"
  vw_clock :: "nat \<Rightarrow> time"
  vw_url_ok :: "string \<Rightarrow> bool"

datatype vault_error = VaultNotConfigured | AppRoleIncomplete | BadURL | RequestError string | ReadError string
  | VaultStatus nat string | DecodeError | NoAuth | NoClientToken | NoCertificate

type_synonym 'a vop = "vault_client \<Rightarrow> (vault_error + 'a) \<times> vault_client"

definition bind_v :: "'a vop \<Rightarrow> ('a \<Rightarrow> 'b vop) \<Rightarrow> 'b vop" where
  "bind_v m f c = (case m c of (Inl e, c') \<Rightarrow> (Inl e, c') | (Inr v, c') \<Rightarrow> f v c')"

definition trim_right_slash :: "string \<Rightarrow> string" where
  "trim_right_slash s = rev (dropWhile (\<lambda>ch. ch = CHR ''/'') (rev s))"

section \<open>Client\<close>

definition NewClient :: "vault_config \<Rightarrow> vault_client" where
  "NewClient cfg =
     (let addr = (if vg_Address cfg \<noteq> [] \<and> \<not> starts_with (vg_Address cfg) ''http://'' \<and> \<not> starts_with (vg_Address cfg) ''https://''
                  then ''https://'' @ vg_Address cfg else vg_Address cfg) in
      \<lparr>vc_cfg = cfg\<lparr>vg_Address := addr\<rparr>, vc_clientToken = [], vc_expiry = zero_time, vc_renewable = False, vc_sent = []\<rparr>)"

definition Configured_v :: "vault_client \<Rightarrow> bool" where
  "Configured_v c \<longleftrightarrow> vg_Address (vc_cfg c) \<noteq> []"

definition usesAppRole :: "vault_client \<Rightarrow> bool" where
  "usesAppRole c \<longleftrightarrow> equal_fold (trim_space (vg_AuthMethod (vc_cfg c))) ''approle''"

definition apiURL :: "vault_client \<Rightarrow> string \<Rightarrow> string" where
  "apiURL c path = trim_right_slash (vg_Address (vc_cfg c)) @ path"

definition setNamespaceHeader :: "vault_client \<Rightarrow> vault_request \<Rightarrow> vault_request" where
  "setNamespaceHeader c req = (if vg_Namespace (vc_cfg c) \<noteq> [] then req\<lparr>vr_Namespace := Some (vg_Namespace (vc_cfg c))\<rparr> else req)"

definition currentToken :: "vault_client \<Rightarrow> string" where
  "currentToken c = (if vc_clientToken c \<noteq> [] then vc_clientToken c else vg_Token (vc_cfg c))"

definition setVaultHeaders :: "vault_client \<Rightarrow> vault_request \<Rightarrow> vault_request" where
  "setVaultHeaders c req =
     setNamespaceHeader c (if currentToken c \<noteq> [] then req\<lparr>vr_Token := Some (currentToken c)\<rparr> else req)"

definition NewRequest :: "vault_world \<Rightarrow> string \<Rightarrow> string \<Rightarrow> (string \<times> string) list \<Rightarrow> vault_request vop" where
  "NewRequest w method url body c =
     (if vw_url_ok w url
      then (Inr \<lparr>vr_Method = method, vr_URL = url, vr_Query = None, vr_Token = None, vr_Namespace = None, vr_Body = body\<rparr>, c)
      else (Inl BadURL, c))"

definition doVault :: "vault_world \<Rightarrow> vault_request \<Rightarrow> (string \<times> nat \<times> json option) vop" where
  "doVault w req c =
     (let c' = c\<lparr>vc_sent := vc_sent c @ [req]\<rparr> in
      case vw_answer w (length (vc_sent c)) req of
        NoResponse e \<Rightarrow> (Inl (RequestError e), c')
      | Truncated status e \<Rightarrow> (Inl (ReadError e), c')
      | Answer status body doc \<Rightarrow> (Inr (body, status, doc), c'))"

section \<open>Login\<close>

text \<open>Decoding into a Go struct: an absent or null field is the zero value, another type an error.\<close>

definition str_field :: "(string \<times> json) list \<Rightarrow> string \<Rightarrow> string option" where
  "str_field kvs k = (case map_of kvs k of None \<Rightarrow> Some [] | Some JNull \<Rightarrow> Some [] | Some (JStr s) \<Rightarrow> Some s | _ \<Rightarrow> None)"

definition int_field :: "(string \<times> json) list \<Rightarrow> string \<Rightarrow> int option" where
  "int_field kvs k = (case map_of kvs k of None \<Rightarrow> Some 0 | Some JNull \<Rightarrow> Some 0
     | Some (JNum n) \<Rightarrow> if - (2 ^ 63) \<le> n \<and> n < 2 ^ 63 then Some n else None | _ \<Rightarrow> None)"

definition bool_field :: "(string \<times> json) list \<Rightarrow> string \<Rightarrow> bool option" where
  "bool_field kvs k = (case map_of kvs k of None \<Rightarrow> Some False | Some JNull \<Rightarrow> Some False | Some (JBool b) \<Rightarrow> Some b | _ \<Rightarrow> None)"

text \<open>\<^verbatim>\<open>vaultAuthReply\<close>: \<open>None\<close> is a decoding error, \<open>Some None\<close> a reply without \<^verbatim>\<open>auth\<close>.\<close>

definition vaultAuthReply :: "json option \<Rightarrow> (string \<times> int \<times> bool) option option" where
  "vaultAuthReply doc = (case doc of Some JNull \<Rightarrow> Some None
     | Some (JObj kvs) \<Rightarrow> (case map_of kvs ''auth'' of None \<Rightarrow> Some None | Some JNull \<Rightarrow> Some None
         | Some (JObj a) \<Rightarrow> (case (str_field a ''client_token'', int_field a ''lease_duration'', bool_field a ''renewable'') of
               (Some t, Some d, Some r) \<Rightarrow> Some (Some (t, d, r)) | _ \<Rightarrow> None)
         | _ \<Rightarrow> None)
     | _ \<Rightarrow> None)"

definition wrap64 :: "int \<Rightarrow> int" where
  "wrap64 x = (x + 2 ^ 63) mod 2 ^ 64 - 2 ^ 63"

definition applyAuth :: "vault_world \<Rightarrow> json option \<Rightarrow> bool \<Rightarrow> unit vop" where
  "applyAuth w doc tokenRequired c =
     (case vaultAuthReply doc of None \<Rightarrow> (Inl DecodeError, c)
      | Some None \<Rightarrow> (Inl NoAuth, c)
      | Some (Some (clientToken, lease, renewed)) \<Rightarrow>
         if clientToken = [] \<and> tokenRequired then (Inl NoClientToken, c)
         else (Inr (), c\<lparr>vc_clientToken := (if clientToken = [] then vc_clientToken c else clientToken), vc_renewable := renewed,
                vc_expiry := (if lease > 0 then vw_clock w (length (vc_sent c)) + wrap64 (lease * second) else zero_time)\<rparr>))"

definition loginLocked :: "vault_world \<Rightarrow> unit vop" where
  "loginLocked w c =
     bind_v (NewRequest w ''POST'' (apiURL c ''/v1/auth/approle/login'')
         [(''role_id'', vg_RoleID (vc_cfg c)), (''secret_id'', vg_SecretID (vc_cfg c))])
       (\<lambda>req. bind_v (doVault w (setNamespaceHeader c req)) (\<lambda>(body, status, doc) c.
          if status \<noteq> 200 then (Inl (VaultStatus status (trim_space body)), c) else applyAuth w doc True c)) c"

definition renewLocked :: "vault_world \<Rightarrow> unit vop" where
  "renewLocked w c =
     bind_v (NewRequest w ''POST'' (apiURL c ''/v1/auth/token/renew-self'') [])
       (\<lambda>req. bind_v (doVault w (setNamespaceHeader c (req\<lparr>vr_Token := Some (vc_clientToken c)\<rparr>))) (\<lambda>(body, status, doc) c.
          if status \<noteq> 200 then (Inl (VaultStatus status (trim_space body)), c) else applyAuth w doc False c)) c"

definition Login :: "vault_world \<Rightarrow> unit vop" where
  "Login w c =
     (if \<not> usesAppRole c then (Inr (), c)
      else if \<not> Configured_v c then (Inl VaultNotConfigured, c)
      else if vg_RoleID (vc_cfg c) = [] \<or> vg_SecretID (vc_cfg c) = [] then (Inl AppRoleIncomplete, c)
      else loginLocked w c)"

definition renewSkew :: duration where
  "renewSkew = 30 * second"

definition EnsureToken :: "vault_world \<Rightarrow> unit vop" where
  "EnsureToken w c =
     (if \<not> usesAppRole c then (Inr (), c)
      else if \<not> Configured_v c then (Inl VaultNotConfigured, c)
      else if vg_RoleID (vc_cfg c) = [] \<or> vg_SecretID (vc_cfg c) = [] then (Inl AppRoleIncomplete, c)
      else if vc_clientToken c = [] then loginLocked w c
      else if vc_expiry c = zero_time \<or> time_sub (vc_expiry c) (vw_clock w (length (vc_sent c))) > renewSkew then (Inr (), c)
      else if vc_renewable c
      then (case renewLocked w c of (Inr u, c') \<Rightarrow> (Inr (), c') | (Inl e, c') \<Rightarrow> loginLocked w c')
      else loginLocked w c)"

section \<open>PKI\<close>

text \<open>What the four calls below have in common: the guard, the token, the request and its whole answer.\<close>

definition vault_call :: "vault_world \<Rightarrow> string \<Rightarrow> string \<Rightarrow> string option \<Rightarrow> (string \<times> string) list \<Rightarrow> (string \<times> nat \<times> json option) vop" where
  "vault_call w method path query body c =
     (if \<not> Configured_v c then (Inl VaultNotConfigured, c)
      else bind_v (EnsureToken w) (\<lambda>_ c. bind_v (NewRequest w method (apiURL c path) body) (\<lambda>req c.
        doVault w (setVaultHeaders c (req\<lparr>vr_Query := query\<rparr>)) c) c) c)"

definition normalizeMount :: "string \<Rightarrow> string" where
  "normalizeMount mount = (if ends_with mount ''/'' then mount else mount @ ''/'')"

definition ListMounts :: "vault_world \<Rightarrow> (string \<times> json) list vop" where
  "ListMounts w = bind_v (vault_call w ''GET'' ''/v1/sys/mounts'' None []) (\<lambda>(body, status, doc) c.
     if status \<noteq> 200 then (Inl (VaultStatus status (trim_space body)), c)
     else case doc of Some JNull \<Rightarrow> (Inr [], c)
       | Some (JObj kvs) \<Rightarrow> (Inr (filter (\<lambda>(k, v). ends_with k ''/'') kvs), c)
       | _ \<Rightarrow> (Inl DecodeError, c))"

definition is_pki :: "json \<Rightarrow> bool" where
  "is_pki v \<longleftrightarrow> (case v of JObj m \<Rightarrow> map_of m ''type'' = Some (JStr ''pki'') | _ \<Rightarrow> False)"

definition ListPKIMounts :: "vault_world \<Rightarrow> string list vop" where
  "ListPKIMounts w = bind_v (ListMounts w) (\<lambda>mounts c. (Inr (map fst (filter (\<lambda>(path, v). is_pki v) mounts)), c))"

text \<open>\<^verbatim>\<open>data.keys\<close> as a list of strings, \<open>None\<close> when the document has another shape.\<close>

fun str_elem :: "json \<Rightarrow> string option" where
  "str_elem (JStr s) = Some s"
| "str_elem JNull = Some []"
| "str_elem _ = None"

definition str_list :: "json option \<Rightarrow> string list option" where
  "str_list v = (case v of None \<Rightarrow> Some [] | Some JNull \<Rightarrow> Some []
     | Some (JArr vs) \<Rightarrow> those (map str_elem vs) | _ \<Rightarrow> None)"

definition data_member :: "json option \<Rightarrow> (string \<times> json) list option" where
  "data_member doc = (case doc of Some JNull \<Rightarrow> Some []
     | Some (JObj kvs) \<Rightarrow> (case map_of kvs ''data'' of None \<Rightarrow> Some [] | Some JNull \<Rightarrow> Some [] | Some (JObj d) \<Rightarrow> Some d | _ \<Rightarrow> None)
     | _ \<Rightarrow> None)"

definition ListCertSerials :: "vault_world \<Rightarrow> string \<Rightarrow> string list vop" where
  "ListCertSerials w mount = bind_v (vault_call w ''GET'' (''/v1/'' @ normalizeMount mount @ ''certs'') (Some ''list=true'') [])
     (\<lambda>(body, status, doc) c.
       if status = 404 then (Inr [], c)
       else if status \<noteq> 200 then (Inl (VaultStatus status (trim_space body)), c)
       else case Option.bind (data_member doc) (\<lambda>d. str_list (map_of d ''keys'')) of None \<Rightarrow> (Inl DecodeError, c) | Some keys \<Rightarrow> (Inr keys, c))"

definition cert_data :: "json option \<Rightarrow> vault_error + string \<times> (string \<times> json) list" where
  "cert_data doc = (case data_member doc of None \<Rightarrow> Inl DecodeError
     | Some d \<Rightarrow> (case map_of d ''certificate'' of Some (JStr pem) \<Rightarrow> if pem = [] then Inl NoCertificate else Inr (pem, d)
         | _ \<Rightarrow> Inl NoCertificate))"

definition ReadCert :: "vault_world \<Rightarrow> string \<Rightarrow> string \<Rightarrow> (string \<times> (string \<times> json) list) vop" where
  "ReadCert w mount serial = bind_v (vault_call w ''GET'' (''/v1/'' @ normalizeMount mount @ ''cert/'' @ serial) None [])
     (\<lambda>(body, status, doc) c.
       if status \<noteq> 200 then (Inl (VaultStatus status (trim_space body)), c) else (cert_data doc, c))"

record issuer_import_result =
  ir_ImportedIssuers :: "string list"
  ir_ImportedKeys :: "string list"
  ir_Mapping :: "(string \<times> string) list"

definition str_map :: "json option \<Rightarrow> (string \<times> string) list option" where
  "str_map v = (case v of None \<Rightarrow> Some [] | Some JNull \<Rightarrow> Some []
     | Some (JObj kvs) \<Rightarrow> those (map (\<lambda>(k, x). map_option (Pair k) (str_elem x)) kvs) | _ \<Rightarrow> None)"

definition import_reply :: "json option \<Rightarrow> vault_error + issuer_import_result" where
  "import_reply doc = (case data_member doc of None \<Rightarrow> Inl DecodeError
     | Some d \<Rightarrow> (case (str_list (map_of d ''imported_issuers''), str_list (map_of d ''imported_keys''), str_map (map_of d ''mapping'')) of
         (Some iss, Some ks, Some mp) \<Rightarrow> Inr \<lparr>ir_ImportedIssuers = iss, ir_ImportedKeys = ks, ir_Mapping = mp\<rparr> | _ \<Rightarrow> Inl DecodeError))"

definition ImportIssuerBundle :: "vault_world \<Rightarrow> string \<Rightarrow> string \<Rightarrow> issuer_import_result vop" where
  "ImportIssuerBundle w mount pemBundle =
     bind_v (vault_call w ''POST'' (''/v1/'' @ normalizeMount mount @ ''issuers/import/bundle'') None [(''pem_bundle'', pemBundle)])
     (\<lambda>(body, status, doc) c.
       if status \<noteq> 200 \<and> status \<noteq> 201 then (Inl (VaultStatus status (trim_space body)), c) else (import_reply doc, c))"

text \<open>\<^verbatim>\<open>strconv.ParseInt(s, 10, 64)\<close>.\<close>

definition digit_val :: "char \<Rightarrow> int option" where
  "digit_val ch = (if in_range CHR ''0'' CHR ''9'' ch then Some (int (of_char ch) - 48) else None)"

definition parse_int64 :: "string \<Rightarrow> int option" where
  "parse_int64 s =
     (let neg = starts_with s ''-''; ds = (if neg \<or> starts_with s ''+'' then tl s else s) in
      if ds = [] then None
      else case those (map digit_val ds) of None \<Rightarrow> None
        | Some vs \<Rightarrow> let n = foldl (\<lambda>a v. a * 10 + v) 0 vs; n = (if neg then - n else n) in
            if - (2 ^ 63) \<le> n \<and> n < 2 ^ 63 then Some n else None)"

definition revocationFromMeta :: "(string \<times> json) list \<Rightarrow> bool" where
  "revocationFromMeta meta = (case map_of meta ''revocation_time'' of
       Some (JNum t) \<Rightarrow> t > 0
     | Some (JStr t) \<Rightarrow> (case parse_int64 (trim_space t) of Some n \<Rightarrow> n > 0 | None \<Rightarrow> False)
     | _ \<Rightarrow> False)"

text \<open>PEM decoding, certificate parsing and SHA-256 are parameters.\<close>

record pem_libs =
  pm_decode :: "string \<Rightarrow> string option"
  pm_parse :: "string \<Rightarrow> x509 option"
  pm_sha256 :: "string \<Rightarrow> string"

definition FingerprintSHA256FromPEM :: "pem_libs \<Rightarrow> string \<Rightarrow> string option" where
  "FingerprintSHA256FromPEM L pemStr = (case pm_decode L pemStr of None \<Rightarrow> None
     | Some der \<Rightarrow> (case pm_parse L der of None \<Rightarrow> None | Some raw \<Rightarrow> Some (hex_encode (pm_sha256 L (x_Raw raw)))))"

section \<open>Where credentials go\<close>

text \<open>A token Vault granted in its answer to a request already sent.\<close>

definition issued :: "vault_world \<Rightarrow> vault_request list \<Rightarrow> string \<Rightarrow> bool" where
  "issued w sent tok \<longleftrightarrow> (\<exists>m<length sent. \<exists>text doc lease ren. vw_answer w m (sent ! m) = Answer 200 text doc \<and>
     vaultAuthReply doc = Some (Some (tok, lease, ren)))"

definition confined :: "vault_world \<Rightarrow> vault_config \<Rightarrow> vault_request list \<Rightarrow> vault_request \<Rightarrow> bool" where
  "confined w cfg sent req \<longleftrightarrow>
     starts_with (vr_URL req) (trim_right_slash (vg_Address cfg) @ ''/v1/'') \<and>
     (''secret_id'' \<in> fst ` set (vr_Body req) \<longrightarrow> vr_Method req = ''POST'' \<and>
        vr_URL req = trim_right_slash (vg_Address cfg) @ ''/v1/auth/approle/login'') \<and>
     (\<forall>tok. vr_Token req = Some tok \<longrightarrow> tok = vg_Token cfg \<or> issued w sent tok) \<and>
     vr_Namespace req = (if vg_Namespace cfg = [] then None else Some (vg_Namespace cfg))"

definition client_inv :: "vault_world \<Rightarrow> vault_config \<Rightarrow> vault_client \<Rightarrow> bool" where
  "client_inv w cfg c \<longleftrightarrow> vc_cfg c = cfg \<and> (vc_clientToken c \<noteq> [] \<longrightarrow> issued w (vc_sent c) (vc_clientToken c)) \<and>
     (\<forall>n<length (vc_sent c). confined w cfg (take n (vc_sent c)) (vc_sent c ! n))"

lemma issued_append: "issued w sent tok \<Longrightarrow> issued w (sent @ more_sent) tok"
  by (auto simp: issued_def nth_append) (metis trans_less_add1)

lemma bind_vE:
  assumes "bind_v m f c = (r, c')"
  obtains e where "m c = (Inl e, c')" "r = Inl e" | v t where "m c = (Inr v, t)" "f v t = (r, c')"
  using assms by (auto simp: bind_v_def split: prod.splits sum.splits)

lemma NewRequest_cases:
  assumes "NewRequest w method url body c = (r, c')"
  shows "c' = c" and "r = Inr req \<Longrightarrow> req = \<lparr>vr_Method = method, vr_URL = url, vr_Query = None, vr_Token = None, vr_Namespace = None, vr_Body = body\<rparr>"
  using assms by (auto simp: NewRequest_def split: if_splits)

lemma doVault_sends:
  assumes "doVault w req c = (r, c')"
  shows "c' = c\<lparr>vc_sent := vc_sent c @ [req]\<rparr>"
    and "r = Inr (body, status, doc) \<Longrightarrow> vw_answer w (length (vc_sent c)) req = Answer status body doc"
  using assms by (auto simp: doVault_def Let_def split: vault_response.splits)

lemma client_inv_send:
  assumes "client_inv w cfg c" and "confined w cfg (vc_sent c) req" and "doVault w req c = (r, c')"
  shows "client_inv w cfg c'"
  using assms(1,2) doVault_sends(1) [OF assms(3)]
  by (auto simp: client_inv_def issued_append nth_append less_Suc_eq)

text \<open>The two requests of a login, and the state their answer leaves.\<close>

lemma applyAuth_outcome:
  assumes "applyAuth w doc req c = (r, c')"
  shows "vc_sent c' = vc_sent c \<and> vc_cfg c' = vc_cfg c \<and>
    (vc_clientToken c' = vc_clientToken c \<or> (\<exists>lease ren. vaultAuthReply doc = Some (Some (vc_clientToken c', lease, ren)))) \<and>
    (r = Inr () \<longrightarrow> req \<or> vc_clientToken c \<noteq> [] \<longrightarrow> vc_clientToken c' \<noteq> [])"
  using assms by (auto simp: applyAuth_def split: option.splits if_splits)

lemma auth_exchange:
  assumes inv: "client_inv w cfg c" and conf: "confined w cfg (vc_sent c) req"
    and run: "bind_v (doVault w req) (\<lambda>(body, status, doc) c.
      if status \<noteq> 200 then (Inl (VaultStatus status (trim_space body)), c) else applyAuth w doc must c) c = (r, c')"
  shows "client_inv w cfg c' \<and> length (vc_sent c') = Suc (length (vc_sent c)) \<and>
    (r = Inr () \<longrightarrow> must \<or> vc_clientToken c \<noteq> [] \<longrightarrow> vc_clientToken c' \<noteq> []) \<and>
    (vc_clientToken c \<noteq> [] \<longrightarrow> vc_clientToken c' \<noteq> [])"
  using run
proof (cases rule: bind_vE)
  case (1 e)
  then show ?thesis using client_inv_send [OF inv conf] doVault_sends(1) by (fastforce dest: doVault_sends)
next
  case (2 v t)
  obtain body status doc where v: "v = (body, status, doc)" by (cases v)
  note t = client_inv_send [OF inv conf 2(1)] and sent = doVault_sends(1) [OF 2(1)]
    and ans = doVault_sends(2) [OF 2(1), unfolded v, OF refl]
  show ?thesis
  proof (cases "status = 200")
    case True
    then have ap: "applyAuth w doc must t = (r, c')" using 2(2) v by simp
    have "issued w (vc_sent t) tok" if "vaultAuthReply doc = Some (Some (tok, lease, ren))" for tok lease ren
      unfolding issued_def using that ans True sent by (intro exI [of _ "length (vc_sent c)"]) auto
    moreover have "vc_clientToken t = vc_clientToken c" using sent by simp
    moreover have "vc_clientToken c \<noteq> [] \<longrightarrow> vc_clientToken c' \<noteq> []"
      using ap sent by (auto simp: applyAuth_def split: option.splits if_splits)
    ultimately show ?thesis using applyAuth_outcome [OF ap] t sent by (auto simp: client_inv_def)
  next
    case False
    then show ?thesis using 2(2) v t sent by auto
  qed
qed

lemma login_confined: "vc_cfg c = cfg \<Longrightarrow> confined w cfg sent (setNamespaceHeader c \<lparr>vr_Method = ''POST'', vr_URL = apiURL c ''/v1/auth/approle/login'',
    vr_Query = None, vr_Token = None, vr_Namespace = None, vr_Body = b\<rparr>)"
  by (auto simp: confined_def setNamespaceHeader_def apiURL_def starts_with_def)

lemma loginLocked_inv:
  assumes "client_inv w cfg c" and "loginLocked w c = (r, c')"
  shows "client_inv w cfg c' \<and> (r = Inr () \<longrightarrow> vc_clientToken c' \<noteq> [] \<and> length (vc_sent c) < length (vc_sent c'))"
  using assms(2) unfolding loginLocked_def
proof (cases rule: bind_vE)
  case (1 e)
  then show ?thesis using NewRequest_cases(1) assms(1) by blast
next
  case (2 req t)
  have cfg: "vc_cfg c = cfg" using assms(1) by (simp add: client_inv_def)
  have t: "t = c" and req: "req = \<lparr>vr_Method = ''POST'', vr_URL = apiURL c ''/v1/auth/approle/login'', vr_Query = None, vr_Token = None,
      vr_Namespace = None, vr_Body = [(''role_id'', vg_RoleID (vc_cfg c)), (''secret_id'', vg_SecretID (vc_cfg c))]\<rparr>"
    using NewRequest_cases [OF 2(1)] by auto
  show ?thesis using auth_exchange [OF assms(1) login_confined [OF cfg] 2(2) [unfolded t req]] by auto
qed

lemma renewLocked_inv:
  assumes "client_inv w cfg c" and "vc_clientToken c \<noteq> []" and "renewLocked w c = (r, c')"
  shows "client_inv w cfg c' \<and> vc_clientToken c' \<noteq> [] \<and> (r = Inr () \<longrightarrow> length (vc_sent c) < length (vc_sent c'))"
  using assms(3) unfolding renewLocked_def
proof (cases rule: bind_vE)
  case (1 e)
  then show ?thesis using NewRequest_cases(1) assms(1,2) by blast
next
  case (2 req t)
  let ?req = "setNamespaceHeader c (req\<lparr>vr_Token := Some (vc_clientToken c)\<rparr>)"
  have "t = c" using NewRequest_cases [OF 2(1)] by auto
  moreover have "confined w cfg (vc_sent c) ?req"
    using assms(1,2) NewRequest_cases(2) [OF 2(1) refl]
    by (auto simp: confined_def setNamespaceHeader_def apiURL_def client_inv_def starts_with_def)
  ultimately show ?thesis using auth_exchange [OF assms(1)] 2(2) assms(2) by fastforce
qed

lemma EnsureToken_inv:
  assumes "client_inv w cfg c" and "EnsureToken w c = (r, c')"
  shows "client_inv w cfg c' \<and> (r = Inr () \<longrightarrow> usesAppRole c \<longrightarrow> vc_clientToken c' \<noteq> [] \<and>
    (vc_expiry c' = zero_time \<or> time_sub (vc_expiry c') (vw_clock w (length (vc_sent c))) > renewSkew \<or> length (vc_sent c) < length (vc_sent c')))"
proof (cases "vc_clientToken c \<noteq> [] \<and> vc_renewable c \<and> usesAppRole c \<and> Configured_v c \<and> vg_RoleID (vc_cfg c) \<noteq> [] \<and> vg_SecretID (vc_cfg c) \<noteq> [] \<and>
    \<not> (vc_expiry c = zero_time \<or> time_sub (vc_expiry c) (vw_clock w (length (vc_sent c))) > renewSkew)")
  case True
  obtain r1 c1 where rn: "renewLocked w c = (r1, c1)" by (cases "renewLocked w c")
  note i1 = renewLocked_inv [OF assms(1) _ rn]
  show ?thesis
  proof (cases r1)
    case (Inl e)
    then have "loginLocked w c1 = (r, c')" using assms(2) True rn by (simp add: EnsureToken_def)
    moreover have "length (vc_sent c) \<le> length (vc_sent c1)"
      using rn unfolding renewLocked_def
      by (elim bind_vE) (auto dest!: doVault_sends NewRequest_cases(1) simp: applyAuth_def split: prod.splits if_splits option.splits)
    ultimately show ?thesis using loginLocked_inv i1 True by fastforce
  next
    case (Inr u)
    then show ?thesis using assms(2) True rn i1 by (simp add: EnsureToken_def)
  qed
next
  case False
  then show ?thesis using assms loginLocked_inv [OF assms(1)] unfolding EnsureToken_def by (auto split: if_splits)
qed

lemma vault_call_inv:
  assumes "client_inv w cfg c" and "vault_call w method (''/v1/'' @ path) query body c = (r, c')" and "''secret_id'' \<notin> fst ` set body"
  shows "client_inv w cfg c'"
proof (cases "Configured_v c")
  case True
  from assms(2) True have "bind_v (EnsureToken w) (\<lambda>_ c. bind_v (NewRequest w method (apiURL c (''/v1/'' @ path)) body) (\<lambda>req c.
        doVault w (setVaultHeaders c (req\<lparr>vr_Query := query\<rparr>)) c) c) c = (r, c')" by (simp add: vault_call_def)
  then show ?thesis
  proof (cases rule: bind_vE)
    case (2 u t)
    note t = conjunct1 [OF EnsureToken_inv [OF assms(1) 2(1)]]
    from 2(2) show ?thesis
    proof (cases rule: bind_vE)
      case inner: (2 req t2)
      have "confined w cfg (vc_sent t) (setVaultHeaders t (req\<lparr>vr_Query := query\<rparr>))"
        using t assms(3) NewRequest_cases(2) [OF inner(1) refl]
        by (auto simp: confined_def setVaultHeaders_def setNamespaceHeader_def currentToken_def apiURL_def client_inv_def starts_with_def)
      then show ?thesis using client_inv_send [OF t _] inner NewRequest_cases(1) by blast
    qed (use t NewRequest_cases(1) in blast)
  qed (use EnsureToken_inv assms(1) in blast)
qed (use assms in \<open>simp add: vault_call_def\<close>)

text \<open>The calls a client can make, in any order and with any arguments.\<close>

inductive vault_step :: "vault_world \<Rightarrow> vault_client \<Rightarrow> vault_client \<Rightarrow> bool" for w where
  login: "vault_step w c (snd (Login w c))"
| ensure: "vault_step w c (snd (EnsureToken w c))"
| list_mounts: "vault_step w c (snd (ListPKIMounts w c))"
| list_serials: "vault_step w c (snd (ListCertSerials w mount c))"
| read_cert: "vault_step w c (snd (ReadCert w mount serial c))"
| import_bundle: "vault_step w c (snd (ImportIssuerBundle w mount bundle c))"

lemma bind_v_call_inv:
  assumes "client_inv w cfg c" and "''secret_id'' \<notin> fst ` set body" and "\<And>v c. snd (f v c) = c"
  shows "client_inv w cfg (snd (bind_v (vault_call w method (''/v1/'' @ path) query body) f c))"
proof -
  obtain r c' where "vault_call w method (''/v1/'' @ path) query body c = (r, c')" by fastforce
  with vault_call_inv [OF assms(1) this assms(2)] assms(3) show ?thesis by (auto simp: bind_v_def split: sum.splits)
qed

lemmas call_inv = bind_v_call_inv [simplified append_Cons append_Nil]

lemma vault_step_inv:
  assumes "vault_step w c c'" and "client_inv w cfg c"
  shows "client_inv w cfg c'"
  using assms
proof (cases rule: vault_step.cases)
  case login
  then show ?thesis using assms(2) loginLocked_inv by (fastforce simp: Login_def intro: surjective_pairing)
next
  case ensure
  then show ?thesis using assms(2) EnsureToken_inv by (metis surjective_pairing)
next
  case list_mounts
  have "client_inv w cfg (snd (ListMounts w c))"
    unfolding ListMounts_def
    by (rule call_inv [OF assms(2)]) (auto split: option.splits json.splits)
  then show ?thesis unfolding list_mounts ListPKIMounts_def by (auto simp: bind_v_def split: prod.splits sum.splits)
next
  case (list_serials mount)
  then show ?thesis unfolding ListCertSerials_def using assms(2) by (auto intro!: call_inv split: option.splits)
next
  case (read_cert mount serial)
  then show ?thesis unfolding ReadCert_def using assms(2) by (auto intro!: call_inv)
next
  case (import_bundle mount pems)
  then show ?thesis unfolding ImportIssuerBundle_def using assms(2) by (auto intro!: call_inv)
qed


definition example_world :: vault_world where
  "example_world = \<lparr>vw_answer = (\<lambda>n req. Answer 200 [] (Some (JObj [(''auth'', JObj [(''client_token'', JStr ''t1''), (''lease_duration'', JNum 60),
     (''renewable'', JBool True)])]))), vw_clock = (\<lambda>n. 0), vw_url_ok = (\<lambda>_. True)\<rparr>"

definition example_config :: vault_config where
  "example_config = \<lparr>vg_Address = ''vault:8200'', vg_Namespace = [], vg_Token = [], vg_AuthMethod = ''approle'', vg_RoleID = ''r'', vg_SecretID = ''s''\<rparr>"


end
