(* ===== verification/Connections.thy ===== *)
theory Connections
  imports Vault_Client Outbox Access
begin

text \<open>
  The connections to Vault, AAP and EDA that an operator sets in the product: their stored rows with
  sealed secrets (\<^verbatim>\<open>internal/store/connections.go\<close>) and their overlay on the configuration of the
  environment (\<^verbatim>\<open>internal/settings/resolve.go\<close>). AES-GCM, its nonces and the JSON text of a string map are
  parameters; a Go map of strings is an association list.
\<close>

section \<open>Sealed secrets\<close>

type_synonym secret_map = "(string \<times> string) list"

text \<open>\<open>sl_nonce n\<close> is what reading twelve random bytes gives at step \<open>n\<close>, \<open>None\<close> when that fails.\<close>

record secret_libs =
  sl_marshal :: "secret_map \<Rightarrow> string"
  sl_unmarshal :: "string \<Rightarrow> secret_map option"
  sl_nonce :: "nat \<Rightarrow> string option"
  sl_seal :: "string \<Rightarrow> string \<Rightarrow> string \<Rightarrow> string"
  sl_open :: "string \<Rightarrow> string \<Rightarrow> string \<Rightarrow> string option"

definition set_key :: "secret_map \<Rightarrow> string \<Rightarrow> string \<Rightarrow> secret_map" where
  "set_key m k v = filter (\<lambda>(a, _). a \<noteq> k) m @ [(k, v)]"

definition del_key :: "secret_map \<Rightarrow> string \<Rightarrow> secret_map" where
  "del_key m k = filter (\<lambda>(a, _). a \<noteq> k) m"

definition hasNewSecrets :: "secret_map \<Rightarrow> string list \<Rightarrow> bool" where
  "hasNewSecrets incoming keep \<longleftrightarrow> list_ex (\<lambda>(k, v). k \<notin> set keep) incoming"

definition merge_one :: "string list \<Rightarrow> secret_map \<Rightarrow> string \<times> string \<Rightarrow> secret_map" where
  "merge_one keep out kv = (case kv of (k, v) \<Rightarrow>
     if k \<in> set keep then out else if v = [] then del_key out k else set_key out k v)"

definition mergeSecrets :: "secret_map \<Rightarrow> secret_map \<Rightarrow> string list \<Rightarrow> secret_map" where
  "mergeSecrets previous incoming keep = foldl (merge_one keep) previous incoming"

definition parseConnectionsKey :: "string \<Rightarrow> error + string" where
  "parseConnectionsKey raw =
     (if raw = [] then Inl ErrConnectionsKeyMissing
      else if length raw = 64 then (case hex_decode raw of None \<Rightarrow> Inl ErrConnectionsKeyMissing
         | Some key \<Rightarrow> if length key \<noteq> 32 then Inl ErrConnectionsKeyMissing else Inr key)
      else if length raw = 32 then Inr raw
      else Inl ErrConnectionsKeyMissing)"

text \<open>The key sizes of AES, and the nonce size of GCM.\<close>

definition aes_key :: "string \<Rightarrow> bool" where
  "aes_key key \<longleftrightarrow> length key \<in> {16, 24, 32}"

definition sealSecrets :: "secret_libs \<Rightarrow> nat \<Rightarrow> string \<Rightarrow> secret_map \<Rightarrow> error + string" where
  "sealSecrets L n key secrets =
     (if \<not> aes_key key then Inl ErrConnectionsKeyMissing
      else case sl_nonce L n of None \<Rightarrow> Inl (ErrExternal ''rand'')
       | Some nonce \<Rightarrow> Inr (nonce @ sl_seal L key nonce (sl_marshal L secrets)))"

definition openSecrets :: "secret_libs \<Rightarrow> string \<Rightarrow> string \<Rightarrow> error + secret_map" where
  "openSecrets L key ciphertext =
     (if \<not> aes_key key then Inl ErrConnectionsKeyMissing
      else if length ciphertext < 12 then Inl (ErrExternal ''connections secrets ciphertext is truncated'')
      else case sl_open L key (take 12 ciphertext) (drop 12 ciphertext) of None \<Rightarrow> Inl (ErrExternal ''cipher: message authentication failed'')
       | Some plaintext \<Rightarrow> (case sl_unmarshal L plaintext of None \<Rightarrow> Inl (ErrExternal ''json'') | Some m \<Rightarrow> Inr m))"

section \<open>Stored connections\<close>

definition conn_target :: "string \<Rightarrow> bool" where
  "conn_target t \<longleftrightarrow> t \<in> {''vault'', ''aap'', ''eda''}"

definition prepareConnectionUpsert :: "secret_libs \<Rightarrow> nat \<Rightarrow> time \<Rightarrow> string \<Rightarrow> connection option \<Rightarrow> string \<Rightarrow> json option \<Rightarrow> secret_map \<Rightarrow>
    string list \<Rightarrow> string \<Rightarrow> error + connection" where
  "prepareConnectionUpsert L n now keyMaterial existing target metadata secrets keepSecrets actor =
     (if \<not> conn_target target then Inl (ErrExternal ''invalid connection target'')
      else let row = \<lparr>cn_Target = target, cn_Metadata = (case metadata of None \<Rightarrow> JObj [] | Some m \<Rightarrow> m),
                 cn_SecretsEnc = (case existing of None \<Rightarrow> [] | Some e \<Rightarrow> cn_SecretsEnc e),
                 cn_SecretsSet = (case existing of None \<Rightarrow> False | Some e \<Rightarrow> cn_SecretsSet e),
                 cn_Source = ''db'', cn_UpdatedAt = now, cn_UpdatedBy = actor\<rparr> in
        if \<not> hasNewSecrets secrets keepSecrets then Inr row
        else case parseConnectionsKey keyMaterial of Inl e \<Rightarrow> Inl e
         | Inr key \<Rightarrow>
            (case (case existing of None \<Rightarrow> Inr [] | Some e \<Rightarrow> if cn_SecretsEnc e = [] then Inr [] else openSecrets L key (cn_SecretsEnc e)) of
               Inl e \<Rightarrow> Inl e
             | Inr previous \<Rightarrow>
                (let merged = mergeSecrets previous secrets keepSecrets in
                 if merged = [] then Inr (row\<lparr>cn_SecretsEnc := [], cn_SecretsSet := False\<rparr>)
                 else case sealSecrets L n key merged of Inl e \<Rightarrow> Inl e
                  | Inr ct \<Rightarrow> Inr (row\<lparr>cn_SecretsEnc := ct, cn_SecretsSet := True\<rparr>))))"

definition getConnection :: "string \<Rightarrow> connection option op" where
  "getConnection target = db_call (\<lambda>s. (Inr (List.find (\<lambda>c. cn_Target c = target) (t_connections s)), s))"

text \<open>The \<^verbatim>\<open>INSERT ... ON CONFLICT (target) DO UPDATE\<close>.\<close>

definition put_connection :: "connection \<Rightarrow> unit op" where
  "put_connection row s =
     (if \<not> conn_target (cn_Target row) then (Inl ErrDB, s)
      else let new = row\<lparr>cn_UpdatedAt := sql_now s\<rparr> in
        (Inr (), s\<lparr>t_connections := (if \<exists>c\<in>set (t_connections s). cn_Target c = cn_Target row
           then upd_where (\<lambda>c. cn_Target c = cn_Target row) (\<lambda>_. new) (t_connections s) else t_connections s @ [new])\<rparr>))"

definition UpsertConnection :: "secret_libs \<Rightarrow> string \<Rightarrow> string \<Rightarrow> json option \<Rightarrow> secret_map \<Rightarrow> string list \<Rightarrow> string \<Rightarrow> unit op" where
  "UpsertConnection L keyMaterial target metadata secrets keepSecrets actor =
     bind_op (getConnection target) (\<lambda>existing s.
       case prepareConnectionUpsert L (db_step s) (go_now s) keyMaterial existing target metadata secrets keepSecrets actor of
         Inl e \<Rightarrow> (Inl e, s)
       | Inr row \<Rightarrow> db_call (put_connection row) s)"

text \<open>\<^verbatim>\<open>ORDER BY target\<close>, over the three targets the table admits.\<close>

definition target_rank :: "string \<Rightarrow> nat" where
  "target_rank t = (if t = ''aap'' then 0 else if t = ''eda'' then 1 else 2)"

definition GetConnections :: "connection list op" where
  "GetConnections = db_call (\<lambda>s. (Inr (sort_key (\<lambda>c. target_rank (cn_Target c)) (t_connections s)), s))"

definition DecryptSecrets :: "secret_libs \<Rightarrow> string \<Rightarrow> connection \<Rightarrow> error + secret_map" where
  "DecryptSecrets L keyMaterial row =
     (if cn_SecretsEnc row = [] then Inr []
      else case parseConnectionsKey keyMaterial of Inl e \<Rightarrow> Inl e | Inr key \<Rightarrow> openSecrets L key (cn_SecretsEnc row))"

section \<open>Resolution\<close>

record conn_config =
  cc_VaultAddr :: string
  cc_VaultNamespace :: string
  cc_VaultToken :: string
  cc_VaultAuthMethod :: string
  cc_VaultRoleID :: string
  cc_VaultSecretID :: string
  cc_AAPURL :: string
  cc_AAPToken :: string
  cc_AAPSkipTLSVerify :: bool
  cc_AAPRenewTemplate :: string
  cc_AAPRenewWorkflow :: bool
  cc_AAPDefaultMount :: string
  cc_EDAWebhookURL :: string
  cc_EDAWebhookToken :: string
  cc_EventDispatchInterval :: duration
  cc_EventDispatchBatch :: int
  cc_EventMaxAttempts :: int

record aap_config =
  aa_BaseURL :: string
  aa_Token :: string
  aa_SkipTLSVerify :: bool

record vault_public =
  vp_Configured :: bool
  vp_Source :: string
  vp_Deployment :: string
  vp_Addr :: string
  vp_Namespace :: string
  vp_AuthMethod :: string
  vp_TokenSet :: bool
  vp_RoleIDSet :: bool
  vp_SecretIDSet :: bool

record aap_public =
  ap_Configured :: bool
  ap_Source :: string
  ap_URL :: string
  ap_RenewTemplate :: string
  ap_RenewWorkflow :: bool
  ap_SkipTLSVerify :: bool
  ap_DefaultMount :: string
  ap_TokenSet :: bool

record eda_public =
  ep_Configured :: bool
  ep_Source :: string
  ep_WebhookURL :: string
  ep_TokenSet :: bool

record public_view =
  pb_Vault :: vault_public
  pb_AAP :: aap_public
  pb_EDA :: eda_public

record resolved =
  re_Vault :: vault_config
  re_AAP :: aap_config
  re_EDA :: dispatcher_config
  re_View :: public_view

text \<open>Decoding stored metadata: a document that is no object, or a member of another type, is an error.\<close>

definition obj_fields :: "json \<Rightarrow> (string \<times> json) list option" where
  "obj_fields v = (case v of JNull \<Rightarrow> Some [] | JObj kvs \<Rightarrow> Some kvs | _ \<Rightarrow> None)"

definition str_ptr :: "(string \<times> json) list \<Rightarrow> string \<Rightarrow> string option option" where
  "str_ptr kvs k = (case map_of kvs k of None \<Rightarrow> Some None | Some JNull \<Rightarrow> Some None | Some (JStr s) \<Rightarrow> Some (Some s) | _ \<Rightarrow> None)"

definition bool_ptr :: "(string \<times> json) list \<Rightarrow> string \<Rightarrow> bool option option" where
  "bool_ptr kvs k = (case map_of kvs k of None \<Rightarrow> Some None | Some JNull \<Rightarrow> Some None | Some (JBool b) \<Rightarrow> Some (Some b) | _ \<Rightarrow> None)"

definition bad_metadata :: error where
  "bad_metadata = ErrExternal ''json: cannot unmarshal''"

definition overlay :: "string \<Rightarrow> string \<Rightarrow> string" where
  "overlay v d = (if v \<noteq> [] then v else d)"

definition secret_of :: "secret_map \<Rightarrow> string \<Rightarrow> string" where
  "secret_of m k = (case map_of m k of None \<Rightarrow> [] | Some v \<Rightarrow> v)"

definition from_db :: "string \<Rightarrow> connection option \<Rightarrow> json option" where
  "from_db target row = (case row of Some r \<Rightarrow> if cn_Target r = target \<and> cn_Source r = ''db'' then Some (cn_Metadata r) else None | None \<Rightarrow> None)"

record vault_meta =
  vm_Deployment :: string
  vm_Addr :: string
  vm_Namespace :: "string option"
  vm_AuthMethod :: string

definition vaultMeta :: "json \<Rightarrow> vault_meta option" where
  "vaultMeta doc = (case obj_fields doc of None \<Rightarrow> None
     | Some kvs \<Rightarrow> (case (str_field kvs ''deployment'', str_field kvs ''addr'', str_ptr kvs ''namespace'', str_field kvs ''auth_method'') of
         (Some d, Some a, Some n, Some m) \<Rightarrow> Some \<lparr>vm_Deployment = d, vm_Addr = a, vm_Namespace = n, vm_AuthMethod = m\<rparr> | _ \<Rightarrow> None))"

definition vault_view :: "string \<Rightarrow> string \<Rightarrow> vault_config \<Rightarrow> vault_public" where
  "vault_view source deployment out = \<lparr>vp_Configured = (vg_Address out \<noteq> []), vp_Source = source, vp_Deployment = deployment,
     vp_Addr = vg_Address out, vp_Namespace = vg_Namespace out, vp_AuthMethod = vg_AuthMethod out, vp_TokenSet = (vg_Token out \<noteq> []),
     vp_RoleIDSet = (vg_RoleID out \<noteq> []), vp_SecretIDSet = (vg_SecretID out \<noteq> [])\<rparr>"

definition resolveVault :: "conn_config \<Rightarrow> connection option \<Rightarrow> secret_map \<Rightarrow> error + vault_config \<times> vault_public" where
  "resolveVault cfg row secrets =
     (let out = \<lparr>vg_Address = cc_VaultAddr cfg, vg_Namespace = cc_VaultNamespace cfg, vg_Token = cc_VaultToken cfg,
            vg_AuthMethod = overlay (cc_VaultAuthMethod cfg) ''token'', vg_RoleID = cc_VaultRoleID cfg, vg_SecretID = cc_VaultSecretID cfg\<rparr> in
      case from_db ''vault'' row of None \<Rightarrow> Inr (out, vault_view ''env'' ''self_managed'' out)
      | Some doc \<Rightarrow> (case vaultMeta doc of None \<Rightarrow> Inl bad_metadata
         | Some meta \<Rightarrow>
            (let out = \<lparr>vg_Address = overlay (vm_Addr meta) (vg_Address out),
                   vg_Namespace = (case vm_Namespace meta of None \<Rightarrow> vg_Namespace out | Some n \<Rightarrow> n),
                   vg_Token = overlay (secret_of secrets ''token'') (vg_Token out), vg_AuthMethod = overlay (vm_AuthMethod meta) (vg_AuthMethod out),
                   vg_RoleID = overlay (secret_of secrets ''role_id'') (vg_RoleID out),
                   vg_SecretID = overlay (secret_of secrets ''secret_id'') (vg_SecretID out)\<rparr> in
             Inr (out, vault_view ''db'' (overlay (vm_Deployment meta) ''self_managed'') out))))"

record aap_meta =
  am_URL :: string
  am_RenewTemplate :: string
  am_RenewWorkflow :: "bool option"
  am_SkipTLSVerify :: "bool option"
  am_DefaultMount :: string

definition aapMeta :: "json \<Rightarrow> aap_meta option" where
  "aapMeta doc = (case obj_fields doc of None \<Rightarrow> None
     | Some kvs \<Rightarrow> (case (str_field kvs ''url'', str_field kvs ''renew_template'', bool_ptr kvs ''renew_workflow'', bool_ptr kvs ''skip_tls_verify'',
           str_field kvs ''default_mount'') of
         (Some u, Some t, Some w, Some v, Some d) \<Rightarrow>
           Some \<lparr>am_URL = u, am_RenewTemplate = t, am_RenewWorkflow = w, am_SkipTLSVerify = v, am_DefaultMount = d\<rparr> | _ \<Rightarrow> None))"

definition or_else :: "'a option \<Rightarrow> 'a \<Rightarrow> 'a" where
  "or_else v d = (case v of None \<Rightarrow> d | Some x \<Rightarrow> x)"

definition aap_view :: "string \<Rightarrow> string \<Rightarrow> bool \<Rightarrow> string \<Rightarrow> aap_config \<Rightarrow> aap_public" where
  "aap_view source template workflow mount out = \<lparr>ap_Configured = (aa_BaseURL out \<noteq> []), ap_Source = source, ap_URL = aa_BaseURL out,
     ap_RenewTemplate = template, ap_RenewWorkflow = workflow, ap_SkipTLSVerify = aa_SkipTLSVerify out, ap_DefaultMount = mount,
     ap_TokenSet = (aa_Token out \<noteq> [])\<rparr>"

definition resolveAAP :: "conn_config \<Rightarrow> connection option \<Rightarrow> secret_map \<Rightarrow> error + aap_config \<times> aap_public" where
  "resolveAAP cfg row secrets =
     (let out = \<lparr>aa_BaseURL = cc_AAPURL cfg, aa_Token = cc_AAPToken cfg, aa_SkipTLSVerify = cc_AAPSkipTLSVerify cfg\<rparr> in
      case from_db ''aap'' row of
        None \<Rightarrow> Inr (out, aap_view ''env'' (cc_AAPRenewTemplate cfg) (cc_AAPRenewWorkflow cfg) (cc_AAPDefaultMount cfg) out)
      | Some doc \<Rightarrow> (case aapMeta doc of None \<Rightarrow> Inl bad_metadata
         | Some meta \<Rightarrow>
            (let out = \<lparr>aa_BaseURL = overlay (am_URL meta) (aa_BaseURL out), aa_Token = overlay (secret_of secrets ''token'') (aa_Token out),
                   aa_SkipTLSVerify = or_else (am_SkipTLSVerify meta) (aa_SkipTLSVerify out)\<rparr> in
             Inr (out, aap_view ''db'' (overlay (am_RenewTemplate meta) (cc_AAPRenewTemplate cfg))
               (or_else (am_RenewWorkflow meta) (cc_AAPRenewWorkflow cfg)) (overlay (am_DefaultMount meta) (cc_AAPDefaultMount cfg)) out))))"

definition eda_view :: "string \<Rightarrow> dispatcher_config \<Rightarrow> eda_public" where
  "eda_view source out = \<lparr>ep_Configured = (dc_WebhookURL out \<noteq> []), ep_Source = source, ep_WebhookURL = dc_WebhookURL out,
     ep_TokenSet = (dc_Token out \<noteq> [])\<rparr>"

definition edaMeta :: "json \<Rightarrow> string option" where
  "edaMeta doc = (case obj_fields doc of None \<Rightarrow> None | Some kvs \<Rightarrow> str_field kvs ''webhook_url'')"

definition resolveEDA :: "conn_config \<Rightarrow> connection option \<Rightarrow> secret_map \<Rightarrow> error + dispatcher_config \<times> eda_public" where
  "resolveEDA cfg row secrets =
     (let out = \<lparr>dc_WebhookURL = cc_EDAWebhookURL cfg, dc_Token = cc_EDAWebhookToken cfg, dc_Interval = cc_EventDispatchInterval cfg,
            dc_BatchSize = cc_EventDispatchBatch cfg, dc_MaxAttempts = cc_EventMaxAttempts cfg, dc_Owner = [], dc_LeaseTTL = 0,
            dc_ITSMWebhookURL = [], dc_ITSMWebhookHMACSecret = []\<rparr> in
      case from_db ''eda'' row of None \<Rightarrow> Inr (out, eda_view ''env'' out)
      | Some doc \<Rightarrow> (case edaMeta doc of None \<Rightarrow> Inl bad_metadata
         | Some url \<Rightarrow>
            (let out = out\<lparr>dc_WebhookURL := overlay url (dc_WebhookURL out), dc_Token := overlay (secret_of secrets ''token'') (dc_Token out)\<rparr> in
             Inr (out, eda_view ''db'' out))))"

text \<open>\<open>byTarget\<close> and the secrets by target are maps: the last row of a target wins.\<close>

definition by_target :: "connection list \<Rightarrow> string \<Rightarrow> connection option" where
  "by_target rows target = List.find (\<lambda>r. cn_Target r = target) (List.rev rows)"

definition Resolve :: "conn_config \<Rightarrow> connection list \<Rightarrow> (string \<Rightarrow> secret_map) \<Rightarrow> error + resolved" where
  "Resolve cfg rows secretsByTarget =
     (case resolveVault cfg (by_target rows ''vault'') (secretsByTarget ''vault'') of Inl e \<Rightarrow> Inl e
      | Inr (vc, vview) \<Rightarrow>
     (case resolveAAP cfg (by_target rows ''aap'') (secretsByTarget ''aap'') of Inl e \<Rightarrow> Inl e
      | Inr (ac, aview) \<Rightarrow>
     (case resolveEDA cfg (by_target rows ''eda'') (secretsByTarget ''eda'') of Inl e \<Rightarrow> Inl e
      | Inr (ec, eview) \<Rightarrow>
        Inr \<lparr>re_Vault = vc, re_AAP = ac, re_EDA = ec, re_View = \<lparr>pb_Vault = vview, pb_AAP = aview, pb_EDA = eview\<rparr>\<rparr>)))"

section \<open>Secrets survive storage\<close>

lemma map_of_del: "map_of (filter (\<lambda>(a, _). a \<noteq> k) m) j = (if j = k then None else map_of m j)"
  by (induction m) auto

lemma map_of_set_key: "map_of (set_key m k v) j = (if j = k then Some v else map_of m j)"
  by (auto simp: set_key_def map_of_append map_add_def map_of_del split: option.splits)

lemma map_of_mergeSecrets:
  assumes "distinct (map fst incoming)"
  shows "map_of (mergeSecrets previous incoming keep) k =
    (if k \<in> set keep then map_of previous k else case map_of incoming k of None \<Rightarrow> map_of previous k
     | Some v \<Rightarrow> if v = [] then None else Some v)"
  using assms unfolding mergeSecrets_def
proof (induction incoming arbitrary: previous)
  case (Cons kv incoming)
  obtain a v where kv: "kv = (a, v)" by (cases kv)
  have "map_of incoming a = None" using Cons.prems by (simp add: kv map_of_eq_None_iff)
  then show ?case using Cons by (auto simp: kv merge_one_def map_of_set_key del_key_def map_of_del split: option.splits)
qed simp

text \<open>What is stored for a target: the map its ciphertext opens to.\<close>

definition stored_secrets :: "secret_libs \<Rightarrow> string \<Rightarrow> string \<Rightarrow> db \<Rightarrow> error + secret_map" where
  "stored_secrets L keyMaterial target s = (case List.find (\<lambda>c. cn_Target c = target) (t_connections s) of
     None \<Rightarrow> Inr [] | Some row \<Rightarrow> DecryptSecrets L keyMaterial row)"

text \<open>The documented behaviour of the cipher, of nonces and of JSON.\<close>

definition cipher_laws :: "secret_libs \<Rightarrow> bool" where
  "cipher_laws L \<longleftrightarrow> (\<forall>k n p. sl_open L k n (sl_seal L k n p) = Some p) \<and> (\<forall>m. sl_unmarshal L (sl_marshal L m) = Some m) \<and>
     (\<forall>n x. sl_nonce L n = Some x \<longrightarrow> length x = 12)"

lemma open_seal:
  assumes "cipher_laws L" and "sealSecrets L n key m = Inr ct"
  shows "openSecrets L key ct = Inr m" and "ct \<noteq> []"
proof -
  from assms obtain nonce where ct: "ct = nonce @ sl_seal L key nonce (sl_marshal L m)" and len: "length nonce = 12" and key: "aes_key key"
    by (auto simp: cipher_laws_def sealSecrets_def split: if_splits option.splits)
  then show "openSecrets L key ct = Inr m" using assms(1) by (simp add: cipher_laws_def openSecrets_def)
  show "ct \<noteq> []" using ct len by auto
qed

lemma DecryptSecrets_enc: "cn_SecretsEnc row = cn_SecretsEnc row' \<Longrightarrow> DecryptSecrets L k row = DecryptSecrets L k row'"
  by (auto simp: DecryptSecrets_def split: sum.splits)

lemma prepare_secrets:
  assumes laws: "cipher_laws L" and inc: "distinct (map fst secrets)"
    and prep: "prepareConnectionUpsert L n now keyMaterial existing target metadata secrets keep actor = Inr row"
    and prev: "(case existing of None \<Rightarrow> Inr [] | Some e \<Rightarrow> DecryptSecrets L keyMaterial e) = Inr previous"
  shows "\<exists>m. DecryptSecrets L keyMaterial row = Inr m \<and> map_of m = map_of (mergeSecrets previous secrets keep) \<and> cn_Target row = target"
proof (cases "hasNewSecrets secrets keep")
  case False
  then have "\<forall>k. k \<notin> set keep \<longrightarrow> map_of secrets k = None"
    by (auto simp: hasNewSecrets_def list_ex_iff map_of_eq_None_iff)
  then have "map_of (mergeSecrets previous secrets keep) = map_of previous"
    by (intro ext) (simp add: map_of_mergeSecrets [OF inc])
  moreover have "cn_Target row = target" and enc: "cn_SecretsEnc row = (case existing of None \<Rightarrow> [] | Some e \<Rightarrow> cn_SecretsEnc e)"
    using prep False by (auto simp: prepareConnectionUpsert_def Let_def split: if_splits)
  moreover have "DecryptSecrets L keyMaterial row = Inr previous"
  proof (cases existing)
    case None
    then show ?thesis using enc prev by (simp add: DecryptSecrets_def)
  next
    case (Some e)
    then show ?thesis using DecryptSecrets_enc [of row e] enc prev by simp
  qed
  ultimately show ?thesis by auto
next
  case True
  let ?merged = "mergeSecrets previous secrets keep"
  from prep True obtain key where key: "parseConnectionsKey keyMaterial = Inr key"
    by (auto simp: prepareConnectionUpsert_def Let_def split: if_splits sum.splits)
  have old: "(case existing of None \<Rightarrow> Inr [] | Some e \<Rightarrow> if cn_SecretsEnc e = [] then Inr [] else openSecrets L key (cn_SecretsEnc e)) = Inr previous"
    using prev key by (auto simp: DecryptSecrets_def split: option.splits if_splits)
  show ?thesis
  proof (cases "?merged = []")
    case True
    then show ?thesis using prep \<open>hasNewSecrets secrets keep\<close> key old
      by (auto simp: prepareConnectionUpsert_def Let_def DecryptSecrets_def split: if_splits)
  next
    case False
    then obtain ct where ct: "sealSecrets L n key ?merged = Inr ct"
      using prep \<open>hasNewSecrets secrets keep\<close> key old by (auto simp: prepareConnectionUpsert_def Let_def split: if_splits sum.splits)
    have "cn_SecretsEnc row = ct \<and> cn_Target row = target"
      using prep \<open>hasNewSecrets secrets keep\<close> key old False ct by (auto simp: prepareConnectionUpsert_def Let_def split: if_splits)
    then show ?thesis using open_seal [OF laws ct] key by (simp add: DecryptSecrets_def)
  qed
qed

lemma find_put:
  assumes "put_connection row s = (Inr (), s')"
  shows "List.find (\<lambda>c. cn_Target c = cn_Target row) (t_connections s') = Some (row\<lparr>cn_UpdatedAt := sql_now s\<rparr>)"
    and "filter (\<lambda>c. cn_Target c \<noteq> cn_Target row) (t_connections s') = filter (\<lambda>c. cn_Target c \<noteq> cn_Target row) (t_connections s)"
proof -
  let ?new = "row\<lparr>cn_UpdatedAt := sql_now s\<rparr>" and ?p = "\<lambda>c. cn_Target c = cn_Target row"
  have "List.find ?p (upd_where ?p (\<lambda>_. ?new) rows) = Some ?new" if "\<exists>c\<in>set rows. ?p c" for rows
    using that by (induction rows) (auto simp: upd_where_def)
  moreover have "List.find ?p (rows @ [?new]) = Some ?new" if "\<not> (\<exists>c\<in>set rows. ?p c)" for rows
    using that by (induction rows) auto
  moreover have s': "t_connections s' = (if \<exists>c\<in>set (t_connections s). ?p c then upd_where ?p (\<lambda>_. ?new) (t_connections s) else t_connections s @ [?new])"
    using assms by (auto simp: put_connection_def Let_def split: if_splits)
  ultimately show "List.find ?p (t_connections s') = Some ?new" by presburger
  have "filter (\<lambda>c. \<not> ?p c) (upd_where ?p (\<lambda>_. ?new) rows) = filter (\<lambda>c. \<not> ?p c) rows" for rows
    by (induction rows) (auto simp: upd_where_def)
  then show "filter (\<lambda>c. \<not> ?p c) (t_connections s') = filter (\<lambda>c. \<not> ?p c) (t_connections s)" by (simp add: s')
qed

lemma UpsertConnection_secrets:
  assumes "cipher_laws L" and "distinct (map fst secrets)"
    and "UpsertConnection L keyMaterial target metadata secrets keep actor s = (Inr (), s')"
    and "stored_secrets L keyMaterial target s = Inr previous"
  shows "\<exists>m. stored_secrets L keyMaterial target s' = Inr m \<and> map_of m = map_of (mergeSecrets previous secrets keep)"
    and "filter (\<lambda>c. cn_Target c \<noteq> target) (t_connections s') = filter (\<lambda>c. cn_Target c \<noteq> target) (t_connections s)"
proof -
  let ?ex = "List.find (\<lambda>c. cn_Target c = target) (t_connections s)"
  from assms(3) obtain row t where prep: "prepareConnectionUpsert L (db_step (next_step s)) (go_now (next_step s)) keyMaterial ?ex target metadata secrets keep actor = Inr row"
    and put: "put_connection row (next_step s) = (Inr (), t)" and s': "s' = next_step t"
    by (auto simp: UpsertConnection_def getConnection_def bind_op_def split: prod.splits sum.splits dest!: db_call_Inr)
  have prev: "(case ?ex of None \<Rightarrow> Inr [] | Some e \<Rightarrow> DecryptSecrets L keyMaterial e) = Inr previous"
    using assms(4) by (simp add: stored_secrets_def)
  from prepare_secrets [OF assms(1,2) prep prev] obtain m where m: "DecryptSecrets L keyMaterial row = Inr m"
    "map_of m = map_of (mergeSecrets previous secrets keep)" and tg: "cn_Target row = target" by blast
  have "List.find (\<lambda>c. cn_Target c = target) (t_connections s') = Some (row\<lparr>cn_UpdatedAt := sql_now (next_step s)\<rparr>)"
    using find_put(1) [OF put] by (simp add: s' tg)
  then show "\<exists>m. stored_secrets L keyMaterial target s' = Inr m \<and> map_of m = map_of (mergeSecrets previous secrets keep)"
    using m DecryptSecrets_enc [of "row\<lparr>cn_UpdatedAt := sql_now (next_step s)\<rparr>" row] by (auto simp: stored_secrets_def)
  show "filter (\<lambda>c. cn_Target c \<noteq> target) (t_connections s') = filter (\<lambda>c. cn_Target c \<noteq> target) (t_connections s)"
    using find_put(2) [OF put] by (simp add: s' tg)
qed

section \<open>What the view shows\<close>

definition same_shape :: "string \<Rightarrow> string \<Rightarrow> bool" where
  "same_shape a b \<longleftrightarrow> (a = [] \<longleftrightarrow> b = [])"

text \<open>
  C35. The view of the connections tells nothing about a secret but whether there is one. Two
  configurations that differ only in the values of their secrets, with the same stored rows and stored
  secrets that differ only in their values, have the same view.
\<close>

theorem public_view_masks_secrets:
  assumes "Resolve cfg rows sec = Inr r"
    and "Resolve (cfg\<lparr>cc_VaultToken := vt, cc_VaultRoleID := vr, cc_VaultSecretID := vs, cc_AAPToken := aat, cc_EDAWebhookToken := et\<rparr>) rows sec' = Inr r'"
    and "same_shape (cc_VaultToken cfg) vt" and "same_shape (cc_VaultRoleID cfg) vr" and "same_shape (cc_VaultSecretID cfg) vs"
    and "same_shape (cc_AAPToken cfg) aat" and "same_shape (cc_EDAWebhookToken cfg) et"
    and "\<forall>target k. same_shape (secret_of (sec target) k) (secret_of (sec' target) k)"
  shows "re_View r = re_View r'"
proof -
  let ?cfg = "cfg\<lparr>cc_VaultToken := vt, cc_VaultRoleID := vr, cc_VaultSecretID := vs, cc_AAPToken := aat, cc_EDAWebhookToken := et\<rparr>"
  note shape = assms(3-7) assms(8) [rule_format]
  have ov: "(overlay a b = []) = (overlay a' b' = [])" if "same_shape a a'" "same_shape b b'" for a b a' b'
    using that by (auto simp: overlay_def same_shape_def)
  have v: "snd x = snd y" if "resolveVault cfg row (sec ''vault'') = Inr x" "resolveVault ?cfg row (sec' ''vault'') = Inr y" for row x y
    using that shape ov [OF shape(6) shape(1)] ov [OF shape(6) shape(2)] ov [OF shape(6) shape(3)]
    by (auto simp: resolveVault_def Let_def vault_view_def same_shape_def split: option.splits)
  have a: "snd x = snd y" if "resolveAAP cfg row (sec ''aap'') = Inr x" "resolveAAP ?cfg row (sec' ''aap'') = Inr y" for row x y
    using that shape ov [OF shape(6) shape(4)]
    by (auto simp: resolveAAP_def Let_def aap_view_def same_shape_def split: option.splits)
  have e: "snd x = snd y" if "resolveEDA cfg row (sec ''eda'') = Inr x" "resolveEDA ?cfg row (sec' ''eda'') = Inr y" for row x y
    using that shape ov [OF shape(6) shape(5)]
    by (auto simp: resolveEDA_def Let_def eda_view_def same_shape_def split: option.splits)
  from assms(1) obtain vx ax ex where x: "resolveVault cfg (by_target rows ''vault'') (sec ''vault'') = Inr vx"
    "resolveAAP cfg (by_target rows ''aap'') (sec ''aap'') = Inr ax" "resolveEDA cfg (by_target rows ''eda'') (sec ''eda'') = Inr ex"
    "re_View r = \<lparr>pb_Vault = snd vx, pb_AAP = snd ax, pb_EDA = snd ex\<rparr>"
    by (auto simp: Resolve_def split: sum.splits)
  from assms(2) obtain vy ay ey where y: "resolveVault ?cfg (by_target rows ''vault'') (sec' ''vault'') = Inr vy"
    "resolveAAP ?cfg (by_target rows ''aap'') (sec' ''aap'') = Inr ay" "resolveEDA ?cfg (by_target rows ''eda'') (sec' ''eda'') = Inr ey"
    "re_View r' = \<lparr>pb_Vault = snd vy, pb_AAP = snd ay, pb_EDA = snd ey\<rparr>"
    by (auto simp: Resolve_def split: sum.splits)
  show ?thesis using v [OF x(1) y(1)] a [OF x(2) y(2)] e [OF x(3) y(3)] by (simp add: x(4) y(4))
qed

definition example_conn_config :: conn_config where
  "example_conn_config = \<lparr>cc_VaultAddr = ''https://v'', cc_VaultNamespace = [], cc_VaultToken = ''old'', cc_VaultAuthMethod = [], cc_VaultRoleID = [],
     cc_VaultSecretID = [], cc_AAPURL = [], cc_AAPToken = [], cc_AAPSkipTLSVerify = False, cc_AAPRenewTemplate = [], cc_AAPRenewWorkflow = False,
     cc_AAPDefaultMount = ''pki'', cc_EDAWebhookURL = [], cc_EDAWebhookToken = [], cc_EventDispatchInterval = 0, cc_EventDispatchBatch = 0,
     cc_EventMaxAttempts = 0\<rparr>"

theorem public_view_masks_secrets_witness:
  "\<exists>r r'. Resolve example_conn_config [] (\<lambda>_. []) = Inr r \<and> Resolve (example_conn_config\<lparr>cc_VaultToken := ''new''\<rparr>) [] (\<lambda>_. []) = Inr r' \<and>
     re_View r = re_View r' \<and> re_Vault r \<noteq> re_Vault r'"
proof -
  have "case (Resolve example_conn_config [] (\<lambda>_. []), Resolve (example_conn_config\<lparr>cc_VaultToken := ''new''\<rparr>) [] (\<lambda>_. [])) of
      (Inr r, Inr r') \<Rightarrow> re_Vault r \<noteq> re_Vault r' | _ \<Rightarrow> False" by code_simp
  then obtain r r' where r: "Resolve example_conn_config [] (\<lambda>_. []) = Inr r"
    and r': "Resolve (example_conn_config\<lparr>cc_VaultToken := ''new''\<rparr>) [] (\<lambda>_. []) = Inr r'" and ne: "re_Vault r \<noteq> re_Vault r'"
    by (auto split: sum.splits)
  have "re_View r = re_View r'"
    by (rule public_view_masks_secrets [OF r, where vt = "''new''" and vr = "[]" and vs = "[]" and aat = "[]" and et = "[]" and sec' = "\<lambda>_. []"])
      (use r' in \<open>simp_all add: same_shape_def example_conn_config_def\<close>)
  with r r' ne show ?thesis by blast
qed

end
