(* ===== verification/AAP_Http.thy ===== *)
theory AAP_Http
  imports AAP_Client Connections
begin

text \<open>
  The HTTP side of the AAP Controller client (\<^verbatim>\<open>internal/aap/client.go\<close>) and of the webhook probe
  (\<^verbatim>\<open>internal/eventbus/dispatcher.go\<close>). The world is what the Controller answers to the \<open>n\<close>-th request, the
  URLs \<^verbatim>\<open>http.NewRequest\<close> accepts, and \<^verbatim>\<open>url.Parse\<close> with the parts the code reads: host, path and raw
  query. \<open>controller_of\<close> is the Controller of the launching code seen through these requests.
\<close>

section \<open>Requests\<close>

record http_request =
  hq_Method :: string
  hq_URL :: string
  hq_Authorization :: "string option"
  hq_Body :: "json option"

datatype http_error = BadRequest | Transport string | ReadBody string | BadStatus nat string | BadJSON

record aap_world =
  aw_answer :: "nat \<Rightarrow> http_request \<Rightarrow> vault_response"
  aw_url_ok :: "string \<Rightarrow> bool"
  aw_parse :: "string \<Rightarrow> (string \<times> string \<times> string) option"
  aw_text :: "http_error \<Rightarrow> string"

text \<open>\<^verbatim>\<open>NewClient\<close>: \<open>None\<close> is an invalid base URL.\<close>

definition aap_NewClient :: "aap_world \<Rightarrow> aap_config \<Rightarrow> aap_config option" where
  "aap_NewClient w cfg =
     (if aa_BaseURL cfg = [] then Some cfg
      else let base = (if \<not> starts_with (aa_BaseURL cfg) ''http://'' \<and> \<not> starts_with (aa_BaseURL cfg) ''https://''
                       then ''https://'' @ aa_BaseURL cfg else aa_BaseURL cfg) in
        case aw_parse w base of None \<Rightarrow> None
        | Some (host, path, q) \<Rightarrow> if host = [] then None else Some (cfg\<lparr>aa_BaseURL := base\<rparr>))"

definition aap_Configured :: "aap_config \<Rightarrow> bool" where
  "aap_Configured cfg \<longleftrightarrow> aa_BaseURL cfg \<noteq> []"

definition aap_url :: "aap_config \<Rightarrow> string \<Rightarrow> string" where
  "aap_url cfg path = trim_right_slash (aa_BaseURL cfg) @ path"

definition bearer :: "string \<Rightarrow> string option" where
  "bearer token = (if token \<noteq> [] then Some (''Bearer '' @ token) else None)"

text \<open>An empty body leaves the result at its zero value: \<open>None\<close>.\<close>

definition aap_do :: "aap_world \<Rightarrow> nat \<Rightarrow> aap_config \<Rightarrow> http_request \<Rightarrow> http_error + json option" where
  "aap_do w n cfg req = (case aw_answer w n (req\<lparr>hq_Authorization := bearer (aa_Token cfg)\<rparr>) of
       NoResponse e \<Rightarrow> Inl (Transport e)
     | Truncated status e \<Rightarrow> Inl (ReadBody e)
     | Answer status data doc \<Rightarrow>
        if status < 200 \<or> status \<ge> 300 then Inl (BadStatus status (trim_space data))
        else if data = [] then Inr None
        else case doc of None \<Rightarrow> Inl BadJSON | Some d \<Rightarrow> Inr (Some d))"

definition aap_get :: "aap_world \<Rightarrow> nat \<Rightarrow> aap_config \<Rightarrow> string \<Rightarrow> http_error + json option" where
  "aap_get w n cfg path = (if \<not> aw_url_ok w (aap_url cfg path) then Inl BadRequest
     else aap_do w n cfg \<lparr>hq_Method = ''GET'', hq_URL = aap_url cfg path, hq_Authorization = None, hq_Body = None\<rparr>)"

definition aap_post :: "aap_world \<Rightarrow> nat \<Rightarrow> aap_config \<Rightarrow> string \<Rightarrow> json \<Rightarrow> http_error + json option" where
  "aap_post w n cfg path body = (if \<not> aw_url_ok w (aap_url cfg path) then Inl BadRequest
     else aap_do w n cfg \<lparr>hq_Method = ''POST'', hq_URL = aap_url cfg path, hq_Authorization = None, hq_Body = Some body\<rparr>)"

definition Me :: "aap_world \<Rightarrow> nat \<Rightarrow> aap_config \<Rightarrow> aap_error option" where
  "Me w n cfg =
     (if \<not> aap_Configured cfg then Some NotConfigured
      else if \<not> aw_url_ok w (aap_url cfg ''/api/v2/me/'') then Some (RequestFailed (aw_text w BadRequest))
      else case aw_answer w n \<lparr>hq_Method = ''GET'', hq_URL = aap_url cfg ''/api/v2/me/'', hq_Authorization = bearer (aa_Token cfg), hq_Body = None\<rparr> of
         NoResponse e \<Rightarrow> Some (RequestFailed (aw_text w (Transport e)))
       | Truncated status e \<Rightarrow> Some (RequestFailed (aw_text w (ReadBody e)))
       | Answer status data doc \<Rightarrow> if status < 200 \<or> status \<ge> 300 then Some (RequestFailed (aw_text w (BadStatus status (trim_space data)))) else None)"

section \<open>Decoding\<close>

definition fields_of :: "json option \<Rightarrow> (string \<times> json) list option" where
  "fields_of doc = (case doc of None \<Rightarrow> Some [] | Some d \<Rightarrow> obj_fields d)"

definition template_of :: "json \<Rightarrow> (int \<times> string) option" where
  "template_of v = (case obj_fields v of None \<Rightarrow> None
     | Some kvs \<Rightarrow> (case (int_field kvs ''id'', str_field kvs ''name'') of (Some i, Some n) \<Rightarrow> Some (i, n) | _ \<Rightarrow> None))"

definition results_of :: "(string \<times> json) list \<Rightarrow> (int \<times> string) list option" where
  "results_of kvs = (case map_of kvs ''results'' of None \<Rightarrow> Some [] | Some JNull \<Rightarrow> Some []
     | Some (JArr vs) \<Rightarrow> those (map template_of vs) | _ \<Rightarrow> None)"

text \<open>\<^verbatim>\<open>url.Values.Encode\<close> of one value.\<close>

definition hex_upper :: "nat \<Rightarrow> char" where
  "hex_upper n = (if n < 10 then char_of (n + 48) else char_of (n + 55))"

definition escape_char :: "char \<Rightarrow> string" where
  "escape_char c = (if is_alnum c \<or> c \<in> set ''-_.~'' then [c] else if c = CHR '' '' then ''+''
     else [CHR ''%'', hex_upper (of_char c div 16), hex_upper (of_char c mod 16)])"

definition templates_by_name :: "aap_world \<Rightarrow> nat \<Rightarrow> aap_config \<Rightarrow> string \<Rightarrow> string \<Rightarrow> string + (int \<times> string) list" where
  "templates_by_name w n cfg kind name =
     (case aap_get w n cfg (''/api/v2/'' @ kind @ ''/?name='' @ concat (map escape_char name)) of Inl e \<Rightarrow> Inl (aw_text w e)
      | Inr doc \<Rightarrow> (case fields_of doc of None \<Rightarrow> Inl (aw_text w BadJSON)
         | Some kvs \<Rightarrow> (case (int_field kvs ''count'', results_of kvs) of (Some c, Some rs) \<Rightarrow> Inr rs | _ \<Rightarrow> Inl (aw_text w BadJSON))))"

definition launch_request :: "aap_world \<Rightarrow> nat \<Rightarrow> aap_config \<Rightarrow> string \<Rightarrow> int \<Rightarrow> (string \<times> string) list \<Rightarrow> string + launch_response" where
  "launch_request w n cfg kind i extraVars =
     (case aap_post w n cfg (''/api/v2/'' @ kind @ ''/'' @ itoa i @ ''/launch/'')
             (JObj (if extraVars \<noteq> [] then [(''extra_vars'', JObj (map (\<lambda>(k, v). (k, JStr v)) extraVars))] else [])) of
        Inl e \<Rightarrow> Inl (aw_text w e)
      | Inr doc \<Rightarrow> (case fields_of doc of None \<Rightarrow> Inl (aw_text w BadJSON)
         | Some kvs \<Rightarrow> (case (int_field kvs ''job'', int_field kvs ''workflow_job'', int_field kvs ''id'') of
             (Some a, Some b, Some c) \<Rightarrow> Inr \<lparr>lr_Job = a, lr_WorkflowJob = b, lr_ID = c\<rparr> | _ \<Rightarrow> Inl (aw_text w BadJSON))))"

definition status_request :: "aap_world \<Rightarrow> aap_config \<Rightarrow> string \<Rightarrow> int \<Rightarrow> nat \<Rightarrow> string + string" where
  "status_request w cfg kind i n =
     (case aap_get w n cfg (''/api/v2/'' @ kind @ ''/'' @ itoa i @ ''/'') of Inl e \<Rightarrow> Inl (aw_text w e)
      | Inr doc \<Rightarrow> (case fields_of doc of None \<Rightarrow> Inl (aw_text w BadJSON)
         | Some kvs \<Rightarrow> (case str_field kvs ''status'' of None \<Rightarrow> Inl (aw_text w BadJSON) | Some st \<Rightarrow> Inr st)))"

text \<open>The lookup is request \<open>n\<close> and the launch the one after it; the polls of a wait start at zero.\<close>

definition controller_of :: "aap_world \<Rightarrow> nat \<Rightarrow> aap_config \<Rightarrow> controller" where
  "controller_of w n cfg = \<lparr>ct_Configured = aap_Configured cfg, ct_templates = templates_by_name w n cfg,
     ct_launch = launch_request w (Suc n) cfg, ct_status = status_request w cfg\<rparr>"

section \<open>Template lists\<close>

definition maxListTemplates :: nat where
  "maxListTemplates = 200"

definition relativeAPIPath :: "aap_world \<Rightarrow> string \<Rightarrow> aap_error + string" where
  "relativeAPIPath w next_url = (case aw_parse w next_url of None \<Rightarrow> Inl (RequestFailed ''parse next page url'')
     | Some (host, path, q) \<Rightarrow> if path = [] then Inl (RequestFailed ''empty next page path'')
         else Inr (if q \<noteq> [] then path @ ''?'' @ q else path))"

definition page_of :: "aap_world \<Rightarrow> nat \<Rightarrow> aap_config \<Rightarrow> string \<Rightarrow> aap_error + string \<times> (int \<times> string) list" where
  "page_of w n cfg path = (case aap_get w n cfg path of Inl e \<Rightarrow> Inl (RequestFailed (aw_text w e))
     | Inr doc \<Rightarrow> (case fields_of doc of None \<Rightarrow> Inl (RequestFailed (aw_text w BadJSON))
        | Some kvs \<Rightarrow> (case (str_field kvs ''next'', results_of kvs) of (Some nx, Some rs) \<Rightarrow> Inr (nx, rs)
            | _ \<Rightarrow> Inl (RequestFailed (aw_text w BadJSON)))))"

text \<open>The loop; \<open>None\<close> is a Controller that keeps naming a next page.\<close>

partial_function (option) list_pages :: "aap_world \<Rightarrow> aap_config \<Rightarrow> nat \<Rightarrow> string \<Rightarrow> (int \<times> string) list \<Rightarrow> (aap_error + (int \<times> string) list) option" where
  "list_pages w cfg n path out =
     (if path = [] \<or> length out \<ge> maxListTemplates then Some (Inr out)
      else case page_of w n cfg path of Inl e \<Rightarrow> Some (Inl e)
        | Inr (nx, rs) \<Rightarrow>
           (let out' = take maxListTemplates (out @ rs) in
            if length out' \<ge> maxListTemplates \<or> nx = [] then Some (Inr out')
            else case relativeAPIPath w nx of Inl e \<Rightarrow> Some (Inl e)
              | Inr path' \<Rightarrow> list_pages w cfg (Suc n) path' out'))"

definition listTemplates :: "aap_world \<Rightarrow> aap_config \<Rightarrow> string \<Rightarrow> (aap_error + (int \<times> string) list) option" where
  "listTemplates w cfg kind = (if \<not> aap_Configured cfg then Some (Inl NotConfigured)
     else list_pages w cfg 0 (''/api/v2/'' @ kind @ ''/'') [])"

definition ListJobTemplates :: "aap_world \<Rightarrow> aap_config \<Rightarrow> (aap_error + (int \<times> string) list) option" where
  "ListJobTemplates w cfg = listTemplates w cfg ''job_templates''"

definition ListWorkflowJobTemplates :: "aap_world \<Rightarrow> aap_config \<Rightarrow> (aap_error + (int \<times> string) list) option" where
  "ListWorkflowJobTemplates w cfg = listTemplates w cfg ''workflow_job_templates''"

section \<open>Job output\<close>

definition JobStdout :: "aap_world \<Rightarrow> nat \<Rightarrow> aap_config \<Rightarrow> int \<Rightarrow> aap_error + string" where
  "JobStdout w n cfg jobID =
     (if \<not> aap_Configured cfg then Inl NotConfigured
      else if jobID \<le> 0 then Inl (RequestFailed ''invalid job id'')
      else let url = aap_url cfg (''/api/v2/jobs/'' @ itoa jobID @ ''/stdout/?format=json'') in
        if \<not> aw_url_ok w url then Inl (RequestFailed (aw_text w BadRequest))
        else case aw_answer w n \<lparr>hq_Method = ''GET'', hq_URL = url, hq_Authorization = bearer (aa_Token cfg), hq_Body = None\<rparr> of
            NoResponse e \<Rightarrow> Inl (RequestFailed (aw_text w (Transport e)))
          | Truncated status e \<Rightarrow> Inl (RequestFailed (aw_text w (ReadBody e)))
          | Answer status data doc \<Rightarrow>
             if status < 200 \<or> status \<ge> 300 then Inl (RequestFailed (aw_text w (BadStatus status (trim_space data))))
             else (case Option.bind (Option.bind doc obj_fields) (\<lambda>kvs. str_field kvs ''content'') of
                Some content \<Rightarrow> if content \<noteq> [] then Inr content else Inr data | None \<Rightarrow> Inr data))"

section \<open>Webhook\<close>

definition postWebhook :: "aap_world \<Rightarrow> nat \<Rightarrow> string \<Rightarrow> string \<Rightarrow> json \<Rightarrow> http_error option" where
  "postWebhook w n webhookURL token body =
     (if \<not> aw_url_ok w webhookURL then Some BadRequest
      else case aw_answer w n \<lparr>hq_Method = ''POST'', hq_URL = webhookURL, hq_Authorization = bearer token, hq_Body = Some body\<rparr> of
        NoResponse e \<Rightarrow> Some (Transport e)
      | Truncated status e \<Rightarrow> if status < 200 \<or> status \<ge> 300 then Some (BadStatus status []) else None
      | Answer status data doc \<Rightarrow> if status < 200 \<or> status \<ge> 300 then Some (BadStatus status []) else None)"

definition Ping :: "aap_world \<Rightarrow> nat \<Rightarrow> uuid \<Rightarrow> time \<Rightarrow> string \<Rightarrow> string \<Rightarrow> http_error option" where
  "Ping w n i now webhookURL token =
     (if webhookURL = [] then Some BadRequest
      else postWebhook w n webhookURL token (JObj [(''event_type'', JStr ''clm.connection.test''), (''id'', JId i), (''created_at'', rfc3339 now)]))"

section \<open>Bounds of the list\<close>

text \<open>A list that is returned holds at most two hundred templates.\<close>

lemma list_pages_bounded:
  assumes "list_pages w cfg n path out = Some r" and "length out \<le> maxListTemplates"
  shows "\<forall>ts. r = Inr ts \<longrightarrow> length ts \<le> maxListTemplates"
  using assms
proof (induction rule: list_pages.raw_induct [rotated 1, consumes 1])
  case (1 list_pages w cfg n path out r)
  show ?case
  proof (cases "path = [] \<or> length out \<ge> maxListTemplates")
    case True
    then show ?thesis using 1 by auto
  next
    case False
    show ?thesis
    proof (cases "page_of w n cfg path")
      case (Inl e)
      then show ?thesis using 1 False by auto
    next
      case (Inr p)
      obtain nx rs where p: "p = (nx, rs)" by (cases p)
      let ?out = "take maxListTemplates (out @ rs)"
      show ?thesis
      proof (cases "length ?out \<ge> maxListTemplates \<or> nx = []")
        case True
        then show ?thesis using 1(2) False Inr p by (auto simp: Let_def)
      next
        case no: False
        show ?thesis
        proof (cases "relativeAPIPath w nx")
          case (Inl e)
          then show ?thesis using 1(2) False Inr p no by (auto simp: Let_def)
        next
          case path': (Inr path')
          then have "list_pages w cfg (Suc n) path' ?out = Some r" using 1(2) False Inr p no by (auto simp: Let_def)
          moreover have "length ?out \<le> maxListTemplates" by simp
          ultimately show ?thesis by (rule 1(1))
        qed
      qed
    qed
  qed
qed

text \<open>A Controller whose pages are empty and name themselves as the next one keeps the loop running.\<close>

definition endless_world :: aap_world where
  "endless_world = \<lparr>aw_answer = (\<lambda>n req. Answer 200 ''{}'' (Some (JObj [(''next'', JStr ''/p''), (''results'', JArr [])]))),
     aw_url_ok = (\<lambda>_. True), aw_parse = (\<lambda>u. Some (''aap'', u, [])), aw_text = (\<lambda>_. [])\<rparr>"

lemma endless_page: "page_of endless_world n cfg path = Inr (''/p'', [])"
  by (simp add: page_of_def aap_get_def aap_do_def endless_world_def fields_of_def obj_fields_def str_field_def results_of_def)

lemma list_pages_endless:
  assumes "list_pages w cfg n path out = Some r" and "w = endless_world" and "path \<noteq> []" and "out = []"
  shows False
  using assms
proof (induction rule: list_pages.raw_induct [rotated 1, consumes 1])
  case (1 list_pages w cfg n path out r)
  have "relativeAPIPath endless_world ''/p'' = Inr ''/p''" by (simp add: relativeAPIPath_def endless_world_def)
  then have "list_pages w cfg (Suc n) ''/p'' [] = Some r"
    using 1(2-5) by (simp add: endless_page maxListTemplates_def)
  then show ?case using 1(1) [of w cfg "Suc n" "''/p''" "[]" r] 1(3) by simp
qed

lemma listTemplates_diverges: "aa_BaseURL cfg \<noteq> [] \<Longrightarrow> listTemplates endless_world cfg kind = None"
proof (cases "listTemplates endless_world cfg kind")
  case (Some r)
  assume "aa_BaseURL cfg \<noteq> []"
  then have "list_pages endless_world cfg 0 (''/api/v2/'' @ kind @ ''/'') [] = Some r"
    using Some by (simp add: listTemplates_def aap_Configured_def)
  then have False by (rule list_pages_endless) simp_all
  then show ?thesis ..
qed

end
