(* ===== verification/Scan_Runner.thy ===== *)
theory Scan_Runner
  imports Cert_Parse
begin

text \<open>
  Running a scan: \<^verbatim>\<open>Scanner.Probe\<close> of \<^verbatim>\<open>internal/scanner/scanner.go\<close>, \<^verbatim>\<open>internal/scanrunner/runner.go\<close> and
  the poller of \<^verbatim>\<open>internal/api/scan_worker.go\<close>. The runner starts one goroutine per target behind a
  semaphore; the goroutines share the counters under a mutex. The model is the interleaving of their
  atomic steps: a locked section, a channel operation, a probe or a call of the store.
\<close>

section \<open>Probing\<close>

record tls_state =
  tl_PeerCertificates :: "x509 list"
  tl_OCSPResponse :: string
  tl_Version :: nat
  tl_CipherSuite :: nat

text \<open>
  The network and the libraries of one probe: \<open>dial\<close> is the TLS handshake with a server name, \<open>lookup_addr\<close>
  the names of an address, \<open>observed\<close> the clock at the end.
\<close>

record 'c probe_libs =
  pl_dial :: "string \<Rightarrow> int \<Rightarrow> string \<Rightarrow> string + tls_state"
  pl_lookup_addr :: "string \<Rightarrow> string list"
  pl_cipher_name :: "nat \<Rightarrow> string"
  pl_observed :: time
  pl_cert :: cert_libs
  pl_rev :: "'c rev_libs"

record probe_result =
  pr_Target :: target
  pr_Certificate :: parsed_certificate
  pr_Chain :: "parsed_certificate list"
  pr_Observation :: probe_observation
  pr_Revocation :: rev_result
  pr_Error :: "string option"

definition tlsVersionName :: "nat \<Rightarrow> string" where
  "tlsVersionName v = (if v = 769 then ''TLS1.0'' else if v = 770 then ''TLS1.1'' else if v = 771 then ''TLS1.2''
     else if v = 772 then ''TLS1.3'' else ''unknown('' @ nat_str v @ '')'')"

text \<open>The zero values a failed probe leaves.\<close>

definition zero_parsed :: parsed_certificate where
  "zero_parsed = \<lparr>pc_SerialNumber = [], pc_FingerprintSHA256 = [], pc_SubjectCN = [], pc_SubjectAltNames = [], pc_IssuerDN = [],
     pc_AuthorityKeyID = [], pc_NotBefore = zero_time, pc_NotAfter = zero_time, pc_KeyType = [], pc_KeyBits = 0,
     pc_SignatureAlgorithm = [], pc_IsCA = False, pc_KeyUsage = [], pc_ExtKeyUsage = [], pc_PEM = [],
     pc_CRLDistributionPoints = [], pc_OCSPServers = [], pc_ChainStatus = [], pc_HostnameMatchesSAN = False,
     pc_PQCTag = [], pc_Notes = []\<rparr>"

definition zero_observation :: probe_observation where
  "zero_observation = \<lparr>po_IP = [], po_Port = 0, po_Hostname = [], po_SNI = [], po_TLSVersion = [], po_CipherSuite = [], po_ObservedAt = zero_time\<rparr>"

definition failed_probe :: "target \<Rightarrow> string \<Rightarrow> probe_result" where
  "failed_probe t err = \<lparr>pr_Target = t, pr_Certificate = zero_parsed, pr_Chain = [], pr_Observation = zero_observation,
     pr_Revocation = no_result [], pr_Error = Some err\<rparr>"

definition probe_name :: "'c probe_libs \<Rightarrow> target \<Rightarrow> string" where
  "probe_name L t = (if tg_Hostname t \<noteq> [] then tg_Hostname t
     else case pl_lookup_addr L (tg_IP t) of [] \<Rightarrow> tg_IP t | name # _ \<Rightarrow> trim_suffix name ''.'')"

definition Probe :: "'c probe_libs \<Rightarrow> target \<Rightarrow> probe_result" where
  "Probe L t =
     (let sni = (if tg_Hostname t = [] then tg_IP t else tg_Hostname t) in
      case pl_dial L (tg_IP t) (tg_Port t) sni of
        Inl err \<Rightarrow> failed_probe t err
      | Inr state \<Rightarrow>
         (case tl_PeerCertificates state of
            [] \<Rightarrow> failed_probe t ''no peer certificates''
          | leaf # others \<Rightarrow>
             let peers = tl_PeerCertificates state;
                 hostname = probe_name L t;
                 parsed = ParseCertificate (pl_cert L) leaf peers hostname sni;
                 chain = map (\<lambda>c. ParseCertificate (pl_cert L) c peers hostname sni) others;
                 issuerPEM = (case chain of [] \<Rightarrow> [] | c # _ \<Rightarrow> pc_PEM c) in
             \<lparr>pr_Target = t, pr_Certificate = parsed, pr_Chain = chain,
              pr_Observation = \<lparr>po_IP = tg_IP t, po_Port = tg_Port t, po_Hostname = hostname, po_SNI = sni,
                po_TLSVersion = tlsVersionName (tl_Version state), po_CipherSuite = pl_cipher_name L (tl_CipherSuite state),
                po_ObservedAt = pl_observed L\<rparr>,
              pr_Revocation = (if tl_OCSPResponse state = [] then no_result []
                else ParseStapledOCSP (pl_rev L) (tl_OCSPResponse state) (pc_PEM parsed) issuerPEM),
              pr_Error = None\<rparr>))"

section \<open>The runner\<close>

record scan_job =
  jb_ScanID :: uuid
  jb_CIDRs :: "string list"
  jb_Hostnames :: "string list"
  jb_Ports :: "int list"
  jb_Concurrency :: int

text \<open>
  What a run knows once its targets are expanded. Each goroutine probes once, so the network of the run is
  a function of the goroutine's number; \<open>err_text\<close> is \<^verbatim>\<open>err.Error()\<close> of a store error.
\<close>

record 'c run_params =
  rp_scan :: uuid
  rp_targets :: "target list"
  rp_warnings :: "string list"
  rp_capacity :: nat
  rp_net :: "nat \<Rightarrow> 'c probe_libs"
  rp_expiring :: int
  rp_err_text :: "error \<Rightarrow> string"

text \<open>Where a goroutine is: before the named action, with what it remembers.\<close>

datatype pc = AtProbe
  | AtCount probe_result
  | AtFailure probe_result int
  | AtSuccess probe_result int
  | AtUpsert probe_result int
  | AtUpsertFailure error int
  | AtReadCerts int
  | AtFound probe_result int uuid
  | AtMark probe_result int int uuid
  | AtIssuers probe_result "parsed_certificate list" int int
  | AtProgress int int
  | AtRelease
  | AtDone
  | Ended

datatype main_pc = M_Add | M_Send | M_Wait | M_Complete | M_Returned

record run_state =
  rn_main :: main_pc
  rn_todo :: "target list"
  rn_threads :: "(target \<times> pc) list"
  rn_sem :: nat
  rn_wg :: nat
  rn_stats :: scan_stats
  rn_db :: db

definition progress_due :: "'c run_params \<Rightarrow> int \<Rightarrow> bool" where
  "progress_due p cur \<longleftrightarrow> cur mod 10 = 0 \<or> cur = int (length (rp_targets p))"

definition updateProgress :: "'c run_params \<Rightarrow> int \<Rightarrow> int \<Rightarrow> db \<Rightarrow> db" where
  "updateProgress p cur certs = ignore (UpdateScanProgress (rp_scan p) cur certs)"

definition chain_cas :: "probe_result \<Rightarrow> parsed_certificate list" where
  "chain_cas r = filter pc_IsCA (pr_Chain r)"

text \<open>One step of goroutine \<open>k\<close>: its next place, the counters, the semaphore, the wait group, the store.\<close>

fun thread_step :: "'c run_params \<Rightarrow> nat \<Rightarrow> target \<Rightarrow> pc \<Rightarrow> run_state \<Rightarrow> (pc \<times> run_state) option" where
  "thread_step p k t AtProbe x = Some (AtCount (Probe (rp_net p k) t), x)"
| "thread_step p k t (AtCount r) x =
     (let st = (rn_stats x)\<lparr>st_Scanned := st_Scanned (rn_stats x) + 1\<rparr> in
      Some (if pr_Error r \<noteq> None then AtFailure r (st_Scanned st) else AtSuccess r (st_Scanned st), x\<lparr>rn_stats := st\<rparr>))"
| "thread_step p k t (AtFailure r cur) x =
     Some (if progress_due p cur then AtReadCerts cur else AtRelease,
       x\<lparr>rn_stats := RecordProbeFailure t (the (pr_Error r)) (rn_stats x)\<rparr>)"
| "thread_step p k t (AtSuccess r cur) x = Some (AtUpsert r cur, x\<lparr>rn_stats := RecordProbeSuccess (rn_stats x)\<rparr>)"
| "thread_step p k t (AtUpsert r cur) x =
     (case UpsertCertificate (rp_expiring p) (rp_scan p) (pr_Certificate r) (pr_Observation r) (rn_db x) of
        (Inl e, s) \<Rightarrow> Some (AtUpsertFailure e cur, x\<lparr>rn_db := s\<rparr>)
      | (Inr certID, s) \<Rightarrow> Some (AtFound r cur certID, x\<lparr>rn_db := s\<rparr>))"
| "thread_step p k t (AtUpsertFailure e cur) x =
     Some (AtReadCerts cur, x\<lparr>rn_stats := RecordUpsertFailure t (rp_err_text p e) (rn_stats x)\<rparr>)"
| "thread_step p k t (AtReadCerts cur) x =
     Some (if progress_due p cur then AtProgress cur (st_CertsFound (rn_stats x)) else AtRelease, x)"
| "thread_step p k t (AtFound r cur certID) x =
     (let st = RecordCertFound (rn_stats x) in Some (AtMark r cur (st_CertsFound st) certID, x\<lparr>rn_stats := st\<rparr>))"
| "thread_step p k t (AtMark r cur certs certID) x =
     Some (AtIssuers r (chain_cas r) cur certs,
       if rv_Verified (pr_Revocation r) \<and> rv_Status (pr_Revocation r) = StatusRevoked
       then x\<lparr>rn_db := ignore (MarkRevoked certID (rv_Source (pr_Revocation r))) (rn_db x)\<rparr> else x)"
| "thread_step p k t (AtIssuers r [] cur certs) x =
     Some (if progress_due p cur then AtProgress cur certs else AtRelease, x)"
| "thread_step p k t (AtIssuers r (ca # cas) cur certs) x =
     Some (AtIssuers r cas cur certs, x\<lparr>rn_db := ignore (UpsertIssuer (rp_expiring p) ca (map pc_PEM (pr_Chain r))) (rn_db x)\<rparr>)"
| "thread_step p k t (AtProgress cur certs) x = Some (AtRelease, x\<lparr>rn_db := updateProgress p cur certs (rn_db x)\<rparr>)"
| "thread_step p k t AtRelease x = (if rn_sem x = 0 then None else Some (AtDone, x\<lparr>rn_sem := rn_sem x - 1\<rparr>))"
| "thread_step p k t AtDone x = Some (Ended, x\<lparr>rn_wg := rn_wg x - 1\<rparr>)"
| "thread_step p k t Ended x = None"

text \<open>
  The spawning loop, the wait and the end. \<^verbatim>\<open>sem <- struct{}{}\<close> waits for a free slot, \<^verbatim>\<open>wg.Wait()\<close> for
  the goroutines.
\<close>

fun main_step :: "'c run_params \<Rightarrow> main_pc \<Rightarrow> run_state \<Rightarrow> run_state option" where
  "main_step p M_Add x =
     (case rn_todo x of [] \<Rightarrow> Some (x\<lparr>rn_main := M_Wait\<rparr>) | t # ts \<Rightarrow> Some (x\<lparr>rn_main := M_Send, rn_wg := Suc (rn_wg x)\<rparr>))"
| "main_step p M_Send x =
     (case rn_todo x of [] \<Rightarrow> None | t # ts \<Rightarrow>
        if rn_sem x < rp_capacity p
        then Some (x\<lparr>rn_main := M_Add, rn_todo := ts, rn_sem := Suc (rn_sem x), rn_threads := rn_threads x @ [(t, AtProbe)]\<rparr>)
        else None)"
| "main_step p M_Wait x = (if rn_wg x = 0 then Some (x\<lparr>rn_main := M_Complete\<rparr>) else None)"
| "main_step p M_Complete x = Some (x\<lparr>rn_main := M_Returned, rn_db := ignore (CompleteScan (rp_scan p)
     (Summary (rn_stats x) (int (length (rp_targets p))) (rp_warnings p))) (rn_db x)\<rparr>)"
| "main_step p M_Returned x = None"

text \<open>A step of the run by the chosen party: the main goroutine or goroutine \<open>k\<close>.\<close>

definition step_of :: "'c run_params \<Rightarrow> nat option \<Rightarrow> run_state \<Rightarrow> run_state option" where
  "step_of p who x =
     (case who of None \<Rightarrow> main_step p (rn_main x) x
      | Some k \<Rightarrow> if k < length (rn_threads x) then
          (case rn_threads x ! k of (t, c) \<Rightarrow>
             (case thread_step p k t c x of None \<Rightarrow> None
              | Some (c', y) \<Rightarrow> Some (y\<lparr>rn_threads := (rn_threads y)[k := (t, c')]\<rparr>)))
        else None)"

fun run_sched :: "'c run_params \<Rightarrow> nat option list \<Rightarrow> run_state \<Rightarrow> run_state option" where
  "run_sched p [] x = Some x"
| "run_sched p (w # ws) x = (case step_of p w x of None \<Rightarrow> None | Some y \<Rightarrow> run_sched p ws y)"

definition run_step :: "'c run_params \<Rightarrow> run_state \<Rightarrow> run_state \<Rightarrow> bool" where
  "run_step p x y \<longleftrightarrow> (\<exists>who. step_of p who x = Some y)"

text \<open>Between the steps of a run, other processes use the store.\<close>

inductive world_step :: "'c run_params \<Rightarrow> run_state \<Rightarrow> run_state \<Rightarrow> bool" for p where
  own: "run_step p x y \<Longrightarrow> world_step p x y"
| other: "world_step p x (x\<lparr>rn_db := s\<rparr>)"

section \<open>The beginning of a run\<close>

record 'c run_env =
  re_parse :: "string \<Rightarrow> string + prefix"
  re_lookup :: "string \<Rightarrow> string + addr list"
  re_addr_str :: "addr \<Rightarrow> string"
  re_allowPrivate :: bool
  re_expiring :: int
  re_net :: "nat \<Rightarrow> 'c probe_libs"
  re_err_text :: "error \<Rightarrow> string"
  re_scan_err_text :: "scan_error \<Rightarrow> string"
  re_warn_text :: "scan_warning \<Rightarrow> string"

definition failScan :: "uuid \<Rightarrow> string \<Rightarrow> db \<Rightarrow> db" where
  "failScan scanID msg = ignore (FailScan scanID msg)"

definition zero_stats :: scan_stats where
  "zero_stats = \<lparr>st_Scanned = 0, st_Succeeded = 0, st_Failed = 0, st_CertsFound = 0, st_UpsertFailures = 0, st_FailureSamples = []\<rparr>"

definition run_start :: "target list \<Rightarrow> db \<Rightarrow> run_state" where
  "run_start targets s = \<lparr>rn_main = M_Add, rn_todo = targets, rn_threads = [], rn_sem = 0, rn_wg = 0, rn_stats = zero_stats, rn_db = s\<rparr>"

text \<open>\<^verbatim>\<open>Runner.Run\<close> up to its loop: an error with the store after it, or the parameters and first state of the run.\<close>

definition Run_begin :: "'c run_env \<Rightarrow> scan_job \<Rightarrow> db \<Rightarrow> (string \<times> db) + ('c run_params \<times> run_state)" where
  "Run_begin E job s =
     (case ExpandScanTargets (re_parse E) (re_lookup E) (re_addr_str E) (jb_CIDRs job) (jb_Hostnames job) (jb_Ports job) (re_allowPrivate E) of
        Inl err \<Rightarrow> Inl (re_scan_err_text E err, failScan (jb_ScanID job) (re_scan_err_text E err) s)
      | Inr (targets, warnings) \<Rightarrow>
         (case UpdateScanRunning (jb_ScanID job) (int (length targets)) s of
            (Inl e, s') \<Rightarrow> Inl (re_err_text E e, failScan (jb_ScanID job) (''failed to mark scan running: '' @ re_err_text E e) s')
          | (Inr _, s') \<Rightarrow> Inr (\<lparr>rp_scan = jb_ScanID job, rp_targets = targets, rp_warnings = map (re_warn_text E) warnings,
                rp_capacity = nat (if jb_Concurrency job \<le> 0 then 50 else jb_Concurrency job), rp_net = re_net E,
                rp_expiring = re_expiring E, rp_err_text = re_err_text E\<rparr>, run_start targets s')))"

text \<open>\<^verbatim>\<open>Runner.Run\<close>: it returns an error, or returns after some interleaving.\<close>

inductive Run :: "'c run_env \<Rightarrow> scan_job \<Rightarrow> db \<Rightarrow> string option \<Rightarrow> db \<Rightarrow> bool" for E job s where
  refused: "Run_begin E job s = Inl (err, s') \<Longrightarrow> Run E job s (Some err) s'"
| returned: "Run_begin E job s = Inr (p, x) \<Longrightarrow> (world_step p)\<^sup>*\<^sup>* x y \<Longrightarrow> rn_main y = M_Complete \<Longrightarrow>
    main_step p M_Complete y = Some z \<Longrightarrow> Run E job s None (rn_db z)"

section \<open>The accounts of a run\<close>

text \<open>The stages a goroutine passes: it holds a slot, it is not over, its result is not yet counted, sorted or stored.\<close>

fun holds_slot :: "pc \<Rightarrow> bool" where
  "holds_slot AtDone \<longleftrightarrow> False" | "holds_slot Ended \<longleftrightarrow> False" | "holds_slot _ \<longleftrightarrow> True"

fun uncounted :: "pc \<Rightarrow> bool" where
  "uncounted AtProbe \<longleftrightarrow> True" | "uncounted (AtCount r) \<longleftrightarrow> True" | "uncounted _ \<longleftrightarrow> False"

fun unsorted :: "pc \<Rightarrow> bool" where
  "unsorted (AtFailure r cur) \<longleftrightarrow> True" | "unsorted (AtSuccess r cur) \<longleftrightarrow> True" | "unsorted _ \<longleftrightarrow> False"

fun unstored :: "pc \<Rightarrow> bool" where
  "unstored (AtUpsert r cur) \<longleftrightarrow> True" | "unstored (AtUpsertFailure e cur) \<longleftrightarrow> True" | "unstored (AtFound r cur i) \<longleftrightarrow> True"
| "unstored _ \<longleftrightarrow> False"

definition at_stage :: "(pc \<Rightarrow> bool) \<Rightarrow> run_state \<Rightarrow> int" where
  "at_stage Q x = int (hits (\<lambda>th. Q (snd th)) (rn_threads x))"

definition stats_ok :: "scan_stats \<Rightarrow> bool" where
  "stats_ok st \<longleftrightarrow> 0 \<le> st_Failed st \<and> 0 \<le> st_UpsertFailures st \<and>
     int (length (st_FailureSamples st)) = min (int MaxFailureSamples) (st_Failed st + st_UpsertFailures st)"

definition accounts_ok :: "run_state \<Rightarrow> bool" where
  "accounts_ok x \<longleftrightarrow> stats_ok (rn_stats x) \<and>
     st_Scanned (rn_stats x) + at_stage uncounted x = int (length (rn_threads x)) \<and>
     st_Succeeded (rn_stats x) + st_Failed (rn_stats x) + at_stage unsorted x = st_Scanned (rn_stats x) \<and>
     st_CertsFound (rn_stats x) + st_UpsertFailures (rn_stats x) + at_stage unstored x = st_Succeeded (rn_stats x)"

definition slots_ok :: "'c run_params \<Rightarrow> run_state \<Rightarrow> bool" where
  "slots_ok p x \<longleftrightarrow> rn_sem x \<le> rp_capacity p \<and> int (rn_sem x) = at_stage holds_slot x \<and>
     int (rn_wg x) = at_stage (\<lambda>c. c \<noteq> Ended) x + of_bool (rn_main x = M_Send)"

definition main_ok :: "'c run_params \<Rightarrow> run_state \<Rightarrow> bool" where
  "main_ok p x \<longleftrightarrow> map fst (rn_threads x) @ rn_todo x = rp_targets p \<and> (rn_main x = M_Send \<longrightarrow> rn_todo x \<noteq> []) \<and>
     (rn_main x \<in> {M_Wait, M_Complete, M_Returned} \<longrightarrow> rn_todo x = []) \<and> (rn_main x \<in> {M_Complete, M_Returned} \<longrightarrow> rn_wg x = 0)"

definition run_inv :: "'c run_params \<Rightarrow> run_state \<Rightarrow> bool" where
  "run_inv p x \<longleftrightarrow> accounts_ok x \<and> slots_ok p x \<and> main_ok p x"

lemma hits_Cons: "hits Q (x # xs) = of_bool (Q x) + hits Q xs"
  by (simp add: hits_def)

lemma hits_snoc: "hits Q (xs @ [x]) = hits Q xs + of_bool (Q x)"
  by (simp add: hits_def)

lemma hits_update:
  "k < length xs \<Longrightarrow> int (hits Q (xs[k := b])) = int (hits Q xs) - of_bool (Q (xs ! k)) + of_bool (Q b)"
proof (induction xs arbitrary: k)
  case (Cons a xs)
  then show ?case by (cases k) (simp_all add: hits_Cons)
qed simp

lemma hits_pos: "k < length xs \<Longrightarrow> Q (xs ! k) \<Longrightarrow> 0 < hits Q xs"
  using hits_0_iff [of Q xs] by (auto simp: gr0_conv_Suc)

lemma at_stage_update:
  assumes "k < length (rn_threads x)" and "rn_threads x ! k = (t, c)" and "rn_threads y = rn_threads x"
  shows "at_stage Q (y\<lparr>rn_threads := (rn_threads y)[k := (t, c')]\<rparr>) = at_stage Q x - of_bool (Q c) + of_bool (Q c')"
  using assms hits_update [of k "rn_threads x" "\<lambda>th. Q (snd th)" "(t, c')"] by (simp add: at_stage_def)

lemma stats_ok_record [simp]:
  "stats_ok st \<Longrightarrow> stats_ok (RecordProbeFailure t e st)" "stats_ok st \<Longrightarrow> stats_ok (RecordUpsertFailure t e st)"
  "stats_ok (st\<lparr>st_Succeeded := n\<rparr>) = stats_ok st" "stats_ok (st\<lparr>st_CertsFound := n\<rparr>) = stats_ok st"
  "stats_ok (st\<lparr>st_Scanned := n\<rparr>) = stats_ok st"
  by (auto simp: stats_ok_def RecordProbeFailure_def RecordUpsertFailure_def addSample_def Let_def MaxFailureSamples_def)

lemma record_fields [simp]:
  "st_Scanned (RecordProbeFailure t e st) = st_Scanned st" "st_Succeeded (RecordProbeFailure t e st) = st_Succeeded st"
  "st_Failed (RecordProbeFailure t e st) = st_Failed st + 1" "st_CertsFound (RecordProbeFailure t e st) = st_CertsFound st"
  "st_UpsertFailures (RecordProbeFailure t e st) = st_UpsertFailures st"
  "st_Scanned (RecordUpsertFailure t e st) = st_Scanned st" "st_Succeeded (RecordUpsertFailure t e st) = st_Succeeded st"
  "st_Failed (RecordUpsertFailure t e st) = st_Failed st" "st_CertsFound (RecordUpsertFailure t e st) = st_CertsFound st"
  "st_UpsertFailures (RecordUpsertFailure t e st) = st_UpsertFailures st + 1"
  by (auto simp: RecordProbeFailure_def RecordUpsertFailure_def addSample_def Let_def)

lemmas record_simps = RecordProbeSuccess_def RecordCertFound_def Let_def

text \<open>What one step of a goroutine does to the accounts, in terms of where it was and where it is.\<close>

lemma thread_step_frame:
  assumes "thread_step p k t c x = Some (c', y)"
  shows "rn_main y = rn_main x \<and> rn_todo y = rn_todo x \<and> rn_threads y = rn_threads x \<and>
    int (rn_sem y) + of_bool (holds_slot c) = int (rn_sem x) + of_bool (holds_slot c') \<and>
    (0 < rn_wg x \<longrightarrow> int (rn_wg y) + of_bool (c \<noteq> Ended) = int (rn_wg x) + of_bool (c' \<noteq> Ended)) \<and> c \<noteq> Ended \<and>
    (holds_slot c' \<longrightarrow> holds_slot c)"
  using assms
  by (cases "(p, k, t, c, x)" rule: thread_step.cases) (auto simp: Let_def split: prod.splits sum.splits if_splits)

lemma thread_step_stats:
  assumes "thread_step p k t c x = Some (c', y)" and "stats_ok (rn_stats x)"
  shows "stats_ok (rn_stats y) \<and>
    st_Scanned (rn_stats y) + of_bool (uncounted c') = st_Scanned (rn_stats x) + of_bool (uncounted c) \<and>
    st_Succeeded (rn_stats y) + st_Failed (rn_stats y) + of_bool (unsorted c') - st_Scanned (rn_stats y)
      = st_Succeeded (rn_stats x) + st_Failed (rn_stats x) + of_bool (unsorted c) - st_Scanned (rn_stats x) \<and>
    st_CertsFound (rn_stats y) + st_UpsertFailures (rn_stats y) + of_bool (unstored c') - st_Succeeded (rn_stats y)
      = st_CertsFound (rn_stats x) + st_UpsertFailures (rn_stats x) + of_bool (unstored c) - st_Succeeded (rn_stats x)"
  using assms
  by (cases "(p, k, t, c, x)" rule: thread_step.cases)
     (auto simp: record_simps split: prod.splits sum.splits if_splits)

lemma thread_keeps_inv:
  assumes inv: "run_inv p x" and k: "k < length (rn_threads x)" "rn_threads x ! k = (t, c)"
    and step: "thread_step p k t c x = Some (c', y)"
  shows "run_inv p (y\<lparr>rn_threads := (rn_threads y)[k := (t, c')]\<rparr>)" (is "run_inv p ?z")
proof -
  note fr = thread_step_frame [OF step]
  have st: "stats_ok (rn_stats x)" using inv by (simp add: run_inv_def accounts_ok_def)
  have upd: "at_stage Q ?z = at_stage Q x - of_bool (Q c) + of_bool (Q c')" for Q
    using at_stage_update [OF k] fr by simp
  have acc: "accounts_ok ?z"
    using inv thread_step_stats [OF step st] upd fr by (simp add: run_inv_def accounts_ok_def)
  have "0 < at_stage (\<lambda>c. c \<noteq> Ended) x"
    using hits_pos [OF k(1), of "\<lambda>th. snd th \<noteq> Ended"] k(2) fr by (simp add: at_stage_def)
  then have wg: "0 < rn_wg x" using inv by (cases "rn_main x = M_Send") (simp_all add: run_inv_def slots_ok_def)
  have "rn_sem y \<le> rn_sem x" using fr by (auto simp: of_bool_def split: if_splits)
  then have "rn_sem y \<le> rp_capacity p" using inv by (simp add: run_inv_def slots_ok_def)
  with wg have slots: "slots_ok p ?z" using inv fr upd by (auto simp: run_inv_def slots_ok_def)
  have "map fst ((rn_threads x)[k := (t, c')]) = map fst (rn_threads x)"
    using k by (simp add: map_update list_update_same_conv)
  then have "main_ok p ?z" using inv fr wg by (auto simp: run_inv_def main_ok_def)
  with acc slots show ?thesis by (simp add: run_inv_def)
qed

lemma main_keeps_inv:
  assumes "run_inv p x" and "main_step p (rn_main x) x = Some y"
  shows "run_inv p y"
proof (cases "rn_main x")
  case M_Send
  then obtain t ts where "rn_todo x = t # ts" "rn_sem x < rp_capacity p"
    "y = x\<lparr>rn_main := M_Add, rn_todo := ts, rn_sem := Suc (rn_sem x), rn_threads := rn_threads x @ [(t, AtProbe)]\<rparr>"
    using assms(2) by (auto split: list.splits if_splits)
  then show ?thesis using assms(1) M_Send
    by (auto simp: run_inv_def accounts_ok_def slots_ok_def main_ok_def at_stage_def hits_snoc)
qed (use assms in \<open>auto simp: run_inv_def accounts_ok_def slots_ok_def main_ok_def at_stage_def split: list.splits if_splits\<close>)

lemma run_stepE:
  assumes "run_step p x y"
  obtains (main) "main_step p (rn_main x) x = Some y"
  | (thread) k t c c' z where "k < length (rn_threads x)" "rn_threads x ! k = (t, c)" "thread_step p k t c x = Some (c', z)"
      "y = z\<lparr>rn_threads := (rn_threads z)[k := (t, c')]\<rparr>"
proof -
  obtain who where w: "step_of p who x = Some y" using assms by (auto simp: run_step_def)
  show thesis
  proof (cases who)
    case None
    then show ?thesis using w main by (simp add: step_of_def)
  next
    case (Some k)
    obtain t c where c: "rn_threads x ! k = (t, c)" by fastforce
    have k: "k < length (rn_threads x)" using w Some by (simp add: step_of_def split: if_splits)
    then obtain c' z where "thread_step p k t c x = Some (c', z)" "y = z\<lparr>rn_threads := (rn_threads z)[k := (t, c')]\<rparr>"
      using w Some c by (auto simp: step_of_def split: option.splits)
    then show ?thesis using thread k c by blast
  qed
qed

lemma run_step_keeps_inv:
  assumes "run_inv p x" and "run_step p x y"
  shows "run_inv p y"
  using assms(2) by (cases rule: run_stepE) (use main_keeps_inv thread_keeps_inv assms(1) in blast)+

lemma world_keeps_inv: "world_step p x y \<Longrightarrow> run_inv p x \<Longrightarrow> run_inv p y"
proof (induction rule: world_step.induct)
  case (own x y)
  then show ?case by (rule run_step_keeps_inv [rotated])
next
  case (other x s)
  then show ?case by (simp add: run_inv_def accounts_ok_def slots_ok_def main_ok_def at_stage_def)
qed

lemma start_inv: "run_inv p (run_start (rp_targets p) s)"
  by (simp add: run_inv_def accounts_ok_def slots_ok_def main_ok_def at_stage_def run_start_def zero_stats_def stats_ok_def hits_def)

lemma reachable_inv: "(world_step p)\<^sup>*\<^sup>* (run_start (rp_targets p) s) x \<Longrightarrow> run_inv p x"
proof (induction rule: rtranclp_induct)
  case base
  show ?case by (rule start_inv)
next
  case (step y z)
  then show ?case using world_keeps_inv by blast
qed

lemma over_when_returned:
  assumes "run_inv p x" and "rn_main x \<in> {M_Complete, M_Returned}"
  shows "(\<forall>th\<in>set (rn_threads x). snd th = Ended) \<and> map fst (rn_threads x) = rp_targets p"
proof -
  have "at_stage (\<lambda>c. c \<noteq> Ended) x = 0" "rn_todo x = []"
    using assms by (auto simp: run_inv_def slots_ok_def main_ok_def)
  then show ?thesis using assms by (auto simp: run_inv_def main_ok_def at_stage_def hits_0_iff)
qed

lemma scan_run_balanced:
  assumes "(world_step p)\<^sup>*\<^sup>* (run_start (rp_targets p) s) x" and m: "rn_main x = M_Complete"
  shows "map fst (rn_threads x) = rp_targets p \<and> st_Scanned (rn_stats x) = int (length (rp_targets p)) \<and>
      st_Succeeded (rn_stats x) + st_Failed (rn_stats x) = int (length (rp_targets p)) \<and>
      st_CertsFound (rn_stats x) + st_UpsertFailures (rn_stats x) = st_Succeeded (rn_stats x)"
proof -
  have inv: "run_inv p x" using assms(1) by (rule reachable_inv)
  from m have over: "\<forall>th\<in>set (rn_threads x). snd th = Ended" "map fst (rn_threads x) = rp_targets p"
    using over_when_returned [OF inv] by simp_all
  have "at_stage uncounted x = 0" "at_stage unsorted x = 0" "at_stage unstored x = 0"
    using over(1) by (simp_all add: at_stage_def hits_0_iff)
  moreover have "length (rn_threads x) = length (rp_targets p)" using over(2) by (metis length_map)
  ultimately show ?thesis using inv over(2) by (simp add: run_inv_def accounts_ok_def)
qed

text \<open>
  C23. A scan accounts for every target. Whatever the schedule of the goroutines, the answers of the
  network and what other processes do to the store: never more probes are under way than the configured
  concurrency; the samples of failures are as many as the failures, up to fifty; and when the summary is
  taken every target has been probed exactly once, counted as a success or a failure, and every success
  as a certificate found or an upsert that failed.
\<close>

theorem scan_accounts:
  assumes "(world_step p)\<^sup>*\<^sup>* (run_start (rp_targets p) s) x"
  shows "hits (\<lambda>th. holds_slot (snd th)) (rn_threads x) \<le> rp_capacity p \<and>
    int (length (st_FailureSamples (rn_stats x))) = min 50 (st_Failed (rn_stats x) + st_UpsertFailures (rn_stats x)) \<and>
    (rn_main x = M_Complete \<longrightarrow>
       (let sm = Summary (rn_stats x) (int (length (rp_targets p))) (rp_warnings p) in
        map fst (rn_threads x) = rp_targets p \<and> sm_TargetsScanned sm = sm_TargetsTotal sm \<and>
        sm_TargetsSucceeded sm + sm_TargetsFailed sm = sm_TargetsTotal sm \<and>
        sm_CertsFound sm + sm_UpsertFailures sm = sm_TargetsSucceeded sm))"
proof -
  have inv: "run_inv p x" using assms by (rule reachable_inv)
  then have slots: "hits (\<lambda>th. holds_slot (snd th)) (rn_threads x) \<le> rp_capacity p"
    and samples: "int (length (st_FailureSamples (rn_stats x))) = min 50 (st_Failed (rn_stats x) + st_UpsertFailures (rn_stats x))"
    by (simp_all add: run_inv_def accounts_ok_def slots_ok_def stats_ok_def at_stage_def MaxFailureSamples_def)
  with slots samples scan_run_balanced [OF assms] show ?thesis by (simp add: Summary_def Let_def)
qed

section \<open>The end of a run\<close>

text \<open>How far the main goroutine is from its end, and how far goroutine \<open>k\<close> is from its own.\<close>

fun main_left :: "main_pc \<Rightarrow> nat" where
  "main_left M_Add = 3" | "main_left M_Send = 2" | "main_left M_Wait = 2" | "main_left M_Complete = 1" | "main_left M_Returned = 0"

definition main_weight :: "run_state \<Rightarrow> nat" where
  "main_weight x = 2 * length (rn_todo x) + main_left (rn_main x)"

fun pc_left :: "'c run_params \<Rightarrow> nat \<Rightarrow> target \<Rightarrow> pc \<Rightarrow> nat" where
  "pc_left p k t AtProbe = 20 + length (chain_cas (Probe (rp_net p k) t))"
| "pc_left p k t (AtCount r) = 19 + length (chain_cas r)"
| "pc_left p k t (AtFailure r cur) = 18 + length (chain_cas r)"
| "pc_left p k t (AtSuccess r cur) = 18 + length (chain_cas r)"
| "pc_left p k t (AtUpsert r cur) = 17 + length (chain_cas r)"
| "pc_left p k t (AtUpsertFailure e cur) = 16"
| "pc_left p k t (AtReadCerts cur) = 15"
| "pc_left p k t (AtFound r cur i) = 16 + length (chain_cas r)"
| "pc_left p k t (AtMark r cur certs i) = 15 + length (chain_cas r)"
| "pc_left p k t (AtIssuers r cas cur certs) = 10 + length cas"
| "pc_left p k t (AtProgress cur certs) = 5"
| "pc_left p k t AtRelease = 2" | "pc_left p k t AtDone = 1" | "pc_left p k t Ended = 0"

definition threads_weight :: "'c run_params \<Rightarrow> run_state \<Rightarrow> nat" where
  "threads_weight p x = (\<Sum>k<length (rn_threads x). pc_left p k (fst (rn_threads x ! k)) (snd (rn_threads x ! k)))"

lemma pc_left_decreases: "thread_step p k t c x = Some (c', y) \<Longrightarrow> pc_left p k t c' < pc_left p k t c"
  by (cases "(p, k, t, c, x)" rule: thread_step.cases) (auto simp: Let_def split: prod.splits sum.splits if_splits)

lemma threads_weight_decreases:
  assumes k: "k < length (rn_threads x)" "rn_threads x ! k = (t, c)" and step: "thread_step p k t c x = Some (c', z)"
  shows "threads_weight p (z\<lparr>rn_threads := (rn_threads z)[k := (t, c')]\<rparr>) < threads_weight p x"
proof -
  have th: "rn_threads z = rn_threads x" using thread_step_frame [OF step] by simp
  show ?thesis unfolding threads_weight_def
    using k th pc_left_decreases [OF step]
    by (auto intro!: sum_strict_mono_ex1 bexI [of _ k] simp: nth_list_update)
qed

lemma main_weight_decreases:
  "main_step p (rn_main x) x = Some y \<Longrightarrow> main_weight y < main_weight x"
  by (cases "rn_main x") (auto simp: main_weight_def split: list.splits if_splits)

definition run_order :: "'c run_params \<Rightarrow> (run_state \<times> run_state) set" where
  "run_order p = measures [main_weight, threads_weight p]"

lemma run_step_descends:
  assumes "run_step p x y"
  shows "(y, x) \<in> run_order p"
  using assms
proof (cases rule: run_stepE)
  case main
  then show ?thesis using main_weight_decreases [OF main] by (simp add: run_order_def)
next
  case (thread k t c c' z)
  then show ?thesis using threads_weight_decreases [OF thread(1-3)] thread_step_frame [OF thread(3)]
    by (simp add: run_order_def main_weight_def)
qed

text \<open>A goroutine that is not over can go on: it holds its slot, so there is something to release.\<close>

lemma thread_enabled:
  assumes inv: "run_inv p x" and th: "th \<in> set (rn_threads x)" and go: "snd th \<noteq> Ended"
  shows "\<exists>y. run_step p x y"
proof -
  obtain k where k: "k < length (rn_threads x)" "rn_threads x ! k = (fst th, snd th)"
    using th by (auto simp: in_set_conv_nth)
  have "\<exists>r. thread_step p k (fst th) (snd th) x = Some r"
  proof (cases "snd th = AtRelease")
    case True
    then have "0 < hits (\<lambda>th. holds_slot (snd th)) (rn_threads x)" using hits_pos [OF k(1)] k(2) by simp
    then have "rn_sem x \<noteq> 0" using inv by (auto simp: run_inv_def slots_ok_def at_stage_def)
    then show ?thesis using True by simp
  next
    case False
    then show ?thesis using go
      by (cases "(p, k, fst th, snd th, x)" rule: thread_step.cases) (auto simp: Let_def split: prod.splits sum.splits)
  qed
  then obtain c' z where "thread_step p k (fst th) (snd th) x = Some (c', z)" by force
  then have "step_of p (Some k) x = Some (z\<lparr>rn_threads := (rn_threads z)[k := (fst th, c')]\<rparr>)"
    using k by (simp add: step_of_def case_prod_beta)
  then show ?thesis by (auto simp: run_step_def)
qed

lemma run_not_stuck:
  assumes inv: "run_inv p x" and cap: "0 < rp_capacity p" and m: "rn_main x \<noteq> M_Returned"
  shows "\<exists>y. run_step p x y"
proof (cases "\<exists>th\<in>set (rn_threads x). snd th \<noteq> Ended")
  case True
  then show ?thesis using thread_enabled [OF inv] by blast
next
  case False
  then have none: "at_stage Q x = 0" if "\<not> Q Ended" for Q using that by (auto simp: at_stage_def hits_0_iff)
  then have "rn_sem x = 0" "int (rn_wg x) = of_bool (rn_main x = M_Send)"
    using inv none [of "\<lambda>c. c \<noteq> Ended"] by (simp_all add: run_inv_def slots_ok_def)
  then have "\<exists>y. main_step p (rn_main x) x = Some y"
    using inv cap m by (cases "rn_main x") (auto simp: run_inv_def main_ok_def neq_Nil_conv split: list.splits)
  then obtain y where "step_of p None x = Some y" by (auto simp: step_of_def)
  then show ?thesis by (auto simp: run_step_def)
qed

text \<open>
  C24. Every scan ends. With a concurrency of one or more, no schedule of the goroutines goes on forever,
  and none gets stuck: a run that can take no further step has stored its summary and returned.
\<close>

theorem scan_ends:
  assumes "(world_step p)\<^sup>*\<^sup>* (run_start (rp_targets p) s) x" and "0 < rp_capacity p"
  shows "(\<nexists>f. f 0 = x \<and> (\<forall>n. run_step p (f n) (f (Suc n)))) \<and>
    (\<forall>y. (run_step p)\<^sup>*\<^sup>* x y \<and> (\<nexists>z. run_step p y z) \<longrightarrow> rn_main y = M_Returned)"
proof (intro conjI allI impI)
  have "wf (run_order p)" by (simp add: run_order_def)
  then show "\<nexists>f. f 0 = x \<and> (\<forall>n. run_step p (f n) (f (Suc n)))"
    using run_step_descends [of p] by (metis wf_iff_no_infinite_down_chain)
next
  fix y assume y: "(run_step p)\<^sup>*\<^sup>* x y \<and> (\<nexists>z. run_step p y z)"
  have "(world_step p)\<^sup>*\<^sup>* x y" using y world_step.own by (metis (mono_tags) mono_rtranclp)
  then have "run_inv p y" using assms(1) by (intro reachable_inv) (rule rtranclp_trans)
  then show "rn_main y = M_Returned" using run_not_stuck assms(2) y by blast
qed

section \<open>An example\<close>

text \<open>One target that refuses the connection, and a schedule that lets its goroutine run through.\<close>

definition example_net :: "nat probe_libs" where
  "example_net = \<lparr>pl_dial = (\<lambda>_ _ _. Inl ''refused''), pl_lookup_addr = (\<lambda>_. []), pl_cipher_name = (\<lambda>_. []), pl_observed = 0,
     pl_cert = \<lparr>cl_sha256 = id, cl_pem_encode = id, cl_is_ip = (\<lambda>_. True), cl_system_pool = True, cl_verify = (\<lambda>_ _ _. False),
       cl_map_order = id\<rparr>, pl_rev = example_libs\<rparr>"

definition example_target :: target where
  "example_target = \<lparr>tg_IP = ''8.8.8.8'', tg_Port = 443, tg_Hostname = []\<rparr>"

definition example_params :: "nat run_params" where
  "example_params = \<lparr>rp_scan = 1, rp_targets = [example_target], rp_warnings = [], rp_capacity = 1, rp_net = (\<lambda>_. example_net),
     rp_expiring = 30, rp_err_text = (\<lambda>_. [])\<rparr>"

definition example_schedule :: "nat option list" where
  "example_schedule = [None, None, Some 0, Some 0, Some 0, None, Some 0, Some 0, Some 0, Some 0, None]"

lemma run_sched_reaches: "run_sched p ws x = Some y \<Longrightarrow> (run_step p)\<^sup>*\<^sup>* x y"
proof (induction ws arbitrary: x)
  case (Cons w ws)
  then obtain z where "step_of p w x = Some z" "(run_step p)\<^sup>*\<^sup>* z y" by (auto split: option.splits)
  then show ?case by (meson converse_rtranclp_into_rtranclp run_step_def)
qed simp

lemma run_world: "(run_step p)\<^sup>*\<^sup>* x y \<Longrightarrow> (world_step p)\<^sup>*\<^sup>* x y"
  by (metis (mono_tags) mono_rtranclp world_step.own)

lemma example_run:
  "\<exists>x. run_sched example_params example_schedule (run_start (rp_targets example_params) empty_db) = Some x \<and>
     rn_main x = M_Complete \<and> st_Failed (rn_stats x) = 1"
  by (simp add: example_schedule_def example_params_def run_start_def step_of_def Probe_def example_net_def example_target_def
      failed_probe_def progress_due_def zero_stats_def RecordProbeFailure_def addSample_def MaxFailureSamples_def Let_def)

theorem scan_accounts_witness:
  "\<exists>x. (world_step example_params)\<^sup>*\<^sup>* (run_start (rp_targets example_params) empty_db) x \<and> rn_main x = M_Complete \<and>
     st_Failed (rn_stats x) = 1 \<and> st_Succeeded (rn_stats x) = 0"
proof -
  obtain x where x: "run_sched example_params example_schedule (run_start (rp_targets example_params) empty_db) = Some x"
    "rn_main x = M_Complete" "st_Failed (rn_stats x) = 1" using example_run by blast
  have reach: "(world_step example_params)\<^sup>*\<^sup>* (run_start (rp_targets example_params) empty_db) x"
    using x(1) by (intro run_world run_sched_reaches)
  have "length (rp_targets example_params) = 1" by (simp add: example_params_def)
  with scan_accounts [OF reach] x(2,3) have "st_Succeeded (rn_stats x) = 0" by (simp add: Summary_def Let_def)
  with reach x show ?thesis by blast
qed

theorem scan_ends_witness:
  "\<nexists>f. f 0 = run_start (rp_targets example_params) empty_db \<and> (\<forall>n. run_step example_params (f n) (f (Suc n)))"
  using scan_ends [of example_params empty_db "run_start (rp_targets example_params) empty_db"]
  by (simp add: example_params_def)

section \<open>What a run leaves in the store\<close>


definition example_env :: "nat run_env" where
  "example_env = \<lparr>re_parse = (\<lambda>_. Inl []), re_lookup = (\<lambda>_. Inr [V4 134744072]), re_addr_str = (\<lambda>_. ''8.8.8.8''), re_allowPrivate = False,
     re_expiring = 30, re_net = (\<lambda>_. example_net), re_err_text = (\<lambda>_. []), re_scan_err_text = (\<lambda>_. []), re_warn_text = (\<lambda>_. [])\<rparr>"

definition example_scan_job :: scan_job where
  "example_scan_job = \<lparr>jb_ScanID = 1, jb_CIDRs = [], jb_Hostnames = [''h''], jb_Ports = [443], jb_Concurrency = 1\<rparr>"

lemma example_begin:
  "\<exists>p x. Run_begin example_env example_scan_job empty_db = Inr (p, x) \<and>
     (\<exists>y. run_sched p example_schedule x = Some y \<and> rn_main y = M_Complete)"
  by (simp add: Run_begin_def example_env_def example_scan_job_def ExpandScanTargets_def ExpandHostnamesPartial_def targetsFromResolvedIPs_def
      trim_host address_classes at_ports_def UpdateScanRunning_def update_scan_def db_call_def empty_db_def
      example_schedule_def run_start_def step_of_def Probe_def example_net_def failed_probe_def progress_due_def zero_stats_def
      RecordProbeFailure_def addSample_def MaxFailureSamples_def Let_def)


section \<open>The poller\<close>

record scan_worker =
  sw_owner :: string
  sw_slots :: int
  sw_every :: duration
  sw_lease :: duration

text \<open>\<open>host\<close> and \<open>rnd\<close> are the host name and a fresh UUID as text.\<close>

definition NewScanWorker :: "string \<Rightarrow> string \<Rightarrow> string \<Rightarrow> int \<Rightarrow> duration \<Rightarrow> duration \<Rightarrow> scan_worker" where
  "NewScanWorker workerID host rnd slots every lease =
     \<lparr>sw_owner = (if workerID = [] then host @ ''-'' @ take 8 rnd else workerID),
      sw_slots = (if slots \<le> 0 then 2 else slots), sw_every = (if every \<le> 0 then 2 * second else every),
      sw_lease = (if lease \<le> 0 then 30 * second else lease)\<rparr>"

text \<open>
  One tick with \<open>busy\<close> slots in use: the claimed scans that are started. \<open>cancelled\<close> tells at which of them
  the select takes the branch of the ended context, where the loop returns.
\<close>

fun start_scans :: "string \<Rightarrow> (nat \<Rightarrow> bool) \<Rightarrow> nat \<Rightarrow> scan list \<Rightarrow> db \<Rightarrow> scan list \<times> db" where
  "start_scans owner cancelled k [] s = ([], s)"
| "start_scans owner cancelled k (sc # scs) s =
     (if cancelled k then ([], ignore (ReleaseScanClaim (s_ID sc) owner) s)
      else case start_scans owner cancelled (Suc k) scs s of (started, s') \<Rightarrow> (sc # started, s'))"

definition worker_tick :: "scan_worker \<Rightarrow> nat \<Rightarrow> (nat \<Rightarrow> bool) \<Rightarrow> db \<Rightarrow> scan list \<times> db" where
  "worker_tick w busy cancelled s =
     (let available = sw_slots w - int busy in
      if available \<le> 0 then ([], s)
      else case ClaimNextScans (sw_owner w) (sw_lease w) available s of
        (Inl e, s') \<Rightarrow> ([], s')
      | (Inr scans, s') \<Rightarrow> start_scans (sw_owner w) cancelled 0 scans s')"

lemma start_scans_length: "length (fst (start_scans owner cancelled k scs s)) \<le> length scs"
  by (induction scs arbitrary: k s) (auto simp: case_prod_beta)

lemma ClaimNextScans_length:
  assumes "ClaimNextScans owner ttl limit s = (Inr scs, s')" and "0 < limit"
  shows "int (length scs) \<le> limit"
proof -
  obtain ids t where g: "get_all GetScan ids t = (Inr scs, s')" and l: "length ids \<le> nat limit"
    using assms length_pick
    by (fastforce simp: ClaimNextScans_def bind_op_def claim_scans_def db_call_def Let_def split: if_splits prod.splits sum.splits)
  have "length scs = length ids" using get_all_scans_ids [OF g] by (metis length_map)
  with l assms(2) show ?thesis by linarith
qed

text \<open>A poller never runs more scans than it has slots.\<close>

lemma worker_tick_within_slots:
  assumes "int busy \<le> sw_slots w"
  shows "int (busy + length (fst (worker_tick w busy cancelled s))) \<le> sw_slots w"
proof (cases "fst (worker_tick w busy cancelled s) = []")
  case False
  then obtain scs s' where c: "ClaimNextScans (sw_owner w) (sw_lease w) (sw_slots w - int busy) s = (Inr scs, s')" "int busy < sw_slots w"
      "fst (worker_tick w busy cancelled s) = fst (start_scans (sw_owner w) cancelled 0 scs s')"
    by (auto simp: worker_tick_def Let_def split: if_splits prod.splits sum.splits)
  then show ?thesis
    using ClaimNextScans_length [OF c(1)] start_scans_length [of "sw_owner w" cancelled 0 scs s'] by simp
qed (use assms in simp)

end
