(* ===== verification/Collectors.thy ===== *)
theory Collectors
  imports AAP_Http Scan_Runner Api_Handlers
begin

text \<open>
  Certificates that arrive without a network probe: the shared ingestion (\<^verbatim>\<open>internal/collectors/ingest.go\<close>),
  the cloud collector (\<^verbatim>\<open>cloud/collect.go\<close>) on Azure Key Vault (\<^verbatim>\<open>akv/client.go\<close>,
  \<^verbatim>\<open>internal/api/azure_token.go\<close>), the collector that runs an AAP job against a Windows CA
  (\<^verbatim>\<open>adcs/collect.go\<close>), and the handlers of \<^verbatim>\<open>internal/api/handlers_collect.go\<close>. The parameters are PEM
  framing and DER decoding (with the certificate libraries of \<^verbatim>\<open>internal/cert\<close>), JSON decoding of text, the
  servers that are asked, and the text of an error. A loop over \<^verbatim>\<open>pem.Decode\<close> sees the blocks of the text in
  order.
\<close>

section \<open>Ingestion\<close>

definition allowedSources :: "string list" where
  "allowedSources = [''adcs'', ''cloud_akv'', ''cloud_acm'', ''cloud_gcp'']"

datatype collect_error = PrivateKeyRejected | InvalidSource string | CollectStore error | CollectAAP aap_error
  | CollectText string | CollectHTTP http_error

record item =
  it_PEM :: string
  it_Name :: string

record collect_libs =
  co_blocks :: "string \<Rightarrow> (string \<times> string) list"
  co_x509 :: "string \<Rightarrow> x509 option"
  co_cert :: cert_libs
  co_pem_certificate :: "string \<Rightarrow> string"
  co_json :: "string \<Rightarrow> json option"
  co_text :: "collect_error \<Rightarrow> string"
  co_url_ok :: "string \<Rightarrow> bool"
  co_answer :: "nat \<Rightarrow> http_request \<Rightarrow> vault_response"

definition ValidateSource :: "string \<Rightarrow> collect_error option" where
  "ValidateSource source = (if source \<in> set allowedSources then None else Some (InvalidSource source))"

definition containsPrivateKey :: "string \<Rightarrow> bool" where
  "containsPrivateKey pemText \<longleftrightarrow> str_contains (to_upper pemText) ''PRIVATE KEY''"

text \<open>The loop over the blocks: the certificates so far, or \<open>None\<close> when one does not decode.\<close>

fun pem_chain :: "collect_libs \<Rightarrow> (string \<times> string) list \<Rightarrow> x509 list option" where
  "pem_chain L [] = Some []"
| "pem_chain L ((ty, der) # bs) =
     (if ty \<noteq> ''CERTIFICATE'' then pem_chain L bs
      else case co_x509 L der of None \<Rightarrow> None
       | Some c \<Rightarrow> (case pem_chain L bs of None \<Rightarrow> None | Some cs \<Rightarrow> Some (c # cs)))"

definition parsePublicPEM :: "collect_libs \<Rightarrow> string \<Rightarrow> parsed_certificate option" where
  "parsePublicPEM L pemText = (case pem_chain L (co_blocks L pemText) of None \<Rightarrow> None | Some [] \<Rightarrow> None
     | Some (leaf # rest) \<Rightarrow> Some (ParseCertificate (co_cert L) leaf (leaf # rest) (x_SubjectCN leaf) (x_SubjectCN leaf)))"

definition item_observation :: "string \<Rightarrow> time \<Rightarrow> item \<Rightarrow> parsed_certificate \<Rightarrow> probe_observation" where
  "item_observation source now it parsed =
     (let sni = (if it_Name it = [] \<and> pc_SubjectCN parsed \<noteq> [] then pc_SubjectCN parsed else it_Name it) in
      \<lparr>po_IP = source, po_Port = 0, po_Hostname = sni, po_SNI = source @ '':'' @ sni, po_TLSVersion = [], po_CipherSuite = [], po_ObservedAt = now\<rparr>)"

type_synonym tally_result = "(collect_error + int \<times> int) \<times> db"

text \<open>The loop of \<^verbatim>\<open>IngestPublicPEMs\<close>; the counts returned beside an error are dropped by every caller.\<close>

fun ingest_loop :: "collect_libs \<Rightarrow> int \<Rightarrow> uuid \<Rightarrow> string \<Rightarrow> time \<Rightarrow> item list \<Rightarrow> int \<Rightarrow> int \<Rightarrow> db \<Rightarrow> tally_result" where
  "ingest_loop L soon scanID source now [] ingested skipped s = (Inr (ingested, skipped), s)"
| "ingest_loop L soon scanID source now (it # its) ingested skipped s =
     (if containsPrivateKey (it_PEM it) then (Inl PrivateKeyRejected, s)
      else case parsePublicPEM L (it_PEM it) of None \<Rightarrow> ingest_loop L soon scanID source now its ingested (skipped + 1) s
       | Some parsed \<Rightarrow>
          (case UpsertCertificate soon scanID parsed (item_observation source now it parsed) s of
             (Inl e, s') \<Rightarrow> (Inl (CollectStore e), s')
           | (Inr _, s') \<Rightarrow> ingest_loop L soon scanID source now its (ingested + 1) skipped s'))"

definition IngestPublicPEMs :: "collect_libs \<Rightarrow> int \<Rightarrow> uuid \<Rightarrow> string \<Rightarrow> item list \<Rightarrow> db \<Rightarrow> tally_result" where
  "IngestPublicPEMs L soon scanID source items s = (case ValidateSource source of Some e \<Rightarrow> (Inl e, s)
     | None \<Rightarrow> ingest_loop L soon scanID source (go_now s) items 0 0 s)"

section \<open>Cloud collectors\<close>

record cert_source =
  cs_List :: "collect_error + string list"
  cs_GetPublicPEM :: "nat \<Rightarrow> string \<Rightarrow> collect_error + string"

text \<open>The names in turn: the items fetched and the number of names passed over. \<open>n\<close> counts the requests.\<close>

fun fetch_items :: "cert_source \<Rightarrow> nat \<Rightarrow> string list \<Rightarrow> item list \<times> int" where
  "fetch_items src n [] = ([], 0)"
| "fetch_items src n (name # names) = (case fetch_items src (Suc n) names of (items, skipped) \<Rightarrow>
     (case cs_GetPublicPEM src n name of Inl _ \<Rightarrow> (items, skipped + 1)
      | Inr pemText \<Rightarrow> if pemText = [] then (items, skipped + 1) else (\<lparr>it_PEM = pemText, it_Name = name\<rparr> # items, skipped)))"

definition cloud_Collect :: "collect_libs \<Rightarrow> int \<Rightarrow> uuid \<Rightarrow> string \<Rightarrow> cert_source \<Rightarrow> db \<Rightarrow> tally_result" where
  "cloud_Collect L soon scanID scanSource src s = (case ValidateSource scanSource of Some e \<Rightarrow> (Inl e, s)
     | None \<Rightarrow> (case cs_List src of Inl e \<Rightarrow> (Inl e, s)
        | Inr names \<Rightarrow> (case fetch_items src 0 names of (items, skipped) \<Rightarrow>
            (case IngestPublicPEMs L soon scanID scanSource items s of (Inl e, s') \<Rightarrow> (Inl e, s')
             | (Inr (n, skipParse), s') \<Rightarrow> (Inr (n, skipped + skipParse), s')))))"

subsection \<open>Azure Key Vault\<close>

text \<open>\<^verbatim>\<open>encoding/base64\<close>: line breaks are ignored, padding ends the text where the encoding has it.\<close>

definition b64_value :: "bool \<Rightarrow> char \<Rightarrow> nat option" where
  "b64_value urlsafe c =
     (if in_range (CHR ''A'') (CHR ''Z'') c then Some (of_char c - 65)
      else if in_range (CHR ''a'') (CHR ''z'') c then Some (of_char c - 71)
      else if in_range (CHR ''0'') (CHR ''9'') c then Some (of_char c + 4)
      else if c = (if urlsafe then CHR ''-'' else CHR ''+'') then Some 62
      else if c = (if urlsafe then CHR ''_'' else CHR ''/'') then Some 63 else None)"

definition b64_bytes :: "nat \<Rightarrow> nat \<Rightarrow> nat \<Rightarrow> nat \<Rightarrow> string" where
  "b64_bytes a b c d = map char_of [a * 4 + b div 16, b mod 16 * 16 + c div 4, c mod 4 * 64 + d]"

fun b64_groups :: "bool \<Rightarrow> string \<Rightarrow> string option" where
  "b64_groups raw [] = Some []"
| "b64_groups raw [a] = None"
| "b64_groups raw [a, b] = (if raw then (case (b64_value raw a, b64_value raw b) of (Some x, Some y) \<Rightarrow> Some (take 1 (b64_bytes x y 0 0)) | _ \<Rightarrow> None) else None)"
| "b64_groups raw [a, b, c] = (if raw then (case (b64_value raw a, b64_value raw b, b64_value raw c) of
     (Some x, Some y, Some z) \<Rightarrow> Some (take 2 (b64_bytes x y z 0)) | _ \<Rightarrow> None) else None)"
| "b64_groups raw (a # b # c # d # s) =
     (case (b64_value raw a, b64_value raw b, b64_value raw c, b64_value raw d) of
        (Some x, Some y, Some z, Some w) \<Rightarrow> map_option (\<lambda>t. b64_bytes x y z w @ t) (b64_groups raw s)
      | (Some x, Some y, Some z, None) \<Rightarrow> if \<not> raw \<and> d = CHR ''='' \<and> s = [] then Some (take 2 (b64_bytes x y z 0)) else None
      | (Some x, Some y, None, None) \<Rightarrow> if \<not> raw \<and> c = CHR ''='' \<and> d = CHR ''='' \<and> s = [] then Some (take 1 (b64_bytes x y 0 0)) else None
      | _ \<Rightarrow> None)"

definition b64_decode :: "bool \<Rightarrow> string \<Rightarrow> string option" where
  "b64_decode raw s = b64_groups raw (filter (\<lambda>c. c \<notin> {CHR 0x0A, CHR 0x0D}) s)"

text \<open>\<^verbatim>\<open>url.PathEscape\<close>\<close>

definition path_escape :: "string \<Rightarrow> string" where
  "path_escape s = concat (map (\<lambda>c. if is_alnum c \<or> c \<in> set ''-_.~$&+=:@'' then [c]
     else [CHR ''%'', hex_upper (of_char c div 16), hex_upper (of_char c mod 16)]) s)"

record vault_source =
  vs_VaultURI :: string
  vs_Token :: string

definition akv_base :: "vault_source \<Rightarrow> string" where
  "akv_base src = trim_right_slash (vs_VaultURI src)"

definition getJSON :: "collect_libs \<Rightarrow> vault_source \<Rightarrow> nat \<Rightarrow> string \<Rightarrow> collect_error + (string \<times> json) list" where
  "getJSON L src n rawURL =
     (if \<not> co_url_ok L rawURL then Inl (CollectHTTP BadRequest)
      else case co_answer L n \<lparr>hq_Method = ''GET'', hq_URL = rawURL, hq_Authorization = bearer (vs_Token src), hq_Body = None\<rparr> of
        NoResponse e \<Rightarrow> Inl (CollectHTTP (Transport e))
      | Truncated status e \<Rightarrow> Inl (CollectHTTP (ReadBody e))
      | Answer status data doc \<Rightarrow>
         if status < 200 \<or> status \<ge> 300 then Inl (CollectHTTP (BadStatus status rawURL))
         else case Option.bind doc obj_fields of None \<Rightarrow> Inl (CollectHTTP BadJSON) | Some kvs \<Rightarrow> Inr kvs)"

definition nameFromID :: "string \<Rightarrow> string" where
  "nameFromID i = (let parts = split_on (CHR ''/'') (trim_right_slash (dropWhile (\<lambda>c. c = CHR ''/'') i)) in
     case dropWhile (\<lambda>p. p \<noteq> ''certificates'') parts of _ # name # _ \<Rightarrow> name | _ \<Rightarrow> i)"

text \<open>The identifiers of the list; a value of another shape makes decoding fail.\<close>

fun decode_ids :: "json list \<Rightarrow> string list option" where
  "decode_ids [] = Some []"
| "decode_ids (v # vs) = (case (Option.bind (obj_fields v) (\<lambda>kvs. str_field kvs ''id''), decode_ids vs) of
     (Some i, Some ids) \<Rightarrow> Some (i # ids) | _ \<Rightarrow> None)"

definition list_field :: "(string \<times> json) list \<Rightarrow> string \<Rightarrow> json list option" where
  "list_field kvs k = (case map_of kvs k of None \<Rightarrow> Some [] | Some JNull \<Rightarrow> Some [] | Some (JArr vs) \<Rightarrow> Some vs | _ \<Rightarrow> None)"

definition akv_List :: "collect_libs \<Rightarrow> vault_source \<Rightarrow> collect_error + string list" where
  "akv_List L src =
     (if vs_VaultURI src = [] then Inl (CollectText ''AZURE_KEY_VAULT_URI required'')
      else case getJSON L src 0 (akv_base src @ ''/certificates?api-version=7.4'') of Inl e \<Rightarrow> Inl e
       | Inr kvs \<Rightarrow> (case Option.bind (list_field kvs ''value'') decode_ids of None \<Rightarrow> Inl (CollectHTTP BadJSON)
          | Some ids \<Rightarrow> Inr (map nameFromID ids)))"

definition akv_GetPublicPEM :: "collect_libs \<Rightarrow> vault_source \<Rightarrow> nat \<Rightarrow> string \<Rightarrow> collect_error + string" where
  "akv_GetPublicPEM L src n name =
     (case getJSON L src (Suc n) (akv_base src @ ''/certificates/'' @ path_escape name @ ''?api-version=7.4'') of Inl e \<Rightarrow> Inl e
      | Inr kvs \<Rightarrow> (case str_field kvs ''cer'' of None \<Rightarrow> Inl (CollectHTTP BadJSON)
         | Some cer \<Rightarrow> if cer = [] then Inr []
            else case b64_decode False cer of Some der \<Rightarrow> Inr (co_pem_certificate L der)
            | None \<Rightarrow> (case b64_decode True cer of Some der \<Rightarrow> Inr (co_pem_certificate L der)
               | None \<Rightarrow> Inl (CollectText ''decode cer''))))"

definition akv_Collect :: "collect_libs \<Rightarrow> int \<Rightarrow> uuid \<Rightarrow> vault_source \<Rightarrow> db \<Rightarrow> tally_result" where
  "akv_Collect L soon scanID src = cloud_Collect L soon scanID ''cloud_akv'' \<lparr>cs_List = akv_List L src, cs_GetPublicPEM = akv_GetPublicPEM L src\<rparr>"

record azure_config =
  az_KeyVaultURI :: string
  az_TenantID :: string
  az_ClientID :: string
  az_ClientSecret :: string
  az_AccessToken :: string

definition query_escape :: "string \<Rightarrow> string" where
  "query_escape s = concat (map escape_char s)"

text \<open>\<open>None\<close> is any error: the caller tells none apart. The form is encoded with its keys in order.\<close>

definition resolveAzureToken :: "(string \<Rightarrow> bool) \<Rightarrow> (string \<Rightarrow> string \<Rightarrow> vault_response) \<Rightarrow> azure_config \<Rightarrow> string option" where
  "resolveAzureToken url_ok post cfg =
     (if trim_space (az_AccessToken cfg) \<noteq> [] then Some (trim_space (az_AccessToken cfg))
      else if az_TenantID cfg = [] \<or> az_ClientID cfg = [] \<or> az_ClientSecret cfg = [] then None
      else let form = ''client_id='' @ query_escape (az_ClientID cfg) @ ''&client_secret='' @ query_escape (az_ClientSecret cfg) @
                 ''&grant_type=client_credentials&scope='' @ query_escape ''https://vault.azure.net/.default'';
               endpoint = ''https://login.microsoftonline.com/'' @ path_escape (az_TenantID cfg) @ ''/oauth2/v2.0/token'' in
        if \<not> url_ok endpoint then None
        else case post endpoint form of
          Answer status data doc \<Rightarrow> if status < 200 \<or> status \<ge> 300 then None
            else (case Option.bind (Option.bind doc obj_fields) (\<lambda>kvs. str_field kvs ''access_token'') of
               None \<Rightarrow> None | Some tok \<Rightarrow> if tok = [] then None else Some tok)
        | _ \<Rightarrow> None)"

section \<open>Windows CA through AAP\<close>

record adcs_controller =
  ac_client :: controller
  ac_stdout :: "int \<Rightarrow> aap_error + string"

fun decode_items :: "json list \<Rightarrow> item list option" where
  "decode_items [] = Some []"
| "decode_items (v # vs) = (case (obj_fields v, decode_items vs) of
     (Some kvs, Some its) \<Rightarrow> (case (str_field kvs ''pem'', str_field kvs ''name'') of
        (Some p, Some n) \<Rightarrow> Some (\<lparr>it_PEM = p, it_Name = n\<rparr> # its) | _ \<Rightarrow> None)
   | _ \<Rightarrow> None)"

definition inventoryPayload :: "json \<Rightarrow> item list option" where
  "inventoryPayload doc = (case obj_fields doc of None \<Rightarrow> None
     | Some kvs \<Rightarrow> if str_field kvs ''ca_host'' = None then None else Option.bind (list_field kvs ''certificates'') decode_items)"

definition secret_like :: "string \<Rightarrow> bool" where
  "secret_like k \<longleftrightarrow> str_contains (to_lower k) ''token'' \<or> str_contains (to_lower k) ''password'' \<or> str_contains (to_lower k) ''secret''"

definition name_items :: "string \<Rightarrow> item list \<Rightarrow> item list" where
  "name_items caHost its = map (\<lambda>it. if it_Name it = [] then it\<lparr>it_Name := caHost\<rparr> else it) its"

text \<open>\<open>None\<close>: the wait for the job never ends.\<close>

definition adcs_Collect :: "collect_libs \<Rightarrow> int \<Rightarrow> adcs_controller \<Rightarrow> (nat \<Rightarrow> bool) \<Rightarrow> uuid \<Rightarrow> string \<Rightarrow> string \<Rightarrow> db \<Rightarrow> tally_result option" where
  "adcs_Collect L soon ctrl cancelled scanID templateName caHost s =
     (if \<not> ct_Configured (ac_client ctrl) then Some (Inl (CollectText ''aap not configured''), s)
      else if trim_space caHost = [] then Some (Inl (CollectText ''ca_host required''), s)
      else case FindJobTemplate (ac_client ctrl) (if templateName = [] then ''CLM - Collect ADCS'' else templateName) of
        Inl e \<Rightarrow> Some (Inl (CollectAAP e), s)
      | Inr tmplID \<Rightarrow>
        (let extra = [(''ca_host'', caHost), (''clm_scan_id'', db_ustr s scanID)] in
         if list_ex (\<lambda>(k, v). secret_like k) extra then Some (Inl (CollectText ''refusing secret-like extra_vars key''), s)
         else let s1 = s\<lparr>aap_launches := aap_launches s @ [extra]\<rparr> in
         case LaunchJobTemplate (ac_client ctrl) tmplID extra of Inl e \<Rightarrow> Some (Inl (CollectAAP e), s1)
         | Inr res \<Rightarrow>
           (case WaitForJob (ac_client ctrl) cancelled res of None \<Rightarrow> None
            | Some (Some e, st) \<Rightarrow> Some (Inl (CollectAAP e), s1)
            | Some (None, st) \<Rightarrow>
              if \<not> IsSuccess st
              then Some (Inl (CollectText (''aap ADCS job '' @ itoa (la_JobID res) @ '' ended with status '' @ aap_status_str st)), s1)
              else case ac_stdout ctrl (la_JobID res) of Inl e \<Rightarrow> Some (Inl (CollectAAP e), s1)
              | Inr raw \<Rightarrow> (case Option.bind (co_json L raw) inventoryPayload of
                  None \<Rightarrow> Some (Inl (CollectText ''parse ADCS inventory JSON''), s1)
                | Some items \<Rightarrow> Some (IngestPublicPEMs L soon scanID ''adcs'' (name_items caHost items) s1)))))"

section \<open>Handlers\<close>

record collect_env =
  ce_store :: bool
  ce_libs :: collect_libs
  ce_ExpiringSoonDays :: int
  ce_aap :: "adcs_controller option"
  ce_cancelled :: "nat \<Rightarrow> bool"
  ce_AAPADCSTemplate :: string
  ce_azure :: azure_config
  ce_token_post :: "string \<Rightarrow> string \<Rightarrow> vault_response"

record collect_scan_request =
  cq_Consent :: bool
  cq_Source :: string
  cq_Certificates :: "item list"

text \<open>The answer: the scan read back (\<open>None\<close> for the zero value when that read fails) and the two counts.\<close>

type_synonym collect_reply = "scan option \<times> int \<times> int"

definition collect_summary :: "int \<Rightarrow> int \<Rightarrow> int \<Rightarrow> scan_summary" where
  "collect_summary tot ingested skipped = \<lparr>sm_TargetsTotal = tot, sm_TargetsScanned = tot, sm_TargetsSucceeded = ingested, sm_TargetsFailed = skipped,
     sm_CertsFound = ingested, sm_UpsertFailures = 0, sm_ExpansionWarnings = [], sm_FailureSamples = []\<rparr>"

definition collect_done :: "request \<Rightarrow> string \<Rightarrow> string \<Rightarrow> (string \<times> json) list \<Rightarrow> uuid \<Rightarrow> int \<Rightarrow> int \<Rightarrow> collect_reply handler" where
  "collect_done r actor action extra i ingested skipped s = (case GetScan i s of (res, s1) \<Rightarrow>
     let sc = (case res of Inl _ \<Rightarrow> None | Inr sc \<Rightarrow> Some sc) in
     audited r actor action ''scan'' (\<lambda>s. db_ustr s (case sc of None \<Rightarrow> 0 | Some sc \<Rightarrow> s_ID sc))
       (Some (JObj (extra @ [(''ingested'', JNum ingested), (''skipped'', JNum skipped)]))) (writeJSON 200 (sc, ingested, skipped)) s1)"

definition collect_failed :: "collect_libs \<Rightarrow> request \<Rightarrow> uuid \<Rightarrow> collect_error \<Rightarrow> 'a handler \<Rightarrow> 'a handler" where
  "collect_failed L r i e k s = k (ignore (FailScan i (co_text L e)) s)"

definition consent_missing :: string where
  "consent_missing = ''scan consent required; set consent=true to confirm authorized scanning''"

definition handleCollectScan :: "collect_env \<Rightarrow> request \<Rightarrow> string \<Rightarrow> collect_scan_request option \<Rightarrow> collect_reply handler" where
  "handleCollectScan env r actor body =
     (if \<not> ce_store env then writeError r 503 ''store not configured''
      else case body of None \<Rightarrow> writeError r 400 ''invalid request body''
      | Some req \<Rightarrow>
        if \<not> cq_Consent req then writeError r 400 consent_missing
        else if ValidateSource (cq_Source req) \<noteq> None then writeError r 400 ''invalid source (want adcs|cloud_akv|cloud_acm|cloud_gcp)''
        else if cq_Certificates req = [] then writeError r 400 ''certificates required''
        else try_op (CreateScanWithSource (cq_Source req) [] [] [] 1 0) (\<lambda>e. writeServerError r e ''failed to create collector scan'') (\<lambda>sc.
          try_op (UpdateScanRunning (s_ID sc) (int (length (cq_Certificates req)))) (\<lambda>e. writeServerError r e ''failed to start collector scan'') (\<lambda>_ s.
          case IngestPublicPEMs (ce_libs env) (ce_ExpiringSoonDays env) (s_ID sc) (cq_Source req) (cq_Certificates req) s of
            (Inl e, s1) \<Rightarrow> collect_failed (ce_libs env) r (s_ID sc) e
               (if e = PrivateKeyRejected then writeError r 400 ''private key material is not accepted'' else writeError r 500 ''failed to ingest certificates'') s1
          | (Inr (ingested, skipped), s1) \<Rightarrow>
             try_op (CompleteScan (s_ID sc) (collect_summary (int (length (cq_Certificates req))) ingested skipped))
               (\<lambda>e. writeServerError r e ''failed to complete collector scan'')
               (\<lambda>_. collect_done r actor ''collect_scan'' [(''source'', JStr (cq_Source req))] (s_ID sc) ingested skipped) s1)))"

text \<open>What the two other handlers do once the collector has run: errors of the scan updates are dropped.\<close>

definition collect_finish :: "collect_libs \<Rightarrow> request \<Rightarrow> string \<Rightarrow> string \<Rightarrow> (string \<times> json) list \<Rightarrow> (collect_error \<Rightarrow> collect_reply handler) \<Rightarrow> uuid \<Rightarrow> tally_result \<Rightarrow> collect_reply reply \<times> db" where
  "collect_finish L r actor action extra failed i res = (case res of
     (Inl e, s1) \<Rightarrow> collect_failed L r i e (failed e) s1
   | (Inr (ingested, skipped), s1) \<Rightarrow>
      collect_done r actor action extra i ingested skipped
        (ignore (CompleteScan i (collect_summary (ingested + skipped) ingested skipped)) s1))"

definition handleCollectADCS :: "collect_env \<Rightarrow> request \<Rightarrow> string \<Rightarrow> (bool \<times> string) option \<Rightarrow> collect_reply loop_handler" where
  "handleCollectADCS env r actor body s =
     (if \<not> ce_store env then Some (writeError r 503 ''store not configured'' s)
      else case ce_aap env of None \<Rightarrow> Some (writeError r 503 ''AAP not configured for ADCS collect'' s)
      | Some ctrl \<Rightarrow>
        if \<not> ct_Configured (ac_client ctrl) then Some (writeError r 503 ''AAP not configured for ADCS collect'' s)
        else case body of None \<Rightarrow> Some (writeError r 400 ''invalid request body'' s)
        | Some (consent, caHost) \<Rightarrow>
          if \<not> consent then Some (writeError r 400 consent_missing s)
          else if caHost = [] then Some (writeError r 400 ''ca_host required'' s)
          else case CreateScanWithSource ''adcs'' [] [] [] 1 0 s of
            (Inl e, s1) \<Rightarrow> Some (writeServerError r e ''failed to create ADCS scan'' s1)
          | (Inr sc, s1) \<Rightarrow>
             (let s2 = ignore (UpdateScanRunning (s_ID sc) 0) s1; tmpl = (if ce_AAPADCSTemplate env = [] then ''CLM - Collect ADCS'' else ce_AAPADCSTemplate env) in
              map_option (collect_finish (ce_libs env) r actor ''collect_adcs'' [(''ca_host'', JStr caHost)]
                (\<lambda>e. if e = PrivateKeyRejected then writeError r 400 ''private key material is not accepted'' else writeError r 500 ''ADCS collect failed'') (s_ID sc))
                (adcs_Collect (ce_libs env) (ce_ExpiringSoonDays env) ctrl (ce_cancelled env) (s_ID sc) tmpl caHost s2)))"

definition handleCollectAKV :: "collect_env \<Rightarrow> request \<Rightarrow> string \<Rightarrow> bool option \<Rightarrow> collect_reply handler" where
  "handleCollectAKV env r actor body =
     (if \<not> ce_store env then writeError r 503 ''store not configured''
      else if az_KeyVaultURI (ce_azure env) = [] then writeError r 503 ''AZURE_KEY_VAULT_URI not configured''
      else case body of None \<Rightarrow> writeError r 400 ''invalid request body''
      | Some consent \<Rightarrow>
        if \<not> consent then writeError r 400 consent_missing
        else case resolveAzureToken (co_url_ok (ce_libs env)) (ce_token_post env) (ce_azure env) of
          None \<Rightarrow> writeError r 503 ''Azure credentials not configured''
        | Some token \<Rightarrow> try_op (CreateScanWithSource ''cloud_akv'' [] [] [] 1 0) (\<lambda>e. writeServerError r e ''failed to create AKV scan'') (\<lambda>sc s.
            let s1 = ignore (UpdateScanRunning (s_ID sc) 0) s in
            collect_finish (ce_libs env) r actor ''collect_akv'' [] (\<lambda>e. writeError r 500 ''AKV collect failed'') (s_ID sc)
              (akv_Collect (ce_libs env) (ce_ExpiringSoonDays env) (s_ID sc) \<lparr>vs_VaultURI = az_KeyVaultURI (ce_azure env), vs_Token = token\<rparr> s1)))"

section \<open>What a collection does to the scans\<close>

lemma emit_scans: "t_scans (snd (emitDiscoveryCatalogueEvents i parsed st days sc ins prev s)) = t_scans s"
proof -
  have ev: "t_scans (snd (appendEventStandalone ty c p x)) = t_scans x" for ty c p x
    unfolding appendEventStandalone_def
    by (rule db_call_keeps [where P = "\<lambda>y. t_scans y = t_scans x"]) (auto simp: appendEventTx_def split: if_splits)
  have ev': "appendEventStandalone ty c p x = (r, y) \<Longrightarrow> t_scans y = t_scans x" for ty c p x r y using ev [of ty c p x] by simp
  show ?thesis unfolding emitDiscoveryCatalogueEvents_def Let_def
    by (rule bind_op_keeps [where P = "\<lambda>x. t_scans x = t_scans s"]) (auto simp: bind_op_def ev split: prod.splits sum.splits dest: ev')
qed

lemma UpsertCertificate_scans: "t_scans (snd (UpsertCertificate soon i parsed ob s)) = t_scans s"
proof -
  have row: "t_scans (snd (db_call (upsert_cert_row parsed ob st days sc) x)) = t_scans x" for st days sc x
    by (rule db_call_keeps [where P = "\<lambda>y. t_scans y = t_scans x"]) (auto simp: upsert_cert_row_def split: if_splits option.splits)
  have obs: "t_scans (snd (db_call (upsert_observation c i ob) x)) = t_scans x" for c x
    by (rule db_call_keeps [where P = "\<lambda>y. t_scans y = t_scans x"]) (auto simp: upsert_observation_def split: if_splits)
  have look: "t_scans (snd (db_call (\<lambda>x. (Inr (g x), x)) x)) = t_scans x" for g :: "db \<Rightarrow> certificate option" and x
    by (rule db_call_keeps [where P = "\<lambda>y. t_scans y = t_scans x"]) auto
  show ?thesis unfolding UpsertCertificate_def Let_def
    by (auto split: prod.split intro!: bind_op_keeps [where P = "\<lambda>x. t_scans x = t_scans s"] simp: row obs look emit_scans)
qed

text \<open>What the loop returns: counts that add up over items without keys, or an error; the scans stay as they were.\<close>

lemma ingest_loop_outcome:
  assumes "ingest_loop L soon i src now its a b s = (res, s')"
  shows "t_scans s' = t_scans s \<and> (case res of Inl e \<Rightarrow> e = PrivateKeyRejected \<longrightarrow> (\<exists>it\<in>set its. containsPrivateKey (it_PEM it))
    | Inr (x, y) \<Rightarrow> x + y = a + b + int (length its) \<and> a \<le> x \<and> b \<le> y \<and> list_all (\<lambda>it. \<not> containsPrivateKey (it_PEM it)) its)"
  using assms
proof (induction L soon i src now its a b s rule: ingest_loop.induct)
  case (2 L soon i src now it its a b s)
  show ?case
  proof (cases "containsPrivateKey (it_PEM it)")
    case True
    then show ?thesis using 2(3) by auto
  next
    case clean: False
    show ?thesis
    proof (cases "parsePublicPEM L (it_PEM it)")
      case None
      then show ?thesis using 2(1) [OF clean None] 2(3) clean by (auto split: sum.splits)
    next
      case (Some parsed)
      obtain w s1 where up: "UpsertCertificate soon i parsed (item_observation src now it parsed) s = (w, s1)" by force
      have s1: "t_scans s1 = t_scans s" using arg_cong [OF up, of "\<lambda>x. t_scans (snd x)"] by (simp add: UpsertCertificate_scans)
      show ?thesis
      proof (cases w)
        case (Inl e)
        then show ?thesis using 2(3) clean Some up s1 by auto
      next
        case (Inr c)
        then show ?thesis using 2(2) [OF clean Some up [symmetric, unfolded Inr] refl] 2(3) clean Some up s1 by (auto split: sum.splits)
      qed
    qed
  qed
qed auto

lemma upd_last:
  "pk_free s_ID i rows \<Longrightarrow> s_ID row = i \<Longrightarrow> upd_where (\<lambda>sc. s_ID sc = i) f (rows @ [row]) = rows @ [f row]"
  by (induction rows) (auto simp: upd_where_def pk_free_def)

lemma update_scan_last:
  assumes "update_scan i f s = (res, s')" and "t_scans s = rows @ [row]" and "pk_free s_ID i rows" and "s_ID row = i"
  shows "res = Inr () \<and> t_scans s' = rows @ [f (go_now s) row] \<or> (\<exists>e. res = Inl e) \<and> t_scans s' = rows @ [row]"
  using assms upd_last [OF assms(3,4), of "f (go_now s)"] by (auto simp: update_scan_def db_call_def split: if_splits)

lemma ignore_update_scan:
  assumes "t_scans s = rows @ [row]" and "pk_free s_ID i rows" and "s_ID row = i"
  shows "t_scans (ignore (update_scan i f) s) \<in> {rows @ [f (go_now s) row], rows @ [row]}"
  using update_scan_last [of i f s _ _ rows row] assms by (cases "update_scan i f s") (auto simp: ignore_def)

lemma CreateScanWithSource_new:
  assumes "CreateScanWithSource src [] [] [] 1 0 s = (res, s')" and "src \<noteq> []"
  shows "(case res of Inl e \<Rightarrow> t_scans s' = t_scans s
    | Inr sc \<Rightarrow> t_scans s' = t_scans s @ [sc] \<and> pk_free s_ID (s_ID sc) (t_scans s) \<and> s_Status sc = ScanPending \<and> s_Source sc = src \<and>
        s_ClaimedAt sc = None)"
  using assms by (auto simp: CreateScanWithSource_def db_call_def Let_def new_scan_def split: if_splits)

lemma allowedSources_ne: "ValidateSource src = None \<Longrightarrow> src \<noteq> [] \<and> src \<in> set allowedSources"
  by (auto simp: ValidateSource_def allowedSources_def split: if_splits)

lemma GetScan_last:
  assumes "GetScan i s = (res, s')" and "t_scans s = rows @ [row]" and "pk_free s_ID i rows" and "s_ID row = i"
  shows "t_scans s' = t_scans s \<and> (case res of Inl e \<Rightarrow> True | Inr sc \<Rightarrow> sc = row)"
proof -
  have "List.find (\<lambda>sc. s_ID sc = i) (rows @ [row]) = Some row" using assms(3,4) by (induction rows) (auto simp: pk_free_def)
  then show ?thesis using assms(1,2) by (auto simp: GetScan_def db_call_def split: if_splits option.splits)
qed

lemma auditAllow_scans [simp]: "t_scans (auditAllow r actor a b c d s) = t_scans s"
  by (auto simp: auditAllow_def appendAudit_def ignore_def AppendAudit_def db_call_def)

lemma collect_done_outcome:
  assumes "collect_done r actor action extra i x y s = (rep, s')" and "t_scans s = rows @ [row]" and "pk_free s_ID i rows" and "s_ID row = i"
  shows "t_scans s' = rows @ [row] \<and> (\<exists>sc. rep = Reply 200 (sc, x, y) \<and> sc \<in> {None, Some row})"
  using assms GetScan_last [of i s _ _ rows row]
  by (fastforce simp: collect_done_def audited_def Let_def split: prod.splits sum.splits)

text \<open>What the answer of a collection says of the scans: the statement of the property below, over the scans before.\<close>

definition collected :: "collect_scan_request \<Rightarrow> scan list \<Rightarrow> collect_reply reply \<Rightarrow> db \<Rightarrow> bool" where
  "collected req rows rep s' \<longleftrightarrow> (case rep of
      Reply n (sc, ingested, skipped) \<Rightarrow> n = 200 \<and> (\<exists>row.
        list_all (\<lambda>it. \<not> containsPrivateKey (it_PEM it)) (cq_Certificates req) \<and>
        0 \<le> ingested \<and> 0 \<le> skipped \<and> ingested + skipped = int (length (cq_Certificates req)) \<and>
        t_scans s' = rows @ [row] \<and> s_Status row = ScanCompleted \<and> s_Source row = cq_Source req \<and>
        s_TargetsTotal row = int (length (cq_Certificates req)) \<and> s_CertsFound row = ingested \<and> s_TargetsFailed row = skipped \<and>
        sc \<in> {None, Some row})
    | Problem n msg rid \<Rightarrow> t_scans s' = rows \<or> (\<exists>row. t_scans s' = rows @ [row] \<and> s_Status row \<noteq> ScanCompleted))"

text \<open>From the ingestion on, with the scan's row last in the table.\<close>

lemma collect_ingest:
  assumes ing: "IngestPublicPEMs L soon i (cq_Source req) (cq_Certificates req) u = (res, u1)" and src: "ValidateSource (cq_Source req) = None"
    and u: "t_scans u = rows @ [row]" "pk_free s_ID i rows" "s_ID row = i" "s_Source row = cq_Source req" "s_Status row = ScanRunning"
      "s_TargetsTotal row = int (length (cq_Certificates req))"
    and run: "(case res of Inl e \<Rightarrow> collect_failed L r i e
           (if e = PrivateKeyRejected then writeError r 400 ''private key material is not accepted'' else writeError r 500 ''failed to ingest certificates'') u1
      | Inr (ingested, skipped) \<Rightarrow> try_op (CompleteScan i (collect_summary (int (length (cq_Certificates req))) ingested skipped))
           (\<lambda>e. writeServerError r e ''failed to complete collector scan'')
           (\<lambda>_. collect_done r actor ''collect_scan'' [(''source'', JStr (cq_Source req))] i ingested skipped) u1) = (rep, s')"
  shows "collected req rows rep s'"
proof -
  let ?its = "cq_Certificates req"
  have out: "t_scans u1 = rows @ [row]" "case res of Inl e \<Rightarrow> True | Inr (x, y) \<Rightarrow> x + y = int (length ?its) \<and> 0 \<le> x \<and> 0 \<le> y \<and>
      list_all (\<lambda>it. \<not> containsPrivateKey (it_PEM it)) ?its"
    using ing src u(1) ingest_loop_outcome by (fastforce simp: IngestPublicPEMs_def split: sum.splits prod.splits)+
  show ?thesis
  proof (cases res)
    case (Inl e)
    have "t_scans s' \<in> {rows @ [row\<lparr>s_Status := ScanFailed, s_FinishedAt := Some (go_now u1), s_Error := Some (co_text L e), s_ClaimedBy := None, s_ClaimedAt := None\<rparr>], rows @ [row]}"
      "\<exists>n msg rid. rep = Problem n msg rid"
      using run Inl ignore_update_scan [of u1 rows row i] out(1) u by (auto simp: collect_failed_def FailScan_def split: if_splits)
    then show ?thesis using u(5) by (auto simp: collected_def)
  next
    case (Inr xy)
    obtain x y where xy: "xy = (x, y)" by force
    from run Inr xy have "try_op (CompleteScan i (collect_summary (int (length ?its)) x y)) (\<lambda>e. writeServerError r e ''failed to complete collector scan'')
        (\<lambda>_. collect_done r actor ''collect_scan'' [(''source'', JStr (cq_Source req))] i x y) u1 = (rep, s')" by simp
    then show ?thesis
    proof (cases rule: try_opE)
      case (1 e w)
      then show ?thesis using update_scan_last [OF 1(1) [unfolded CompleteScan_def] out(1)] u by (auto simp: collected_def)
    next
      case (2 v w)
      let ?row = "row\<lparr>s_Status := ScanCompleted, s_FinishedAt := Some (go_now u1), s_TargetsScanned := int (length ?its), s_TargetsSucceeded := x,
        s_TargetsFailed := y, s_CertsFound := x, s_UpsertFailures := 0, s_ExpansionWarnings := [], s_FailureSamples := [], s_Error := None, s_ClaimedBy := None, s_ClaimedAt := None\<rparr>"
      have "t_scans w = rows @ [?row]"
        using update_scan_last [OF 2(1) [unfolded CompleteScan_def] out(1)] u by (auto simp: collect_summary_def)
      then have "t_scans s' = rows @ [?row]" "\<exists>sc. rep = Reply 200 (sc, x, y) \<and> sc \<in> {None, Some ?row}"
        using collect_done_outcome [OF 2(2), of rows ?row] u by auto
      then show ?thesis using out(2) Inr xy u by (auto simp: collected_def)
    qed
  qed
qed

text \<open>
  C14. What a collection request leaves behind. It is answered with success only with consent, for an
  allowed source, when no item holds a private key, and then exactly one scan was added, completed, whose
  counts are those of the answer and add up to the items sent. Any other answer leaves the scans as they
  were or adds one scan that is not completed.
\<close>

theorem collect_scan_outcome:
  assumes "handleCollectScan env r actor body s = (rep, s')"
  shows "case rep of
      Reply n (sc, ingested, skipped) \<Rightarrow> n = 200 \<and> (\<exists>req row. body = Some req \<and> cq_Consent req \<and> cq_Source req \<in> set allowedSources \<and>
        list_all (\<lambda>it. \<not> containsPrivateKey (it_PEM it)) (cq_Certificates req) \<and>
        0 \<le> ingested \<and> 0 \<le> skipped \<and> ingested + skipped = int (length (cq_Certificates req)) \<and>
        t_scans s' = t_scans s @ [row] \<and> s_Status row = ScanCompleted \<and> s_Source row = cq_Source req \<and>
        s_TargetsTotal row = int (length (cq_Certificates req)) \<and> s_CertsFound row = ingested \<and> s_TargetsFailed row = skipped \<and>
        sc \<in> {None, Some row})
    | Problem n msg rid \<Rightarrow> t_scans s' = t_scans s \<or> (\<exists>row. t_scans s' = t_scans s @ [row] \<and> s_Status row \<noteq> ScanCompleted)"
proof (cases "ce_store env \<and> (\<exists>req. body = Some req \<and> cq_Consent req \<and> ValidateSource (cq_Source req) = None \<and> cq_Certificates req \<noteq> [])")
  case False
  then have "\<exists>n msg rid. rep = Problem n msg rid \<and> s' = s" using assms by (auto simp: handleCollectScan_def split: option.splits if_splits)
  then show ?thesis by auto
next
  case True
  then obtain req where req: "body = Some req" "cq_Consent req" "ValidateSource (cq_Source req) = None" "cq_Certificates req \<noteq> []" by blast
  note src = allowedSources_ne [OF req(3)]
  have "collected req (t_scans s) rep s'"
    using assms True req(1,2,4) unfolding handleCollectScan_def
  proof (simp add: req(3), elim try_opE)
    fix e t assume "CreateScanWithSource (cq_Source req) [] [] [] 1 0 s = (Inl e, t)" "writeServerError r e ''failed to create collector scan'' t = (rep, s')"
    then show ?thesis using CreateScanWithSource_new [of "cq_Source req" s] src by (auto simp: collected_def)
  next
    fix sc t e u assume c: "CreateScanWithSource (cq_Source req) [] [] [] 1 0 s = (Inr sc, t)"
      and f: "UpdateScanRunning (s_ID sc) (int (length (cq_Certificates req))) t = (Inl e, u)" "writeServerError r e ''failed to start collector scan'' u = (rep, s')"
    then show ?thesis using update_scan_last [OF f(1) [unfolded UpdateScanRunning_def], of "t_scans s" sc] CreateScanWithSource_new [OF c] src
      by (auto simp: collected_def)
  next
    fix sc t v u assume c: "CreateScanWithSource (cq_Source req) [] [] [] 1 0 s = (Inr sc, t)"
      and up: "UpdateScanRunning (s_ID sc) (int (length (cq_Certificates req))) t = (Inr v, u)"
      and k: "(case IngestPublicPEMs (ce_libs env) (ce_ExpiringSoonDays env) (s_ID sc) (cq_Source req) (cq_Certificates req) u of
        (Inl e, s1) \<Rightarrow> collect_failed (ce_libs env) r (s_ID sc) e
          (if e = PrivateKeyRejected then writeError r 400 ''private key material is not accepted'' else writeError r 500 ''failed to ingest certificates'') s1
      | (Inr (ingested, skipped), s1) \<Rightarrow> try_op (CompleteScan (s_ID sc) (collect_summary (int (length (cq_Certificates req))) ingested skipped))
           (\<lambda>e. writeServerError r e ''failed to complete collector scan'')
           (\<lambda>_. collect_done r actor ''collect_scan'' [(''source'', JStr (cq_Source req))] (s_ID sc) ingested skipped) s1) = (rep, s')"
    note new = CreateScanWithSource_new [OF c, simplified src, simplified]
    let ?row = "sc\<lparr>s_Status := ScanRunning, s_StartedAt := Some (go_now t), s_TargetsTotal := int (length (cq_Certificates req))\<rparr>"
    have u: "t_scans u = t_scans s @ [?row]" using update_scan_last [OF up [unfolded UpdateScanRunning_def], of "t_scans s" sc] new by auto
    obtain res u1 where ing: "IngestPublicPEMs (ce_libs env) (ce_ExpiringSoonDays env) (s_ID sc) (cq_Source req) (cq_Certificates req) u = (res, u1)" by force
    show ?thesis using collect_ingest [OF ing req(3) u, of r actor rep s'] k new src by (cases res) (auto simp: ing)
  qed
  then show ?thesis using req src by (cases rep) (auto simp: collected_def)
qed

definition example_collect_libs :: collect_libs where
  "example_collect_libs = \<lparr>co_blocks = (\<lambda>_. []), co_x509 = (\<lambda>_. None),
     co_cert = \<lparr>cl_sha256 = (\<lambda>d. d), cl_pem_encode = (\<lambda>d. d), cl_is_ip = (\<lambda>_. False), cl_system_pool = False, cl_verify = (\<lambda>_ _ _. False), cl_map_order = (\<lambda>m. m)\<rparr>,
     co_pem_certificate = (\<lambda>d. d), co_json = (\<lambda>_. None), co_text = (\<lambda>_. ''error''), co_url_ok = (\<lambda>_. True), co_answer = (\<lambda>_ _. NoResponse ''down'')\<rparr>"

definition example_collect_env :: collect_env where
  "example_collect_env = \<lparr>ce_store = True, ce_libs = example_collect_libs, ce_ExpiringSoonDays = 30, ce_aap = None, ce_cancelled = (\<lambda>_. False),
     ce_AAPADCSTemplate = [], ce_azure = \<lparr>az_KeyVaultURI = [], az_TenantID = [], az_ClientID = [], az_ClientSecret = [], az_AccessToken = []\<rparr>,
     ce_token_post = (\<lambda>_ _. NoResponse ''down'')\<rparr>"

definition example_collect_request :: "string \<Rightarrow> collect_scan_request" where
  "example_collect_request text = \<lparr>cq_Consent = True, cq_Source = ''adcs'', cq_Certificates = [\<lparr>it_PEM = text, it_Name = []\<rparr>]\<rparr>"

lemma example_collect_answer:
  "case fst (handleCollectScan example_collect_env example_request ''platform_admin'' (Some (example_collect_request ''unreadable'')) empty_db) of
     Reply n v \<Rightarrow> n = 200 | Problem n msg rid \<Rightarrow> False"
  by code_simp

theorem collect_scan_outcome_witness:
  "\<exists>row. t_scans (snd (handleCollectScan example_collect_env example_request ''platform_admin'' (Some (example_collect_request ''unreadable'')) empty_db)) = [row] \<and>
     s_Status row = ScanCompleted \<and> s_Source row = ''adcs'' \<and> s_CertsFound row + s_TargetsFailed row = 1"
proof -
  obtain rep s' where run: "handleCollectScan example_collect_env example_request ''platform_admin'' (Some (example_collect_request ''unreadable'')) empty_db = (rep, s')"
    by force
  then have "case rep of Reply n v \<Rightarrow> n = 200 | Problem n msg rid \<Rightarrow> False" using example_collect_answer by simp
  with collect_scan_outcome [OF run] run show ?thesis
    by (cases rep) (auto simp: example_collect_request_def empty_db_def split: prod.splits)
qed

text \<open>
  While a collection runs, its scan is in the table as running with no claim: every poller of the queue may
  take it, whatever its lease time, and the run it starts has no targets and records the scan as failed.
\<close>

lemma collector_scan_claimable:
  assumes "CreateScanWithSource src [] [] [] 1 0 s = (Inr sc, t)" and "UpdateScanRunning (s_ID sc) n t = (Inr (), u)" and "src \<noteq> []"
  shows "\<exists>row\<in>set (t_scans u). s_ID row = s_ID sc \<and> (\<forall>staleBefore. scan_free staleBefore row)"
proof -
  note new = CreateScanWithSource_new [OF assms(1,3), simplified]
  have "t_scans u = t_scans s @ [sc\<lparr>s_Status := ScanRunning, s_StartedAt := Some (go_now t), s_TargetsTotal := n\<rparr>]"
    using update_scan_last [OF assms(2) [unfolded UpdateScanRunning_def], of "t_scans s" sc] new by auto
  then show ?thesis using new by (auto simp: scan_free_def)
qed

lemma collector_scan_refused:
  assumes "jb_CIDRs job = []" and "jb_Hostnames job = []" and "Run E job s res s'"
  shows "\<exists>err msg. res = Some err \<and> s' = ignore (FailScan (jb_ScanID job) msg) s"
proof -
  have "Run_begin E job s = Inl (re_scan_err_text E NoTargets, failScan (jb_ScanID job) (re_scan_err_text E NoTargets) s)"
    using assms(1,2) by (simp add: Run_begin_def ExpandScanTargets_def)
  with assms(3) show ?thesis by (cases rule: Run.cases) (auto simp: failScan_def)
qed

end
