(* ===== verification/Settings.thy ===== *)
theory Settings
  imports AAP_Http Http_Reply
begin

text \<open>
  The settings handlers (\<^verbatim>\<open>internal/api/handlers_settings.go\<close>): reading, replacing, patching and testing
  the connections. A handler takes the decoded body, \<open>None\<close> when decoding fails, and the actor
  \<^verbatim>\<open>requestActor\<close> finds. The probes talk to Vault and AAP through fresh clients; the text of a Vault error
  is a parameter.
\<close>

section \<open>Bodies\<close>

text \<open>A secret in a body: absent, \<^verbatim>\<open>null\<close>, or a string.\<close>

record secret_field =
  sf_present :: bool
  sf_null :: bool
  sf_value :: string

record vault_write =
  vw_Deployment :: "string option"
  vw_Addr :: "string option"
  vw_Namespace :: "string option"
  vw_AuthMethod :: "string option"
  vw_Token :: secret_field
  vw_RoleID :: secret_field
  vw_SecretID :: secret_field

record aap_write =
  aw_URL :: "string option"
  aw_RenewTemplate :: "string option"
  aw_RenewWorkflow :: "bool option"
  aw_SkipTLSVerify :: "bool option"
  aw_DefaultMount :: "string option"
  aw_Token :: secret_field

record eda_write =
  ew_WebhookURL :: "string option"
  ew_Token :: secret_field

record connections_write =
  cw_Vault :: "vault_write option"
  cw_AAP :: "aap_write option"
  cw_EDA :: "eda_write option"

text \<open>What \<^verbatim>\<open>secretField.UnmarshalJSON\<close> makes of a member; an absent one is left at the zero value.\<close>

definition decode_secret :: "json option \<Rightarrow> secret_field option" where
  "decode_secret v = (case v of None \<Rightarrow> Some \<lparr>sf_present = False, sf_null = False, sf_value = []\<rparr>
     | Some JNull \<Rightarrow> Some \<lparr>sf_present = True, sf_null = True, sf_value = []\<rparr>
     | Some (JStr s) \<Rightarrow> Some \<lparr>sf_present = True, sf_null = False, sf_value = s\<rparr> | _ \<Rightarrow> None)"

record settings_env =
  se_libs :: secret_libs
  se_key :: string
  se_cfg :: conn_config
  se_has_store :: bool
  se_vault :: vault_world
  se_vault_text :: "vault_error \<Rightarrow> string"
  se_aap :: aap_world

section \<open>Resolution and access\<close>

primrec decrypt_rows :: "settings_env \<Rightarrow> connection list \<Rightarrow> error + (string \<times> secret_map) list" where
  "decrypt_rows env [] = Inr []"
| "decrypt_rows env (row # rows) = (case DecryptSecrets (se_libs env) (se_key env) row of Inl e \<Rightarrow> Inl e
     | Inr sec \<Rightarrow> (case decrypt_rows env rows of Inl e \<Rightarrow> Inl e | Inr rest \<Rightarrow> Inr ((cn_Target row, sec) # rest)))"

definition secrets_for :: "(string \<times> secret_map) list \<Rightarrow> string \<Rightarrow> secret_map" where
  "secrets_for secs target = (case map_of (List.rev secs) target of None \<Rightarrow> [] | Some m \<Rightarrow> m)"

definition resolveConnections :: "settings_env \<Rightarrow> resolved op" where
  "resolveConnections env s =
     (if \<not> se_has_store env then (Inl (ErrExternal ''connections store not configured''), s)
      else bind_op GetConnections (\<lambda>rows s. case decrypt_rows env rows of Inl e \<Rightarrow> (Inl e, s)
        | Inr secs \<Rightarrow> (Resolve (se_cfg env) rows (secrets_for secs), s)) s)"

definition writeConnectionsView :: "settings_env \<Rightarrow> request \<Rightarrow> public_view handler" where
  "writeConnectionsView env r = try_op (resolveConnections env) (\<lambda>e. writeServerError r e ''failed to load connections'')
     (\<lambda>resolved. writeJSON 200 (re_View resolved))"

definition requireSettingsAccess :: "request \<Rightarrow> string \<Rightarrow> string \<Rightarrow> 'a handler \<Rightarrow> 'a handler" where
  "requireSettingsAccess r actor method k =
     (if actor = [] then writeError r 401 ''unauthorized''
      else if \<not> roleAllows actor method (rq_Path r) then writeError r 403 ''forbidden''
      else k)"

definition requireSettingsRead :: "request \<Rightarrow> string \<Rightarrow> 'a handler \<Rightarrow> 'a handler" where
  "requireSettingsRead r actor k = requireSettingsAccess r actor ''GET'' k"

definition requireSettingsWrite :: "request \<Rightarrow> string \<Rightarrow> 'a handler \<Rightarrow> 'a handler" where
  "requireSettingsWrite r actor k = requireSettingsAccess r actor (rq_Method r) k"

text \<open>\<^verbatim>\<open>requestActor\<close>: the role of the context, the actor of the server, or the lab escape.\<close>

definition requestActor :: "string \<Rightarrow> string \<Rightarrow> bool \<Rightarrow> string" where
  "requestActor ctx_role server_actor insecureNoAuth =
     (if ctx_role \<noteq> [] then ctx_role else if server_actor \<noteq> [] then server_actor else if insecureNoAuth then ''platform_admin'' else [])"

definition handleGetConnections :: "settings_env \<Rightarrow> request \<Rightarrow> string \<Rightarrow> public_view handler" where
  "handleGetConnections env r actor = requireSettingsRead r actor (writeConnectionsView env r)"

section \<open>Writing\<close>

definition validDeployment :: "string \<Rightarrow> bool" where
  "validDeployment d \<longleftrightarrow> d \<in> {[], ''self_managed'', ''hcp_dedicated''}"

definition validAuthMethod :: "string \<Rightarrow> bool" where
  "validAuthMethod m \<longleftrightarrow> m \<in> {[], ''token'', ''approle''}"

definition validateConnectionsWrite :: "connections_write \<Rightarrow> string option" where
  "validateConnectionsWrite req = (case cw_Vault req of None \<Rightarrow> None
     | Some v \<Rightarrow>
        if (case vw_Deployment v of Some d \<Rightarrow> \<not> validDeployment d | None \<Rightarrow> False) then Some ''invalid deployment''
        else if (case vw_AuthMethod v of Some m \<Rightarrow> \<not> validAuthMethod m | None \<Rightarrow> False) then Some ''invalid auth_method''
        else None)"

text \<open>The loop over the map of fields, in the order it is ranged over.\<close>

primrec collectSecrets :: "(string \<times> secret_field) list \<Rightarrow> secret_map \<times> string list" where
  "collectSecrets [] = ([], [])"
| "collectSecrets (kf # rest) = (case kf of (key, f) \<Rightarrow> (case collectSecrets rest of (secrets, keep) \<Rightarrow>
     if \<not> sf_present f \<or> (sf_value f = [] \<and> \<not> sf_null f) then (secrets, key # keep)
     else if sf_null f then ((key, []) # secrets, keep)
     else ((key, sf_value f) # secrets, keep)))"

text \<open>Decoding onto a struct that has values: absent and null members keep them.\<close>

definition str_onto :: "(string \<times> json) list \<Rightarrow> string \<Rightarrow> string \<Rightarrow> string option" where
  "str_onto kvs k d = (case map_of kvs k of None \<Rightarrow> Some d | Some JNull \<Rightarrow> Some d | Some (JStr s) \<Rightarrow> Some s | _ \<Rightarrow> None)"

definition bool_onto :: "(string \<times> json) list \<Rightarrow> string \<Rightarrow> bool \<Rightarrow> bool option" where
  "bool_onto kvs k d = (case map_of kvs k of None \<Rightarrow> Some d | Some JNull \<Rightarrow> Some d | Some (JBool b) \<Rightarrow> Some b | _ \<Rightarrow> None)"

definition stored_fields :: "json option \<Rightarrow> bool \<Rightarrow> (string \<times> json) list option" where
  "stored_fields existing replace = (case existing of None \<Rightarrow> Some [] | Some doc \<Rightarrow> if replace then Some [] else obj_fields doc)"

definition applyVaultMeta :: "json option \<Rightarrow> vault_write \<Rightarrow> bool \<Rightarrow> json option" where
  "applyVaultMeta existing patch replace = (case stored_fields existing replace of None \<Rightarrow> None
     | Some kvs \<Rightarrow> (case (str_onto kvs ''deployment'' ''self_managed'', str_onto kvs ''addr'' [], str_onto kvs ''namespace'' [], str_onto kvs ''auth_method'' ''token'') of
         (Some d, Some a, Some n, Some m) \<Rightarrow>
           Some (JObj [(''deployment'', JStr (overlay (or_else (vw_Deployment patch) d) ''self_managed'')), (''addr'', JStr (or_else (vw_Addr patch) a)),
             (''namespace'', JStr (or_else (vw_Namespace patch) n)), (''auth_method'', JStr (overlay (or_else (vw_AuthMethod patch) m) ''token''))])
       | _ \<Rightarrow> None))"

definition applyAAPMeta :: "json option \<Rightarrow> aap_write \<Rightarrow> bool \<Rightarrow> json option" where
  "applyAAPMeta existing patch replace = (case stored_fields existing replace of None \<Rightarrow> None
     | Some kvs \<Rightarrow> (case (str_onto kvs ''url'' [], str_onto kvs ''renew_template'' [], bool_onto kvs ''renew_workflow'' False,
           bool_onto kvs ''skip_tls_verify'' False, str_onto kvs ''default_mount'' []) of
         (Some u, Some t, Some w, Some v, Some d) \<Rightarrow>
           Some (JObj [(''url'', JStr (or_else (aw_URL patch) u)), (''renew_template'', JStr (or_else (aw_RenewTemplate patch) t)),
             (''renew_workflow'', JBool (or_else (aw_RenewWorkflow patch) w)), (''skip_tls_verify'', JBool (or_else (aw_SkipTLSVerify patch) v)),
             (''default_mount'', JStr (or_else (aw_DefaultMount patch) d))])
       | _ \<Rightarrow> None))"

definition applyEDAMeta :: "json option \<Rightarrow> eda_write \<Rightarrow> bool \<Rightarrow> json option" where
  "applyEDAMeta existing patch replace = (case stored_fields existing replace of None \<Rightarrow> None
     | Some kvs \<Rightarrow> map_option (\<lambda>u. JObj [(''webhook_url'', JStr (or_else (ew_WebhookURL patch) u))]) (str_onto kvs ''webhook_url'' []))"

datatype write_patch = VaultPatch vault_write | AAPPatch aap_write | EDAPatch eda_write

fun patch_meta :: "json option \<Rightarrow> write_patch \<Rightarrow> bool \<Rightarrow> json option" where
  "patch_meta prev (VaultPatch t) replace = applyVaultMeta prev t replace"
| "patch_meta prev (AAPPatch t) replace = applyAAPMeta prev t replace"
| "patch_meta prev (EDAPatch t) replace = applyEDAMeta prev t replace"

fun patch_secrets :: "write_patch \<Rightarrow> (string \<times> secret_field) list" where
  "patch_secrets (VaultPatch t) = [(''token'', vw_Token t), (''role_id'', vw_RoleID t), (''secret_id'', vw_SecretID t)]"
| "patch_secrets (AAPPatch t) = [(''token'', aw_Token t)]"
| "patch_secrets (EDAPatch t) = [(''token'', ew_Token t)]"

definition upsertTarget :: "settings_env \<Rightarrow> request \<Rightarrow> string \<Rightarrow> write_patch \<Rightarrow> connection option \<Rightarrow> bool \<Rightarrow> string \<Rightarrow> 'a handler \<Rightarrow> 'a handler" where
  "upsertTarget env r target patch existing replace actor k =
     (case patch_meta (map_option cn_Metadata existing) patch replace of None \<Rightarrow> writeError r 400 ''invalid connection metadata''
      | Some meta \<Rightarrow> (case collectSecrets (patch_secrets patch) of (secrets, keep) \<Rightarrow>
          try_op (UpsertConnection (se_libs env) (se_key env) target (Some meta) secrets keep actor)
            (\<lambda>e. if e = ErrConnectionsKeyMissing then writeError r 503 ''connections encryption key missing; cannot persist secrets''
                  else writeServerError r e ''failed to save connection'')
            (\<lambda>_. k)))"

definition handlePutConnections :: "settings_env \<Rightarrow> request \<Rightarrow> string \<Rightarrow> connections_write option \<Rightarrow> public_view handler" where
  "handlePutConnections env r actor body = requireSettingsWrite r actor
     (case body of None \<Rightarrow> writeError r 400 ''invalid request body''
      | Some req \<Rightarrow> (case (cw_Vault req, cw_AAP req, cw_EDA req) of
          (Some v, Some a, Some e) \<Rightarrow> (case validateConnectionsWrite req of Some msg \<Rightarrow> writeError r 400 msg
           | None \<Rightarrow>
              upsertTarget env r ''vault'' (VaultPatch v) None True actor
             (upsertTarget env r ''aap'' (AAPPatch a) None True actor
             (upsertTarget env r ''eda'' (EDAPatch e) None True actor (writeConnectionsView env r))))
        | _ \<Rightarrow> writeError r 400 ''vault, aap, and eda are required''))"

definition patch_if :: "settings_env \<Rightarrow> request \<Rightarrow> connection list \<Rightarrow> string \<Rightarrow> write_patch option \<Rightarrow> string \<Rightarrow> 'a handler \<Rightarrow> 'a handler" where
  "patch_if env r rows target patch actor k = (case patch of None \<Rightarrow> k
     | Some p \<Rightarrow> upsertTarget env r target p (by_target rows target) False actor k)"

definition handlePatchConnections :: "settings_env \<Rightarrow> request \<Rightarrow> string \<Rightarrow> connections_write option \<Rightarrow> public_view handler" where
  "handlePatchConnections env r actor body = requireSettingsWrite r actor
     (case body of None \<Rightarrow> writeError r 400 ''invalid request body''
      | Some req \<Rightarrow>
         if cw_Vault req = None \<and> cw_AAP req = None \<and> cw_EDA req = None
         then writeError r 400 ''at least one of vault, aap, or eda is required''
         else case validateConnectionsWrite req of Some msg \<Rightarrow> writeError r 400 msg
          | None \<Rightarrow> try_op GetConnections (\<lambda>e. writeServerError r e ''failed to load connections'') (\<lambda>rows.
              patch_if env r rows ''vault'' (map_option VaultPatch (cw_Vault req)) actor
             (patch_if env r rows ''aap'' (map_option AAPPatch (cw_AAP req)) actor
             (patch_if env r rows ''eda'' (map_option EDAPatch (cw_EDA req)) actor (writeConnectionsView env r)))))"

section \<open>Probes\<close>

function replace_all :: "string \<Rightarrow> string \<Rightarrow> string \<Rightarrow> string" where
  "replace_all s old new = (if s = [] \<or> old = [] then s
     else if starts_with s old then new @ replace_all (drop (length old) s) old new
     else hd s # replace_all (tl s) old new)"
  by pat_completeness auto
termination by (relation "measure (\<lambda>(s, old, new). length s)") auto

declare replace_all.simps [simp del]

definition resolved_secrets :: "resolved \<Rightarrow> string list" where
  "resolved_secrets re = [vg_Token (re_Vault re), vg_RoleID (re_Vault re), vg_SecretID (re_Vault re), aa_Token (re_AAP re), dc_Token (re_EDA re)]"

definition redactSecrets :: "string \<Rightarrow> resolved \<Rightarrow> string" where
  "redactSecrets detail re =
     foldl (\<lambda>d secret. if secret \<noteq> [] then replace_all d secret ''[redacted]'' else d) detail (resolved_secrets re)"

text \<open>\<^verbatim>\<open>msg[strings.Index(msg, p):]\<close>.\<close>

fun from_first :: "string \<Rightarrow> string \<Rightarrow> string option" where
  "from_first [] p = (if p = [] then Some [] else None)"
| "from_first (x # xs) p = (if starts_with (x # xs) p then Some (x # xs) else from_first xs p)"

definition vaultProbeDetail :: "string \<Rightarrow> string" where
  "vaultProbeDetail msg =
     (if str_contains msg ''approle login'' then ''approle login failed''
      else case from_first msg ''status '' of Some rest \<Rightarrow> ''sys/mounts '' @ trim_space rest | None \<Rightarrow> ''vault probe failed'')"

definition testVault :: "settings_env \<Rightarrow> resolved \<Rightarrow> bool \<times> string" where
  "testVault env re = (case fst (ListMounts (se_vault env) (NewClient (re_Vault re))) of
       Inl e \<Rightarrow> (False, vaultProbeDetail (se_vault_text env e))
     | Inr _ \<Rightarrow> (let ns = vp_Namespace (pb_Vault (re_View re)) in
         (True, ''sys/mounts 200'' @ (if ns \<noteq> [] then ''; namespace='' @ ns else []))))"

text \<open>\<^verbatim>\<open>%q\<close> on one-byte characters.\<close>

definition quote_char :: "char \<Rightarrow> string" where
  "quote_char c = (let n = (of_char c :: nat) in
     if n = 34 \<or> n = 92 then [CHR 0x5C, c]
     else if n = 7 then [CHR 0x5C, CHR ''a''] else if n = 8 then [CHR 0x5C, CHR ''b''] else if n = 9 then [CHR 0x5C, CHR ''t'']
     else if n = 10 then [CHR 0x5C, CHR ''n''] else if n = 11 then [CHR 0x5C, CHR ''v''] else if n = 12 then [CHR 0x5C, CHR ''f'']
     else if n = 13 then [CHR 0x5C, CHR ''r'']
     else if 32 \<le> n \<and> n < 127 then [c] else [CHR 0x5C, CHR ''x'', hex_char (n div 16), hex_char (n mod 16)])"

definition go_quote :: "string \<Rightarrow> string" where
  "go_quote s = [CHR 0x22] @ concat (map quote_char s) @ [CHR 0x22]"

definition testAAP :: "settings_env \<Rightarrow> resolved \<Rightarrow> bool \<times> string" where
  "testAAP env re = (case aap_NewClient (se_aap env) (re_AAP re) of None \<Rightarrow> (False, ''invalid aap url'')
     | Some cfg \<Rightarrow>
        if Me (se_aap env) 0 cfg \<noteq> None then (False, ''me failed'')
        else let name = ap_RenewTemplate (pb_AAP (re_View re)); ctl = controller_of (se_aap env) 1 cfg in
          if name = [] then (True, ''me 200'')
          else case (if ap_RenewWorkflow (pb_AAP (re_View re)) then FindWorkflowJobTemplate ctl name else FindJobTemplate ctl name) of
            Inl e \<Rightarrow> (False, ''template not found'')
          | Inr i \<Rightarrow> (True, ''me 200; template '' @ go_quote name @ '' id='' @ itoa i))"

definition testEDA :: "settings_env \<Rightarrow> uuid \<Rightarrow> time \<Rightarrow> resolved \<Rightarrow> bool \<times> string" where
  "testEDA env i now re = (if Ping (se_aap env) 0 i now (dc_WebhookURL (re_EDA re)) (dc_Token (re_EDA re)) \<noteq> None
     then (False, ''webhook probe failed'') else (True, ''webhook 2xx''))"

record connection_test_response =
  tr_OK :: bool
  tr_Target :: string
  tr_Detail :: string

definition test_reply :: "string \<Rightarrow> resolved \<Rightarrow> bool \<times> string \<Rightarrow> connection_test_response handler" where
  "test_reply target re res = writeJSON 200 \<lparr>tr_OK = fst res, tr_Target = target, tr_Detail = redactSecrets (snd res) re\<rparr>"

definition handleTestConnections :: "settings_env \<Rightarrow> uuid \<Rightarrow> request \<Rightarrow> string \<Rightarrow> string option \<Rightarrow> connection_test_response handler" where
  "handleTestConnections env probe_id r actor body = requireSettingsWrite r actor
     (case body of None \<Rightarrow> writeError r 400 ''invalid request body''
      | Some t \<Rightarrow> (let target = to_lower (trim_space t) in
         if \<not> conn_target target then writeError r 400 ''invalid target''
         else try_op (resolveConnections env) (\<lambda>e. writeServerError r e ''failed to resolve connections'') (\<lambda>re s.
           if target = ''vault'' then
             (if \<not> vp_Configured (pb_Vault (re_View re)) then writeError r 503 ''vault is not configured'' s
              else test_reply target re (testVault env re) s)
           else if target = ''aap'' then
             (if \<not> ap_Configured (pb_AAP (re_View re)) then writeError r 503 ''aap is not configured'' s
              else test_reply target re (testAAP env re) s)
           else
             (if \<not> ep_Configured (pb_EDA (re_View re)) then writeError r 503 ''eda is not configured'' s
              else test_reply target re (testEDA env probe_id (go_now s) re) s))))"

definition handleOptionsVaultPKIMounts :: "settings_env \<Rightarrow> request \<Rightarrow> string \<Rightarrow> string list handler" where
  "handleOptionsVaultPKIMounts env r actor = requireSettingsRead r actor
     (try_op (resolveConnections env) (\<lambda>e. writeServerError r e ''failed to resolve connections'') (\<lambda>re.
       if \<not> vp_Configured (pb_Vault (re_View re)) then writeJSON 200 []
       else case fst (ListPKIMounts (se_vault env) (NewClient (re_Vault re))) of
         Inl e \<Rightarrow> writeError r 502 (redactSecrets (vaultProbeDetail (se_vault_text env e)) re)
       | Inr mounts \<Rightarrow> writeJSON 200 mounts))"

text \<open>\<open>None\<close>: the Controller never stops naming further pages.\<close>

definition handleOptionsAAPTemplates :: "settings_env \<Rightarrow> request \<Rightarrow> string \<Rightarrow> string \<Rightarrow> db \<Rightarrow> ((string \<times> (int \<times> string) list) reply \<times> db) option" where
  "handleOptionsAAPTemplates env r actor qkind s =
     (let kind = to_lower (trim_space qkind) in
      if actor = [] then Some (writeError r 401 ''unauthorized'' s)
      else if \<not> roleAllows actor ''GET'' (rq_Path r) then Some (writeError r 403 ''forbidden'' s)
      else if kind \<notin> {''job'', ''workflow''} then Some (writeError r 400 ''kind must be job or workflow'' s)
      else case resolveConnections env s of
        (Inl e, s) \<Rightarrow> Some (writeServerError r e ''failed to resolve connections'' s)
      | (Inr re, s) \<Rightarrow>
         if \<not> ap_Configured (pb_AAP (re_View re)) then Some (writeJSON 200 (kind, []) s)
         else case aap_NewClient (se_aap env) (re_AAP re) of None \<Rightarrow> Some (writeError r 502 (redactSecrets ''invalid aap url'' re) s)
           | Some cfg \<Rightarrow> map_option (\<lambda>res. case res of
                Inl e \<Rightarrow> writeError r 502 (redactSecrets ''aap template list failed'' re) s
              | Inr ts \<Rightarrow> writeJSON 200 (kind, ts) s)
              (if kind = ''workflow'' then ListWorkflowJobTemplates (se_aap env) cfg else ListJobTemplates (se_aap env) cfg))"

section \<open>What a write does to secrets\<close>

definition field_kept :: "secret_field \<Rightarrow> bool" where
  "field_kept f \<longleftrightarrow> \<not> sf_present f \<or> (sf_value f = [] \<and> \<not> sf_null f)"

lemma collectSecrets_fields:
  assumes "collectSecrets flds = (secrets, keep)" and "distinct (map fst flds)"
  shows "distinct (map fst secrets) \<and> fst ` set secrets \<subseteq> fst ` set flds \<and> set keep \<subseteq> fst ` set flds \<and>
    (\<forall>(k, f)\<in>set flds. (k \<in> set keep \<longleftrightarrow> field_kept f) \<and>
       map_of secrets k = (if field_kept f then None else Some (if sf_null f then [] else sf_value f)))"
  using assms
proof (induction flds arbitrary: secrets keep)
  case (Cons kf flds)
  obtain k f where kf: "kf = (k, f)" by (cases kf)
  obtain secs kp where rest: "collectSecrets flds = (secs, kp)" by fastforce
  note ih = Cons.IH [OF rest]
  have k: "k \<notin> fst ` set flds" and d: "distinct (map fst flds)" using Cons.prems(2) by (auto simp: kf)
  have nk: "k \<notin> set kp" "k \<notin> fst ` set secs" using ih [OF d] k by auto
  have other: "a \<noteq> k" if "(a, g) \<in> set flds" for a g using that k by force
  show ?case
  proof (cases "field_kept f")
    case True
    then have "secrets = secs" "keep = k # kp" using Cons.prems(1) rest by (auto simp: kf field_kept_def)
    then show ?thesis using ih [OF d] nk other True by (auto simp: kf map_of_eq_None_iff)
  next
    case False
    then have "secrets = (k, if sf_null f then [] else sf_value f) # secs" "keep = kp"
      using Cons.prems(1) rest by (auto simp: kf field_kept_def split: if_splits)
    then show ?thesis using ih [OF d] nk other False by (auto simp: kf)
  qed
qed simp

text \<open>
  C34. Secrets follow the write-only rules. After a target is saved from a body, opening its stored
  secrets gives: for a field that was left out or empty what was stored before, for a field that was null
  nothing, for another value that value; a secret the body does not speak of is as before, and the other
  targets are untouched. This needs of the cipher that it opens what it seals under the same key and
  nonce, of nonces their size, and of JSON that a map of strings reads back.
\<close>

theorem settings_secret_semantics:
  assumes "cipher_laws L" and "distinct (map fst flds)" and "collectSecrets flds = (secrets, keep)"
    and "UpsertConnection L keyMaterial target metadata secrets keep actor s = (Inr (), s')"
    and "stored_secrets L keyMaterial target s = Inr previous"
  shows "\<exists>m. stored_secrets L keyMaterial target s' = Inr m \<and>
    (\<forall>(k, f)\<in>set flds. map_of m k = (if \<not> sf_present f \<or> (sf_value f = [] \<and> \<not> sf_null f) then map_of previous k
        else if sf_null f then None else Some (sf_value f))) \<and>
    (\<forall>k. k \<notin> fst ` set flds \<longrightarrow> map_of m k = map_of previous k) \<and>
    filter (\<lambda>c. cn_Target c \<noteq> target) (t_connections s') = filter (\<lambda>c. cn_Target c \<noteq> target) (t_connections s)"
proof -
  note cs = collectSecrets_fields [OF assms(3,2)]
  then have d: "distinct (map fst secrets)" by blast
  note up = UpsertConnection_secrets [OF assms(1) d assms(4,5)]
  from up(1) obtain m where m: "stored_secrets L keyMaterial target s' = Inr m" "map_of m = map_of (mergeSecrets previous secrets keep)" by blast
  have "map_of m k = (if field_kept f then map_of previous k else if sf_null f then None else Some (sf_value f))" if "(k, f) \<in> set flds" for k f
    using cs that by (auto simp: m(2) map_of_mergeSecrets [OF d] field_kept_def)
  moreover have "map_of m k = map_of previous k" if "k \<notin> fst ` set flds" for k
  proof -
    have "k \<notin> fst ` set secrets" using cs that by blast
    then have "map_of secrets k = None" by (simp add: map_of_eq_None_iff)
    then show ?thesis by (simp add: m(2) map_of_mergeSecrets [OF d])
  qed
  ultimately show ?thesis using m(1) up(2) by (auto simp: field_kept_def)
qed

text \<open>A cipher that satisfies the laws (it hides nothing), to run the operations on.\<close>

definition plain_marshal :: "secret_map \<Rightarrow> string" where
  "plain_marshal m = concat (map (\<lambda>(k, v). concat (map (\<lambda>c. [CHR ''1'', c]) k) @ ''2'' @ concat (map (\<lambda>c. [CHR ''1'', c]) v) @ ''3'') m)"

fun plain_read :: "string \<Rightarrow> string \<Rightarrow> string option \<Rightarrow> secret_map \<Rightarrow> secret_map option" where
  "plain_read [] acc k m = Some m"
| "plain_read (a # rest) acc k m =
     (if a = CHR ''1'' then (case rest of [] \<Rightarrow> None | c # rest' \<Rightarrow> plain_read rest' (acc @ [c]) k m)
      else if a = CHR ''2'' then plain_read rest [] (Some acc) m
      else case k of None \<Rightarrow> None | Some key \<Rightarrow> plain_read rest [] None (m @ [(key, acc)]))"

definition plain_libs :: secret_libs where
  "plain_libs = \<lparr>sl_marshal = plain_marshal, sl_unmarshal = (\<lambda>p. plain_read p [] None []), sl_nonce = (\<lambda>_. Some (replicate 12 CHR ''n'')),
     sl_seal = (\<lambda>k n p. p), sl_open = (\<lambda>k n c. Some c)\<rparr>"

lemma plain_chars: "plain_read (concat (map (\<lambda>c. [CHR ''1'', c]) xs) @ rest) acc k m = plain_read rest (acc @ xs) k m"
  by (induction xs arbitrary: acc) auto

lemma plain_roundtrip: "plain_read (plain_marshal ms) [] None m = Some (m @ ms)"
  by (induction ms arbitrary: m) (auto simp: plain_marshal_def plain_chars)

lemma plain_laws: "cipher_laws plain_libs"
  by (simp add: cipher_laws_def plain_libs_def plain_roundtrip)

definition example_fields :: "(string \<times> secret_field) list" where
  "example_fields = [(''token'', \<lparr>sf_present = True, sf_null = False, sf_value = ''t''\<rparr>), (''role_id'', \<lparr>sf_present = False, sf_null = False, sf_value = []\<rparr>)]"

theorem settings_secret_semantics_witness:
  "\<exists>s' m. UpsertConnection plain_libs (replicate 32 CHR ''k'') ''vault'' None [(''token'', ''t'')] [''role_id''] ''me'' empty_db = (Inr (), s') \<and>
     stored_secrets plain_libs (replicate 32 CHR ''k'') ''vault'' s' = Inr m \<and> map_of m ''token'' = Some ''t'' \<and> map_of m ''role_id'' = None"
proof -
  have "case UpsertConnection plain_libs (replicate 32 CHR ''k'') ''vault'' None [(''token'', ''t'')] [''role_id''] ''me'' empty_db of
      (Inr _, _) \<Rightarrow> True | _ \<Rightarrow> False" by code_simp
  then obtain s' where run: "UpsertConnection plain_libs (replicate 32 CHR ''k'') ''vault'' None [(''token'', ''t'')] [''role_id''] ''me'' empty_db = (Inr (), s')"
    by (auto split: prod.splits sum.splits)
  have "distinct (map fst example_fields)" "collectSecrets example_fields = ([(''token'', ''t'')], [''role_id''])"
    "stored_secrets plain_libs (replicate 32 CHR ''k'') ''vault'' empty_db = Inr []" by code_simp+
  from settings_secret_semantics [OF plain_laws this(1,2) run this(3)] run show ?thesis by (auto simp: example_fields_def)
qed

section \<open>A replacement that stops half-way\<close>

definition no_secret :: secret_field where
  "no_secret = \<lparr>sf_present = False, sf_null = False, sf_value = []\<rparr>"

definition example_put :: connections_write where
  "example_put = \<lparr>cw_Vault = Some \<lparr>vw_Deployment = None, vw_Addr = Some ''https://v'', vw_Namespace = None, vw_AuthMethod = None, vw_Token = no_secret,
       vw_RoleID = no_secret, vw_SecretID = no_secret\<rparr>,
     cw_AAP = Some \<lparr>aw_URL = None, aw_RenewTemplate = None, aw_RenewWorkflow = None, aw_SkipTLSVerify = None, aw_DefaultMount = None,
       aw_Token = \<lparr>sf_present = True, sf_null = False, sf_value = ''t''\<rparr>\<rparr>,
     cw_EDA = Some \<lparr>ew_WebhookURL = None, ew_Token = no_secret\<rparr>\<rparr>"

definition example_env :: settings_env where
  "example_env = \<lparr>se_libs = plain_libs, se_key = [], se_cfg = example_conn_config, se_has_store = True, se_vault = example_world,
     se_vault_text = (\<lambda>_. []), se_aap = endless_world\<rparr>"

definition put_request :: request where
  "put_request = \<lparr>rq_Method = ''PUT'', rq_Path = ''/api/v1/settings/connections'', rq_Authorization = [], rq_RequestID = ''r'', rq_RemoteAddr = []\<rparr>"

text \<open>
  Without an encryption key, replacing all connections answers 503 because of AAP's new token, with the
  connection to Vault already replaced.
\<close>

lemma put_connections_partial:
  "case handlePutConnections example_env put_request ''platform_admin'' (Some example_put) empty_db of
     (rep, s) \<Rightarrow> reply_code rep = 503 \<and> map cn_Target (t_connections s) = [''vault'']"
  by code_simp

end
