(* ===== verification/Vault_Reconcile.thy ===== *)
theory Vault_Reconcile
  imports Vault_Client Api_Handlers
begin

text \<open>
  Reconciliation with Vault (\<^verbatim>\<open>internal/vault/reconcile.go\<close>) and its handlers
  (\<^verbatim>\<open>internal/api/handlers_reconcile.go\<close>): every certificate of every PKI mount is matched to the inventory
  by fingerprint. The state is the pair of the Vault client and the store; the texts of \<^verbatim>\<open>Summary.Errors\<close>
  are values.
\<close>

section \<open>The run\<close>

datatype reconcile_error = ListFailed string vault_error | ReadFailed string string vault_error
  | FingerprintFailed string string | UpdateFailed string string error

record reconcile_summary =
  rs_MountsScanned :: int
  rs_VaultCertsRead :: int
  rs_Matched :: int
  rs_Revoked :: int
  rs_UnmatchedCLM :: int
  rs_Status :: string
  rs_Errors :: "reconcile_error list"

definition reconcileStatus :: "int \<Rightarrow> reconcile_error list \<Rightarrow> string" where
  "reconcileStatus vaultCertsRead errs =
     (if errs = [] then ''ok'' else if vaultCertsRead = 0 then ''failed'' else ''partial'')"

definition issuerRefFromMeta :: "(string \<times> json) list \<Rightarrow> string option" where
  "issuerRefFromMeta meta = (case map_of meta ''issuer_id'' of Some (JStr v) \<Rightarrow> if v \<noteq> [] then Some v else
       (case map_of meta ''issuer_name'' of Some (JStr n) \<Rightarrow> if n \<noteq> [] then Some n else None | _ \<Rightarrow> None)
     | _ \<Rightarrow> (case map_of meta ''issuer_name'' of Some (JStr n) \<Rightarrow> if n \<noteq> [] then Some n else None | _ \<Rightarrow> None))"

definition add_error :: "reconcile_error \<Rightarrow> reconcile_summary \<Rightarrow> reconcile_summary" where
  "add_error e sm = sm\<lparr>rs_Errors := rs_Errors sm @ [e]\<rparr>"

type_synonym reconcile_state = "reconcile_summary \<times> vault_client \<times> db"

definition vault_update :: "string \<Rightarrow> (string \<times> json) list \<Rightarrow> managed_update" where
  "vault_update mount meta = \<lparr>mu_ManagedStatus = ''managed_in_vault'', mu_VaultPKIMount = normalizeMount mount,
     mu_VaultIssuerRef = issuerRefFromMeta meta, mu_Revoked = revocationFromMeta meta\<rparr>"

text \<open>The body of the loop over serials.\<close>

definition reconcile_serial :: "vault_world \<Rightarrow> pem_libs \<Rightarrow> string \<Rightarrow> reconcile_state \<Rightarrow> string \<Rightarrow> reconcile_state" where
  "reconcile_serial w L mount st serial = (case st of (sm, c, s) \<Rightarrow>
     (case ReadCert w mount serial c of
        (Inl e, c) \<Rightarrow> (add_error (ReadFailed mount serial e) sm, c, s)
      | (Inr (pem, meta), c) \<Rightarrow>
         let sm = sm\<lparr>rs_VaultCertsRead := rs_VaultCertsRead sm + 1\<rparr> in
         (case FingerprintSHA256FromPEM L pem of
            None \<Rightarrow> (add_error (FingerprintFailed mount serial) sm, c, s)
          | Some fp \<Rightarrow>
             (case UpdateManagedStatusByFingerprint fp (vault_update mount meta) s of
                (Inl e, s) \<Rightarrow> (add_error (UpdateFailed mount serial e) sm, c, s)
              | (Inr updated, s) \<Rightarrow>
                  (if updated then sm\<lparr>rs_Matched := rs_Matched sm + 1,
                       rs_Revoked := (if revocationFromMeta meta then rs_Revoked sm + 1 else rs_Revoked sm)\<rparr> else sm, c, s)))))"

definition reconcile_mount :: "vault_world \<Rightarrow> pem_libs \<Rightarrow> reconcile_state \<Rightarrow> string \<Rightarrow> reconcile_state" where
  "reconcile_mount w L st mount = (case st of (sm, c, s) \<Rightarrow>
     (case ListCertSerials w mount c of
        (Inl e, c) \<Rightarrow> (add_error (ListFailed mount e) sm, c, s)
      | (Inr serials, c) \<Rightarrow> foldl (reconcile_serial w L mount) (sm, c, s) serials))"

text \<open>The run returns an error, or a summary, with the client and the store after it.\<close>

datatype reconcile_failure = MountsFailed vault_error | CountFailed error

definition Reconcile :: "vault_world \<Rightarrow> pem_libs \<Rightarrow> vault_client \<Rightarrow> db \<Rightarrow> (reconcile_failure + reconcile_summary) \<times> vault_client \<times> db" where
  "Reconcile w L c s =
     (case ListPKIMounts w c of
        (Inl e, c) \<Rightarrow> (Inl (MountsFailed e), c, s)
      | (Inr mounts, c) \<Rightarrow>
         (let sm = \<lparr>rs_MountsScanned = int (length mounts), rs_VaultCertsRead = 0, rs_Matched = 0, rs_Revoked = 0,
                    rs_UnmatchedCLM = 0, rs_Status = [], rs_Errors = []\<rparr> in
          case foldl (reconcile_mount w L) (sm, c, s) mounts of (sm, c, s) \<Rightarrow>
            (case CountByManagedStatus None s of
               (Inl e, s) \<Rightarrow> (Inl (CountFailed e), c, s)
             | (Inr (managed, discovered), s) \<Rightarrow>
                (Inr (sm\<lparr>rs_UnmatchedCLM := (if discovered - managed < 0 then 0 else discovered - managed),
                         rs_Status := reconcileStatus (rs_VaultCertsRead sm) (rs_Errors sm)\<rparr>), c, s))))"

section \<open>Handlers\<close>

text \<open>A reconciler is configured or not; it runs on its own client, which the handler threads through.\<close>

definition handleReconcile :: "vault_world \<Rightarrow> pem_libs \<Rightarrow> server \<Rightarrow> bool \<Rightarrow> request \<Rightarrow> string \<Rightarrow> vault_client \<Rightarrow> db \<Rightarrow>
    reconcile_summary reply \<times> vault_client \<times> db" where
  "handleReconcile w L sv has_reconciler r actor c s =
     (if sv_VaultAddr sv = [] \<or> \<not> has_reconciler then (case writeError r 503 ''vault not configured'' s of (rep, s) \<Rightarrow> (rep, c, s))
      else case Reconcile w L c s of
        (Inl e, c, s) \<Rightarrow> (case writeError r 500 ''reconcile failed'' s of (rep, s) \<Rightarrow> (rep, c, s))
      | (Inr sm, c, s) \<Rightarrow>
         (case audited r actor ''reconcile'' [] (\<lambda>_. []) (Some (JObj [(''status'', JStr (rs_Status sm))])) (writeJSON 200 sm) s of
            (rep, s) \<Rightarrow> (rep, c, s)))"

definition maybeReconcileAfterScan :: "vault_world \<Rightarrow> pem_libs \<Rightarrow> bool \<Rightarrow> bool \<Rightarrow> vault_client \<Rightarrow> db \<Rightarrow> vault_client \<times> db" where
  "maybeReconcileAfterScan w L reconcileOnScanComplete has_reconciler c s =
     (if \<not> reconcileOnScanComplete \<or> \<not> has_reconciler then (c, s) else snd (Reconcile w L c s))"

section \<open>What a run establishes\<close>

text \<open>The requests that read a certificate, and what Vault's answers to those sent from the \<open>k\<close>-th on say.\<close>

definition is_read :: "vault_config \<Rightarrow> vault_request \<Rightarrow> bool" where
  "is_read cfg req \<longleftrightarrow> vr_Method req = ''GET'' \<and> vr_Query req = None \<and>
     vr_URL req \<noteq> trim_right_slash (vg_Address cfg) @ ''/v1/sys/mounts''"

definition says :: "vault_world \<Rightarrow> pem_libs \<Rightarrow> string \<Rightarrow> bool \<Rightarrow> nat \<Rightarrow> vault_request \<Rightarrow> bool" where
  "says w L fp rv n req \<longleftrightarrow> (\<exists>text doc pem meta. vw_answer w n req = Answer 200 text doc \<and> cert_data doc = Inr (pem, meta) \<and>
     FingerprintSHA256FromPEM L pem = Some fp \<and> revocationFromMeta meta = rv)"

definition vouched :: "vault_world \<Rightarrow> pem_libs \<Rightarrow> nat \<Rightarrow> vault_client \<Rightarrow> string \<Rightarrow> bool \<Rightarrow> bool" where
  "vouched w L k c fp rv \<longleftrightarrow> (\<exists>n. k \<le> n \<and> n < length (vc_sent c) \<and> is_read (vc_cfg c) (vc_sent c ! n) \<and>
     says w L fp rv n (vc_sent c ! n))"

text \<open>A call sends logins and renewals, which are POSTs, and then at most its own request.\<close>

definition posts_only :: "vault_client \<Rightarrow> vault_client \<Rightarrow> bool" where
  "posts_only c c' \<longleftrightarrow> vc_cfg c' = vc_cfg c \<and> (\<exists>ps. vc_sent c' = vc_sent c @ ps \<and> (\<forall>p\<in>set ps. vr_Method p = ''POST''))"

lemma posts_only_refl [simp]: "posts_only c c"
  by (simp add: posts_only_def)

lemma posts_only_trans: "posts_only c d \<Longrightarrow> posts_only d e \<Longrightarrow> posts_only c e"
  unfolding posts_only_def by (auto simp: ball_Un)

lemma auth_posts:
  assumes "bind_v (doVault w req) (\<lambda>(body, status, doc) c.
      if status \<noteq> 200 then (Inl (VaultStatus status (trim_space body)), c) else applyAuth w doc must c) c = (r, c')"
    and "vr_Method req = ''POST''"
  shows "posts_only c c'"
  using assms(1)
proof (cases rule: bind_vE)
  case (1 e)
  then show ?thesis using assms(2) by (auto simp: posts_only_def dest: doVault_sends)
next
  case (2 v t)
  then have "posts_only c t" using assms(2) by (auto simp: posts_only_def dest: doVault_sends)
  moreover have "vc_sent c' = vc_sent t \<and> vc_cfg c' = vc_cfg t" using 2(2) applyAuth_outcome by (fastforce split: prod.splits if_splits)
  ultimately show ?thesis by (simp add: posts_only_def)
qed

lemma locked_posts: "loginLocked w c = (r, c') \<Longrightarrow> posts_only c c'" "renewLocked w c = (r, c') \<Longrightarrow> posts_only c c'"
  unfolding loginLocked_def renewLocked_def
  by (erule bind_vE; auto dest!: auth_posts NewRequest_cases simp: setNamespaceHeader_def NewRequest_def split: if_splits)+

lemma EnsureToken_posts: "EnsureToken w c = (r, c') \<Longrightarrow> posts_only c c'"
  unfolding EnsureToken_def by (auto split: if_splits prod.splits sum.splits dest: locked_posts posts_only_trans)

text \<open>The outcome of a call: no data request, or one whose answer is the result.\<close>

lemma vault_call_sends:
  assumes "vault_call w method path query body c = (r, c')"
  obtains "posts_only c c'" "\<exists>e. r = Inl e"
  | t req where "posts_only c t" "c' = t\<lparr>vc_sent := vc_sent t @ [req]\<rparr>" "vr_Method req = method" "vr_Query req = query"
      "vr_URL req = apiURL c path" "\<And>text status doc. vw_answer w (length (vc_sent t)) req = Answer status text doc \<longleftrightarrow> r = Inr (text, status, doc)"
proof (cases "Configured_v c")
  case False
  then show ?thesis using assms that(1) by (auto simp: vault_call_def)
next
  case True
  with assms have "bind_v (EnsureToken w) (\<lambda>_ c. bind_v (NewRequest w method (apiURL c path) body) (\<lambda>req c.
        doVault w (setVaultHeaders c (req\<lparr>vr_Query := query\<rparr>)) c) c) c = (r, c')" by (simp add: vault_call_def)
  then show ?thesis
  proof (cases rule: bind_vE)
    case (1 e)
    then show ?thesis using EnsureToken_posts that(1) by blast
  next
    case (2 u t)
    note ps = EnsureToken_posts [OF 2(1)]
    then have url: "apiURL t path = apiURL c path" by (simp add: posts_only_def apiURL_def)
    from 2(2) show ?thesis
    proof (cases rule: bind_vE)
      case (1 e)
      then show ?thesis using ps that(1) NewRequest_cases(1) by blast
    next
      case inner: (2 req t2)
      let ?req = "setVaultHeaders t (req\<lparr>vr_Query := query\<rparr>)"
      have t2: "t2 = t" using inner(1) by (rule NewRequest_cases)
      have run: "doVault w ?req t = (r, c')" using inner(2) by (simp add: t2)
      have "vw_answer w (length (vc_sent t)) ?req = Answer status tx doc \<longleftrightarrow> r = Inr (tx, status, doc)" for tx status doc
        using run by (auto simp: doVault_def Let_def split: vault_response.splits)
      then show ?thesis using that(2) [OF ps doVault_sends(1) [OF run]] NewRequest_cases(2) [OF inner(1) refl]
        by (simp add: setVaultHeaders_def setNamespaceHeader_def url)
    qed
  qed
qed

text \<open>Reading a certificate adds what it returns to what Vault vouched for, and nothing else; listing adds nothing.\<close>

lemma vouched_extend:
  assumes "vc_sent c' = vc_sent c @ xs" and "vc_cfg c' = vc_cfg c" and "vouched w L k c fp rv"
  shows "vouched w L k c' fp rv"
  using assms unfolding vouched_def by (metis length_append nth_append trans_less_add1)

lemma vouched_posts:
  assumes "posts_only c c'"
  shows "vouched w L k c' fp rv \<longleftrightarrow> vouched w L k c fp rv"
proof
  assume "vouched w L k c' fp rv"
  then obtain n where n: "k \<le> n" "n < length (vc_sent c')" "is_read (vc_cfg c') (vc_sent c' ! n)"
    "says w L fp rv n (vc_sent c' ! n)" unfolding vouched_def by blast
  from assms obtain ps where ps: "vc_sent c' = vc_sent c @ ps" "\<forall>p\<in>set ps. vr_Method p = ''POST''" "vc_cfg c' = vc_cfg c"
    by (auto simp: posts_only_def)
  have "n < length (vc_sent c)"
  proof (rule ccontr)
    assume "\<not> ?thesis"
    then have "vc_sent c' ! n \<in> set ps" using n(2) ps(1) by (simp add: nth_append)
    then show False using n(3) ps(2) by (auto simp: is_read_def)
  qed
  then show "vouched w L k c fp rv" using n ps unfolding vouched_def by (metis nth_append)
qed (use assms vouched_extend in \<open>auto simp: posts_only_def\<close>)

lemma vouched_snoc:
  assumes "c' = t\<lparr>vc_sent := vc_sent t @ [req]\<rparr>" and "k \<le> length (vc_sent t)"
  shows "vouched w L k c' fp rv \<longleftrightarrow>
    vouched w L k t fp rv \<or> (is_read (vc_cfg t) req \<and> says w L fp rv (length (vc_sent t)) req)"
proof -
  let ?q = "\<lambda>n. is_read (vc_cfg t) ((vc_sent t @ [req]) ! n) \<and> says w L fp rv n ((vc_sent t @ [req]) ! n)"
  have "vouched w L k c' fp rv \<longleftrightarrow> (\<exists>n. k \<le> n \<and> n < Suc (length (vc_sent t)) \<and> ?q n)" by (simp add: assms(1) vouched_def)
  also have "\<dots> \<longleftrightarrow> (\<exists>n. k \<le> n \<and> n < length (vc_sent t) \<and> ?q n) \<or> ?q (length (vc_sent t))" using assms(2) less_Suc_eq by blast
  also have "(\<exists>n. k \<le> n \<and> n < length (vc_sent t) \<and> ?q n) \<longleftrightarrow> vouched w L k t fp rv"
    unfolding vouched_def by (metis nth_append)
  finally show ?thesis by simp
qed

lemma normalizeMount_split: "\<exists>m. normalizeMount mount = m @ ''/''"
  by (auto simp: normalizeMount_def ends_with_iff)

lemma read_url:
  "is_read (vc_cfg c) req" if "vr_Method req = ''GET''" "vr_Query req = None" "vr_URL req = apiURL c (''/v1/'' @ normalizeMount mount @ ''cert/'' @ serial)"
proof -
  obtain m where m: "normalizeMount mount = m @ ''/''" using normalizeMount_split by blast
  have "str_count (m @ ''/cert/'' @ serial) CHR ''/'' \<ge> 2" by (induction m) auto
  moreover have "str_count ''sys/mounts'' CHR ''/'' = 1" by code_simp
  ultimately show ?thesis using that by (auto simp: is_read_def apiURL_def m)
qed

text \<open>The rows of the inventory before a run, and after part of it.\<close>

definition row_reconciled :: "(string \<Rightarrow> bool \<Rightarrow> bool) \<Rightarrow> certificate \<Rightarrow> certificate \<Rightarrow> bool" where
  "row_reconciled V r r' \<longleftrightarrow> r' = r \<or> (c_ID r' = c_ID r \<and> c_FingerprintSHA256 r' = c_FingerprintSHA256 r \<and>
     c_ManagedStatus r' = ''managed_in_vault'' \<and> (\<exists>rv. V (c_FingerprintSHA256 r) rv) \<and>
     (c_Status r' = c_Status r \<or> c_Status r' = ''revoked'' \<and> V (c_FingerprintSHA256 r) True))"

definition all_marked :: "(string \<Rightarrow> bool \<Rightarrow> bool) \<Rightarrow> certificate list \<Rightarrow> bool" where
  "all_marked V rows \<longleftrightarrow> (\<forall>r\<in>set rows. \<forall>rv. V (c_FingerprintSHA256 r) rv \<longrightarrow>
     c_ManagedStatus r = ''managed_in_vault'' \<and> (rv \<longrightarrow> c_Status r = ''revoked''))"

definition reconcile_inv :: "vault_world \<Rightarrow> pem_libs \<Rightarrow> nat \<Rightarrow> certificate list \<Rightarrow> reconcile_state \<Rightarrow> bool" where
  "reconcile_inv w L k rows0 st = (case st of (sm, c, s) \<Rightarrow>
     k \<le> length (vc_sent c) \<and> list_all2 (row_reconciled (vouched w L k c)) rows0 (t_certificates s) \<and>
     (rs_Errors sm = [] \<longrightarrow> all_marked (vouched w L k c) (t_certificates s)) \<and>
     0 \<le> rs_Revoked sm \<and> rs_Revoked sm \<le> rs_Matched sm \<and> rs_Matched sm \<le> rs_VaultCertsRead sm)"

lemma row_reconciled_mono: "row_reconciled V r r' \<Longrightarrow> (\<And>fp rv. V fp rv \<Longrightarrow> W fp rv) \<Longrightarrow> row_reconciled W r r'"
  unfolding row_reconciled_def by blast

lemma rows_mono: "list_all2 (row_reconciled V) rows0 rows \<Longrightarrow> (\<And>fp rv. V fp rv \<Longrightarrow> W fp rv) \<Longrightarrow> list_all2 (row_reconciled W) rows0 rows"
  by (erule list_all2_mono) (rule row_reconciled_mono)

text \<open>One update: the rows of the fingerprint are marked, and all that Vault vouches for stays marked.\<close>

lemma update_rows:
  assumes "list_all2 (row_reconciled V) rows0 rows" and "\<And>fp rv. V fp rv \<Longrightarrow> W fp rv" and "W fp (mu_Revoked u)"
    and "mu_ManagedStatus u = ''managed_in_vault''"
  shows "list_all2 (row_reconciled W) rows0 (upd_where (\<lambda>r. c_FingerprintSHA256 r = fp) (reconcile_row u now) rows)"
proof -
  have "row_reconciled W r (if c_FingerprintSHA256 r' = fp then reconcile_row u now r' else r')" if "row_reconciled V r r'" for r r'
  proof -
    have rw: "row_reconciled W r r'" using that assms(2) by (rule row_reconciled_mono)
    show ?thesis
    proof (cases "c_FingerprintSHA256 r' = fp")
      case True
      then have "W (c_FingerprintSHA256 r) (mu_Revoked u)" using rw assms(3) by (auto simp: row_reconciled_def)
      then show ?thesis using rw True assms(4) unfolding row_reconciled_def by (auto simp: reconcile_row_def)
    qed (use rw in simp)
  qed
  then show ?thesis using assms(1) unfolding upd_where_def list_all2_map2 by (rule list_all2_mono [rotated])
qed

lemma update_marked:
  assumes "all_marked V rows" and "\<And>f rv. W f rv \<Longrightarrow> V f rv \<or> (f = fp \<and> rv = mu_Revoked u)" and "mu_ManagedStatus u = ''managed_in_vault''"
  shows "all_marked W (upd_where (\<lambda>r. c_FingerprintSHA256 r = fp) (reconcile_row u now) rows)"
  using assms unfolding all_marked_def set_upd_where by (fastforce simp: reconcile_row_def)

lemma UpdateManaged_result:
  assumes "UpdateManagedStatusByFingerprint fp u s = (r, s')" and "mu_ManagedStatus u = ''managed_in_vault''"
  shows "(\<exists>e. r = Inl e) \<and> t_certificates s' = t_certificates s \<or>
    (\<exists>b now. r = Inr b \<and> t_certificates s' = upd_where (\<lambda>r. c_FingerprintSHA256 r = fp) (reconcile_row u now) (t_certificates s))"
  using assms by (auto simp: UpdateManagedStatusByFingerprint_def db_call_def managed_status_enum_def split: if_splits)

text \<open>What reading one certificate adds to what Vault vouches for.\<close>

lemma ReadCert_vouches:
  assumes "ReadCert w mount serial c = (r, c')" and "k \<le> length (vc_sent c)"
  shows "k \<le> length (vc_sent c') \<and> (case r of Inl e \<Rightarrow> vouched w L k c' = vouched w L k c
    | Inr (pem, meta) \<Rightarrow> vouched w L k c' = (\<lambda>fp rv. vouched w L k c fp rv \<or>
         FingerprintSHA256FromPEM L pem = Some fp \<and> revocationFromMeta meta = rv))"
proof -
  let ?path = "''/v1/'' @ normalizeMount mount @ ''cert/'' @ serial"
  obtain v c2 where call: "vault_call w ''GET'' ?path None [] c = (v, c2)" by fastforce
  have c': "c' = c2" using assms(1) call by (auto simp: ReadCert_def bind_v_def split: sum.splits if_splits)
  from call show ?thesis
  proof (cases rule: vault_call_sends)
    case 1
    then obtain e where "r = Inl e" using assms(1) call by (auto simp: ReadCert_def bind_v_def)
    then show ?thesis using 1(1) vouched_posts [OF 1(1)] assms(2) by (auto simp: c' posts_only_def intro!: ext)
  next
    case (2 t req)
    have k: "k \<le> length (vc_sent t)" using 2(1) assms(2) by (auto simp: posts_only_def)
    have cfg: "vc_cfg t = vc_cfg c" using 2(1) by (simp add: posts_only_def)
    have V: "vouched w L k c' fp rv \<longleftrightarrow> vouched w L k c fp rv \<or> says w L fp rv (length (vc_sent t)) req" for fp rv
      unfolding c' vouched_snoc [OF 2(2) k] vouched_posts [OF 2(1)] cfg using read_url [OF 2(3,4,5)] by simp
    have res: "r = (case v of Inl e \<Rightarrow> Inl e | Inr (body, status, doc) \<Rightarrow> if status \<noteq> 200 then Inl (VaultStatus status (trim_space body)) else cert_data doc)"
      using assms(1) call by (auto simp: ReadCert_def bind_v_def split: sum.splits if_splits)
    have "says w L fp rv (length (vc_sent t)) req \<longleftrightarrow> (\<exists>pem meta. r = Inr (pem, meta) \<and> FingerprintSHA256FromPEM L pem = Some fp \<and> revocationFromMeta meta = rv)" for fp rv
      unfolding says_def 2(6) res by (auto split: sum.splits if_splits)
    note sy = this
    have "vouched w L k c' = (\<lambda>fp rv. vouched w L k c fp rv \<or> (\<exists>pem meta. r = Inr (pem, meta) \<and> FingerprintSHA256FromPEM L pem = Some fp \<and> revocationFromMeta meta = rv))"
      by (intro ext) (simp only: V sy)
    moreover have "k \<le> length (vc_sent c')" using k by (simp add: c' 2(2))
    ultimately show ?thesis by (auto split: sum.splits)
  qed
qed

lemma ListCertSerials_vouches:
  assumes "ListCertSerials w mount c = (r, c')" and "k \<le> length (vc_sent c)"
  shows "k \<le> length (vc_sent c') \<and> vouched w L k c' = vouched w L k c"
proof -
  obtain v c2 where call: "vault_call w ''GET'' (''/v1/'' @ normalizeMount mount @ ''certs'') (Some ''list=true'') [] c = (v, c2)" by fastforce
  have c': "c' = c2" using assms(1) call by (auto simp: ListCertSerials_def bind_v_def split: sum.splits if_splits option.splits)
  from call show ?thesis
  proof (cases rule: vault_call_sends)
    case 1
    then show ?thesis using vouched_posts [OF 1(1)] assms(2) by (auto simp: c' posts_only_def intro!: ext)
  next
    case (2 t req)
    have k: "k \<le> length (vc_sent t)" using 2(1) assms(2) by (auto simp: posts_only_def)
    have "\<not> is_read (vc_cfg t) req" using 2(4) by (simp add: is_read_def)
    then show ?thesis using k vouched_snoc [OF 2(2) k] vouched_posts [OF 2(1)] 2(2) by (auto simp: c' intro!: ext)
  qed
qed

lemma reconcile_serial_inv:
  assumes "reconcile_inv w L k rows0 st"
  shows "reconcile_inv w L k rows0 (reconcile_serial w L mount st serial)"
proof -
  obtain sm c s where st: "st = (sm, c, s)" by (cases st)
  obtain r c' where read: "ReadCert w mount serial c = (r, c')" by fastforce
  note inv = assms [unfolded st reconcile_inv_def prod.case]
  note V = ReadCert_vouches [OF read conjunct1 [OF inv], of L]
  show ?thesis
  proof (cases r)
    case (Inl e)
    then show ?thesis using inv V read by (auto simp: st reconcile_serial_def reconcile_inv_def add_error_def)
  next
    case (Inr pm)
    obtain pem meta where pm: "pm = (pem, meta)" by (cases pm)
    let ?V = "vouched w L k c" and ?W = "vouched w L k c'" and ?u = "vault_update mount meta"
    have W: "?W = (\<lambda>fp rv. ?V fp rv \<or> FingerprintSHA256FromPEM L pem = Some fp \<and> revocationFromMeta meta = rv)" and k: "k \<le> length (vc_sent c')"
      using V Inr pm by auto
    have u: "mu_ManagedStatus ?u = ''managed_in_vault''" "mu_Revoked ?u = revocationFromMeta meta" by (simp_all add: vault_update_def)
    have up: "list_all2 (row_reconciled ?W) rows0 (t_certificates s)" using inv by (elim conjE) (erule rows_mono, simp add: W)
    show ?thesis
    proof (cases "FingerprintSHA256FromPEM L pem")
      case None
      then show ?thesis using inv up k read Inr pm by (simp add: st reconcile_serial_def reconcile_inv_def add_error_def Let_def)
    next
      case (Some fp)
      obtain b s' where upd: "UpdateManagedStatusByFingerprint fp ?u s = (b, s')" by fastforce
      from UpdateManaged_result [OF upd u(1)] show ?thesis
      proof (elim disjE conjE exE)
        fix e assume "b = Inl e" "t_certificates s' = t_certificates s"
        then show ?thesis using inv up k read Inr pm Some upd by (simp add: st reconcile_serial_def reconcile_inv_def add_error_def Let_def)
      next
        fix hit now assume b: "b = Inr hit" and s': "t_certificates s' = upd_where (\<lambda>r. c_FingerprintSHA256 r = fp) (reconcile_row ?u now) (t_certificates s)"
        have "list_all2 (row_reconciled ?W) rows0 (t_certificates s')"
          unfolding s' by (rule update_rows [OF up]) (simp_all add: W Some u)
        moreover have "all_marked ?W (t_certificates s')" if "rs_Errors sm = []"
          unfolding s' by (rule update_marked [where V = ?V]) (use inv that in \<open>auto simp: W Some u\<close>)
        ultimately show ?thesis using inv k read Inr pm Some upd b by (simp add: st reconcile_serial_def reconcile_inv_def Let_def)
      qed
    qed
  qed
qed

lemma reconcile_mount_inv:
  assumes "reconcile_inv w L k rows0 st"
  shows "reconcile_inv w L k rows0 (reconcile_mount w L st mount)"
proof -
  obtain sm c s where st: "st = (sm, c, s)" by (cases st)
  obtain r c' where ls: "ListCertSerials w mount c = (r, c')" by fastforce
  note inv = assms [unfolded st reconcile_inv_def prod.case]
  note V = ListCertSerials_vouches [OF ls conjunct1 [OF inv], of L]
  have inv': "reconcile_inv w L k rows0 (sm, c', s)" using inv V by (simp add: reconcile_inv_def)
  show ?thesis
  proof (cases r)
    case (Inl e)
    then show ?thesis using inv V ls by (simp add: st reconcile_mount_def reconcile_inv_def add_error_def)
  next
    case (Inr serials)
    have "reconcile_inv w L k rows0 (foldl (reconcile_serial w L mount) (sm, c', s) serials)"
      using inv' by (induction serials rule: rev_induct) (simp_all add: reconcile_serial_inv)
    then show ?thesis using ls Inr by (simp add: st reconcile_mount_def)
  qed
qed

lemma reconcile_mounts_inv: "reconcile_inv w L k rows0 st \<Longrightarrow> reconcile_inv w L k rows0 (foldl (reconcile_mount w L) st mounts)"
  by (induction mounts rule: rev_induct) (simp_all add: reconcile_mount_inv)

text \<open>
  C32. Reconciliation marks what Vault vouches for and nothing else. When a run returns a summary, every
  row of the inventory is as it was, or carries the fingerprint of a certificate Vault returned in this run
  and is managed in Vault, and its status moved to revoked only if Vault says so. The counters are
  consistent, the status says ok exactly when nothing failed and failed exactly when something did and no
  certificate was read, and after an ok run every row whose certificate Vault returned is marked, the
  revoked ones as revoked. \<open>unmatched_clm\<close> is the number of rows that are not managed in Vault.
\<close>

theorem Reconcile_sound:
  assumes "Reconcile w L c s = (Inr sm, c', s')" and "V = vouched w L (length (vc_sent c)) c'"
  shows "list_all2 (row_reconciled V) (t_certificates s) (t_certificates s') \<and>
    0 \<le> rs_Revoked sm \<and> rs_Revoked sm \<le> rs_Matched sm \<and> rs_Matched sm \<le> rs_VaultCertsRead sm \<and>
    (rs_Status sm = ''ok'' \<longleftrightarrow> rs_Errors sm = []) \<and>
    (rs_Status sm = ''failed'' \<longleftrightarrow> rs_Errors sm \<noteq> [] \<and> rs_VaultCertsRead sm = 0) \<and>
    (rs_Status sm = ''ok'' \<longrightarrow> all_marked V (t_certificates s')) \<and>
    rs_UnmatchedCLM sm = int (hits (\<lambda>r. c_ManagedStatus r \<noteq> ''managed_in_vault'') (t_certificates s'))"
proof -
  let ?k = "length (vc_sent c)" and ?rows = "t_certificates s"
  from assms(1) obtain mounts c1 where ls: "ListPKIMounts w c = (Inr mounts, c1)"
    by (auto simp: Reconcile_def split: prod.splits sum.splits)
  let ?sm = "\<lparr>rs_MountsScanned = int (length mounts), rs_VaultCertsRead = 0, rs_Matched = 0, rs_Revoked = 0,
                    rs_UnmatchedCLM = 0, rs_Status = [], rs_Errors = []\<rparr>"
  from assms(1) ls obtain sm1 s1 managed discovered where run: "foldl (reconcile_mount w L) (?sm, c1, s) mounts = (sm1, c', s1)"
    and cnt: "CountByManagedStatus None s1 = (Inr (managed, discovered), s')"
    and sm: "sm = sm1\<lparr>rs_UnmatchedCLM := (if discovered - managed < 0 then 0 else discovered - managed),
        rs_Status := reconcileStatus (rs_VaultCertsRead sm1) (rs_Errors sm1)\<rparr>"
    by (auto simp: Reconcile_def Let_def split: prod.splits sum.splits)
  obtain v c2 where call: "vault_call w ''GET'' ''/v1/sys/mounts'' None [] c = (v, c2)" by fastforce
  have c1: "c1 = c2" using ls call by (auto simp: ListPKIMounts_def ListMounts_def bind_v_def split: sum.splits if_splits option.splits json.splits)
  have "?k \<le> length (vc_sent c1) \<and> \<not> vouched w L ?k c1 fp rv" for fp rv
    using call
  proof (cases rule: vault_call_sends)
    case 1
    have "\<not> vouched w L ?k c fp rv" by (simp add: vouched_def)
    then show ?thesis using vouched_posts [OF 1(1)] 1(1) by (auto simp: c1 posts_only_def)
  next
    case (2 t req)
    have k: "?k \<le> length (vc_sent t)" and cfg: "vc_cfg t = vc_cfg c" using 2(1) by (auto simp: posts_only_def)
    have "\<not> vouched w L ?k c fp rv" by (simp add: vouched_def)
    moreover have "\<not> is_read (vc_cfg t) req" using 2(5) by (simp add: is_read_def apiURL_def cfg)
    ultimately show ?thesis using k vouched_snoc [OF 2(2) k] vouched_posts [OF 2(1)] 2(2) by (simp add: c1)
  qed
  then have "reconcile_inv w L ?k ?rows (?sm, c1, s)"
    by (auto simp: reconcile_inv_def all_marked_def row_reconciled_def intro: list_all2_refl)
  then have "reconcile_inv w L ?k ?rows (foldl (reconcile_mount w L) (?sm, c1, s) mounts)"
    by (rule reconcile_mounts_inv)
  then have inv: "reconcile_inv w L ?k ?rows (sm1, c', s1)" by (simp only: run)
  have cnt': "t_certificates s' = t_certificates s1" "managed = int (hits (\<lambda>r. c_ManagedStatus r = ''managed_in_vault'') (t_certificates s1))"
    "discovered = int (length (t_certificates s1))"
    using cnt by (auto simp: CountByManagedStatus_def Let_def dest!: db_call_Inr)
  have "hits (\<lambda>r. c_ManagedStatus r = ''managed_in_vault'') rows + hits (\<lambda>r. c_ManagedStatus r \<noteq> ''managed_in_vault'') rows = length rows" for rows
    unfolding hits_def by (rule sum_length_filter_compl)
  from this [of "t_certificates s1", symmetric]
  have "discovered - managed = int (hits (\<lambda>r. c_ManagedStatus r \<noteq> ''managed_in_vault'') (t_certificates s1))"
    unfolding cnt'(2,3) by (simp only: of_nat_add add_diff_cancel_left')
  then show ?thesis using inv by (simp add: sm cnt'(1) reconcile_inv_def assms(2) reconcileStatus_def)
qed

text \<open>A Vault with one PKI mount and one revoked certificate, which the inventory knows.\<close>

definition example_vault :: vault_world where
  "example_vault = \<lparr>vw_answer = (\<lambda>n req. Answer 200 [] (Some (
       if n = 0 then JObj [(''pki/'', JObj [(''type'', JStr ''pki'')]), (''sys/'', JObj [(''type'', JStr ''system'')])]
       else if n = 1 then JObj [(''data'', JObj [(''keys'', JArr [JStr ''01''])])]
       else JObj [(''data'', JObj [(''certificate'', JStr ''A''), (''revocation_time'', JNum 7), (''issuer_id'', JStr ''iss'')])]))),
     vw_clock = (\<lambda>_. 0), vw_url_ok = (\<lambda>_. True)\<rparr>"

definition example_pem :: pem_libs where
  "example_pem = \<lparr>pm_decode = Some, pm_parse = (\<lambda>der. Some \<lparr>x_Raw = der, x_SerialNumber = 1, x_SubjectCN = [], x_Subject = [], x_Issuer = [],
     x_AuthorityKeyId = [], x_NotBefore = 0, x_NotAfter = 0, x_PublicKey = Ed25519_key, x_SignatureAlgorithm = [], x_IsCA = False,
     x_KeyUsage = 0, x_ExtKeyUsage = [], x_DNSNames = [], x_IPAddresses = [], x_EmailAddresses = [], x_CRLDistributionPoints = [],
     x_OCSPServer = []\<rparr>), pm_sha256 = id\<rparr>"

definition example_client :: vault_client where
  "example_client = NewClient \<lparr>vg_Address = ''https://vault'', vg_Namespace = [], vg_Token = ''t'', vg_AuthMethod = ''token'', vg_RoleID = [], vg_SecretID = []\<rparr>"

theorem Reconcile_sound_witness:
  "\<exists>sm c' s'. Reconcile example_vault example_pem example_client (empty_db\<lparr>t_certificates := [blank_cert 1 ''41'', blank_cert 2 ''42'']\<rparr>) = (Inr sm, c', s') \<and>
     rs_Status sm = ''ok'' \<and> rs_Matched sm = 1 \<and> rs_UnmatchedCLM sm = 1 \<and>
     all_marked (vouched example_vault example_pem 0 c') (t_certificates s')"
proof -
  let ?s = "empty_db\<lparr>t_certificates := [blank_cert 1 ''41'', blank_cert 2 ''42'']\<rparr>"
  have "case Reconcile example_vault example_pem example_client ?s of (Inr sm, c', s') \<Rightarrow>
      rs_Status sm = ''ok'' \<and> rs_Matched sm = 1 \<and> rs_UnmatchedCLM sm = 1 | _ \<Rightarrow> False" by code_simp
  then obtain sm c' s' where run: "Reconcile example_vault example_pem example_client ?s = (Inr sm, c', s')"
    and ok: "rs_Status sm = ''ok''" "rs_Matched sm = 1" "rs_UnmatchedCLM sm = 1" by (auto split: prod.splits sum.splits)
  have "length (vc_sent example_client) = 0" by code_simp
  then show ?thesis using Reconcile_sound [OF run refl] ok run by auto
qed

end
