(* ===== verification/Server.thy ===== *)
theory Server
  imports Report_Render Collectors Settings Vault_Reconcile
begin

text \<open>
  The process around the components: the server's wiring and routes (\<^verbatim>\<open>internal/api/server.go\<close>), the body and
  the loop of the scan poller (\<^verbatim>\<open>internal/api/scan_worker.go\<close>), the loops and the HTTP side of the event
  dispatcher and of the ticket sink (\<^verbatim>\<open>internal/eventbus\<close>, \<^verbatim>\<open>internal/itsm\<close>), the loop of the job worker, the
  command line (\<^verbatim>\<open>internal/cli\<close>, \<^verbatim>\<open>cmd/clm-scan\<close>, \<^verbatim>\<open>cmd/clm-discovery\<close>), and the demo hosts. Matching a
  request to a route belongs to the router package: the table says which method and path pattern lead to
  which handler.
\<close>

section \<open>Routes\<close>

datatype seg = Lit string | Id

type_synonym route = "string \<times> seg list \<times> string"

definition health_route :: route where
  "health_route = (''GET'', [Lit ''health''], ''handleHealth'')"

definition scan_routes :: "route list" where
  "scan_routes =
    [(''POST'', [Lit ''scans''], ''handleCreateScan''),
     (''POST'', [Lit ''scans'', Lit ''collect''], ''handleCollectScan''),
     (''POST'', [Lit ''scans'', Lit ''adcs''], ''handleCollectADCS''),
     (''POST'', [Lit ''scans'', Lit ''akv''], ''handleCollectAKV''),
     (''GET'', [Lit ''scans''], ''handleListScans''),
     (''GET'', [Lit ''scans'', Id], ''handleGetScan''),
     (''GET'', [Lit ''scans'', Id, Lit ''blindspot''], ''handleGetScanBlindSpot''),
     (''GET'', [Lit ''scans'', Id, Lit ''compliance''], ''handleGetScanCompliance''),
     (''GET'', [Lit ''scans'', Id, Lit ''report''], ''handleGetScanReport''),
     (''GET'', [Lit ''scans'', Id, Lit ''findings''], ''handleListScanFindings''),
     (''GET'', [Lit ''scans'', Id, Lit ''certificates''], ''handleListScanCertificates''),
     (''DELETE'', [Lit ''scans'', Id], ''handleDeleteScan'')]"

definition certificate_routes :: "route list" where
  "certificate_routes =
    [(''GET'', [Lit ''certificates''], ''handleListCertificates''),
     (''GET'', [Lit ''certificates'', Id], ''handleGetCertificate''),
     (''GET'', [Lit ''certificates'', Id, Lit ''pem''], ''handleGetCertificatePEM''),
     (''GET'', [Lit ''certificates'', Id, Lit ''choose''], ''handleGetCertificateChoose''),
     (''GET'', [Lit ''certificates'', Id, Lit ''findings''], ''handleListCertFindings''),
     (''GET'', [Lit ''certificates'', Id, Lit ''waivers''], ''handleListCertWaivers''),
     (''POST'', [Lit ''certificates'', Id, Lit ''waivers''], ''handleCreateCertWaiver''),
     (''GET'', [Lit ''certificates'', Id, Lit ''renewal-kit''], ''handleRenewalKit''),
     (''POST'', [Lit ''certificates'', Id, Lit ''revocation-check''], ''handleRevocationCheck''),
     (''POST'', [Lit ''certificates'', Id, Lit ''renew''], ''handleRenewCertificate''),
     (''POST'', [Lit ''certificates'', Id, Lit ''migrate''], ''handleMigrateCertificate''),
     (''POST'', [Lit ''certificates'', Id, Lit ''revoke''], ''handleRevokeCertificate''),
     (''PATCH'', [Lit ''certificates'', Id], ''handlePatchCertificate''),
     (''POST'', [Lit ''certificates'', Id, Lit ''catalog-import''], ''handleCatalogImport''),
     (''DELETE'', [Lit ''certificates'', Id], ''handleDeleteCertificate''),
     (''DELETE'', [Lit ''waivers'', Id], ''handleRevokeWaiver'')]"

definition other_routes :: "route list" where
  "other_routes =
    [(''GET'', [Lit ''issuers''], ''handleListIssuers''),
     (''POST'', [Lit ''issuers'', Id, Lit ''import''], ''handleImportIssuer''),
     (''DELETE'', [Lit ''issuers'', Id], ''handleDeleteIssuer''),
     (''POST'', [Lit ''reconcile''], ''handleReconcile''),
     (''POST'', [Lit ''renew-expiring''], ''handleRenewExpiring''),
     (''POST'', [Lit ''migrate-eligible''], ''handleMigrateEligible''),
     (''GET'', [Lit ''inventory''], ''handleInventory''),
     (''GET'', [Lit ''inventory'', Lit ''pqc''], ''handlePQCInventory''),
     (''GET'', [Lit ''events''], ''handleListEvents''),
     (''GET'', [Lit ''lifecycle-jobs'', Id], ''handleGetLifecycleJob''),
     (''GET'', [Lit ''certificates'', Id, Lit ''lifecycle-jobs''], ''handleListCertLifecycleJobs''),
     (''POST'', [Lit ''lifecycle-jobs'', Lit ''claim''], ''handleClaimLifecycleJob''),
     (''GET'', [Lit ''blindspot''], ''handleGetBlindSpot''),
     (''GET'', [Lit ''compliance'', Lit ''summary''], ''handleGetComplianceSummary'')]"

definition settings_routes :: "route list" where
  "settings_routes =
    [(''GET'', [Lit ''settings'', Lit ''connections''], ''handleGetConnections''),
     (''PUT'', [Lit ''settings'', Lit ''connections''], ''handlePutConnections''),
     (''PATCH'', [Lit ''settings'', Lit ''connections''], ''handlePatchConnections''),
     (''POST'', [Lit ''settings'', Lit ''connections'', Lit ''test''], ''handleTestConnections''),
     (''GET'', [Lit ''settings'', Lit ''connections'', Lit ''options'', Lit ''vault-pki-mounts''], ''handleOptionsVaultPKIMounts''),
     (''GET'', [Lit ''settings'', Lit ''connections'', Lit ''options'', Lit ''aap-templates''], ''handleOptionsAAPTemplates'')]"

text \<open>\<^verbatim>\<open>Router\<close>: the routes behind authentication and permission; the health check stands before them.\<close>

definition Router :: "route list" where
  "Router = scan_routes @ certificate_routes @ other_routes @ settings_routes"

fun seg_text :: "string \<Rightarrow> seg \<Rightarrow> string" where
  "seg_text x (Lit l) = l"
| "seg_text x Id = x"

definition path_of :: "string \<Rightarrow> seg list \<Rightarrow> string" where
  "path_of x segs = ''/api/v1/'' @ str_join (map (seg_text x) segs) ''/''"

definition handleHealth :: "request \<Rightarrow> (string \<times> string) list handler" where
  "handleHealth r = try_op (db_call (\<lambda>s. (Inr (), s))) (\<lambda>_. writeError r 503 ''database unavailable'') (\<lambda>_. writeJSON 200 [(''status'', ''ok'')])"

section \<open>Wiring\<close>

record server_config =
  cg_Vault :: vault_config
  cg_Import :: import_config
  cg_AAP :: aap_config
  cg_AAPRenewTemplate :: string
  cg_AAPRenewWorkflow :: bool
  cg_AAPRevokeTemplate :: string
  cg_AAPRevokeWorkflow :: bool

record server_parts =
  sp_reconciler :: "vault_client option"
  sp_importer :: "vault_client option"
  sp_aap :: "aap_config option"
  sp_renewer :: "(aap_config \<times> string \<times> bool) option"
  sp_revoker :: "(aap_config \<times> string \<times> bool) option"

definition NewServer :: "aap_world \<Rightarrow> server_config \<Rightarrow> server_parts" where
  "NewServer w cfg =
     (let vault = (vg_Address (cg_Vault cfg) \<noteq> []);
          ident = cg_Import cfg;
          ac = (if aa_BaseURL (cg_AAP cfg) = [] then None else aap_NewClient w (cg_AAP cfg)) in
      \<lparr>sp_reconciler = (if vault then Some (NewClient (cg_Vault cfg)) else None),
       sp_importer = (if vault \<and> HasVaultImportIdentity ident
         then Some (NewClient \<lparr>vg_Address = vg_Address (cg_Vault cfg), vg_Namespace = vg_Namespace (cg_Vault cfg), vg_Token = ic_ImportToken ident,
                vg_AuthMethod = ResolveVaultImportAuthMethod ident, vg_RoleID = ic_ImportRoleID ident, vg_SecretID = ic_ImportSecretID ident\<rparr>)
         else None),
       sp_aap = ac,
       sp_renewer = map_option (\<lambda>c. (c, cg_AAPRenewTemplate cfg, cg_AAPRenewWorkflow cfg)) ac,
       sp_revoker = map_option (\<lambda>c. (c, cg_AAPRevokeTemplate cfg, cg_AAPRevokeWorkflow cfg)) ac\<rparr>)"

text \<open>\<^verbatim>\<open>envconfig\<close> reads the environment: \<open>None\<close> is its error.\<close>

definition Load :: "auth_config option \<Rightarrow> auth_config option" where
  "Load env = (case env of None \<Rightarrow> None | Some cfg \<Rightarrow> (case normalizeAuth cfg of Inl e \<Rightarrow> None | Inr cfg' \<Rightarrow> Some cfg'))"

section \<open>The scan poller\<close>

definition job_of :: "scan \<Rightarrow> scan_job" where
  "job_of sc = \<lparr>jb_ScanID = s_ID sc, jb_CIDRs = s_CIDRs sc, jb_Hostnames = s_Hostnames sc, jb_Ports = s_Ports sc, jb_Concurrency = s_Concurrency sc\<rparr>"

definition heartbeat_interval :: "scan_worker \<Rightarrow> duration" where
  "heartbeat_interval w = (if quot_go (sw_lease w) 2 < second then second else quot_go (sw_lease w) 2)"

text \<open>
  \<^verbatim>\<open>execute\<close>: the run (whose surroundings include the heartbeats of the goroutine beside it), then the release
  when the context has ended, or the work after a completed scan.
\<close>

inductive execute :: "scan_worker \<Rightarrow> 'c run_env \<Rightarrow> (db \<Rightarrow> db option) \<Rightarrow> (db \<Rightarrow> db) \<Rightarrow> bool \<Rightarrow> scan \<Rightarrow> db \<Rightarrow> db \<Rightarrow> bool"
  for w E recompute reconcile ended sc s where
  released: "Run E (job_of sc) s res t \<Longrightarrow> ended \<Longrightarrow> execute w E recompute reconcile ended sc s (ignore (ReleaseScanClaim (s_ID sc) (sw_owner w)) t)"
| failed: "Run E (job_of sc) s (Some err) t \<Longrightarrow> \<not> ended \<Longrightarrow> execute w E recompute reconcile ended sc s t"
| followed: "Run E (job_of sc) s None t \<Longrightarrow> \<not> ended \<Longrightarrow> recompute t = Some u \<Longrightarrow> execute w E recompute reconcile ended sc s (reconcile u)"

text \<open>A poller's loop: the body once, then once per tick until the context ends.\<close>

primrec ticks :: "(db \<Rightarrow> db) \<Rightarrow> nat \<Rightarrow> db \<Rightarrow> db" where
  "ticks body 0 s = s"
| "ticks body (Suc n) s = ticks body n (body s)"

definition Worker_Run :: "worker \<Rightarrow> nat \<Rightarrow> db \<Rightarrow> db" where
  "Worker_Run w n = ticks (tick w) (Suc n)"

definition Dispatcher_Run :: "(event \<Rightarrow> string option) \<Rightarrow> (json \<Rightarrow> string option) \<Rightarrow> dispatcher_config \<Rightarrow> nat \<Rightarrow> db \<Rightarrow> db" where
  "Dispatcher_Run eda itsm d n s = (if \<not> Configured d then s else ticks (ignore (RunOnce eda itsm d)) (Suc n) s)"

section \<open>Delivery over HTTP\<close>

definition opt_json :: "('a \<Rightarrow> json) \<Rightarrow> 'a option \<Rightarrow> json" where
  "opt_json f x = (case x of None \<Rightarrow> JNull | Some v \<Rightarrow> f v)"

definition event_json :: "event \<Rightarrow> json" where
  "event_json e = JObj [(''id'', JId (e_ID e)), (''event_type'', JStr (e_EventType e)), (''certificate_id'', opt_json JId (e_CertificateID e)),
     (''payload'', e_Payload e), (''created_at'', JTime (e_CreatedAt e)), (''delivered_at'', opt_json JTime (e_DeliveredAt e)),
     (''attempts'', JNum (e_Attempts e)), (''last_error'', opt_json JStr (e_LastError e))]"

definition post_event :: "aap_world \<Rightarrow> nat \<Rightarrow> dispatcher_config \<Rightarrow> event \<Rightarrow> string option" where
  "post_event w n d e = map_option (aw_text w) (postWebhook w n (dc_WebhookURL d) (dc_Token d) (event_json e))"

text \<open>The ticket sink. \<open>mac\<close> is HMAC-SHA256 of the encoded body in hex; \<open>answer\<close> takes the body and the signature header.\<close>

record ticket_world =
  tw_url_ok :: "string \<Rightarrow> bool"
  tw_mac :: "string \<Rightarrow> json \<Rightarrow> string"
  tw_answer :: "nat \<Rightarrow> string \<Rightarrow> json \<Rightarrow> string option \<Rightarrow> vault_response"
  tw_text :: "http_error \<Rightarrow> string"

definition itsm_signature :: "ticket_world \<Rightarrow> string \<Rightarrow> json \<Rightarrow> string option" where
  "itsm_signature w key body = (if key \<noteq> [] then Some (''sha256='' @ tw_mac w key body) else None)"

definition itsm_Deliver :: "ticket_world \<Rightarrow> nat \<Rightarrow> dispatcher_config \<Rightarrow> json \<Rightarrow> string option" where
  "itsm_Deliver w n d body =
     (if dc_ITSMWebhookURL d = [] then Some ''itsm webhook is not configured''
      else if \<not> tw_url_ok w (dc_ITSMWebhookURL d) then Some (tw_text w BadRequest)
      else case tw_answer w n (dc_ITSMWebhookURL d) body (itsm_signature w (dc_ITSMWebhookHMACSecret d) body) of
        NoResponse e \<Rightarrow> Some (tw_text w (Transport e))
      | Truncated status e \<Rightarrow> if status < 200 \<or> status \<ge> 300 then Some (tw_text w (BadStatus status [])) else None
      | Answer status data doc \<Rightarrow> if status < 200 \<or> status \<ge> 300 then Some (tw_text w (BadStatus status [])) else None)"

section \<open>Command line\<close>

fun parse_all :: "string list \<Rightarrow> int list option" where
  "parse_all [] = Some []"
| "parse_all (p # ps) = (case parse_int64 (trim_space p) of None \<Rightarrow> None | Some n \<Rightarrow> map_option ((#) n) (parse_all ps))"

definition ParsePorts :: "string \<Rightarrow> int list option" where
  "ParsePorts s = parse_all (split_on (CHR '','') s)"

definition SplitCSV :: "string \<Rightarrow> string list" where
  "SplitCSV s = (if trim_space s = [] then [] else filter (\<lambda>v. v \<noteq> []) (map trim_space (split_on (CHR '','') s)))"

datatype hostname_error = EmptyHostname | HasScheme string | HasPath string | TrailingDot string | HasSpaces string | FewLabels string | EmptyLabel string

definition ValidateScanHostname :: "string \<Rightarrow> hostname_error option" where
  "ValidateScanHostname h = (let host = trim_space h; labels = split_on (CHR ''.'') host in
     if host = [] then Some EmptyHostname
     else if str_contains host ''://'' then Some (HasScheme host)
     else if list_ex (\<lambda>c. c \<in> set ''/?#'') host then Some (HasPath host)
     else if ends_with host ''.'' then Some (TrailingDot host)
     else if str_contains host '' '' then Some (HasSpaces host)
     else if length labels < 2 then Some (FewLabels host)
     else if list_ex (\<lambda>l. l = []) labels then Some (EmptyLabel host)
     else None)"

definition ScanHostnames :: "string list" where
  "ScanHostnames = [''aap.david-joo.sbx.hashidemos.io'', ''coffeesnob.withdevo.net'']"

definition ScanHostnamesCSV :: string where
  "ScanHostnamesCSV = str_join ScanHostnames '',''"

record scan_flags =
  fl_cidrs :: string
  fl_hostnames :: string
  fl_ports :: string
  fl_concurrency :: int
  fl_consent :: bool

text \<open>\<^verbatim>\<open>cmd/clm-scan\<close>: the exit status, and the scan read back at the end when it is zero.\<close>

inductive clm_scan :: "'c run_env \<Rightarrow> bool \<Rightarrow> scan_flags \<Rightarrow> db \<Rightarrow> nat \<Rightarrow> scan option \<Rightarrow> db \<Rightarrow> bool" for E ready fl s where
  no_consent: "\<not> fl_consent fl \<Longrightarrow> clm_scan E ready fl s 1 None s"
| no_targets: "fl_consent fl \<Longrightarrow> fl_cidrs fl = [] \<Longrightarrow> fl_hostnames fl = [] \<Longrightarrow> clm_scan E ready fl s 1 None s"
| not_ready: "fl_consent fl \<Longrightarrow> \<not> (fl_cidrs fl = [] \<and> fl_hostnames fl = []) \<Longrightarrow> \<not> ready \<or> ParsePorts (fl_ports fl) = None \<Longrightarrow> clm_scan E ready fl s 1 None s"
| not_created: "fl_consent fl \<Longrightarrow> \<not> (fl_cidrs fl = [] \<and> fl_hostnames fl = []) \<Longrightarrow> ready \<Longrightarrow> ParsePorts (fl_ports fl) = Some ports \<Longrightarrow>
    CreateScan (SplitCSV (fl_cidrs fl)) (SplitCSV (fl_hostnames fl)) ports (fl_concurrency fl) 0 s = (Inl e, s1) \<Longrightarrow> clm_scan E ready fl s 1 None s1"
| run_failed: "fl_consent fl \<Longrightarrow> \<not> (fl_cidrs fl = [] \<and> fl_hostnames fl = []) \<Longrightarrow> ready \<Longrightarrow> ParsePorts (fl_ports fl) = Some ports \<Longrightarrow>
    CreateScan (SplitCSV (fl_cidrs fl)) (SplitCSV (fl_hostnames fl)) ports (fl_concurrency fl) 0 s = (Inr sc, s1) \<Longrightarrow>
    Run E \<lparr>jb_ScanID = s_ID sc, jb_CIDRs = SplitCSV (fl_cidrs fl), jb_Hostnames = SplitCSV (fl_hostnames fl), jb_Ports = ports, jb_Concurrency = fl_concurrency fl\<rparr> s1 (Some err) s2 \<Longrightarrow>
    clm_scan E ready fl s 1 None s2"
| finished: "fl_consent fl \<Longrightarrow> \<not> (fl_cidrs fl = [] \<and> fl_hostnames fl = []) \<Longrightarrow> ready \<Longrightarrow> ParsePorts (fl_ports fl) = Some ports \<Longrightarrow>
    CreateScan (SplitCSV (fl_cidrs fl)) (SplitCSV (fl_hostnames fl)) ports (fl_concurrency fl) 0 s = (Inr sc, s1) \<Longrightarrow>
    Run E \<lparr>jb_ScanID = s_ID sc, jb_CIDRs = SplitCSV (fl_cidrs fl), jb_Hostnames = SplitCSV (fl_hostnames fl), jb_Ports = ports, jb_Concurrency = fl_concurrency fl\<rparr> s1 None s2 \<Longrightarrow>
    GetScan (s_ID sc) s2 = (res, s3) \<Longrightarrow>
    clm_scan E ready fl s (case res of Inl e \<Rightarrow> 1 | Inr completed \<Rightarrow> 0) (case res of Inl e \<Rightarrow> None | Inr completed \<Rightarrow> Some completed) s3"

section \<open>The permission matrix over the routes\<close>

text \<open>What a handler is meant for, and the roles that go with it.\<close>

datatype purpose = Inventory | Reading | Scanning | Waiving | Remediation | VaultWriting | SettingsReading | Administration

definition purpose_of :: "string \<Rightarrow> purpose" where
  "purpose_of h =
     (if h = ''handleInventory'' then Inventory
      else if h \<in> set [''handleCreateScan'', ''handleCollectScan'', ''handleCollectADCS'', ''handleCollectAKV''] then Scanning
      else if h \<in> set [''handleCreateCertWaiver'', ''handleRevokeWaiver''] then Waiving
      else if h \<in> set [''handleRevocationCheck'', ''handleRenewCertificate'', ''handleMigrateCertificate'', ''handleRevokeCertificate'', ''handlePatchCertificate'',
          ''handleCatalogImport'', ''handleRenewExpiring'', ''handleMigrateEligible'', ''handleClaimLifecycleJob''] then Remediation
      else if h \<in> set [''handleImportIssuer'', ''handleReconcile''] then VaultWriting
      else if h \<in> set [''handleGetConnections'', ''handleOptionsVaultPKIMounts'', ''handleOptionsAAPTemplates''] then SettingsReading
      else if h \<in> set [''handleDeleteScan'', ''handleDeleteCertificate'', ''handleDeleteIssuer'', ''handlePutConnections'', ''handlePatchConnections'', ''handleTestConnections'']
        then Administration
      else Reading)"

fun granted_roles :: "purpose \<Rightarrow> string list" where
  "granted_roles Inventory = [''inventory'', ''viewer'', ''approver'', ''scanner_operator'', ''remediator'', ''vault_import_admin'', ''platform_admin'']"
| "granted_roles Reading = [''viewer'', ''approver'', ''scanner_operator'', ''remediator'', ''vault_import_admin'', ''platform_admin'']"
| "granted_roles Scanning = [''scanner_operator'', ''remediator'', ''vault_import_admin'', ''platform_admin'']"
| "granted_roles Waiving = [''approver'', ''remediator'', ''vault_import_admin'', ''platform_admin'']"
| "granted_roles Remediation = [''remediator'', ''vault_import_admin'', ''platform_admin'']"
| "granted_roles VaultWriting = [''vault_import_admin'', ''platform_admin'']"
| "granted_roles SettingsReading = [''remediator'', ''platform_admin'']"
| "granted_roles Administration = [''platform_admin'']"

text \<open>The rules of the matrix a path meets, and those it has to meet for a purpose.\<close>

definition rules_met :: "string \<Rightarrow> string \<Rightarrow> bool list" where
  "rules_met m p = [isInventoryGET m p, isViewerRead m p, isCreateScan m p, isWaiverWrite m p, isRemediate m p, isVaultImport m p, isSettingsRead m p]"

fun rules_for :: "purpose \<Rightarrow> bool list" where
  "rules_for Inventory = [True, True, False, False, False, False, False]"
| "rules_for Reading = [False, True, False, False, False, False, False]"
| "rules_for Scanning = [False, False, True, False, False, False, False]"
| "rules_for Waiving = [False, False, False, True, True, False, False]"
| "rules_for Remediation = [False, False, False, False, True, False, False]"
| "rules_for VaultWriting = [False, False, False, False, False, True, False]"
| "rules_for SettingsReading = [False, False, False, False, False, False, True]"
| "rules_for Administration = [False, False, False, False, False, False, False]"

lemma rules_roles:
  assumes "rules_met m p = rules_for g" and "trim_suffix p ''/'' = p"
  shows "roleAllows role m p \<longleftrightarrow> role \<in> set (granted_roles g)"
  using assms by (cases g) (auto simp: rules_met_def roleAllows_def Let_def)

lemma trim_slash: "s \<noteq> [] \<Longrightarrow> last s \<noteq> CHR ''/'' \<Longrightarrow> trim_suffix s ''/'' = s"
  by (auto simp: trim_suffix_def ends_with_iff)

lemma id_not_path: "CHR ''/'' \<notin> set x \<Longrightarrow> x \<noteq> CHR ''/'' # y" by auto

lemma last_id: "x \<noteq> [] \<Longrightarrow> CHR ''/'' \<notin> set x \<Longrightarrow> last x \<noteq> CHR ''/''" using last_in_set by metis

lemmas rule_simps = path_of_def rules_met_def isInventoryGET_def isViewerRead_def isCreateScan_def isWaiverWrite_def isRemediate_def isVaultImport_def
  isSettingsRead_def starts_with_def ends_with_def viewer_prefixes_def trim_prefix_def id_not_path Let_def

definition route_rules :: "string \<Rightarrow> route list \<Rightarrow> bool list list" where
  "route_rules x routes = map (\<lambda>(m, segs, h). rules_met m (path_of x segs)) routes"

definition purposes :: "route list \<Rightarrow> purpose list" where
  "purposes routes = map (\<lambda>(m, segs, h). purpose_of h) routes"

lemma router_purposes:
  "purposes scan_routes = [Scanning, Scanning, Scanning, Scanning, Reading, Reading, Reading, Reading, Reading, Reading, Reading, Administration]"
  "purposes certificate_routes = [Reading, Reading, Reading, Reading, Reading, Reading, Waiving, Reading, Remediation, Remediation, Remediation, Remediation,
     Remediation, Remediation, Administration, Waiving]"
  "purposes other_routes = [Reading, VaultWriting, Administration, VaultWriting, Remediation, Remediation, Inventory, Reading, Reading, Reading, Reading,
     Remediation, Reading, Reading]"
  "purposes settings_routes = [SettingsReading, Administration, Administration, Administration, SettingsReading, SettingsReading]"
  by code_simp+

lemma scan_routes_rules: "route_rules x scan_routes = map rules_for (purposes scan_routes)"
  unfolding router_purposes by (simp add: route_rules_def scan_routes_def rule_simps)

lemma certificate_routes_rules:
  "x \<noteq> [] \<Longrightarrow> CHR ''/'' \<notin> set x \<Longrightarrow> route_rules x certificate_routes = map rules_for (purposes certificate_routes)"
  unfolding router_purposes by (simp add: route_rules_def certificate_routes_def rule_simps)

lemma other_routes_rules: "route_rules x other_routes = map rules_for (purposes other_routes)"
  unfolding router_purposes by (simp add: route_rules_def other_routes_def rule_simps)

lemma settings_routes_rules: "route_rules x settings_routes = map rules_for (purposes settings_routes)"
  unfolding router_purposes by (simp add: route_rules_def settings_routes_def rule_simps)

text \<open>No path of a route ends in a slash.\<close>

lemma route_path_end:
  assumes "x \<noteq> []" and "CHR ''/'' \<notin> set x"
  shows "list_all (\<lambda>(m, segs, h). trim_suffix (path_of x segs) ''/'' = path_of x segs) Router"
  by (simp add: Router_def scan_routes_def certificate_routes_def other_routes_def settings_routes_def path_of_def trim_slash last_id assms)



section \<open>Loops and lists\<close>

text \<open>
  The contract of a loop: under an invariant its body is a step of a relation that keeps the invariant. Then
  any number of ticks is one.
\<close>

locale loop_body = op_relation +
  fixes I :: "db \<Rightarrow> bool" and body :: "db \<Rightarrow> db"
  assumes body_ok: "I s \<Longrightarrow> R s (body s)"
    and I_kept: "R s t \<Longrightarrow> I s \<Longrightarrow> I t"
begin

lemma loop_ok: "I s \<Longrightarrow> R s (ticks body n s)"
proof (induction n arbitrary: s)
  case (Suc n)
  then have "R (body s) (ticks body n (body s))" using body_ok I_kept by blast
  then show ?case using body_ok [OF Suc.prems] R_trans by simp
qed (simp add: R_refl)

end

interpretation wl: loop_body tick_rel "\<lambda>s. distinct (map j_ID (t_jobs s))" "tick w" for w
proof
  show "tick_rel s (tick w s)" if "distinct (map j_ID (t_jobs s))" for s
    using tk.R_trans [OF expireTimedOut_tick tick_after_expiry] that by blast
  show "distinct (map j_ID (t_jobs t))" if "tick_rel s t" "distinct (map j_ID (t_jobs s))" for s t
    using that tick_rel_ids by simp
qed

text \<open>
  Over its whole life, whatever fails, the job worker leaves the inventory alone, changes only jobs in flight,
  and marks a job verified only if the inventory holds its successor.
\<close>

lemma Worker_Run_sound: "distinct (map j_ID (t_jobs s)) \<Longrightarrow> tick_rel s (Worker_Run w n s)"
  unfolding Worker_Run_def by (rule wl.loop_ok)

text \<open>A heartbeat comes before the lease ends as soon as the lease is longer than a second, and not below that.\<close>

lemma heartbeat_in_time: "heartbeat_interval w < sw_lease w \<longleftrightarrow> sw_lease w > second"
  by (auto simp: heartbeat_interval_def quot_go_def second_def)

lemma split_on_join:
  "xs \<noteq> [] \<Longrightarrow> \<forall>x\<in>set xs. c \<notin> set x \<Longrightarrow> split_on c (str_join xs [c]) = xs"
proof (induction xs)
  case (Cons x xs)
  have plain: "c \<notin> set y \<Longrightarrow> split_on c y = [y]" for y by (induction y) auto
  show ?case using Cons plain by (cases xs) (auto simp: split_on_line)
qed simp

text \<open>A list of clean names goes through the command line unchanged, and the demo hosts are such names.\<close>

lemma SplitCSV_roundtrip:
  assumes "xs \<noteq> []" and "\<forall>x\<in>set xs. x \<noteq> [] \<and> trim_space x = x \<and> CHR '','' \<notin> set x"
  shows "SplitCSV (str_join xs '','') = xs"
proof -
  have "split_on (CHR '','') (str_join xs '','') = xs" using assms by (intro split_on_join) auto
  moreover have "map trim_space xs = xs" using assms(2) by (simp add: map_idI)
  moreover have "filter (\<lambda>v. v \<noteq> []) xs = xs" using assms(2) by (simp add: filter_id_conv)
  moreover have "trim_space (str_join xs '','') \<noteq> []"
  proof
    assume e: "trim_space (str_join xs '','') = []"
    then have "\<forall>c\<in>set (dropWhile is_space (str_join xs '','')). is_space c" by (simp add: trim_space_def)
    then have sp: "\<forall>c\<in>set (str_join xs '',''). is_space c" by (metis dropWhile_eq_Nil_conv hd_dropWhile hd_in_set)
    obtain y ys where xs: "xs = y # ys" using assms(1) by (cases xs) auto
    then have "set y \<subseteq> set (str_join xs '','')" by (cases ys) auto
    then have "\<forall>c\<in>set y. is_space c" using sp by blast
    then have "trim_space y = []" using set_dropWhileD [of _ is_space y] by (auto simp: trim_space_def)
    then show False using assms(2) xs by auto
  qed
  ultimately show ?thesis by (simp add: SplitCSV_def)
qed

lemma ScanHostnames_valid: "list_all (\<lambda>h. ValidateScanHostname h = None) ScanHostnames" "SplitCSV ScanHostnamesCSV = ScanHostnames"
  by code_simp+

end
