(* ===== verification/Schema.thy ===== *)
theory Schema
  imports Posture Connections Scan_Runner
begin

text \<open>
  The constraints of the database (\<^verbatim>\<open>migrations/\<close>) as an invariant: primary and unique keys, references with
  what a deletion does to them, and the checks on columns. One predicate per table says what the schema
  promises; every method of \<^verbatim>\<open>internal/store\<close>, on any schedule of failures, keeps them all together. The
  relation \<open>store_call\<close> lists these methods: it is the interface through which the rest of the program
  changes the tables.
\<close>

section \<open>The tables\<close>

definition scans_ok :: "db \<Rightarrow> bool" where
  "scans_ok s \<longleftrightarrow> distinct (map s_ID (t_scans s))"

definition certificates_ok :: "db \<Rightarrow> bool" where
  "certificates_ok s \<longleftrightarrow> distinct (map c_ID (t_certificates s)) \<and> distinct (map c_FingerprintSHA256 (t_certificates s)) \<and>
     c_ChainStatus ` set (t_certificates s) \<subseteq> set chain_status_enum \<and> c_ManagedStatus ` set (t_certificates s) \<subseteq> set managed_status_enum"

text \<open>The unique key of observations; rows whose nullable column is null never conflict.\<close>

definition observation_key :: "observation \<Rightarrow> uuid \<times> uuid \<times> string \<times> int \<times> string option" where
  "observation_key r = (o_CertificateID r, o_ScanID r, o_IP r, o_Port r, o_SNI r)"

definition observations_ok :: "db \<Rightarrow> bool" where
  "observations_ok s \<longleftrightarrow> distinct (map o_ID (t_observations s)) \<and>
     distinct (filter (\<lambda>(c, sc, ip, port, sni). sni \<noteq> None) (map observation_key (t_observations s))) \<and>
     o_CertificateID ` set (t_observations s) \<subseteq> c_ID ` set (t_certificates s) \<and> o_ScanID ` set (t_observations s) \<subseteq> s_ID ` set (t_scans s)"

definition issuers_ok :: "db \<Rightarrow> bool" where
  "issuers_ok s \<longleftrightarrow> distinct (map i_ID (t_issuers s)) \<and> distinct (map i_FingerprintSHA256 (t_issuers s))"

definition events_ok :: "db \<Rightarrow> bool" where
  "events_ok s \<longleftrightarrow> distinct (map e_ID (t_events s)) \<and> Option.these (e_CertificateID ` set (t_events s)) \<subseteq> c_ID ` set (t_certificates s)"

definition jobs_ok :: "db \<Rightarrow> bool" where
  "jobs_ok s \<longleftrightarrow> distinct (map j_ID (t_jobs s)) \<and> distinct (map j_IdempotencyKey (t_jobs s)) \<and>
     Option.these (j_PredecessorCertID ` set (t_jobs s)) \<subseteq> c_ID ` set (t_certificates s) \<and>
     Option.these (j_SuccessorCertID ` set (t_jobs s)) \<subseteq> c_ID ` set (t_certificates s)"

definition job_events_ok :: "db \<Rightarrow> bool" where
  "job_events_ok s \<longleftrightarrow> distinct (map je_ID (t_job_events s)) \<and> je_JobID ` set (t_job_events s) \<subseteq> j_ID ` set (t_jobs s)"

definition approvals_ok :: "db \<Rightarrow> bool" where
  "approvals_ok s \<longleftrightarrow> ap_JobID ` set (t_approvals s) \<subseteq> j_ID ` set (t_jobs s)"

definition finding_rule :: "finding_row \<Rightarrow> uuid \<times> string" where
  "finding_rule f = (f_CertID f, f_RuleID f)"

definition findings_ok :: "db \<Rightarrow> bool" where
  "findings_ok s \<longleftrightarrow> distinct (map f_ID (t_findings s)) \<and> distinct (map finding_rule (t_findings s)) \<and>
     f_CertID ` set (t_findings s) \<subseteq> c_ID ` set (t_certificates s) \<and> f_Severity ` set (t_findings s) \<subseteq> set severity_enum \<and>
     f_Status ` set (t_findings s) \<subseteq> {''open'', ''resolved''}"

definition waivers_ok :: "db \<Rightarrow> bool" where
  "waivers_ok s \<longleftrightarrow> distinct (map w_ID (t_waivers s)) \<and> w_CertID ` set (t_waivers s) \<subseteq> c_ID ` set (t_certificates s)"

definition connections_ok :: "db \<Rightarrow> bool" where
  "connections_ok s \<longleftrightarrow> distinct (map cn_Target (t_connections s)) \<and> list_all conn_target (map cn_Target (t_connections s))"

definition schema_ok :: "db \<Rightarrow> bool" where
  "schema_ok s \<longleftrightarrow> scans_ok s \<and> certificates_ok s \<and> observations_ok s \<and> issuers_ok s \<and> events_ok s \<and> jobs_ok s \<and>
     job_events_ok s \<and> approvals_ok s \<and> findings_ok s \<and> waivers_ok s \<and> connections_ok s"

lemmas table_defs = scans_ok_def certificates_ok_def observations_ok_def issuers_ok_def events_ok_def
  jobs_ok_def job_events_ok_def approvals_ok_def findings_ok_def waivers_ok_def connections_ok_def

section \<open>What keeps them\<close>

definition schema_kept :: "db \<Rightarrow> db \<Rightarrow> bool" where
  "schema_kept s s' \<longleftrightarrow> (schema_ok s \<longrightarrow> schema_ok s')"

lemma schema_keptI:
  assumes "scans_ok s \<Longrightarrow> scans_ok s'" and "certificates_ok s \<Longrightarrow> certificates_ok s'" and "observations_ok s \<Longrightarrow> observations_ok s'"
    and "issuers_ok s \<Longrightarrow> issuers_ok s'" and "events_ok s \<Longrightarrow> events_ok s'" and "jobs_ok s \<Longrightarrow> jobs_ok s'"
    and "job_events_ok s \<Longrightarrow> job_events_ok s'" and "approvals_ok s \<Longrightarrow> approvals_ok s'" and "findings_ok s \<Longrightarrow> findings_ok s'"
    and "waivers_ok s \<Longrightarrow> waivers_ok s'" and "connections_ok s \<Longrightarrow> connections_ok s'"
  shows "schema_kept s s'"
  using assms by (simp add: schema_kept_def schema_ok_def)

interpretation sk: op_relation schema_kept
proof
  show "schema_kept s s" for s by (simp add: schema_kept_def)
  show "schema_kept s t \<Longrightarrow> schema_kept t u \<Longrightarrow> schema_kept s u" for s t u by (simp add: schema_kept_def)
  show "schema_kept s (next_step s)" for s by (rule schema_keptI) (simp_all add: table_defs)
qed

lemma image_of_map: "map f xs = map f ys \<Longrightarrow> f ` set xs = f ` set ys"
  by (metis list.set_map)

lemma sub_un: "X \<subseteq> A \<union> B \<Longrightarrow> B \<subseteq> A \<Longrightarrow> X \<subseteq> A" "X \<subseteq> A \<union> B \<Longrightarrow> A \<subseteq> C \<Longrightarrow> B \<subseteq> C \<Longrightarrow> X \<subseteq> C"
  by blast+

lemma image_upd_subset:
  "key ` set rows \<subseteq> A \<Longrightarrow> (\<And>r. key r \<in> A \<Longrightarrow> key (f r) \<in> A) \<Longrightarrow> key ` set (upd_where p f rows) \<subseteq> A"
  by (auto simp: set_upd_where)

lemma these_subset: "Option.these A \<subseteq> B \<longleftrightarrow> (\<forall>x. Some x \<in> A \<longrightarrow> x \<in> B)"
  by (auto simp: in_these_eq)

text \<open>One lemma per table: a statement that touches it alone.\<close>

lemma scans_kept:
  assumes "map s_ID rows = map s_ID (t_scans s)"
  shows "schema_kept s (s\<lparr>t_scans := rows\<rparr>)"
  using image_of_map [OF assms] by (intro schema_keptI) (simp_all add: table_defs assms)

lemma certificates_kept:
  assumes "map c_ID rows = map c_ID (t_certificates s)" "map c_FingerprintSHA256 rows = map c_FingerprintSHA256 (t_certificates s)"
    and "c_ChainStatus ` set rows \<subseteq> set chain_status_enum \<union> c_ChainStatus ` set (t_certificates s)"
    and "c_ManagedStatus ` set rows \<subseteq> set managed_status_enum \<union> c_ManagedStatus ` set (t_certificates s)"
  shows "schema_kept s (s\<lparr>t_certificates := rows\<rparr>)"
proof (rule schema_keptI)
  show "certificates_ok s \<Longrightarrow> certificates_ok (s\<lparr>t_certificates := rows\<rparr>)"
    using assms(1,2) sub_un(1) [OF assms(3)] sub_un(1) [OF assms(4)] by (simp add: certificates_ok_def)
qed (use image_of_map [OF assms(1)] in \<open>simp_all add: table_defs\<close>)

lemma issuers_kept:
  assumes "issuers_ok s \<Longrightarrow> issuers_ok (s\<lparr>db_seq := n, t_issuers := rows\<rparr>)"
  shows "schema_kept s (s\<lparr>db_seq := n, t_issuers := rows\<rparr>)"
  using assms by (intro schema_keptI) (simp_all add: table_defs)

lemma findings_kept:
  assumes "findings_ok s \<Longrightarrow> findings_ok (s\<lparr>db_seq := n, t_findings := rows\<rparr>)"
  shows "schema_kept s (s\<lparr>db_seq := n, t_findings := rows\<rparr>)"
  using assms by (intro schema_keptI) (simp_all add: table_defs)

lemma waivers_kept:
  assumes "waivers_ok s \<Longrightarrow> waivers_ok (s\<lparr>db_seq := n, t_waivers := rows\<rparr>)"
  shows "schema_kept s (s\<lparr>db_seq := n, t_waivers := rows\<rparr>)"
  using assms by (intro schema_keptI) (simp_all add: table_defs)

lemma connections_kept:
  assumes "connections_ok s \<Longrightarrow> connections_ok (s\<lparr>t_connections := rows\<rparr>)"
  shows "schema_kept s (s\<lparr>t_connections := rows\<rparr>)"
  using assms by (intro schema_keptI) (simp_all add: table_defs)

lemma scan_rows_kept:
  assumes "scans_ok s \<Longrightarrow> scans_ok (s\<lparr>db_seq := n, t_scans := rows\<rparr>)" and "s_ID ` set (t_scans s) \<subseteq> s_ID ` set rows"
  shows "schema_kept s (s\<lparr>db_seq := n, t_scans := rows\<rparr>)"
proof (rule schema_keptI)
  show "observations_ok s \<Longrightarrow> observations_ok (s\<lparr>db_seq := n, t_scans := rows\<rparr>)"
    using subset_trans [OF _ assms(2)] by (simp add: observations_ok_def)
qed (use assms(1) in \<open>simp_all add: table_defs\<close>)

text \<open>The same without a new identifier.\<close>

lemma same_seq: "s\<lparr>db_seq := db_seq s, t_issuers := rows\<rparr> = s\<lparr>t_issuers := rows\<rparr>" "s\<lparr>db_seq := db_seq s, t_findings := fs\<rparr> = s\<lparr>t_findings := fs\<rparr>"
  "s\<lparr>db_seq := db_seq s, t_waivers := ws\<rparr> = s\<lparr>t_waivers := ws\<rparr>"
  by simp_all

lemmas rows_kept = issuers_kept findings_kept waivers_kept issuers_kept [where n = "db_seq s" and s = s for s, unfolded same_seq]
  findings_kept [where n = "db_seq s" and s = s for s, unfolded same_seq] waivers_kept [where n = "db_seq s" and s = s for s, unfolded same_seq]

lemma events_kept:
  assumes "map e_ID rows = map e_ID (t_events s)" "map e_CertificateID rows = map e_CertificateID (t_events s)"
  shows "schema_kept s (s\<lparr>t_events := rows\<rparr>)"
  using image_of_map [OF assms(2)] by (intro schema_keptI) (simp_all add: table_defs assms)

lemma jobs_rows_kept:
  assumes "map j_ID rows = map j_ID (t_jobs s)" "map j_IdempotencyKey rows = map j_IdempotencyKey (t_jobs s)"
    and "map j_PredecessorCertID rows = map j_PredecessorCertID (t_jobs s)"
    and "Option.these (j_SuccessorCertID ` set rows) \<subseteq> c_ID ` set (t_certificates s) \<union> Option.these (j_SuccessorCertID ` set (t_jobs s))"
  shows "schema_kept s (s\<lparr>t_jobs := rows\<rparr>)"
proof (rule schema_keptI)
  show "jobs_ok s \<Longrightarrow> jobs_ok (s\<lparr>t_jobs := rows\<rparr>)"
    using assms(1,2) image_of_map [OF assms(3)] sub_un(1) [OF assms(4)] by (simp add: jobs_ok_def)
qed (use image_of_map [OF assms(1)] in \<open>simp_all add: table_defs\<close>)


section \<open>Statements\<close>

lemma these_insert: "Option.these (insert x A) = set_option x \<union> Option.these A"
  by (cases x) auto

lemma fk_cert_image: "fk_cert c s \<longleftrightarrow> set_option c \<subseteq> c_ID ` set (t_certificates s)"
  by (auto simp: fk_cert_def split: option.splits)

lemma fk_job_image: "fk_job i s \<longleftrightarrow> i \<in> j_ID ` set (t_jobs s)"
  by (auto simp: fk_job_def)

lemmas row_simps = pk_free_image these_insert fk_cert_image fk_job_image

lemma appendEventTx_schema: "sk.tx_ok (appendEventTx ty c p)"
  by (rule sk.tx_okI) (auto simp: appendEventTx_def row_simps split: if_splits intro!: schema_keptI; simp add: table_defs row_simps)

lemma insert_job_schema:
  assumes "\<And>s. j_SuccessorCertID (row s) = None"
  shows "sk.tx_ok (\<lambda>s. insert_job (row s) s)"
proof (rule sk.tx_okI)
  fix s v s' assume run: "insert_job (row s) s = (Inr v, s')"
  then have s': "s' = s\<lparr>db_seq := Suc (db_seq s), t_jobs := t_jobs s @ [row s]\<rparr>"
    and free: "j_IdempotencyKey (row s) \<notin> j_IdempotencyKey ` set (t_jobs s)" "j_ID (row s) \<notin> j_ID ` set (t_jobs s)"
    and fk: "set_option (j_PredecessorCertID (row s)) \<subseteq> c_ID ` set (t_certificates s)"
    by (auto simp: insert_job_def fk_cert_image split: if_splits)
  show "schema_kept s s'" unfolding s'
    by (rule schema_keptI) (simp_all add: table_defs row_simps assms free fk subset_insertI2)
qed

lemma insert_job_event_schema: "sk.tx_ok (insert_job_event i ty p)"
  by (rule sk.tx_okI) (auto simp: insert_job_event_def row_simps split: if_splits intro!: schema_keptI; simp add: table_defs row_simps)

lemma insert_approval_schema: "sk.tx_ok (insert_approval i a d)"
  by (rule sk.tx_okI) (auto simp: insert_approval_def row_simps split: if_splits intro!: schema_keptI; simp add: table_defs row_simps)

lemma observations_kept:
  assumes "o_ID r \<notin> o_ID ` set (t_observations s)" and "o_SNI r \<noteq> None \<Longrightarrow> observation_key r \<notin> observation_key ` set (t_observations s)"
    and "o_CertificateID r \<in> c_ID ` set (t_certificates s)" "o_ScanID r \<in> s_ID ` set (t_scans s)"
  shows "schema_kept s (s\<lparr>db_seq := n, t_observations := t_observations s @ [r]\<rparr>)"
proof (rule schema_keptI)
  show "observations_ok (s\<lparr>db_seq := n, t_observations := t_observations s @ [r]\<rparr>)" if "observations_ok s"
  proof -
    have "distinct (filter q (map observation_key (t_observations s @ [r])))" if "distinct (filter q (map observation_key (t_observations s)))"
      and "q (observation_key r) \<Longrightarrow> o_SNI r \<noteq> None" for q using that assms(2) by auto
    with assms that show ?thesis by (simp add: observations_ok_def observation_key_def)
  qed
qed (simp_all add: table_defs)

lemma upsert_observation_schema: "sk.tx_ok (upsert_observation c sc ob)"
proof (rule sk.tx_okI)
  fix s v s' assume run: "upsert_observation c sc ob s = (Inr v, s')"
  then have refs: "c \<in> c_ID ` set (t_certificates s)" "sc \<in> s_ID ` set (t_scans s)"
    by (auto simp: upsert_observation_def fk_cert_def split: if_splits)
  show "schema_kept s s'"
  proof (cases "\<exists>r\<in>set (t_observations s). same_observation c sc ob r")
    case True
    then have "s' = s\<lparr>t_observations := upd_where (same_observation c sc ob) (\<lambda>r. r\<lparr>o_ObservedAt := po_ObservedAt ob\<rparr>) (t_observations s)\<rparr>"
      using run by (auto simp: upsert_observation_def split: if_splits)
    then show ?thesis by (intro schema_keptI) (simp_all add: table_defs observation_key_def map_upd_where keys_upd_where)
  next
    case False
    then have new: "r \<in> set (t_observations s) \<Longrightarrow> observation_key r = (c, sc, po_IP ob, po_Port ob, nullStr (po_SNI ob)) \<Longrightarrow> nullStr (po_SNI ob) = None" for r
      by (auto simp: same_observation_def observation_key_def)
    show ?thesis using run False refs
      by (auto simp: upsert_observation_def pk_free_image split: if_splits intro!: observations_kept) (use new in \<open>force simp: observation_key_def\<close>)
  qed
qed

lemma cert_upd_kept:
  assumes "\<And>c. c_ID (f c) = c_ID c" "\<And>c. c_FingerprintSHA256 (f c) = c_FingerprintSHA256 c" "\<And>c. c_ChainStatus (f c) = c_ChainStatus c"
    and "\<And>c. c_ManagedStatus (f c) \<in> insert (c_ManagedStatus c) (set managed_status_enum)"
  shows "schema_kept s (s\<lparr>t_certificates := upd_where p f (t_certificates s)\<rparr>)"
proof (rule certificates_kept)
  show "c_ManagedStatus ` set (upd_where p f (t_certificates s)) \<subseteq> set managed_status_enum \<union> c_ManagedStatus ` set (t_certificates s)"
    using assms(4) by (force elim!: in_upd_whereE)
qed (simp_all add: map_upd_where keys_upd_where assms)

lemma upsert_cert_row_schema: "sk.tx_ok (upsert_cert_row parsed ob st days sc)"
proof (rule sk.tx_okI)
  fix s v s' assume run: "upsert_cert_row parsed ob st days sc s = (Inr v, s')"
  show "schema_kept s s'"
  proof (cases "List.find (\<lambda>c. c_FingerprintSHA256 c = pc_FingerprintSHA256 parsed) (t_certificates s)")
    case None
    let ?c = "new_cert parsed ob st days sc s"
    have s': "s' = s\<lparr>db_seq := Suc (db_seq s), t_certificates := t_certificates s @ [?c]\<rparr>"
      and "c_ID ?c \<notin> c_ID ` set (t_certificates s)" "pc_ChainStatus parsed \<in> set chain_status_enum"
      using run None by (auto simp: upsert_cert_row_def pk_free_def split: if_splits)
    moreover have "c_ChainStatus ?c = pc_ChainStatus parsed" "c_ManagedStatus ?c \<in> set managed_status_enum"
      by (simp_all add: new_cert_def managed_status_enum_def)
    moreover have "c_FingerprintSHA256 ?c \<notin> c_FingerprintSHA256 ` set (t_certificates s)"
      using None by (auto simp: find_None_iff)
    ultimately show ?thesis by (intro schema_keptI) (simp_all add: table_defs subset_insertI2)
  next
    case (Some c)
    then show ?thesis using run
      by (auto simp: upsert_cert_row_def rescan_row_def split: if_splits intro!: cert_upd_kept)
  qed
qed

lemma set_renewal_config_schema: "sk.tx_ok (set_renewal_config_tx c cfg)"
  by (rule sk.tx_okI) (auto dest!: set_renewal_config_done intro!: cert_upd_kept)

lemma GetCertificate_schema: "sk.op_ok (GetCertificate i)"
  unfolding GetCertificate_def by (rule sk.op_ok_call, rule sk.tx_ok_read) (auto split: option.splits)

lemma UpdateCertificateEnrichment_schema: "sk.op_ok (UpdateCertificateEnrichment i u)"
  unfolding UpdateCertificateEnrichment_def
  by (intro sk.op_ok_bind GetCertificate_schema, rule sk.op_ok_call, rule sk.tx_okI) (auto intro!: cert_upd_kept)

lemma SetRenewalConfig_schema: "sk.op_ok (SetRenewalConfig i cfg)"
  unfolding SetRenewalConfig_def by (intro sk.op_ok_bind sk.op_ok_call set_renewal_config_schema GetCertificate_schema)

lemma MarkRevoked_schema: "sk.op_ok (MarkRevoked i source)"
  unfolding MarkRevoked_def
  by (intro sk.op_ok_call sk.tx_ok_bind appendEventTx_schema, rule sk.tx_okI) (auto split: if_splits intro!: cert_upd_kept)

lemma SetManagedStatus_schema: "sk.op_ok (SetManagedStatus i st)"
proof -
  have "sk.tx_ok (\<lambda>s. if st \<notin> set managed_status_enum then (Inl ErrDB, s)
      else let p = (\<lambda>c. c_ID c = i \<and> c_ManagedStatus c \<noteq> ''managed_in_vault'') in
        (Inr (hits p (t_certificates s)), s\<lparr>t_certificates := upd_where p
           (\<lambda>c. c\<lparr>c_ManagedStatus := st, c_UpdatedAt := sql_now s\<rparr>) (t_certificates s)\<rparr>))"
    by (rule sk.tx_okI) (auto simp: Let_def split: if_splits intro!: cert_upd_kept)
  then show ?thesis unfolding SetManagedStatus_def
    by (intro sk.op_ok_bind sk.op_ok_call) (auto intro!: sk.op_ok_bind GetCertificate_schema sk.op_ok_ret)
qed

lemma UpdateManagedStatusByFingerprint_schema: "sk.op_ok (UpdateManagedStatusByFingerprint fp u)"
  unfolding UpdateManagedStatusByFingerprint_def
  by (rule sk.op_ok_call, rule sk.tx_okI) (auto simp: reconcile_row_def split: if_splits intro!: cert_upd_kept)

lemma UpdateCertificateRisk_schema: "sk.op_ok (UpdateCertificateRisk i sc rs)"
  unfolding UpdateCertificateRisk_def
  by (rule sk.op_ok_call, rule sk.tx_okI) (auto split: if_splits intro!: cert_upd_kept)

text \<open>A deletion takes the rows that refer to the certificate with it, or clears their reference.\<close>

lemma these_clear: "Option.these ((\<lambda>x. clear_ref i (g x)) ` A) = Option.these (g ` A) - {i}"
proof -
  have "Some x = clear_ref i (g y) \<longleftrightarrow> Some x = g y \<and> x \<noteq> i" for x y by (auto simp: clear_ref_def)
  then show ?thesis by (auto simp: in_these_eq image_iff)
qed

lemma keys_but: "key ` {x \<in> A. key x \<noteq> i} = key ` A - {i}"
  by auto

lemma distinct_filter_keys: "distinct (filter q (map key xs)) \<Longrightarrow> distinct (filter q (map key (filter p xs)))"
  by (induction xs) auto

lemma DeleteCertificate_schema: "sk.op_ok (DeleteCertificate i)"
proof -
  have "schema_kept s (s\<lparr>t_certificates := filter (\<lambda>c. c_ID c \<noteq> i) (t_certificates s),
        t_observations := filter (\<lambda>ob. o_CertificateID ob \<noteq> i) (t_observations s),
        t_events := map (\<lambda>e. e\<lparr>e_CertificateID := clear_ref i (e_CertificateID e)\<rparr>) (t_events s),
        t_jobs := map (\<lambda>j. j\<lparr>j_PredecessorCertID := clear_ref i (j_PredecessorCertID j),
                             j_SuccessorCertID := clear_ref i (j_SuccessorCertID j)\<rparr>) (t_jobs s),
        t_findings := filter (\<lambda>f. f_CertID f \<noteq> i) (t_findings s),
        t_waivers := filter (\<lambda>w. w_CertID w \<noteq> i) (t_waivers s)\<rparr>)" for s
    by (rule schema_keptI) (auto simp: table_defs these_clear keys_but distinct_map_filter distinct_filter_keys comp_def image_image)
  then show ?thesis unfolding DeleteCertificate_def
    by (intro sk.op_ok_call sk.tx_okI) (auto split: if_splits)
qed

lemma DeleteScan_schema: "sk.op_ok (DeleteScan i)"
proof -
  have "schema_kept s (s\<lparr>t_scans := filter (\<lambda>sc. s_ID sc \<noteq> i) (t_scans s), t_observations := filter (\<lambda>ob. o_ScanID ob \<noteq> i) (t_observations s)\<rparr>)" for s
  proof (rule schema_keptI)
    assume "observations_ok s"
    then show "observations_ok (s\<lparr>t_scans := filter (\<lambda>sc. s_ID sc \<noteq> i) (t_scans s), t_observations := filter (\<lambda>ob. o_ScanID ob \<noteq> i) (t_observations s)\<rparr>)"
      by (auto simp: observations_ok_def keys_but distinct_map_filter distinct_filter_keys)
  qed (simp_all add: table_defs distinct_map_filter)
  then show ?thesis unfolding DeleteScan_def by (intro sk.op_ok_call sk.tx_okI) (auto split: if_splits)
qed

lemma UpsertIssuer_schema: "sk.op_ok (UpsertIssuer esd parsed chain)"
proof -
  have "sk.op_ok (db_call (\<lambda>s.
        if \<exists>i\<in>set (t_issuers s). i_FingerprintSHA256 i = fp
        then (Inr (), s\<lparr>t_issuers := upd_where p (\<lambda>i. i\<lparr>i_DaysUntilExpiry := days, i_Status := st, i_CAChain := ch\<rparr>) (t_issuers s)\<rparr>)
        else if \<not> pk_free i_ID (new_uuid s) (t_issuers s) then (Inl ErrDB, s)
        else (Inr (), s\<lparr>db_seq := Suc (db_seq s), t_issuers := t_issuers s @ [row s]\<rparr>)))"
    if "\<And>s. i_ID (row s) = new_uuid s" "\<And>s. i_FingerprintSHA256 (row s) = fp" for fp p days st ch row
    using that by (intro sk.op_ok_call sk.tx_okI) (auto simp: issuers_ok_def pk_free_image map_upd_where split: if_splits intro!: rows_kept)
  then show ?thesis by (simp add: UpsertIssuer_def sk.op_ok_def split: prod.splits)
qed

lemma SetIssuerVaultRef_schema: "sk.op_ok (SetIssuerVaultRef i ref mount)"
  unfolding SetIssuerVaultRef_def GetIssuer_def
  by (rule sk.op_ok_bind; rule sk.op_ok_call, rule sk.tx_okI)
     (auto simp: issuers_ok_def map_upd_where sk.R_refl split: if_splits option.splits intro!: rows_kept)

lemma DeleteIssuer_schema: "sk.op_ok (DeleteIssuer i)"
  unfolding DeleteIssuer_def
  by (rule sk.op_ok_call, rule sk.tx_okI) (auto simp: issuers_ok_def distinct_map_filter split: if_splits intro!: rows_kept)

subsection \<open>Scans\<close>

lemma CreateScanWithSource_schema: "sk.op_ok (CreateScanWithSource src cidrs hosts ports conc mp)"
  unfolding CreateScanWithSource_def Let_def
  by (rule sk.op_ok_call, rule sk.tx_okI) (auto simp: scans_ok_def pk_free_image split: if_splits intro!: scan_rows_kept)

lemma claim_schema:
  assumes "sk.tx_ok claim" and "\<And>i. sk.op_ok (get i)"
  shows "sk.op_ok (bind_op (db_call claim) (get_all get))"
  using assms by (intro sk.op_ok_bind sk.op_ok_call sk.op_ok_get_all)

lemma GetScan_schema: "sk.op_ok (GetScan i)"
  unfolding GetScan_def by (rule sk.op_ok_call, rule sk.tx_ok_read) (auto split: option.splits)

lemma ClaimNextScans_schema: "sk.op_ok (ClaimNextScans owner ttl limit)"
proof -
  have "sk.tx_ok (\<lambda>s. case claim_scans owner (lck s) st (now s) n (t_scans s) of (ids, rows) \<Rightarrow> (Inr ids, s\<lparr>t_scans := rows\<rparr>))" for lck st now n
    by (rule sk.tx_okI) (auto simp: claim_scans_def Let_def map_upd_where intro!: scans_kept)
  from claim_schema [OF this GetScan_schema] show ?thesis
    by (simp add: ClaimNextScans_def sk.op_ok_def Let_def sk.R_refl)
qed

lemma HeartbeatScanClaim_schema: "sk.op_ok (HeartbeatScanClaim i owner)"
  unfolding HeartbeatScanClaim_def by (rule sk.op_ok_call, rule sk.tx_okI) (auto simp: map_upd_where split: if_splits intro!: scans_kept)

lemma ReleaseScanClaim_schema: "sk.op_ok (ReleaseScanClaim i owner)"
  unfolding ReleaseScanClaim_def by (rule sk.op_ok_call, rule sk.tx_okI) (auto simp: map_upd_where intro!: scans_kept)

lemma update_scan_schema:
  assumes "\<And>now sc. s_ID (f now sc) = s_ID sc"
  shows "sk.op_ok (update_scan i f)"
proof -
  have "sk.op_ok (db_call (\<lambda>t. (Inr (), t\<lparr>t_scans := upd_where (\<lambda>sc. s_ID sc = i) (f now) (t_scans t)\<rparr>)))" for now
    by (rule sk.op_ok_call, rule sk.tx_okI) (auto simp: map_upd_where assms intro!: scans_kept)
  then show ?thesis by (simp add: update_scan_def sk.op_ok_def)
qed

lemma scan_updates_schema: "sk.op_ok (UpdateScanRunning i n)" "sk.op_ok (UpdateScanProgress i n m)" "sk.op_ok (CompleteScan i sm)" "sk.op_ok (FailScan i e)"
  by (simp_all add: UpdateScanRunning_def UpdateScanProgress_def CompleteScan_def FailScan_def update_scan_schema)

subsection \<open>Events\<close>

lemma appendEventStandalone_schema: "sk.op_ok (appendEventStandalone ty c p)"
  unfolding appendEventStandalone_def by (intro sk.op_ok_call appendEventTx_schema)

lemma get_event_schema: "sk.op_ok (get_event i)"
  unfolding get_event_def by (rule sk.op_ok_call, rule sk.tx_ok_read) (auto split: option.splits)

lemma ClaimUndeliveredEvents_schema: "sk.op_ok (ClaimUndeliveredEvents owner ttl limit m)"
proof -
  have "sk.tx_ok (\<lambda>s. case claim_events owner (lck s) k (now s) x n (t_events s) of (ids, rows) \<Rightarrow> (Inr ids, s\<lparr>t_events := rows\<rparr>))" for lck k now x n
    by (rule sk.tx_okI) (auto simp: claim_events_def Let_def map_upd_where intro!: events_kept)
  from claim_schema [OF this get_event_schema] show ?thesis
    by (simp add: ClaimUndeliveredEvents_def sk.op_ok_def Let_def sk.R_refl)
qed

lemma mark_event_schema: "sk.op_ok (MarkEventDelivered i)" "sk.op_ok (MarkEventFailed i msg)"
  unfolding MarkEventDelivered_def MarkEventFailed_def
  by (rule sk.op_ok_call, rule sk.tx_okI, auto simp: map_upd_where intro!: events_kept)+

subsection \<open>Jobs\<close>

lemma jobs_upd_kept:
  assumes "\<And>j. j_ID (f j) = j_ID j" "\<And>j. j_IdempotencyKey (f j) = j_IdempotencyKey j" "\<And>j. j_PredecessorCertID (f j) = j_PredecessorCertID j"
    and "\<And>j. j_SuccessorCertID (f j) = j_SuccessorCertID j \<or> set_option (j_SuccessorCertID (f j)) \<subseteq> c_ID ` set (t_certificates s)"
  shows "schema_kept s (s\<lparr>t_jobs := upd_where p f (t_jobs s)\<rparr>)"
proof (rule jobs_rows_kept)
  show "Option.these (j_SuccessorCertID ` set (upd_where p f (t_jobs s))) \<subseteq> c_ID ` set (t_certificates s) \<union> Option.these (j_SuccessorCertID ` set (t_jobs s))"
  proof
    fix i assume "i \<in> Option.these (j_SuccessorCertID ` set (upd_where p f (t_jobs s)))"
    then obtain j where j: "j \<in> set (upd_where p f (t_jobs s))" "j_SuccessorCertID j = Some i" by (auto simp: in_these_eq)
    from j(1) obtain j' where "j' \<in> set (t_jobs s)" "j = j' \<or> j = f j'" by (auto elim!: in_upd_whereE)
    then show "i \<in> c_ID ` set (t_certificates s) \<union> Option.these (j_SuccessorCertID ` set (t_jobs s))"
      using j(2) assms(4) [of j'] by (force simp: in_these_eq image_iff)
  qed
qed (simp_all add: map_upd_where assms)

lemma update_job_schema:
  assumes "\<And>now j. j_ID (f now j) = j_ID j" "\<And>now j. j_IdempotencyKey (f now j) = j_IdempotencyKey j"
    and "\<And>now j. j_PredecessorCertID (f now j) = j_PredecessorCertID j" "\<And>now j. j_SuccessorCertID (f now j) = j_SuccessorCertID j"
  shows "sk.op_ok (update_job i f)"
  unfolding update_job_def
  by (rule sk.op_ok_call, rule sk.tx_okI) (auto simp: assms split: if_splits intro!: jobs_upd_kept)

lemma job_updates_schema: "sk.op_ok (SetLifecycleAAPRef i a w st)" "sk.op_ok (ScheduleNextVerify i n t)"
  by (simp_all add: SetLifecycleAAPRef_def ScheduleNextVerify_def update_job_schema)

lemma UpdateLifecycleStatus_schema: "sk.op_ok (UpdateLifecycleStatus i p)"
  unfolding UpdateLifecycleStatus_def
  by (rule sk.op_ok_call, rule sk.tx_okI)
     (auto simp: fk_cert_image coalesce_def split: if_splits option.splits intro!: jobs_upd_kept)

lemma find_job_schema: "sk.op_ok (find_job p)"
  unfolding find_job_def by (rule sk.op_ok_call, rule sk.tx_ok_read) (auto split: option.splits)

lemmas get_job_schema = find_job_schema [of "\<lambda>j. j_ID j = i" for i, folded GetLifecycleJob_def]
  find_job_schema [of "\<lambda>j. j_IdempotencyKey j = key" for key, folded GetLifecycleJobByIdempotency_def]

lemma claim_jobs_schema:
  "sk.tx_ok (\<lambda>s. case claim_jobs owner (lck s) due key (upd s) (now s) x n (t_jobs s) of (ids, rows) \<Rightarrow> (Inr ids, s\<lparr>t_jobs := rows\<rparr>))"
  by (rule sk.tx_okI) (auto simp: claim_jobs_def Let_def intro!: jobs_upd_kept)

lemma claims_schema: "sk.op_ok (ClaimLifecycleJobs owner ttl limit)" "sk.op_ok (ClaimDueVerifyJobs t limit ttl)"
  using claim_schema [OF claim_jobs_schema get_job_schema(1)]
  by (simp_all add: ClaimLifecycleJobs_def ClaimDueVerifyJobs_def sk.op_ok_def Let_def)

lemma ExpireTimedOutVerifyJobs_schema: "sk.op_ok (ExpireTimedOutVerifyJobs t)"
proof -
  have "sk.op_ok (db_call (\<lambda>s. (Inr (r s), s\<lparr>t_jobs := upd_where p (expire_row (sql_now s)) (t_jobs s)\<rparr>)))" for r :: "db \<Rightarrow> lifecycle_job list" and p
    by (rule sk.op_ok_call, rule sk.tx_okI) (auto simp: expire_row_def intro!: jobs_upd_kept)
  then show ?thesis by (simp add: sk.op_ok_def ExpireTimedOutVerifyJobs_def Let_def)
qed

lemmas job_tx_schema = insert_job_schema insert_job_event_schema insert_approval_schema appendEventTx_schema set_renewal_config_schema sk.tx_ok_ret

lemma new_job_successor [simp]: "j_SuccessorCertID (new_job k st p key ex a w s) = None" "j_SuccessorCertID (new_migrate_job c fp ex a w tm nv s) = None"
  by (simp_all add: new_job_def new_migrate_job_def)

lemma launches_schema:
  "sk.op_ok (InsertLifecycleJob ip)" "sk.op_ok (PersistRenewLaunch c cfg fp a w ex)"
  "sk.op_ok (PersistMigrateLaunch c cfg fp a w ex tm nv)" "sk.op_ok (InsertMigrateJobPending c fp ex tm nv)"
  unfolding InsertLifecycleJob_def PersistRenewLaunch_def PersistMigrateLaunch_def InsertMigrateJobPending_def
  by (intro sk.op_ok_call sk.tx_ok_bind job_tx_schema; simp)+

lemma job_notes_schema: "sk.op_ok (AppendLifecycleJobEvent i ty p)" "sk.op_ok (InsertLifecycleApproval i a d)" "sk.op_ok (AppendRenewalOutboxEvent ty c pl)"
  unfolding AppendLifecycleJobEvent_def InsertLifecycleApproval_def AppendRenewalOutboxEvent_def
  by (intro sk.op_ok_call job_tx_schema appendEventStandalone_schema)+

lemma InsertLifecycleJobPending_schema: "sk.op_ok (InsertLifecycleJobPending c fp e)"
proof -
  have "sk.op_ok (bind_op (InsertLifecycleJob p) (\<lambda>job s.
      (Inr job, ignore (appendEventStandalone ty c' pl) (ignore (AppendLifecycleJobEvent (j_ID job) ty' pl')
        (ignore (InsertLifecycleApproval (j_ID job) a d) s)))))" for p ty c' pl ty' pl' a d
    by (rule sk.op_ok_bind [OF launches_schema(1)], unfold sk.op_ok_def snd_conv)
       (intro allI sk.op_ok_ignore sk.R_refl job_notes_schema appendEventStandalone_schema)
  then show ?thesis by (simp add: sk.op_ok_def InsertLifecycleJobPending_def Let_def)
qed

lemma ClaimByIdempotency_schema: "sk.op_ok (ClaimByIdempotency key a)"
proof -
  have "sk.op_ok (bind_op (SetLifecycleAAPRef i a w st) (\<lambda>_. GetLifecycleJob i))" for i w st
    by (intro sk.op_ok_bind job_updates_schema get_job_schema)
  with get_job_schema(2) show ?thesis unfolding ClaimByIdempotency_def
    by (intro sk.op_ok_bind) (auto simp: sk.op_ok_def sk.R_refl split: option.splits)
qed

subsection \<open>Findings, waivers, connections\<close>

lemma upsert_finding_schema: "sk.tx_ok (upsert_finding u)"
proof (rule sk.tx_okI)
  fix s v s' assume run: "upsert_finding u s = (Inr v, s')"
  have checked: "fu_Severity u \<in> set severity_enum" "fu_CertID u \<in> c_ID ` set (t_certificates s)"
    using run by (auto simp: upsert_finding_def fk_cert_image split: if_splits)
  let ?p = "\<lambda>f. f_CertID f = fu_CertID u \<and> f_RuleID f = fu_RuleID u"
  show "schema_kept s s'"
  proof (cases "\<exists>f\<in>set (t_findings s). ?p f")
    case True
    let ?rows = "upd_where ?p (refresh_finding (sql_now s) u) (t_findings s)"
    have "f_Severity ` set ?rows \<subseteq> set severity_enum" "f_Status ` set ?rows \<subseteq> {''open'', ''resolved''}" if "findings_ok s"
      using that checked(1) by (intro image_upd_subset; simp add: findings_ok_def refresh_finding_def)+
    moreover have "s' = s\<lparr>t_findings := ?rows\<rparr>" using run True by (auto simp: upsert_finding_def split: if_splits)
    ultimately show ?thesis
      by (auto simp: findings_ok_def refresh_finding_def finding_rule_def map_upd_where keys_upd_where intro!: rows_kept)
  next
    case False
    then obtain f where s': "s' = s\<lparr>db_seq := Suc (db_seq s), t_findings := t_findings s @ [f]\<rparr>"
      and f: "f_ID f \<notin> f_ID ` set (t_findings s)" "f_CertID f = fu_CertID u" "f_RuleID f = fu_RuleID u" "f_Severity f = fu_Severity u" "f_Status f = ''open''"
      using run by (fastforce simp: upsert_finding_def pk_free_image split: if_splits)
    have "finding_rule f \<notin> finding_rule ` set (t_findings s)" using False f by (auto simp: finding_rule_def)
    then show ?thesis unfolding s' using f checked by (intro rows_kept) (simp add: findings_ok_def)
  qed
qed

lemma upsert_findings_schema: "sk.tx_ok (upsert_findings us)"
  by (induction us) (auto intro: sk.tx_ok_bind upsert_finding_schema sk.tx_ok_ret)

lemma resolve_missing_schema: "sk.tx_ok (resolve_missing i seen)"
proof (rule sk.tx_okI)
  fix s v s' assume "resolve_missing i seen s = (Inr v, s')"
  moreover have "f_Status ` set (upd_where p (\<lambda>f. f\<lparr>f_Status := ''resolved'', f_ResolvedAt := x, f_UpdatedAt := y\<rparr>) (t_findings s)) \<subseteq> {''open'', ''resolved''}"
    if "findings_ok s" for p x y using that by (intro image_upd_subset) (simp_all add: findings_ok_def)
  ultimately show "schema_kept s s'"
    by (auto simp: resolve_missing_def findings_ok_def finding_rule_def map_upd_where keys_upd_where intro!: rows_kept)
qed

lemma UpsertFindings_schema: "sk.op_ok (UpsertFindings collate i us)"
  unfolding UpsertFindings_def ListOpenFindings_def
  by (intro sk.op_ok_bind sk.op_ok_call sk.tx_ok_bind upsert_findings_schema resolve_missing_schema sk.tx_ok_ret)

lemma CreateWaiver_schema: "sk.op_ok (CreateWaiver i rule reason actor t)"
proof -
  have "sk.op_ok (db_call (\<lambda>s.
        if \<not> fk_cert (Some i) s \<or> \<not> pk_free w_ID (new_uuid s) (t_waivers s) then (Inl ErrDB, s)
        else let w = \<lparr>w_ID = new_uuid s, w_CertID = i, w_RuleID = rule, w_Reason = reason, w_CreatedBy = actor,
                 w_ExpiresAt = t, w_CreatedAt = sql_now s, w_RevokedAt = None\<rparr> in
          (Inr w, s\<lparr>db_seq := Suc (db_seq s), t_waivers := t_waivers s @ [w]\<rparr>)))"
    by (rule sk.op_ok_call, rule sk.tx_okI) (auto simp: row_simps waivers_ok_def Let_def split: if_splits intro!: rows_kept)
  then show ?thesis by (simp add: CreateWaiver_def sk.op_ok_def sk.R_refl)
qed

lemma RevokeWaiver_schema: "sk.op_ok (RevokeWaiver i)"
  unfolding RevokeWaiver_def
  by (rule sk.op_ok_call, rule sk.tx_okI)
     (auto simp: Let_def waivers_ok_def map_upd_where keys_upd_where split: if_splits intro!: rows_kept)

lemma put_connection_schema: "sk.op_ok (db_call (put_connection row))"
proof (rule sk.op_ok_call, rule sk.tx_okI)
  fix s v s' assume run: "put_connection row s = (Inr v, s')"
  let ?new = "row\<lparr>cn_UpdatedAt := sql_now s\<rparr>"
  have same: "map cn_Target (upd_where (\<lambda>c. cn_Target c = cn_Target row) (\<lambda>_. ?new) rows) = map cn_Target rows" for rows
    by (simp add: upd_where_def)
  show "schema_kept s s'" using run
    by (auto simp: put_connection_def Let_def connections_ok_def same image_iff simp del: map_map list.pred_map split: if_splits intro!: connections_kept) blast
qed

lemma AppendAudit_schema: "sk.op_ok (AppendAudit ev pl)"
  unfolding AppendAudit_def
  by (rule sk.op_ok_call, rule sk.tx_okI, rule schema_keptI) (simp_all add: table_defs)

section \<open>The calls of the store\<close>

text \<open>Two states with the same tables: between them nothing was written, whatever was read, failed or asked of other servers.\<close>

definition same_tables :: "db \<Rightarrow> db \<Rightarrow> bool" where
  "same_tables s s' \<longleftrightarrow> t_scans s' = t_scans s \<and> t_issuers s' = t_issuers s \<and> t_certificates s' = t_certificates s \<and>
     t_observations s' = t_observations s \<and> t_events s' = t_events s \<and> t_jobs s' = t_jobs s \<and> t_job_events s' = t_job_events s \<and>
     t_approvals s' = t_approvals s \<and> t_findings s' = t_findings s \<and> t_waivers s' = t_waivers s \<and> t_policies s' = t_policies s \<and>
     t_audit s' = t_audit s \<and> t_connections s' = t_connections s"

lemma schema_kept_same: "same_tables s s' \<Longrightarrow> schema_kept s s'"
  by (rule schema_keptI) (simp_all add: same_tables_def table_defs)

text \<open>
  Every write of the program: one rule per method of the store with one transaction, and per transaction of the
  methods that have several (\<^verbatim>\<open>UpsertCertificate\<close>, \<^verbatim>\<open>InsertLifecycleJobPending\<close>, \<^verbatim>\<open>ClaimByIdempotency\<close>,
  \<^verbatim>\<open>UpsertConnection\<close>), so that calls of different processes may follow each other in any order.
\<close>

inductive store_call :: "db \<Rightarrow> db \<Rightarrow> bool" where
  "same_tables s s' \<Longrightarrow> store_call s s'"
| "db_call (upsert_cert_row parsed ob st days sc) s = (ri, s') \<Longrightarrow> store_call s s'"
| "db_call (upsert_observation i k ob) s = (ru, s') \<Longrightarrow> store_call s s'"
| "UpdateCertificateEnrichment i eu s = (rc, s') \<Longrightarrow> store_call s s'"
| "SetRenewalConfig i cfg s = (rc, s') \<Longrightarrow> store_call s s'"
| "MarkRevoked i source s = (ru, s') \<Longrightarrow> store_call s s'"
| "SetManagedStatus i st s = (rc, s') \<Longrightarrow> store_call s s'"
| "UpdateManagedStatusByFingerprint fp mu s = (rb, s') \<Longrightarrow> store_call s s'"
| "UpdateCertificateRisk i n reasons s = (ru, s') \<Longrightarrow> store_call s s'"
| "DeleteCertificate i s = (ru, s') \<Longrightarrow> store_call s s'"
| "DeleteScan i s = (ru, s') \<Longrightarrow> store_call s s'"
| "UpsertIssuer n parsed chain s = (ru, s') \<Longrightarrow> store_call s s'"
| "SetIssuerVaultRef i ref mount s = (rs, s') \<Longrightarrow> store_call s s'"
| "DeleteIssuer i s = (ru, s') \<Longrightarrow> store_call s s'"
| "CreateScanWithSource src cidrs hosts ports n m s = (rsc, s') \<Longrightarrow> store_call s s'"
| "ClaimNextScans owner d n s = (rscs, s') \<Longrightarrow> store_call s s'"
| "HeartbeatScanClaim i owner s = (ru, s') \<Longrightarrow> store_call s s'"
| "ReleaseScanClaim i owner s = (ru, s') \<Longrightarrow> store_call s s'"
| "UpdateScanRunning i n s = (ru, s') \<Longrightarrow> store_call s s'"
| "UpdateScanProgress i n m s = (ru, s') \<Longrightarrow> store_call s s'"
| "CompleteScan i sm s = (ru, s') \<Longrightarrow> store_call s s'"
| "FailScan i msg s = (ru, s') \<Longrightarrow> store_call s s'"
| "appendEventStandalone ty co pl s = (ru, s') \<Longrightarrow> store_call s s'"
| "ClaimUndeliveredEvents owner d n m s = (re, s') \<Longrightarrow> store_call s s'"
| "MarkEventDelivered i s = (ru, s') \<Longrightarrow> store_call s s'"
| "MarkEventFailed i msg s = (ru, s') \<Longrightarrow> store_call s s'"
| "InsertLifecycleJob ip s = (rj, s') \<Longrightarrow> store_call s s'"
| "AppendLifecycleJobEvent i ty po s = (ru, s') \<Longrightarrow> store_call s s'"
| "InsertLifecycleApproval i actor ty s = (ru, s') \<Longrightarrow> store_call s s'"
| "PersistRenewLaunch i cfg fp n w po s = (rj, s') \<Longrightarrow> store_call s s'"
| "PersistMigrateLaunch i cfg fp n w po d t s = (rj, s') \<Longrightarrow> store_call s s'"
| "InsertMigrateJobPending i fp po d t s = (rj, s') \<Longrightarrow> store_call s s'"
| "ClaimLifecycleJobs owner d n s = (rjs, s') \<Longrightarrow> store_call s s'"
| "ClaimDueVerifyJobs t n d s = (rjs, s') \<Longrightarrow> store_call s s'"
| "ExpireTimedOutVerifyJobs t s = (rjs, s') \<Longrightarrow> store_call s s'"
| "ScheduleNextVerify i n t s = (ru, s') \<Longrightarrow> store_call s s'"
| "SetLifecycleAAPRef i n w jst s = (ru, s') \<Longrightarrow> store_call s s'"
| "UpdateLifecycleStatus i up s = (ru, s') \<Longrightarrow> store_call s s'"
| "UpsertFindings collate i us s = (rf, s') \<Longrightarrow> store_call s s'"
| "CreateWaiver i rule reason actor t s = (rw, s') \<Longrightarrow> store_call s s'"
| "RevokeWaiver i s = (ru, s') \<Longrightarrow> store_call s s'"
| "db_call (put_connection row) s = (ru, s') \<Longrightarrow> store_call s s'"
| "AppendAudit ev po s = (ru, s') \<Longrightarrow> store_call s s'"

lemmas store_schema = sk.op_ok_call [OF upsert_cert_row_schema] sk.op_ok_call [OF upsert_observation_schema]
  UpdateCertificateEnrichment_schema SetRenewalConfig_schema MarkRevoked_schema SetManagedStatus_schema
  UpdateManagedStatusByFingerprint_schema UpdateCertificateRisk_schema DeleteCertificate_schema DeleteScan_schema
  UpsertIssuer_schema SetIssuerVaultRef_schema DeleteIssuer_schema CreateScanWithSource_schema ClaimNextScans_schema
  HeartbeatScanClaim_schema ReleaseScanClaim_schema scan_updates_schema appendEventStandalone_schema
  ClaimUndeliveredEvents_schema mark_event_schema launches_schema job_notes_schema claims_schema
  ExpireTimedOutVerifyJobs_schema job_updates_schema UpdateLifecycleStatus_schema UpsertFindings_schema
  CreateWaiver_schema RevokeWaiver_schema put_connection_schema AppendAudit_schema

lemma store_call_kept: "store_call s s' \<Longrightarrow> schema_kept s s'"
  by (cases rule: store_call.cases)
     (assumption, erule schema_kept_same, (rule sk.op_ok_run [rotated], assumption, rule store_schema)+)

text \<open>A certificate, its observation by a scan and a job for it.\<close>

definition example_rows :: db where
  "example_rows = empty_db\<lparr>t_certificates := [(blank_cert 5 ''fp'')\<lparr>c_ChainStatus := ''complete''\<rparr>],
     t_scans := [new_scan ''network'' [] [] [] 1 empty_db],
     t_observations := [\<lparr>o_ID = 7, o_CertificateID = 5, o_ScanID = s_ID (new_scan ''network'' [] [] [] 1 empty_db), o_IP = ''192.0.2.1'', o_Port = 443,
        o_Hostname = None, o_SNI = None, o_TLSVersion = None, o_CipherSuite = None, o_ObservedAt = 0\<rparr>],
     t_jobs := [example_job]\<rparr>"



end
