(* ===== verification/History.thy ===== *)
theory History
  imports Schema "HOL-Library.Sublist"
begin

text \<open>
  The records that only grow. The audit trail, the timelines and approvals of jobs are never changed or removed
  (the schema forbids it for \<^verbatim>\<open>audit_events\<close> by a trigger, \<^verbatim>\<open>000008_audit_events.up.sql\<close>; no statement of the
  code attempts it), events and jobs keep what they were created with, and none of them is ever deleted, not even
  with the certificate they are about.
\<close>

section \<open>What an event and a job are\<close>

definition event_ident :: "event \<Rightarrow> uuid \<times> string \<times> json \<times> time" where
  "event_ident e = (e_ID e, e_EventType e, e_Payload e, e_CreatedAt e)"

definition history_kept :: "db \<Rightarrow> db \<Rightarrow> bool" where
  "history_kept s s' \<longleftrightarrow> prefix (t_audit s) (t_audit s') \<and> prefix (map event_ident (t_events s)) (map event_ident (t_events s')) \<and>
     prefix (map job_ident (t_jobs s)) (map job_ident (t_jobs s')) \<and>
     prefix (t_job_events s) (t_job_events s') \<and> prefix (t_approvals s) (t_approvals s')"

interpretation hk: op_relation history_kept
proof
  show "history_kept s s" for s by (simp add: history_kept_def)
  show "history_kept s t \<Longrightarrow> history_kept t u \<Longrightarrow> history_kept s u" for s t u
    unfolding history_kept_def by (blast intro: prefix_order.trans)
  show "history_kept s (next_step s)" for s by (simp add: history_kept_def)
qed

named_theorems history "operations of the store that keep the history"

section \<open>Statements\<close>

text \<open>A statement on other tables, a statement that changes rows in place, and one that adds a row.\<close>

lemma tx_history:
  assumes "\<And>s v s'. m s = (Inr v, s') \<Longrightarrow> t_audit s' = t_audit s \<and> t_job_events s' = t_job_events s \<and> t_approvals s' = t_approvals s \<and>
      map event_ident (t_events s') = map event_ident (t_events s) \<and> map job_ident (t_jobs s') = map job_ident (t_jobs s)"
  shows "hk.tx_ok m"
  using assms by (intro hk.tx_okI) (simp add: history_kept_def)

lemma rows_history:
  "hk.tx_ok (appendEventTx ty c p)" "hk.tx_ok (\<lambda>s. insert_job (row s) s)" "hk.tx_ok (insert_job_event i ty p)"
  "hk.tx_ok (insert_approval i a d)" "hk.tx_ok (set_renewal_config_tx i cfg)"
  "hk.tx_ok (upsert_cert_row parsed ob st days sc)" "hk.tx_ok (upsert_observation i k ob)" "hk.tx_ok (put_connection row')"
  by (rule hk.tx_okI, auto simp: history_kept_def appendEventTx_def insert_job_def insert_job_event_def insert_approval_def
      set_renewal_config_tx_def upsert_cert_row_def upsert_observation_def put_connection_def Let_def split: if_splits option.splits)+

lemma reads_history: "hk.op_ok (GetCertificate i)" "hk.op_ok (GetScan i)" "hk.op_ok (GetIssuer i)" "hk.op_ok (GetLifecycleJob i)" "hk.op_ok (get_event i)"
  unfolding GetCertificate_def GetScan_def GetIssuer_def GetLifecycleJob_def find_job_def get_event_def
  by (rule hk.op_ok_call, rule hk.tx_ok_read, auto split: option.splits)+

section \<open>Methods\<close>

lemma certificates_history [history]:
  "hk.op_ok (db_call (upsert_cert_row parsed ob st days sc))" "hk.op_ok (db_call (upsert_observation i k ob))"
  "hk.op_ok (UpdateCertificateEnrichment i eu)" "hk.op_ok (SetRenewalConfig i cfg)" "hk.op_ok (MarkRevoked i source)"
  "hk.op_ok (UpdateManagedStatusByFingerprint fp mu)" "hk.op_ok (UpdateCertificateRisk i n reasons)"
  unfolding UpdateCertificateEnrichment_def SetRenewalConfig_def MarkRevoked_def UpdateManagedStatusByFingerprint_def UpdateCertificateRisk_def
  by (intro hk.op_ok_call hk.op_ok_bind hk.tx_ok_bind rows_history reads_history;
      (rule tx_history, auto simp: Let_def split: if_splits)?)+

lemma SetManagedStatus_history [history]: "hk.op_ok (SetManagedStatus i st)"
proof -
  have "hk.tx_ok (\<lambda>s. if b then (Inl ErrDB, s) else (Inr (h s), s\<lparr>t_certificates := g s\<rparr>))" for b g and h :: "db \<Rightarrow> nat"
    by (rule tx_history) (auto split: if_splits)
  then show ?thesis unfolding SetManagedStatus_def Let_def
    by (intro hk.op_ok_bind hk.op_ok_call) (auto intro!: hk.op_ok_bind reads_history hk.op_ok_ret)
qed

lemma deletions_history [history]: "hk.op_ok (DeleteCertificate i)" "hk.op_ok (DeleteScan i)" "hk.op_ok (DeleteIssuer i)"
  unfolding DeleteCertificate_def DeleteScan_def DeleteIssuer_def
  by (rule hk.op_ok_call, rule tx_history, auto simp: event_ident_def job_ident_def comp_def split: if_splits)+

lemma issuers_history [history]: "hk.op_ok (UpsertIssuer n parsed chain)" "hk.op_ok (SetIssuerVaultRef i ref mount)"
proof -
  have "hk.op_ok (db_call (\<lambda>s. if b s then (Inr (), s\<lparr>t_issuers := g s\<rparr>) else if b' s then (Inl ErrDB, s)
      else (Inr (), s\<lparr>db_seq := n' s, t_issuers := g' s\<rparr>)))" for b b' g g' n'
    by (rule hk.op_ok_call, rule tx_history) (auto split: if_splits)
  then show "hk.op_ok (UpsertIssuer n parsed chain)" by (simp add: UpsertIssuer_def hk.op_ok_def split: prod.splits)
  show "hk.op_ok (SetIssuerVaultRef i ref mount)" unfolding SetIssuerVaultRef_def
    by (intro hk.op_ok_bind reads_history hk.op_ok_call; rule tx_history; auto split: if_splits)
qed

lemma claim_history:
  assumes "hk.tx_ok claim" and "\<And>i. hk.op_ok (get i)"
  shows "hk.op_ok (bind_op (db_call claim) (get_all get))"
  using assms by (intro hk.op_ok_bind hk.op_ok_call hk.op_ok_get_all)

lemma claimed_rows:
  "hk.tx_ok (\<lambda>s. case claim_scans owner (lck s) st (now s) n (t_scans s) of (ids, rows) \<Rightarrow> (Inr ids, s\<lparr>t_scans := rows\<rparr>))"
  "hk.tx_ok (\<lambda>s. case claim_events owner (lck s) k (now s) x n' (t_events s) of (ids, rows) \<Rightarrow> (Inr ids, s\<lparr>t_events := rows\<rparr>))"
  "hk.tx_ok (\<lambda>s. case claim_jobs owner' (lck s) due key (upd s) (now s) x n'' (t_jobs s) of (ids, rows) \<Rightarrow> (Inr ids, s\<lparr>t_jobs := rows\<rparr>))"
  by (rule tx_history, auto simp: claim_scans_def claim_events_def claim_jobs_def Let_def map_upd_where event_ident_def job_ident_def)+

lemma claims_history [history]:
  "hk.op_ok (ClaimNextScans owner d n)" "hk.op_ok (ClaimUndeliveredEvents owner d n m)"
  "hk.op_ok (ClaimLifecycleJobs owner d n)" "hk.op_ok (ClaimDueVerifyJobs t n d)"
  using claim_history [OF claimed_rows(1) reads_history(2)] claim_history [OF claimed_rows(2) reads_history(5)]
    claim_history [OF claimed_rows(3) reads_history(4)]
  by (simp_all add: ClaimNextScans_def ClaimUndeliveredEvents_def ClaimLifecycleJobs_def ClaimDueVerifyJobs_def hk.op_ok_def hk.R_refl Let_def)

lemma scans_history [history]:
  "hk.op_ok (CreateScanWithSource src cidrs hosts ports n m)" "hk.op_ok (HeartbeatScanClaim i owner)" "hk.op_ok (ReleaseScanClaim i owner)"
  unfolding CreateScanWithSource_def HeartbeatScanClaim_def ReleaseScanClaim_def Let_def
  by (rule hk.op_ok_call, rule tx_history, auto split: if_splits)+

lemma scan_updates_history [history]:
  "hk.op_ok (UpdateScanRunning i n)" "hk.op_ok (UpdateScanProgress i n m)" "hk.op_ok (CompleteScan i sm)" "hk.op_ok (FailScan i msg)"
proof -
  have "hk.op_ok (db_call (\<lambda>t. (Inr (), t\<lparr>t_scans := g t\<rparr>)))" for g
    by (rule hk.op_ok_call, rule tx_history) auto
  then have "hk.op_ok (update_scan i f)" for f by (simp add: update_scan_def hk.op_ok_def)
  then show "hk.op_ok (UpdateScanRunning i n)" "hk.op_ok (UpdateScanProgress i n m)" "hk.op_ok (CompleteScan i sm)" "hk.op_ok (FailScan i msg)"
    by (simp_all add: UpdateScanRunning_def UpdateScanProgress_def CompleteScan_def FailScan_def)
qed

lemma events_history [history]: "hk.op_ok (appendEventStandalone ty co pl)" "hk.op_ok (MarkEventDelivered i)" "hk.op_ok (MarkEventFailed i msg)"
  unfolding appendEventStandalone_def MarkEventDelivered_def MarkEventFailed_def
  by (intro hk.op_ok_call rows_history; (rule tx_history, auto simp: map_upd_where event_ident_def)?)+

lemma launches_history [history]:
  "hk.op_ok (InsertLifecycleJob ip)" "hk.op_ok (AppendLifecycleJobEvent i ty po)" "hk.op_ok (InsertLifecycleApproval i actor d)"
  "hk.op_ok (PersistRenewLaunch i cfg fp n w po)" "hk.op_ok (PersistMigrateLaunch i cfg fp n w po tm t)" "hk.op_ok (InsertMigrateJobPending i fp po tm t)"
  unfolding InsertLifecycleJob_def AppendLifecycleJobEvent_def InsertLifecycleApproval_def PersistRenewLaunch_def PersistMigrateLaunch_def
    InsertMigrateJobPending_def
  by (intro hk.op_ok_call hk.tx_ok_bind rows_history hk.tx_ok_ret)+

lemma job_updates_history [history]:
  "hk.op_ok (ScheduleNextVerify i n t)" "hk.op_ok (SetLifecycleAAPRef i m w jst)" "hk.op_ok (UpdateLifecycleStatus i up)"
  unfolding ScheduleNextVerify_def SetLifecycleAAPRef_def update_job_def UpdateLifecycleStatus_def
  by (rule hk.op_ok_call, rule tx_history, auto simp: job_ident_def map_upd_where split: if_splits)+

lemma ExpireTimedOutVerifyJobs_history [history]: "hk.op_ok (ExpireTimedOutVerifyJobs t)"
proof -
  have "hk.op_ok (db_call (\<lambda>s. (Inr (r s), s\<lparr>t_jobs := upd_where p (expire_row (sql_now s)) (t_jobs s)\<rparr>)))" for r :: "db \<Rightarrow> lifecycle_job list" and p
    by (rule hk.op_ok_call, rule tx_history) (auto simp: expire_row_def job_ident_def map_upd_where)
  then show ?thesis by (simp add: hk.op_ok_def ExpireTimedOutVerifyJobs_def Let_def)
qed

lemma UpsertFindings_history [history]: "hk.op_ok (UpsertFindings collate i us)"
proof -
  have one: "hk.tx_ok (upsert_finding u)" for u by (rule tx_history) (auto simp: upsert_finding_def Let_def split: if_splits)
  have "hk.tx_ok (upsert_findings us)" for us
    by (induction us) (auto intro: hk.tx_ok_bind one hk.tx_ok_ret)
  moreover have "hk.tx_ok (resolve_missing i seen)" for seen by (rule tx_history) (auto simp: resolve_missing_def)
  ultimately show ?thesis unfolding UpsertFindings_def ListOpenFindings_def
    by (intro hk.op_ok_bind hk.op_ok_call hk.tx_ok_bind hk.tx_ok_ret)
qed

lemma waivers_history [history]: "hk.op_ok (CreateWaiver i rule reason actor t)" "hk.op_ok (RevokeWaiver i)"
proof -
  have "hk.op_ok (db_call (\<lambda>s. if b s then (Inl ErrDB, s) else (Inr (w s), s\<lparr>db_seq := n s, t_waivers := g s\<rparr>)))" for b n g and w :: "db \<Rightarrow> waiver"
    by (rule hk.op_ok_call, rule tx_history) (auto split: if_splits)
  then show "hk.op_ok (CreateWaiver i rule reason actor t)" by (simp add: CreateWaiver_def [unfolded Let_def] hk.op_ok_def hk.R_refl)
  show "hk.op_ok (RevokeWaiver i)" unfolding RevokeWaiver_def
    by (rule hk.op_ok_call, rule tx_history) (auto simp: Let_def split: if_splits)
qed

lemma other_history [history]: "hk.op_ok (db_call (put_connection row))" "hk.op_ok (AppendAudit ev po)"
  unfolding AppendAudit_def
  by (intro hk.op_ok_call rows_history; (rule hk.tx_okI, auto simp: history_kept_def)?)+

lemma store_call_history: "store_call s s' \<Longrightarrow> history_kept s s'"
proof (cases rule: store_call.cases, assumption)
  assume "same_tables s s'"
  then show "history_kept s s'" by (simp add: same_tables_def history_kept_def)
qed (rule hk.op_ok_run [rotated], assumption, rule history)+

lemma store_calls_keep:
  assumes "store_call\<^sup>*\<^sup>* s s'"
  shows "schema_kept s s'" "history_kept s s'"
  using assms by (induction rule: rtranclp_induct)
    (auto intro: sk.R_refl hk.R_refl sk.R_trans [OF _ store_call_kept] hk.R_trans [OF _ store_call_history])

end
