(* ===== verification/System.thy ===== *)
theory System
  imports Server History
begin

text \<open>
  The processes as users of the store. Every handler of the API, the scan poller and the goroutines of its scans,
  the job worker, the event dispatcher and the commands change the tables through the calls of \<open>Schema\<close> and in
  no other way: each of them is a sequence of \<open>store_call\<close>s, so what the store promises of any sequence of calls
  it promises of the program.
\<close>

abbreviation calls :: "db \<Rightarrow> db \<Rightarrow> bool" where
  "calls \<equiv> store_call\<^sup>*\<^sup>*"

lemma same_tables_calls: "same_tables s s' \<Longrightarrow> calls s s'"
  by (blast intro: store_call.intros)

interpretation sc: op_relation calls
proof
  show "calls s s" for s by simp
  show "calls s t \<Longrightarrow> calls t u \<Longrightarrow> calls s u" for s t u by simp
  show "calls s (next_step s)" for s by (rule same_tables_calls) (simp add: same_tables_def)
qed

section \<open>The methods of the store\<close>

named_theorems calls "operations that are sequences of store calls"

lemma callI: "(\<And>s r s'. m s = (r, s') \<Longrightarrow> store_call s s') \<Longrightarrow> sc.op_ok m"
  unfolding sc.op_ok_def by (metis r_into_rtranclp surjective_pairing)

lemma writes_calls [calls]:
  "sc.op_ok (db_call (upsert_cert_row parsed ob st days scope))" "sc.op_ok (db_call (upsert_observation i k ob))"
  "sc.op_ok (UpdateCertificateEnrichment i eu)" "sc.op_ok (SetRenewalConfig i cfg)" "sc.op_ok (MarkRevoked i source)"
  "sc.op_ok (SetManagedStatus i st)" "sc.op_ok (UpdateManagedStatusByFingerprint fp mu)" "sc.op_ok (UpdateCertificateRisk i n reasons)"
  "sc.op_ok (DeleteCertificate i)" "sc.op_ok (DeleteScan i)" "sc.op_ok (UpsertIssuer n parsed chain)" "sc.op_ok (SetIssuerVaultRef i ref mount)"
  "sc.op_ok (DeleteIssuer i)" "sc.op_ok (CreateScanWithSource src cidrs hosts ports n m)" "sc.op_ok (ClaimNextScans owner d n)"
  "sc.op_ok (HeartbeatScanClaim i owner)" "sc.op_ok (ReleaseScanClaim i owner)" "sc.op_ok (UpdateScanRunning i n)"
  "sc.op_ok (UpdateScanProgress i n m)" "sc.op_ok (CompleteScan i sm)" "sc.op_ok (FailScan i msg)"
  "sc.op_ok (appendEventStandalone ty co pl)" "sc.op_ok (ClaimUndeliveredEvents owner d n m)" "sc.op_ok (MarkEventDelivered i)"
  "sc.op_ok (MarkEventFailed i msg)" "sc.op_ok (InsertLifecycleJob ip)" "sc.op_ok (AppendLifecycleJobEvent i ty po)"
  "sc.op_ok (InsertLifecycleApproval i actor ty)" "sc.op_ok (PersistRenewLaunch i cfg fp n w po)"
  "sc.op_ok (PersistMigrateLaunch i cfg fp n w po d t)" "sc.op_ok (InsertMigrateJobPending i fp po d t)"
  "sc.op_ok (ClaimLifecycleJobs owner d n)" "sc.op_ok (ClaimDueVerifyJobs t n d)" "sc.op_ok (ExpireTimedOutVerifyJobs t)"
  "sc.op_ok (ScheduleNextVerify i n t)" "sc.op_ok (SetLifecycleAAPRef i n w jst)" "sc.op_ok (UpdateLifecycleStatus i up)"
  "sc.op_ok (UpsertFindings collate i us)" "sc.op_ok (CreateWaiver i rule reason actor t)" "sc.op_ok (RevokeWaiver i)"
  "sc.op_ok (db_call (put_connection row))" "sc.op_ok (AppendAudit ev po)"
  by (rule callI, erule store_call.intros)+

lemma read_calls: "(\<And>s v s'. m s = (Inr v, s') \<Longrightarrow> s' = s) \<Longrightarrow> sc.op_ok (db_call m)"
  by (rule sc.op_ok_call, rule sc.tx_ok_read)

lemma reads_calls [calls]:
  "sc.op_ok (GetScan i)" "sc.op_ok (ListScans n m)" "sc.op_ok (GetCertificate i)" "sc.op_ok (GetCertificateObservations i)"
  "sc.op_ok (ListRenewable n)" "sc.op_ok (CountByManagedStatus io)" "sc.op_ok (ListIssuers n m)" "sc.op_ok (GetIssuer i)"
  "sc.op_ok (GetIssuerPEMForCert dn)" "sc.op_ok (ListEvents ef)" "sc.op_ok (find_job p)" "sc.op_ok (ListLifecycleJobsByCert i n)"
  "sc.op_ok (ListOpenFindings collate i)" "sc.op_ok (ListFindingsForScan collate i)" "sc.op_ok CurrentOpsPolicyVersionID"
  "sc.op_ok CountPQCTags" "sc.op_ok (ActiveWaiver i rule t)" "sc.op_ok (ListWaiversForCert i)" "sc.op_ok (GetWaiver i)"
  "sc.op_ok (getConnection target)" "sc.op_ok GetConnections"
  unfolding GetScan_def ListScans_def GetCertificate_def GetCertificateObservations_def ListRenewable_def CountByManagedStatus_def
    ListIssuers_def GetIssuer_def GetIssuerPEMForCert_def ListEvents_def find_job_def ListLifecycleJobsByCert_def ListOpenFindings_def
    ListFindingsForScan_def CurrentOpsPolicyVersionID_def CountPQCTags_def ActiveWaiver_def ListWaiversForCert_def GetWaiver_def
    getConnection_def GetConnections_def
  by (rule read_calls, auto simp: Let_def split: option.splits if_splits)+

lemma get_job_calls [calls]: "sc.op_ok (GetLifecycleJob i)" "sc.op_ok (GetLifecycleJobByIdempotency key)"
  by (simp_all add: GetLifecycleJob_def GetLifecycleJobByIdempotency_def calls)

lemma ListCertificates_calls [calls]: "sc.op_ok (ListCertificates f)"
  unfolding ListCertificates_def Let_def
  by (intro sc.op_ok_bind read_calls sc.op_ok_ret) (auto split: if_splits)

text \<open>The methods with several transactions.\<close>

lemma emit_calls: "sc.op_ok (emitDiscoveryCatalogueEvents c parsed st days scope ins prev)"
  unfolding emitDiscoveryCatalogueEvents_def Let_def
  by (intro sc.op_ok_bind) (auto intro!: sc.op_ok_bind calls sc.op_ok_ret)

lemma discovery_calls [calls]: "sc.op_ok (UpsertCertificate esd k parsed ob)"
proof -
  have "sc.op_ok (bind_op (db_call (\<lambda>s. (Inr (g s), s))) (\<lambda>existing.
      bind_op (db_call (upsert_cert_row parsed ob st days scope)) (\<lambda>certID.
      bind_op (db_call (upsert_observation certID k ob)) (\<lambda>_.
      bind_op (emitDiscoveryCatalogueEvents certID parsed st days scope (ins existing) (prev existing)) (\<lambda>_ s.
        (Inr certID, s))))))" for g :: "db \<Rightarrow> certificate option" and st days scope ins prev
    by (intro sc.op_ok_bind calls emit_calls sc.op_ok_ret read_calls) simp
  then show ?thesis
    by (simp add: sc.op_ok_def UpsertCertificate_def Let_def split: prod.splits)
qed

lemma ignore_calls: "sc.op_ok m \<Longrightarrow> calls s (ignore m s)"
  by (rule sc.op_ok_ignore [OF sc.R_refl])

lemma ignore_then: "calls s t \<Longrightarrow> sc.op_ok m \<Longrightarrow> calls s (ignore m t)"
  by (rule sc.op_ok_ignore)

lemma simple_calls [calls]:
  "sc.op_ok (CreateScan cidrs hosts ports n m)" "sc.op_ok (AppendRenewalOutboxEvent ty co po)"
  by (simp_all add: CreateScan_def AppendRenewalOutboxEvent_def calls)

lemma InsertLifecycleJobPending_calls [calls]: "sc.op_ok (InsertLifecycleJobPending c fp e)"
proof -
  have "sc.op_ok (bind_op (InsertLifecycleJob p) (\<lambda>job s.
      (Inr job, ignore (appendEventStandalone ty c' pl) (ignore (AppendLifecycleJobEvent (j_ID job) ty' pl')
        (ignore (InsertLifecycleApproval (j_ID job) a d) s)))))" for p ty c' pl ty' pl' a d
    by (rule sc.op_ok_bind [OF writes_calls(26)], unfold sc.op_ok_def snd_conv) (intro allI sc.op_ok_ignore sc.R_refl calls)
  then show ?thesis by (simp add: sc.op_ok_def InsertLifecycleJobPending_def Let_def)
qed

lemma ClaimByIdempotency_calls [calls]: "sc.op_ok (ClaimByIdempotency key a)"
proof -
  have "sc.op_ok (bind_op (SetLifecycleAAPRef i a w st) (\<lambda>_. GetLifecycleJob i))" for i w st
    by (intro sc.op_ok_bind calls)
  then show ?thesis unfolding ClaimByIdempotency_def
    by (intro sc.op_ok_bind calls) (auto simp: sc.op_ok_def split: option.splits)
qed

lemma UpsertConnection_calls [calls]: "sc.op_ok (UpsertConnection L key target meta secrets keep actor)"
  unfolding UpsertConnection_def
  by (intro sc.op_ok_bind calls) (use writes_calls(41) in \<open>auto simp: sc.op_ok_def split: sum.splits\<close>)

section \<open>Operations above the store\<close>

lemma with_waivers_calls: "sc.op_ok (with_waivers i pol t fs)"
  by (induction fs) (auto intro!: sc.op_ok_bind calls sc.op_ok_ret)

lemma RecomputeCert_calls [calls]: "sc.op_ok (RecomputeCert collate i)"
proof -
  have inner: "sc.op_ok (bind_op (with_waivers a pol t fs) (\<lambda>us. bind_op (UpsertFindings collate a us) (\<lambda>rows.
      case scoreFromFindings rows of (score, reasons) \<Rightarrow> bind_op (UpdateCertificateRisk a score reasons) (\<lambda>_. GetCertificate a))))" for a pol t fs
    by (intro sc.op_ok_bind calls with_waivers_calls) (auto split: prod.splits intro!: sc.op_ok_bind calls)
  have at_now: "sc.op_ok (\<lambda>s. m (g s) s)" if "\<And>x. sc.op_ok (m x)" for m :: "time \<Rightarrow> certificate op" and g
    using that by (simp add: sc.op_ok_def)
  show ?thesis unfolding RecomputeCert_def
    by (intro sc.op_ok_bind calls) (rule at_now [where g = go_now], rule inner)
qed

lemma recompute_all_calls: "sc.op_ok (recompute_all collate cs)"
  by (induction cs) (auto intro!: sc.op_ok_bind calls sc.op_ok_ret)

text \<open>An operation with a loop that may not end: whenever it ends, what it did was a sequence of calls.\<close>

definition loop_calls :: "(db \<Rightarrow> ('a \<times> db) option) \<Rightarrow> bool" where
  "loop_calls m \<longleftrightarrow> (\<forall>s v s'. m s = Some (v, s') \<longrightarrow> calls s s')"

lemma loop_callsD: "loop_calls m \<Longrightarrow> m s = Some (v, s') \<Longrightarrow> calls s s'"
  by (simp add: loop_calls_def)

lemma load_calls: "loop_calls (load_scan_pages (scan_filter k) [])"
  unfolding loop_calls_def
proof (intro allI impI)
  fix s v s' assume "load_scan_pages (scan_filter k) [] s = Some (v, s')"
  then obtain n where "s' = s\<lparr>db_step := n\<rparr>" using load_scan_whole [of k s] by auto
  then show "calls s s'" by (intro same_tables_calls) (simp add: same_tables_def)
qed

lemma pages_calls: "loop_calls (loadScanCerts i)" "loop_calls (loadCertificatesIn k)" "loop_calls (loadScanCertificates i)"
  by (simp_all add: loadScanCerts_def loadCertificatesIn_scan loadScanCertificates_def scan_filter_0 load_calls)

lemma RecomputeScan_calls: "loop_calls (RecomputeScan collate i)"
  unfolding loop_calls_def RecomputeScan_def
  by (auto split: option.splits sum.splits prod.splits dest!: loop_callsD [OF pages_calls(1)] sc.op_ok_run [OF recompute_all_calls])

lemma report_calls: "loop_calls (EvaluateScanIn k)" "loop_calls (CountSC081In k)"
  unfolding loop_calls_def EvaluateScanIn_def CountSC081In_def
  by (auto simp: Let_def split: option.splits sum.splits prod.splits dest!: loop_callsD [OF pages_calls(2)])

text \<open>
  The rules for a program text: from a state reached by calls, each construct of the handlers and loops leads to
  a state reached by calls. The rule for an operation comes with its lemma among \<open>calls\<close>.
\<close>

lemma step_ret: "calls s t \<Longrightarrow> calls s (snd (v, t))"
  by simp

lemma step_reply:
  "calls s t \<Longrightarrow> calls s (snd (writeError r n msg t))" "calls s t \<Longrightarrow> calls s (snd (writeJSON n v t))"
  "calls s t \<Longrightarrow> calls s (snd (writeServerError r e msg t))" "calls s t \<Longrightarrow> calls s (snd (writeLookupError r e nf m1 m2 t))"
  by (simp_all add: reply_simps)

lemma step_if:
  "(b \<Longrightarrow> calls s (snd x)) \<Longrightarrow> (\<not> b \<Longrightarrow> calls s (snd y)) \<Longrightarrow> calls s (snd (if b then x else y))"
  "(b \<Longrightarrow> calls s (snd (f t))) \<Longrightarrow> (\<not> b \<Longrightarrow> calls s (snd (g t))) \<Longrightarrow> calls s (snd ((if b then f else g) t))"
  "(b \<Longrightarrow> calls s u) \<Longrightarrow> (\<not> b \<Longrightarrow> calls s w) \<Longrightarrow> calls s (if b then u else w)"
  by simp_all

lemma step_option:
  "(c = None \<Longrightarrow> calls s (snd x)) \<Longrightarrow> (\<And>v. c = Some v \<Longrightarrow> calls s (snd (y v))) \<Longrightarrow> calls s (snd (case c of None \<Rightarrow> x | Some v \<Rightarrow> y v))"
  "(c = None \<Longrightarrow> calls s (snd (f t))) \<Longrightarrow> (\<And>v. c = Some v \<Longrightarrow> calls s (snd (g v t))) \<Longrightarrow> calls s (snd ((case c of None \<Rightarrow> f | Some v \<Rightarrow> g v) t))"
  by (auto split: option.splits)

lemma step_sum:
  "(\<And>e. c = Inl e \<Longrightarrow> calls s (snd (x e))) \<Longrightarrow> (\<And>v. c = Inr v \<Longrightarrow> calls s (snd (y v))) \<Longrightarrow> calls s (snd (case c of Inl e \<Rightarrow> x e | Inr v \<Rightarrow> y v))"
  "(\<And>e. c = Inl e \<Longrightarrow> calls s (snd (f e t))) \<Longrightarrow> (\<And>v. c = Inr v \<Longrightarrow> calls s (snd (g v t))) \<Longrightarrow> calls s (snd ((case c of Inl e \<Rightarrow> f e | Inr v \<Rightarrow> g v) t))"
  by (auto split: sum.splits)

lemma step_prod:
  "(\<And>x y. c = (x, y) \<Longrightarrow> calls s (snd (f x y t))) \<Longrightarrow> calls s (snd ((case c of (x, y) \<Rightarrow> f x y) t))"
  "(\<And>x y. c = (x, y) \<Longrightarrow> calls s (snd (g x y))) \<Longrightarrow> calls s (snd (case c of (x, y) \<Rightarrow> g x y))"
  by (auto split: prod.splits)

lemma step_case:
  assumes "sc.op_ok m" and "calls s t"
    and "\<And>e u. calls s u \<Longrightarrow> calls s (snd (f e u))" and "\<And>v u. calls s u \<Longrightarrow> calls s (snd (g v u))"
  shows "calls s (snd (case m t of (Inl e, u) \<Rightarrow> f e u | (Inr v, u) \<Rightarrow> g v u))"
proof (cases "m t")
  case (Pair r u)
  then have "calls s u" using sc.R_trans [OF assms(2) sc.op_ok_run [OF assms(1)]] by blast
  then show ?thesis using assms(3,4) Pair by (simp split: sum.splits)
qed

lemma step_run:
  assumes "sc.op_ok m" and "calls s t" and "\<And>r u. calls s u \<Longrightarrow> calls s (snd (f r u))"
  shows "calls s (snd (case m t of (r, u) \<Rightarrow> f r u))"
  using assms(3) sc.R_trans [OF assms(2) sc.op_ok_run [OF assms(1)]] by (auto split: prod.splits)

lemma step_case_db:
  assumes "sc.op_ok m" and "calls s t" and "\<And>e u. calls s u \<Longrightarrow> calls s (f e u)" and "\<And>v u. calls s u \<Longrightarrow> calls s (g v u)"
  shows "calls s (case m t of (Inl e, u) \<Rightarrow> f e u | (Inr v, u) \<Rightarrow> g v u)"
  using step_case [OF assms(1,2), of "\<lambda>e u. ((), f e u)" "\<lambda>v u. ((), g v u)"] assms(3,4) by (simp add: case_prod_beta split: sum.splits)

lemma step_try:
  assumes "sc.op_ok m" and "calls s t"
    and "\<And>e u. calls s u \<Longrightarrow> calls s (snd (f e u))" and "\<And>v u. calls s u \<Longrightarrow> calls s (snd (k v u))"
  shows "calls s (snd (try_op m f k t))"
  using step_case [OF assms] by (simp add: try_op_def)

lemma step_id:
  assumes "calls s t" and "\<And>i. calls s (snd (k i t))"
  shows "calls s (snd (with_id r msg idp k t))"
  using assms by (auto simp: with_id_def reply_simps split: option.splits)

lemma step_ignore: "sc.op_ok m \<Longrightarrow> calls s t \<Longrightarrow> calls s (ignore m t)"
  by (rule sc.op_ok_ignore)

lemma step_audit: "calls s t \<Longrightarrow> calls s (auditAllow r actor a b c d t)" "calls s t \<Longrightarrow> calls s (auditDeny r role t)"
  unfolding auditAllow_def auditDeny_def appendAudit_def by (rule step_ignore, rule calls, assumption)+

lemma step_audited:
  assumes "calls s t" and "\<And>u. calls s u \<Longrightarrow> calls s (snd (k u))"
  shows "calls s (snd (audited r actor a b tid p k t))"
  unfolding audited_def by (rule assms(2)) (rule step_audit(1) [OF assms(1)])

lemma step_outside: "calls s t \<Longrightarrow> calls s (t\<lparr>aap_launches := x\<rparr>)" "calls s t \<Longrightarrow> calls s (t\<lparr>vault_imports := y\<rparr>)"
  by (rule sc.R_trans, assumption, rule same_tables_calls, simp add: same_tables_def)+

lemma step_op: "sc.op_ok m \<Longrightarrow> calls s t \<Longrightarrow> calls s (snd (m t))"
  using sc.op_ok_ignore by (auto simp: ignore_def)

lemmas steps = step_ret step_reply step_if step_option step_case step_run step_try step_id step_ignore step_audit step_audited step_outside
  step_sum step_prod

lemma op_callsI: "(\<And>s. calls s (snd (m s))) \<Longrightarrow> sc.op_ok m"
  by (simp add: sc.op_ok_def)

lemmas run_calls = calls [THEN sc.op_ok_run]

lemma BuildForScan_calls: "BuildForScan visit i s = Some (r, s') \<Longrightarrow> calls s s'"
  unfolding BuildForScan_def
  by (auto split: option.splits sum.splits prod.splits if_splits
      dest!: loop_callsD [OF pages_calls(3)] loop_callsD [OF report_calls(1)] run_calls)

lemma blindSpotSummary_calls: "loop_calls (blindSpotSummary k)"
  unfolding loop_calls_def blindSpotSummary_def
  by (auto split: option.splits sum.splits prod.splits dest!: loop_callsD [OF report_calls(2)] run_calls)

subsection \<open>The job worker\<close>

lemma close_job_calls: "calls s t \<Longrightarrow> calls s (close_job job p je oe pl t)"
  unfolding close_job_def Let_def by (intro step_ignore calls)

lemma enterPendingVerify_calls [calls]: "sc.op_ok (enterPendingVerify job)"
  using writes_calls(35) by (simp add: enterPendingVerify_def sc.op_ok_def Let_def)

lemma observeSuccessor_calls [calls]: "sc.op_ok (observeSuccessor ew)"
  unfolding observeSuccessor_def bind_op_def
  by (rule op_callsI) (rule steps sc.R_refl calls | assumption)+

lemma verifyPending_calls [calls]: "sc.op_ok (verifyPending job now)"
  unfolding verifyPending_def Let_def
  by (rule op_callsI) (assumption | rule steps calls sc.R_refl close_job_calls calls [THEN step_op])+

lemma launch_calls [calls]: "sc.op_ok (launch w job)"
  unfolding launch_def Let_def
  by (rule op_callsI) (assumption | rule steps calls sc.R_refl close_job_calls calls [THEN step_op])+

lemma pollAAP_calls [calls]: "sc.op_ok (pollAAP w job)"
  unfolding pollAAP_def Let_def
  by (rule op_callsI) (assumption | rule steps calls sc.R_refl close_job_calls calls [THEN step_op])+

lemma process_calls [calls]: "sc.op_ok (process w job)"
  unfolding process_def Let_def
proof (rule op_callsI)
  fix s
  have later: "calls s (snd (if b then (Inr (), ignore (UpdateLifecycleStatus i up) s) else verifyPending job x s))" for b i up x
    by (assumption | rule steps calls sc.R_refl calls [THEN step_op])+
  have up: "calls s (ignore (UpdateLifecycleStatus i up) s)" for i up by (intro step_ignore calls sc.R_refl)
  show "calls s (snd (case j_Status job of LifecycleLaunching \<Rightarrow> launch w job s
     | LifecycleAAPPending \<Rightarrow> pollAAP w job s | LifecycleAAPRunning \<Rightarrow> pollAAP w job s
     | LifecycleAAPSuccessful \<Rightarrow> enterPendingVerify job s | LifecycleVerifying \<Rightarrow> verifyPending job (go_now s) s
     | LifecyclePendingVerify \<Rightarrow>
         (if (case j_NextVerifyAt job of None \<Rightarrow> False | Some t \<Rightarrow> t > go_now s)
          then (Inr (), ignore (UpdateLifecycleStatus (j_ID job) (no_update\<lparr>up_ClearLease := True\<rparr>)) s)
          else verifyPending job (go_now s) s)
     | _ \<Rightarrow> (Inr (), ignore (UpdateLifecycleStatus (j_ID job) (fail_update ''unexpected status'')) s)))"
    using later up by (auto split: job_status.split intro!: calls [THEN step_op] sc.R_refl)
qed

lemma each_job_calls: "(\<And>j u. calls u (f j u)) \<Longrightarrow> calls s t \<Longrightarrow> calls s (each_job f js t)"
proof (induction js arbitrary: t)
  case (Cons j js)
  then show ?case using sc.R_trans [OF Cons.prems(2), of "f j t"] by simp
qed simp

lemma expireTimedOut_calls [calls]: "sc.op_ok (expireTimedOut now)"
proof -
  have "calls u (announce_timeout j u)" for j u
    unfolding announce_timeout_def Let_def by (intro step_ignore calls sc.R_refl)
  then show ?thesis unfolding expireTimedOut_def
    by (intro op_callsI) (assumption | rule steps calls sc.R_refl each_job_calls)+
qed

lemma tick_calls: "calls s (tick w s)"
proof -
  have each: "calls s (each_job (\<lambda>job. ignore (g job)) js t)" if "\<And>j. sc.op_ok (g j)" "calls s t" for t js and g :: "lifecycle_job \<Rightarrow> unit op"
    by (rule each_job_calls [OF _ that(2)]) (intro step_ignore that(1) sc.R_refl)
  show ?thesis unfolding tick_def Let_def
    by (assumption | rule step_case_db each step_ignore calls sc.R_refl)+
qed

subsection \<open>The dispatcher\<close>

lemma dispatch_calls: "calls s t \<Longrightarrow> dispatch_batch eda itsm d es cnt t = (r, u) \<Longrightarrow> calls s u"
proof (induction es arbitrary: cnt t)
  case (Cons e es)
  have "calls s (snd (dispatch_one eda itsm d e cnt t))"
    unfolding dispatch_one_def using Cons.prems(1) by - (assumption | rule steps calls)+
  then show ?case using Cons.IH Cons.prems(2) by (auto split: prod.splits)
qed simp

lemma RunOnce_calls: "sc.op_ok (RunOnce eda itsm d)"
  unfolding RunOnce_def
  by (intro sc.op_ok_bind calls) (auto simp: sc.op_ok_def split: prod.splits intro: dispatch_calls [OF sc.R_refl])

subsection \<open>Scans\<close>

lemma thread_step_calls: "thread_step p k t c x = Some (c', y) \<Longrightarrow> calls (rn_db x) (rn_db y)"
  by (induction p k t c x rule: thread_step.induct)
     (auto simp: Let_def updateProgress_def split: prod.splits sum.splits if_splits intro!: step_ignore calls dest: calls [THEN sc.op_ok_run])

lemma main_step_calls: "main_step p m x = Some y \<Longrightarrow> calls (rn_db x) (rn_db y)"
  by (induction p m x rule: main_step.induct) (auto split: list.splits if_splits intro!: step_ignore calls)

lemma run_step_calls:
  assumes "run_step p x y"
  shows "calls (rn_db x) (rn_db y)"
proof -
  from assms obtain who where st: "step_of p who x = Some y" by (auto simp: run_step_def)
  show ?thesis
  proof (cases who)
    case None
    then show ?thesis using st by (simp add: step_of_def main_step_calls)
  next
    case (Some k)
    obtain t c where "rn_threads x ! k = (t, c)" by force
    then show ?thesis using st Some
      by (auto simp: step_of_def split: if_splits option.splits prod.splits dest: thread_step_calls)
  qed
qed

lemma Run_begin_calls: "Run_begin E job s = Inl (err, s') \<Longrightarrow> calls s s'" "Run_begin E job s = Inr (p, x) \<Longrightarrow> calls s (rn_db x)"
  by (auto simp: Run_begin_def run_start_def failScan_def split: sum.splits prod.splits intro!: step_ignore calls dest!: calls [THEN sc.op_ok_run])

lemma start_scans_calls: "calls s t \<Longrightarrow> calls s (snd (start_scans owner c k scs t))"
proof (induction scs arbitrary: k)
  case (Cons sc scs)
  show ?case
  proof (cases "c k")
    case False
    then show ?thesis using Cons.IH [OF Cons.prems, of "Suc k"] by (auto split: prod.splits)
  qed (use Cons.prems in \<open>auto intro!: step_ignore calls\<close>)
qed simp

lemma worker_tick_calls: "calls s (snd (worker_tick w busy c s))"
  unfolding worker_tick_def Let_def
  by (assumption | rule steps calls sc.R_refl start_scans_calls)+

section \<open>Handlers\<close>

lemma ping_calls [calls]: "sc.op_ok (db_call (\<lambda>s. (Inr (), s)))"
  by (rule read_calls) simp

lemma step_param:
  "(c = Absent \<Longrightarrow> calls s (snd (f t))) \<Longrightarrow> (c = Unreadable \<Longrightarrow> calls s (snd (g t))) \<Longrightarrow> (\<And>v. c = Value v \<Longrightarrow> calls s (snd (h v t))) \<Longrightarrow>
     calls s (snd ((case c of Absent \<Rightarrow> f | Unreadable \<Rightarrow> g | Value v \<Rightarrow> h v) t))"
  by (cases c) simp_all

lemma handleHealth_calls: "calls s (snd (handleHealth r s))"
  unfolding handleHealth_def Let_def
  by (assumption | rule steps calls sc.R_refl calls [THEN step_op])+

lemma handleCreateScan_calls: "calls s (snd (handleCreateScan sv r actor body s))"
  unfolding handleCreateScan_def Let_def
  by (assumption | rule steps calls sc.R_refl calls [THEN step_op])+

lemma handleListScans_calls: "calls s (snd (handleListScans r n m s))"
  unfolding handleListScans_def Let_def
  by (assumption | rule steps calls sc.R_refl calls [THEN step_op])+

lemma handleGetScan_calls: "calls s (snd (handleGetScan r idp s))"
  unfolding handleGetScan_def Let_def
  by (assumption | rule steps calls sc.R_refl calls [THEN step_op])+

lemma handleListScanCertificates_calls: "calls s (snd (handleListScanCertificates r idp n m s))"
  unfolding handleListScanCertificates_def Let_def
  by (assumption | rule steps calls sc.R_refl calls [THEN step_op])+

lemma handleDeleteScan_calls: "calls s (snd (handleDeleteScan r actor idp s))"
  unfolding handleDeleteScan_def Let_def
  by (assumption | rule steps calls sc.R_refl calls [THEN step_op])+

lemma handleDeleteCertificate_calls: "calls s (snd (handleDeleteCertificate r actor idp s))"
  unfolding handleDeleteCertificate_def Let_def
  by (assumption | rule steps calls sc.R_refl calls [THEN step_op])+

lemma handleDeleteIssuer_calls: "calls s (snd (handleDeleteIssuer r actor idp s))"
  unfolding handleDeleteIssuer_def Let_def
  by (assumption | rule steps calls sc.R_refl calls [THEN step_op])+

lemma handleListCertificates_calls: "calls s (snd (handleListCertificates r q s))"
  unfolding handleListCertificates_def Let_def
  by (assumption | rule steps calls sc.R_refl calls [THEN step_op] step_param)+

lemma handleGetCertificate_calls: "calls s (snd (handleGetCertificate r idp s))"
  unfolding handleGetCertificate_def Let_def cert_not_found_def
  by (assumption | rule steps calls sc.R_refl calls [THEN step_op])+

lemma handleGetCertificatePEM_calls: "calls s (snd (handleGetCertificatePEM r idp s))"
  unfolding handleGetCertificatePEM_def Let_def cert_not_found_def
  by (assumption | rule steps calls sc.R_refl calls [THEN step_op])+

lemma handleGetCertificateChoose_calls: "calls s (snd (handleGetCertificateChoose r idp s))"
  unfolding handleGetCertificateChoose_def Let_def cert_not_found_def
  by (assumption | rule steps calls sc.R_refl calls [THEN step_op])+

lemma handleRenewalKit_calls: "calls s (snd (handleRenewalKit kit r idp a b c d s))"
  unfolding handleRenewalKit_def Let_def cert_not_found_def
  by (assumption | rule steps calls sc.R_refl calls [THEN step_op])+

lemma handleListIssuers_calls: "calls s (snd (handleListIssuers r n m s))"
  unfolding handleListIssuers_def Let_def
  by (assumption | rule steps calls sc.R_refl calls [THEN step_op])+

lemma handleGetLifecycleJob_calls: "calls s (snd (handleGetLifecycleJob sv r idp s))"
  unfolding handleGetLifecycleJob_def Let_def
  by (assumption | rule steps calls sc.R_refl calls [THEN step_op])+

lemma handleListCertLifecycleJobs_calls: "calls s (snd (handleListCertLifecycleJobs sv r idp s))"
  unfolding handleListCertLifecycleJobs_def Let_def
  by (assumption | rule steps calls sc.R_refl calls [THEN step_op])+

lemma handleInventory_calls: "calls s (snd (handleInventory r q s))"
  unfolding handleInventory_def Let_def
  by (assumption | rule steps calls sc.R_refl calls [THEN step_op])+

lemma handleListEvents_calls: "calls s (snd (handleListEvents r q ty s))"
  unfolding handleListEvents_def Let_def
  by (assumption | rule steps calls sc.R_refl calls [THEN step_op])+

lemma handleCatalogImport_calls: "calls s (snd (handleCatalogImport sv kit r actor idp body s))"
  unfolding handleCatalogImport_def Let_def catalog_done_def
  by (assumption | rule steps calls sc.R_refl calls [THEN step_op])+

lemma handleImportIssuer_calls: "calls s (snd (handleImportIssuer sv r actor idp body s))"
  unfolding handleImportIssuer_def Let_def import_issuer_def
  by (assumption | rule steps calls sc.R_refl calls [THEN step_op])+

lemma handleRevokeCertificate_calls: "calls s (snd (handleRevokeCertificate sv r actor idp body s))"
  unfolding handleRevokeCertificate_def Let_def cert_not_found_def revoke_launch_def call_launcher_def prod.case
  by (assumption | rule steps calls sc.R_refl calls [THEN step_op])+

lemma handleClaimLifecycleJob_calls: "calls s (snd (handleClaimLifecycleJob sv r body s))"
  unfolding handleClaimLifecycleJob_def Let_def
  by (assumption | rule steps calls sc.R_refl calls [THEN step_op])+

lemma handleRevocationCheck_calls: "calls s (snd (handleRevocationCheck L r actor idp s))"
  unfolding handleRevocationCheck_def Let_def handleRevocationCheck_with_def
  by (assumption | rule steps calls sc.R_refl calls [THEN step_op])+

lemma handleListCertFindings_calls: "calls s (snd (handleListCertFindings collate r idp s))"
  unfolding handleListCertFindings_def Let_def
  by (assumption | rule steps calls sc.R_refl calls [THEN step_op])+

lemma handleListCertWaivers_calls: "calls s (snd (handleListCertWaivers r idp s))"
  unfolding handleListCertWaivers_def Let_def
  by (assumption | rule steps calls sc.R_refl calls [THEN step_op])+

lemma handleCreateCertWaiver_calls: "calls s (snd (handleCreateCertWaiver collate r actor idp body s))"
  unfolding handleCreateCertWaiver_def Let_def
  by (assumption | rule steps calls sc.R_refl calls [THEN step_op])+

lemma handleRevokeWaiver_calls: "calls s (snd (handleRevokeWaiver collate r actor idp s))"
  unfolding handleRevokeWaiver_def Let_def waiver_lookup_error_def
  by (assumption | rule steps calls sc.R_refl calls [THEN step_op])+

lemma handlePQCInventory_calls: "calls s (snd (handlePQCInventory r s))"
  unfolding handlePQCInventory_def Let_def
  by (assumption | rule steps calls sc.R_refl calls [THEN step_op])+

lemma handleListScanFindings_calls: "calls s (snd (handleListScanFindings collate r idp s))"
  unfolding handleListScanFindings_def Let_def
  by (assumption | rule steps calls sc.R_refl calls [THEN step_op])+

lemma handlePatchCertificate_calls: "calls s (snd (handlePatchCertificate collate r idp body s))"
  unfolding handlePatchCertificate_def Let_def
  by (assumption | rule steps calls sc.R_refl calls [THEN step_op])+

text \<open>The launches, and the batches.\<close>

lemma launch_handlers_calls:
  "calls s t \<Longrightarrow> calls s (snd (renew_launch renew r actor cert i cfg t))"
  "calls s t \<Longrightarrow> calls s (snd (migrate_launch sv renew r actor cert i cn cfg t))"
  unfolding renew_launch_def migrate_launch_def launchRenewal_def call_launcher_def Let_def prod.case
  by - (assumption | rule steps calls)+

lemma handleRenewCertificate_calls: "calls s (snd (handleRenewCertificate sv kit r actor idp body s))"
  unfolding handleRenewCertificate_def Let_def cert_not_found_def
  by (assumption | rule steps calls sc.R_refl launch_handlers_calls)+

lemma migrate_checked_calls: "calls s t \<Longrightarrow> calls s (snd (migrate_checked sv kit mt renew r actor b i cert ob t))"
  unfolding migrate_checked_def Let_def
  by - (assumption | rule steps calls launch_handlers_calls)+

lemma handleMigrateCertificate_calls: "calls s (snd (handleMigrateCertificate sv kit mt r actor idp body s))"
proof -
  have seen: "calls s t \<Longrightarrow> has_observations i cert t = (ob, u) \<Longrightarrow> calls s u" for t u i cert ob
    by (auto simp: has_observations_def split: if_splits prod.splits sum.splits intro: sc.R_trans dest: calls [THEN sc.op_ok_run])
  show ?thesis unfolding handleMigrateCertificate_def Let_def cert_not_found_def
    by (assumption | rule steps calls sc.R_refl migrate_checked_calls | erule (1) seen)+
qed

lemma step_bind:
  assumes "calls s (snd m)" and "\<And>x u. calls s u \<Longrightarrow> calls s (snd (f x u))"
  shows "calls s (snd (case m of (x, u) \<Rightarrow> f x u))"
  using assms by (cases m) simp

lemma enqueue_eligible_calls: "calls s t \<Longrightarrow> calls s (snd (enqueue_eligible sv n x cs k t))"
proof (induction cs arbitrary: k t)
  case (Cons c cs)
  show ?case unfolding enqueue_eligible.simps using Cons.prems
    by - (assumption | rule step_ret step_if step_case calls Cons.IH | rule step_bind)+
qed simp

lemma handleMigrateEligible_calls: "calls s (snd (handleMigrateEligible sv r actor body s))"
  unfolding handleMigrateEligible_def Let_def
  by (assumption | rule step_bind [OF enqueue_eligible_calls] steps calls sc.R_refl)+

lemma enqueue_expiring_calls: "calls s t \<Longrightarrow> calls s (snd (enqueue_expiring kit cs t))"
proof (induction cs arbitrary: t)
  case (Cons c cs)
  show ?case unfolding enqueue_expiring.simps Let_def using Cons.prems
    by - (assumption | rule step_ret step_if step_option step_case calls Cons.IH | rule step_bind)+
qed simp

lemma handleRenewExpiring_calls: "calls s (snd (handleRenewExpiring sv kit r actor body s))"
  unfolding handleRenewExpiring_def Let_def
  by (assumption | rule step_bind [OF enqueue_expiring_calls] steps calls sc.R_refl)+

subsection \<open>Settings\<close>

lemma resolveConnections_calls [calls]: "sc.op_ok (resolveConnections env)"
  unfolding resolveConnections_def bind_op_def
  by (rule op_callsI) (assumption | rule steps calls sc.R_refl)+

lemma view_calls: "calls s t \<Longrightarrow> calls s (snd (writeConnectionsView env r t))"
  unfolding writeConnectionsView_def by - (assumption | rule steps calls)+

lemma settings_access_calls:
  "calls s t \<Longrightarrow> (calls s (snd (k t))) \<Longrightarrow> calls s (snd (requireSettingsRead r actor k t))"
  "calls s t \<Longrightarrow> (calls s (snd (k t))) \<Longrightarrow> calls s (snd (requireSettingsWrite r actor k t))"
  unfolding requireSettingsRead_def requireSettingsWrite_def requireSettingsAccess_def by (simp_all add: reply_simps)

lemma upsertTarget_calls:
  assumes "calls s t" and "\<And>u. calls s u \<Longrightarrow> calls s (snd (k u))"
  shows "calls s (snd (upsertTarget env r target patch ex rep actor k t))"
  unfolding upsertTarget_def using assms by - (assumption | rule steps calls | erule assms(2))+

lemma patch_if_calls:
  assumes "calls s t" and "\<And>u. calls s u \<Longrightarrow> calls s (snd (k u))"
  shows "calls s (snd (patch_if env r rows target patch actor k t))"
  unfolding patch_if_def using assms by (auto split: option.splits intro!: upsertTarget_calls)

lemmas settings_steps = settings_access_calls view_calls upsertTarget_calls patch_if_calls

lemma handleGetConnections_calls: "calls s (snd (handleGetConnections env r actor s))"
  unfolding handleGetConnections_def by (assumption | rule steps settings_steps sc.R_refl)+

lemma handlePutConnections_calls: "calls s (snd (handlePutConnections env r actor body s))"
  unfolding handlePutConnections_def by (assumption | rule settings_steps steps sc.R_refl)+

lemma handlePatchConnections_calls: "calls s (snd (handlePatchConnections env r actor body s))"
  unfolding handlePatchConnections_def by (assumption | rule settings_steps steps calls sc.R_refl)+

lemma handleTestConnections_calls: "calls s (snd (handleTestConnections env i r actor body s))"
  unfolding handleTestConnections_def Let_def test_reply_def by (assumption | rule settings_steps steps calls sc.R_refl)+

lemma handleOptionsVaultPKIMounts_calls: "calls s (snd (handleOptionsVaultPKIMounts env r actor s))"
  unfolding handleOptionsVaultPKIMounts_def by (assumption | rule settings_steps steps calls sc.R_refl)+

text \<open>The same rules for an answer that may never come.\<close>

definition ends :: "db \<Rightarrow> ('a \<times> db) option \<Rightarrow> bool" where
  "ends s m \<longleftrightarrow> (\<forall>v u. m = Some (v, u) \<longrightarrow> calls s u)"

lemma loop_callsI: "(\<And>s. ends s (m s)) \<Longrightarrow> loop_calls m"
  by (simp add: loop_calls_def ends_def)

lemma ends_some: "calls s (snd p) \<Longrightarrow> ends s (Some p)"
  by (cases p) (simp add: ends_def)

lemma ends_map: "(\<And>x. m = Some x \<Longrightarrow> calls s (snd (f x))) \<Longrightarrow> ends s (map_option f m)"
  by (cases m) (auto simp: ends_def intro: prod_eqI)

lemma ends_if: "(b \<Longrightarrow> ends s x) \<Longrightarrow> (\<not> b \<Longrightarrow> ends s y) \<Longrightarrow> ends s (if b then x else y)"
  by simp

lemma ends_none: "ends s None"
  by (simp add: ends_def)

lemma ends_option: "(c = None \<Longrightarrow> ends s x) \<Longrightarrow> (\<And>v. c = Some v \<Longrightarrow> ends s (y v)) \<Longrightarrow> ends s (case c of None \<Rightarrow> x | Some v \<Rightarrow> y v)"
  by (cases c) simp_all

lemma ends_sum: "(\<And>e. c = Inl e \<Longrightarrow> ends s (x e)) \<Longrightarrow> (\<And>v. c = Inr v \<Longrightarrow> ends s (y v)) \<Longrightarrow> ends s (case c of Inl e \<Rightarrow> x e | Inr v \<Rightarrow> y v)"
  by (cases c) simp_all

lemma ends_prod: "(\<And>x y. c = (x, y) \<Longrightarrow> ends s (g x y)) \<Longrightarrow> ends s (case c of (x, y) \<Rightarrow> g x y)"
  by (cases c) simp

lemma ends_case:
  assumes "sc.op_ok m" and "calls s t" and "\<And>e u. calls s u \<Longrightarrow> ends s (f e u)" and "\<And>v u. calls s u \<Longrightarrow> ends s (g v u)"
  shows "ends s (case m t of (Inl e, u) \<Rightarrow> f e u | (Inr v, u) \<Rightarrow> g v u)"
proof (cases "m t")
  case (Pair r u)
  then have "calls s u" using sc.R_trans [OF assms(2) sc.op_ok_run [OF assms(1)]] by blast
  then show ?thesis using assms(3,4) Pair by (simp split: sum.splits)
qed

lemmas ends = ends_some ends_none ends_map ends_if ends_option ends_sum ends_case

lemma handleOptionsAAPTemplates_calls: "loop_calls (handleOptionsAAPTemplates env r actor kind)"
  unfolding handleOptionsAAPTemplates_def Let_def
  by (rule loop_callsI) (assumption | rule ends steps calls sc.R_refl)+

subsection \<open>Collectors\<close>

lemma ingest_loop_calls: "calls s t \<Longrightarrow> calls s (snd (ingest_loop L soon i source now its a b t))"
proof (induction its arbitrary: a b t)
  case (Cons it its)
  show ?case unfolding ingest_loop.simps using Cons.prems
    by - (assumption | rule steps calls Cons.IH)+
qed simp

lemma step_result:
  assumes "calls s (snd m)" and "\<And>e u. calls s u \<Longrightarrow> calls s (snd (f e u))" and "\<And>v u. calls s u \<Longrightarrow> calls s (snd (g v u))"
  shows "calls s (snd (case m of (Inl e, u) \<Rightarrow> f e u | (Inr v, u) \<Rightarrow> g v u))"
  using assms by (cases m) (simp split: sum.splits)

lemma IngestPublicPEMs_calls: "calls s t \<Longrightarrow> calls s (snd (IngestPublicPEMs L soon i source its t))"
  unfolding IngestPublicPEMs_def by - (assumption | rule steps ingest_loop_calls)+

lemma cloud_Collect_calls: "calls s t \<Longrightarrow> calls s (snd (cloud_Collect L soon i source src t))"
  unfolding cloud_Collect_def by - (assumption | rule step_result [OF IngestPublicPEMs_calls] steps)+

lemma akv_Collect_calls: "calls s t \<Longrightarrow> calls s (snd (akv_Collect L soon i vs t))"
  unfolding akv_Collect_def by (rule cloud_Collect_calls)

lemma collect_end_calls:
  "calls s t \<Longrightarrow> calls s (snd (collect_done r actor action extra i n k t))"
  "calls s t \<Longrightarrow> (\<And>u. calls s u \<Longrightarrow> calls s (snd (h u))) \<Longrightarrow> calls s (snd (collect_failed L r i e h t))"
proof -
  show "calls s t \<Longrightarrow> calls s (snd (collect_done r actor action extra i n k t))"
    unfolding collect_done_def Let_def by - (assumption | rule steps calls)+
  show "calls s t \<Longrightarrow> (\<And>u. calls s u \<Longrightarrow> calls s (snd (h u))) \<Longrightarrow> calls s (snd (collect_failed L r i e h t))"
    unfolding collect_failed_def by (blast intro: step_ignore calls)
qed

lemma collect_finish_calls:
  assumes "calls s (snd res)" and "\<And>e u. calls s u \<Longrightarrow> calls s (snd (failed e u))"
  shows "calls s (snd (collect_finish L r actor action extra failed i res))"
  using assms unfolding collect_finish_def
  by (cases res) (auto split: sum.splits prod.splits intro!: collect_end_calls step_ignore calls)

lemma handleCollectScan_calls: "calls s (snd (handleCollectScan env r actor body s))"
  unfolding handleCollectScan_def Let_def
  by (assumption | rule step_result [OF IngestPublicPEMs_calls] steps calls sc.R_refl collect_end_calls)+

lemma handleCollectAKV_calls: "calls s (snd (handleCollectAKV env r actor body s))"
  unfolding handleCollectAKV_def Let_def
  by (assumption | rule steps calls sc.R_refl collect_finish_calls akv_Collect_calls)+

lemma adcs_Collect_calls: "calls s t \<Longrightarrow> ends s (adcs_Collect L soon ctrl cancelled i tmpl host t)"
  unfolding adcs_Collect_def Let_def
  by (auto split: option.splits prod.splits intro!: ends steps IngestPublicPEMs_calls)

lemma handleCollectADCS_calls: "loop_calls (handleCollectADCS env r actor body)"
proof (rule loop_callsI)
  fix s
  have run: "calls s (snd x)" if "adcs_Collect L soon ctrl cancelled i tmpl host t = Some x" "calls s t" for L soon ctrl cancelled i tmpl host t x
    using adcs_Collect_calls [OF that(2)] that(1) by (cases x) (auto simp: ends_def)
  show "ends s (handleCollectADCS env r actor body s)" unfolding handleCollectADCS_def Let_def
    by (assumption | rule ends ends_prod collect_finish_calls steps calls sc.R_refl | erule run)+
qed

subsection \<open>Reconciliation\<close>

lemma reconcile_serial_calls: "calls s (snd (snd st)) \<Longrightarrow> calls s (snd (snd (reconcile_serial w L mount st serial)))"
  by (auto simp: reconcile_serial_def Let_def split: prod.splits sum.splits option.splits intro: sc.R_trans dest: calls [THEN sc.op_ok_run])

lemma foldl_calls: "(\<And>st x. calls s (snd (snd st)) \<Longrightarrow> calls s (snd (snd (f st x)))) \<Longrightarrow> calls s (snd (snd st)) \<Longrightarrow> calls s (snd (snd (foldl f st xs)))"
  by (induction xs arbitrary: st) simp_all

lemma reconcile_mount_calls: "calls s (snd (snd st)) \<Longrightarrow> calls s (snd (snd (reconcile_mount w L st mount)))"
  unfolding reconcile_mount_def
  by (auto split: prod.splits sum.splits intro!: foldl_calls reconcile_serial_calls)

lemma Reconcile_calls: "calls s (snd (snd (Reconcile w L c s)))"
proof -
  have "calls s u" if "foldl (reconcile_mount w L) (sm, c', s) mounts = (sm', c'', u)" for sm c' mounts sm' c'' u
    using foldl_calls [where f = "reconcile_mount w L" and st = "(sm, c', s)", OF reconcile_mount_calls] that by (metis snd_conv sc.R_refl)
  then have "calls s v" if "foldl (reconcile_mount w L) (sm, c', s) mounts = (sm', c'', u)" "CountByManagedStatus None u = (n, v)" for sm c' mounts sm' c'' u n v
    using that(1) sc.op_ok_run [OF reads_calls(6) that(2)] by (blast intro: sc.R_trans)
  then show ?thesis unfolding Reconcile_def Let_def by (auto split: prod.splits sum.splits)
qed

lemma after_Reconcile: "Reconcile w L c s = (res, c', u) \<Longrightarrow> calls s u"
  using Reconcile_calls [of s w L c] by simp

lemma reconcile_handlers_calls:
  "calls s (snd (snd (handleReconcile w L sv has r actor c s)))" "calls s (snd (maybeReconcileAfterScan w L on has c s))"
  unfolding handleReconcile_def maybeReconcileAfterScan_def
  by (auto simp: writeError_def writeJSON_def audited_def split: prod.splits sum.splits intro: Reconcile_calls intro!: step_audit dest: after_Reconcile)

subsection \<open>The gate\<close>

lemma admit_calls: "calls s (snd (admit h cfg hdrs r s))"
  unfolding admit_def requireAuth_def requirePermission_def by (auto split: option.splits if_splits access.splits prod.splits intro!: step_audit)

subsection \<open>Reports\<close>

lemma answer_loop_calls: "loop_calls m \<Longrightarrow> loop_calls (answer_loop r msg m)"
  unfolding loop_calls_def answer_loop_def by (auto split: option.splits prod.splits sum.splits)

lemma with_scan_calls: "loop_calls k \<Longrightarrow> loop_calls (with_scan r i k)"
  unfolding loop_calls_def with_scan_def
  by (auto split: prod.splits sum.splits dest: sc.op_ok_run [OF reads_calls(1)] intro: sc.R_trans)

lemma handleGetScanReport_calls: "loop_calls (handleGetScanReport visit r idp param)"
  unfolding loop_calls_def handleGetScanReport_def render_report_def Let_def
  by (auto split: option.splits prod.splits sum.splits report_error.splits if_splits dest: BuildForScan_calls)

lemma report_handlers_calls:
  "loop_calls (handleGetScanBlindSpot r idp)" "loop_calls (handleGetBlindSpot r)" "loop_calls (handleGetScanCompliance r idp)"
  "loop_calls (handleGetComplianceSummary r q)"
proof -
  note blind = answer_loop_calls [OF blindSpotSummary_calls] and comp = answer_loop_calls [OF report_calls(1)]
  show "loop_calls (handleGetScanBlindSpot r idp)" "loop_calls (handleGetScanCompliance r idp)"
    unfolding handleGetScanBlindSpot_def handleGetScanCompliance_def
    using loop_callsD [OF with_scan_calls [OF blind]] loop_callsD [OF with_scan_calls [OF comp]]
    by (auto simp: loop_calls_def split: option.splits)
  show "loop_calls (handleGetBlindSpot r)" unfolding handleGetBlindSpot_def by (rule blind)
  show "loop_calls (handleGetComplianceSummary r q)" unfolding handleGetComplianceSummary_def
    using loop_callsD [OF with_scan_calls [OF comp]] loop_callsD [OF comp] by (auto simp: loop_calls_def split: option.splits)
qed

lemma RecomputeScan_after: "maybeRecomputePostureAfterScan collate i s = Some s' \<Longrightarrow> calls s s'"
  unfolding maybeRecomputePostureAfterScan_def using RecomputeScan_calls by (auto simp: loop_calls_def)

section \<open>The processes\<close>

text \<open>
  What can happen to the database while the program runs: the gate and the handler of some request, or a step of
  one of the loops. Requests of several clients and the loops of several instances follow each other in any order;
  a scan takes part one step of one goroutine at a time. \<open>'c\<close> is the type of certificates of the TLS library.
\<close>

type_synonym transition = "db \<Rightarrow> db \<Rightarrow> bool"

definition answers :: "(db \<Rightarrow> 'a \<times> db) \<Rightarrow> transition" where
  "answers h s s' \<longleftrightarrow> snd (h s) = s'"

definition may_answer :: "(db \<Rightarrow> ('a \<times> db) option) \<Rightarrow> transition" where
  "may_answer h s s' \<longleftrightarrow> (\<exists>rep. h s = Some (rep, s'))"

inductive scan_request :: transition where
  "answers (handleCreateScan sv r actor body1) s s' \<Longrightarrow> scan_request s s'"
| "answers (handleCollectScan ce r actor body2) s s' \<Longrightarrow> scan_request s s'"
| "may_answer (handleCollectADCS ce r actor body3) s s' \<Longrightarrow> scan_request s s'"
| "answers (handleCollectAKV ce r actor body4) s s' \<Longrightarrow> scan_request s s'"
| "answers (handleListScans r n m) s s' \<Longrightarrow> scan_request s s'"
| "answers (handleGetScan r idp) s s' \<Longrightarrow> scan_request s s'"
| "may_answer (handleGetScanBlindSpot r idp) s s' \<Longrightarrow> scan_request s s'"
| "may_answer (handleGetScanCompliance r idp) s s' \<Longrightarrow> scan_request s s'"
| "may_answer (handleGetScanReport visit r idp format) s s' \<Longrightarrow> scan_request s s'"
| "answers (handleListScanFindings collate r idp) s s' \<Longrightarrow> scan_request s s'"
| "answers (handleListScanCertificates r idp n m) s s' \<Longrightarrow> scan_request s s'"
| "answers (handleDeleteScan r actor idp) s s' \<Longrightarrow> scan_request s s'"

inductive certificate_request :: "'c itself \<Rightarrow> transition" for tc :: "'c itself" where
  "answers (handleListCertificates r q) s s' \<Longrightarrow> certificate_request tc s s'"
| "answers (handleGetCertificate r idp) s s' \<Longrightarrow> certificate_request tc s s'"
| "answers (handleGetCertificatePEM r idp) s s' \<Longrightarrow> certificate_request tc s s'"
| "answers (handleGetCertificateChoose r idp) s s' \<Longrightarrow> certificate_request tc s s'"
| "answers (handleListCertFindings collate r idp) s s' \<Longrightarrow> certificate_request tc s s'"
| "answers (handleListCertWaivers r idp) s s' \<Longrightarrow> certificate_request tc s s'"
| "answers (handleCreateCertWaiver collate r actor idp body1) s s' \<Longrightarrow> certificate_request tc s s'"
| "answers (handleRenewalKit kit r idp a b c d) s s' \<Longrightarrow> certificate_request tc s s'"
| "answers (handleRevocationCheck (L :: 'c rev_libs) r actor idp) s s' \<Longrightarrow> certificate_request tc s s'"
| "answers (handleRenewCertificate sv text r actor idp body2) s s' \<Longrightarrow> certificate_request tc s s'"
| "answers (handleMigrateCertificate sv text mt r actor idp body3) s s' \<Longrightarrow> certificate_request tc s s'"
| "answers (handleRevokeCertificate sv r actor idp body4) s s' \<Longrightarrow> certificate_request tc s s'"
| "answers (handlePatchCertificate collate r idp body5) s s' \<Longrightarrow> certificate_request tc s s'"
| "answers (handleCatalogImport sv text r actor idp body6) s s' \<Longrightarrow> certificate_request tc s s'"
| "answers (handleDeleteCertificate r actor idp) s s' \<Longrightarrow> certificate_request tc s s'"
| "answers (handleRevokeWaiver collate r actor idp) s s' \<Longrightarrow> certificate_request tc s s'"

inductive other_request :: transition where
  "answers (handleListIssuers r n m) s s' \<Longrightarrow> other_request s s'"
| "answers (handleImportIssuer sv r actor idp body1) s s' \<Longrightarrow> other_request s s'"
| "answers (handleDeleteIssuer r actor idp) s s' \<Longrightarrow> other_request s s'"
| "snd (snd (handleReconcile w pl sv has r actor vc s)) = s' \<Longrightarrow> other_request s s'"
| "answers (handleRenewExpiring sv text r actor body2) s s' \<Longrightarrow> other_request s s'"
| "answers (handleMigrateEligible sv r actor body3) s s' \<Longrightarrow> other_request s s'"
| "answers (handleInventory r q) s s' \<Longrightarrow> other_request s s'"
| "answers (handlePQCInventory r) s s' \<Longrightarrow> other_request s s'"
| "answers (handleListEvents r eq ty) s s' \<Longrightarrow> other_request s s'"
| "answers (handleGetLifecycleJob sv r idp) s s' \<Longrightarrow> other_request s s'"
| "answers (handleListCertLifecycleJobs sv r idp) s s' \<Longrightarrow> other_request s s'"
| "answers (handleClaimLifecycleJob sv r body4) s s' \<Longrightarrow> other_request s s'"
| "may_answer (handleGetBlindSpot r) s s' \<Longrightarrow> other_request s s'"
| "may_answer (handleGetComplianceSummary r cq) s s' \<Longrightarrow> other_request s s'"
| "answers (handleHealth r) s s' \<Longrightarrow> other_request s s'"

inductive settings_request :: transition where
  "answers (handleGetConnections env r actor) s s' \<Longrightarrow> settings_request s s'"
| "answers (handlePutConnections env r actor body1) s s' \<Longrightarrow> settings_request s s'"
| "answers (handlePatchConnections env r actor body2) s s' \<Longrightarrow> settings_request s s'"
| "answers (handleTestConnections env n r actor body3) s s' \<Longrightarrow> settings_request s s'"
| "answers (handleOptionsVaultPKIMounts env r actor) s s' \<Longrightarrow> settings_request s s'"
| "may_answer (handleOptionsAAPTemplates env r actor kind) s s' \<Longrightarrow> settings_request s s'"

inductive background :: "'c itself \<Rightarrow> transition" for tc :: "'c itself" where
  job_worker: "tick w s = s' \<Longrightarrow> background tc s s'"
| dispatcher: "answers (RunOnce eda itsm d) s s' \<Longrightarrow> background tc s s'"
| scan_poll: "answers (worker_tick sw busy cancel) s s' \<Longrightarrow> background tc s s'"
| scan_heartbeat: "answers (HeartbeatScanClaim i owner) s s' \<Longrightarrow> background tc s s'"
| scan_begin: "Run_begin (E :: 'c run_env) job s = Inr (p, x) \<Longrightarrow> rn_db x = s' \<Longrightarrow> background tc s s'"
| scan_refused: "Run_begin (E :: 'c run_env) job s = Inl (err, s') \<Longrightarrow> background tc s s'"
| scan_step: "run_step (p :: 'c run_params) x y \<Longrightarrow> rn_db x = s \<Longrightarrow> rn_db y = s' \<Longrightarrow> background tc s s'"
| scan_posture: "maybeRecomputePostureAfterScan collate i s = Some s' \<Longrightarrow> background tc s s'"
| scan_reconcile: "answers (maybeReconcileAfterScan vw pl on has vc) s s' \<Longrightarrow> background tc s s'"
| scan_release: "answers (ReleaseScanClaim i owner) s s' \<Longrightarrow> background tc s s'"
| cli_scan: "answers (CreateScan cidrs hosts ports n m) s s' \<Longrightarrow> background tc s s'"

inductive process_step :: "'c itself \<Rightarrow> transition" for tc :: "'c itself" where
  gate: "answers (admit sha cfg tokens r) s s' \<Longrightarrow> process_step tc s s'"
| scans: "scan_request s s' \<Longrightarrow> process_step tc s s'"
| certificates: "certificate_request tc s s' \<Longrightarrow> process_step tc s s'"
| others: "other_request s s' \<Longrightarrow> process_step tc s s'"
| settings: "settings_request s s' \<Longrightarrow> process_step tc s s'"
| loops: "background tc s s' \<Longrightarrow> process_step tc s s'"

lemma answers_calls: "answers h s s' \<Longrightarrow> calls s (snd (h s)) \<Longrightarrow> calls s s'"
  by (simp add: answers_def)

lemma may_answer_calls: "may_answer h s s' \<Longrightarrow> loop_calls h \<Longrightarrow> calls s s'"
  by (auto simp: may_answer_def dest: loop_callsD)

lemma scan_request_calls: "scan_request s s' \<Longrightarrow> calls s s'"
  by (erule scan_request.induct)
     (erule answers_calls may_answer_calls, rule handleCreateScan_calls handleCollectScan_calls handleCollectADCS_calls handleCollectAKV_calls
       handleListScans_calls handleGetScan_calls report_handlers_calls handleGetScanReport_calls handleListScanFindings_calls
       handleListScanCertificates_calls handleDeleteScan_calls)+

lemma certificate_request_calls: "certificate_request tc s s' \<Longrightarrow> calls s s'"
  by (erule certificate_request.induct)
     (erule answers_calls, rule handleListCertificates_calls handleGetCertificate_calls handleGetCertificatePEM_calls
       handleGetCertificateChoose_calls handleListCertFindings_calls handleListCertWaivers_calls handleCreateCertWaiver_calls handleRenewalKit_calls
       handleRevocationCheck_calls handleRenewCertificate_calls handleMigrateCertificate_calls handleRevokeCertificate_calls
       handlePatchCertificate_calls handleCatalogImport_calls handleDeleteCertificate_calls handleRevokeWaiver_calls)+

lemma other_request_calls: "other_request s s' \<Longrightarrow> calls s s'"
  by (erule other_request.induct)
     (erule answers_calls may_answer_calls subst, rule handleListIssuers_calls handleImportIssuer_calls handleDeleteIssuer_calls
       reconcile_handlers_calls handleRenewExpiring_calls handleMigrateEligible_calls handleInventory_calls handlePQCInventory_calls handleListEvents_calls
       handleGetLifecycleJob_calls handleListCertLifecycleJobs_calls handleClaimLifecycleJob_calls report_handlers_calls handleHealth_calls)+

lemma settings_request_calls: "settings_request s s' \<Longrightarrow> calls s s'"
  by (erule settings_request.induct)
     (erule answers_calls may_answer_calls, rule handleGetConnections_calls handlePutConnections_calls handlePatchConnections_calls
       handleTestConnections_calls handleOptionsVaultPKIMounts_calls handleOptionsAAPTemplates_calls)+

lemma background_calls: "background tc s s' \<Longrightarrow> calls s s'"
proof (induction rule: background.induct)
  case (dispatcher eda itsm d s s')
  then show ?case using step_op [OF RunOnce_calls sc.R_refl] by (rule answers_calls)
next
  case (scan_step p x y s s')
  then show ?case using run_step_calls by blast
qed (auto intro: tick_calls worker_tick_calls Run_begin_calls RecomputeScan_after reconcile_handlers_calls
    elim!: answers_calls intro!: calls [THEN step_op] sc.R_refl)

lemma process_step_calls: "process_step tc s s' \<Longrightarrow> calls s s'"
  by (erule process_step.induct)
     (auto intro: scan_request_calls certificate_request_calls other_request_calls settings_request_calls background_calls elim: answers_calls [OF _ admit_calls])

lemma process_calls_all: "(process_step tc)\<^sup>*\<^sup>* s s' \<Longrightarrow> calls s s'"
  by (induction rule: rtranclp_induct) (auto intro: sc.R_trans process_step_calls)

section \<open>What holds of the whole program\<close>

definition delete_request :: request where
  "delete_request = \<lparr>rq_Method = ''DELETE'', rq_Path = ''/api/v1/certificates/5'', rq_Authorization = [], rq_RequestID = ''r1'', rq_RemoteAddr = []\<rparr>"



end
