(* ===== verification/Startup.thy ===== *)
theory Startup
  imports Server
begin

text \<open>
  The process (\<^verbatim>\<open>cmd/clm-discovery\<close>): what \<^verbatim>\<open>main\<close> builds from its configuration and which loops it starts, how it
  stops on a signal, the log levels (\<^verbatim>\<open>internal/logging\<close>), and the encoding of failure samples
  (\<^verbatim>\<open>internal/store/diagnostics.go\<close>). Whether the pool accepts the database URL is a parameter, and so is the
  number of polls the lease of a job leaves time for.
\<close>

section \<open>Log levels\<close>

definition LevelTrace :: int where "LevelTrace = - 8"
definition LevelDebug :: int where "LevelDebug = - 4"
definition LevelInfo :: int where "LevelInfo = 0"
definition LevelWarn :: int where "LevelWarn = 4"
definition LevelError :: int where "LevelError = 8"

definition ParseLevel :: "string \<Rightarrow> int" where
  "ParseLevel level = (let l = to_lower (trim_space level) in
     if l = ''trace'' then LevelTrace
     else if l = ''debug'' then LevelDebug
     else if l \<in> {''warn'', ''warning''} then LevelWarn
     else if l = ''error'' then LevelError
     else LevelInfo)"

definition IsDebugOrTrace :: "string \<Rightarrow> bool" where
  "IsDebugOrTrace level \<longleftrightarrow> to_lower (trim_space level) \<in> {''trace'', ''debug''}"

definition IsTrace :: "string \<Rightarrow> bool" where
  "IsTrace level \<longleftrightarrow> equal_fold (trim_space level) ''trace''"

section \<open>Failure samples\<close>

definition omit_empty :: "string \<Rightarrow> string \<Rightarrow> (string \<times> json) list" where
  "omit_empty k v = (if v = [] then [] else [(k, JStr v)])"

definition sample_json :: "target_failure_sample \<Rightarrow> json" where
  "sample_json f = JObj ([(''ip'', JStr (ts_IP f)), (''port'', JNum (ts_Port f))] @ omit_empty ''hostname'' (ts_Hostname f) @
     omit_empty ''sni'' (ts_SNI f) @ [(''reason'', JStr (ts_Reason f)), (''kind'', JStr (ts_Kind f))])"

definition failureSamplesJSON :: "target_failure_sample list \<Rightarrow> json" where
  "failureSamplesJSON samples = JArr (map sample_json samples)"

definition decode_sample :: "json \<Rightarrow> target_failure_sample option" where
  "decode_sample v = (case obj_fields v of None \<Rightarrow> None
     | Some kvs \<Rightarrow> (case (str_field kvs ''ip'', int_field kvs ''port'', str_field kvs ''hostname'', str_field kvs ''sni'', str_field kvs ''reason'', str_field kvs ''kind'') of
         (Some ip, Some p, Some h, Some sni, Some r, Some k) \<Rightarrow>
           Some \<lparr>ts_IP = ip, ts_Port = p, ts_Hostname = h, ts_SNI = sni, ts_Reason = r, ts_Kind = k\<rparr>
       | _ \<Rightarrow> None))"

fun decode_samples :: "json list \<Rightarrow> target_failure_sample list option" where
  "decode_samples [] = Some []"
| "decode_samples (v # vs) = (case (decode_sample v, decode_samples vs) of (Some f, Some fs) \<Rightarrow> Some (f # fs) | _ \<Rightarrow> None)"

text \<open>\<^verbatim>\<open>failureSamplesScanner.Scan\<close> on a column value: SQL \<^verbatim>\<open>NULL\<close> is \<open>None\<close>.\<close>

definition failureSamples_Scan :: "json option \<Rightarrow> target_failure_sample list option" where
  "failureSamples_Scan src = (case src of None \<Rightarrow> Some [] | Some JNull \<Rightarrow> Some [] | Some (JArr vs) \<Rightarrow> decode_samples vs | Some _ \<Rightarrow> None)"

section \<open>What main builds\<close>

text \<open>The settings \<^verbatim>\<open>main\<close> passes on; those of the server stand in \<open>server_config\<close> and \<open>server\<close>.\<close>

record main_config =
  mc_Auth :: auth_config
  mc_LogLevel :: string
  mc_Addr :: string
  mc_DatabaseURL :: string
  mc_ExpiringSoonDays :: int
  mc_ScanTimeout :: duration
  mc_AllowPrivateRanges :: bool
  mc_ConnectionsKey :: string
  mc_EDAWebhookURL :: string
  mc_EDAWebhookToken :: string
  mc_EventDispatchInterval :: duration
  mc_EventDispatchBatch :: int
  mc_EventMaxAttempts :: int
  mc_ITSMWebhookURL :: string
  mc_ITSMWebhookHMACSecret :: string
  mc_ScanWorkerID :: string
  mc_ScanWorkerSlots :: int
  mc_ScanClaimInterval :: duration
  mc_ScanLeaseTTL :: duration
  mc_LifecycleVerifyPoll :: duration
  mc_Server :: server_config

text \<open>\<^verbatim>\<open>aapLifecyclePoller.WaitForJob\<close> under the context of \<^verbatim>\<open>pollAAP\<close>, which ends after \<open>polls\<close> polls.\<close>

definition poller_WaitForJob :: "controller \<Rightarrow> nat \<Rightarrow> int \<Rightarrow> bool \<Rightarrow> (aap_error option \<times> aap_status) option" where
  "poller_WaitForJob c polls jobID workflow = WaitForJob c (\<lambda>k. polls \<le> k) \<lparr>la_JobID = jobID, la_Workflow = workflow\<rparr>"

definition wait_result :: "(aap_error \<Rightarrow> string) \<Rightarrow> (aap_error option \<times> aap_status) option \<Rightarrow> string + aap_status" where
  "wait_result err_text res = (case res of Some (None, st) \<Rightarrow> Inr st | Some (Some e, st) \<Rightarrow> Inl (err_text e) | None \<Rightarrow> Inl [])"

definition newLifecycleWorkerDeps :: "aap_world \<Rightarrow> (aap_error \<Rightarrow> string) \<Rightarrow> (nat \<Rightarrow> nat) \<Rightarrow> aap_config option \<Rightarrow> string \<Rightarrow> bool \<Rightarrow>
    (nat \<Rightarrow> (string \<times> string) list \<Rightarrow> string + int \<times> bool) option \<times> (nat \<Rightarrow> int \<Rightarrow> bool \<Rightarrow> string + aap_status) option" where
  "newLifecycleWorkerDeps w err_text polls client template workflow = (case client of None \<Rightarrow> (None, None)
     | Some cfg \<Rightarrow>
        (Some (\<lambda>n extraVars. map_sum err_text (\<lambda>x. x) (adapter_Renew (controller_of w n cfg) template workflow extraVars)),
         Some (\<lambda>n jobID wf. wait_result err_text (poller_WaitForJob (controller_of w n cfg) (polls n) jobID wf))))"

text \<open>\<^verbatim>\<open>Store\<close> and \<^verbatim>\<open>scanner.Config\<close> without their connections.\<close>

record store_settings =
  ss_expiringSoonDays :: int
  ss_connectionsKey :: string

definition store_New :: "int \<Rightarrow> store_settings" where
  "store_New expiringSoonDays = \<lparr>ss_expiringSoonDays = expiringSoonDays, ss_connectionsKey = []\<rparr>"

definition SetConnectionsKey :: "string \<Rightarrow> store_settings \<Rightarrow> store_settings" where
  "SetConnectionsKey key st = st\<lparr>ss_connectionsKey := key\<rparr>"

record scanner_settings =
  sn_Timeout :: duration
  sn_AllowPrivateRanges :: bool

text \<open>What runs after a start, with the address and the two timeouts of the HTTP server.\<close>

record started =
  sd_level :: int
  sd_warnings :: "string list"
  sd_store :: store_settings
  sd_scanner :: scanner_settings
  sd_http :: "string \<times> duration \<times> duration"
  sd_server :: server_parts
  sd_dispatcher :: "dispatcher_config option"
  sd_scans :: scan_worker
  sd_jobs :: worker

datatype main_result = Exit nat | Started started

definition main_dispatcher :: "main_config \<Rightarrow> dispatcher_config" where
  "main_dispatcher cfg = NewDispatcher \<lparr>dc_WebhookURL = mc_EDAWebhookURL cfg, dc_Token = mc_EDAWebhookToken cfg, dc_Interval = mc_EventDispatchInterval cfg,
     dc_BatchSize = mc_EventDispatchBatch cfg, dc_MaxAttempts = mc_EventMaxAttempts cfg, dc_Owner = [], dc_LeaseTTL = 0,
     dc_ITSMWebhookURL = mc_ITSMWebhookURL cfg, dc_ITSMWebhookHMACSecret = mc_ITSMWebhookHMACSecret cfg\<rparr>"

definition main_worker :: "aap_world \<Rightarrow> (aap_error \<Rightarrow> string) \<Rightarrow> (nat \<Rightarrow> nat) \<Rightarrow> main_config \<Rightarrow> worker" where
  "main_worker w err_text polls cfg =
     (let sv = mc_Server cfg;
          aapClient = (if aa_BaseURL (cg_AAP sv) \<noteq> [] then aap_NewClient w (cg_AAP sv) else None) in
      case newLifecycleWorkerDeps w err_text polls aapClient (cg_AAPRenewTemplate sv) (cg_AAPRenewWorkflow sv) of (renewer, poller) \<Rightarrow>
        NewWorker \<lparr>wk_Owner = [], wk_Interval = mc_LifecycleVerifyPoll cfg, wk_LeaseTTL = 0, wk_BatchSize = 0,
          wk_PollEvery = mc_LifecycleVerifyPoll cfg, wk_renewer = renewer, wk_aap = poller\<rparr>)"

text \<open>\<open>env\<close> is what the environment holds, \<open>None\<close> when it does not parse; \<open>host\<close> and \<open>rnd\<close> name the scan worker.\<close>

definition clm_main :: "aap_world \<Rightarrow> (aap_error \<Rightarrow> string) \<Rightarrow> (nat \<Rightarrow> nat) \<Rightarrow> (string \<Rightarrow> bool) \<Rightarrow> string \<Rightarrow> string \<Rightarrow> main_config option \<Rightarrow> main_result" where
  "clm_main w err_text polls pool_ok host rnd env =
     (case env of None \<Rightarrow> Exit 1
      | Some raw \<Rightarrow>
        (case Load (Some (mc_Auth raw)) of None \<Rightarrow> Exit 1
         | Some auth \<Rightarrow>
            let cfg = raw\<lparr>mc_Auth := auth\<rparr> in
            if \<not> pool_ok (mc_DatabaseURL cfg) then Exit 1
            else Started \<lparr>sd_level = ParseLevel (mc_LogLevel cfg), sd_warnings = AuthPostureWarnings auth,
                   sd_store = SetConnectionsKey (mc_ConnectionsKey cfg) (store_New (mc_ExpiringSoonDays cfg)),
                   sd_scanner = \<lparr>sn_Timeout = mc_ScanTimeout cfg, sn_AllowPrivateRanges = mc_AllowPrivateRanges cfg\<rparr>,
                   sd_http = (mc_Addr cfg, 15 * second, 60 * second),
                   sd_server = NewServer w (mc_Server cfg),
                   sd_dispatcher = (if Configured (main_dispatcher cfg) then Some (main_dispatcher cfg) else None),
                   sd_scans = NewScanWorker (mc_ScanWorkerID cfg) host rnd (mc_ScanWorkerSlots cfg) (mc_ScanClaimInterval cfg) (mc_ScanLeaseTTL cfg),
                   sd_jobs = main_worker w err_text polls cfg\<rparr>))"

section \<open>How it stops\<close>

text \<open>
  The loops counted by \<^verbatim>\<open>dispWG\<close> and where the main goroutine is: at the signal, waiting for the loops, or gone with an
  exit status. The HTTP server may fail before it is shut down, which ends the process at once.
\<close>

datatype main_loop = EventLoop | ScanLoop | JobLoop

datatype main_phase = AwaitSignal | AwaitLoops | Gone nat

type_synonym main_state = "main_phase \<times> main_loop list"

definition main_loops :: "started \<Rightarrow> main_loop list" where
  "main_loops st = (if sd_dispatcher st = None then [] else [EventLoop]) @ [ScanLoop, JobLoop]"

inductive main_moves :: "main_state \<Rightarrow> main_state \<Rightarrow> bool" where
  main_signal: "main_moves (AwaitSignal, ls) (AwaitLoops, ls)"
| loop_returns: "l \<in> set ls \<Longrightarrow> main_moves (AwaitLoops, ls) (AwaitLoops, remove1 l ls)"
| main_shutdown: "main_moves (AwaitLoops, []) (Gone 0, [])"
| listen_fails: "ph \<in> {AwaitSignal, AwaitLoops} \<Longrightarrow> main_moves (ph, ls) (Gone 1, ls)"

inductive_cases main_movesE: "main_moves (ph, ls) y"

section \<open>What is shown\<close>

text \<open>What is logged follows from one level: the two predicates agree with \<^verbatim>\<open>ParseLevel\<close>.\<close>

lemma log_levels_agree: "(IsDebugOrTrace level \<longleftrightarrow> ParseLevel level \<le> LevelDebug) \<and> (IsTrace level \<longleftrightarrow> ParseLevel level = LevelTrace)"
proof -
  have "to_lower ''trace'' = ''trace''" by code_simp
  then show ?thesis
    by (auto simp: IsDebugOrTrace_def IsTrace_def ParseLevel_def Let_def equal_fold_def
      LevelTrace_def LevelDebug_def LevelInfo_def LevelWarn_def LevelError_def)
qed

text \<open>Samples read back as they were stored, with the empty texts that were left out.\<close>

lemma sample_roundtrip:
  "- (2 ^ 63) \<le> ts_Port f \<Longrightarrow> ts_Port f < 2 ^ 63 \<Longrightarrow> decode_sample (sample_json f) = Some f"
  by (simp add: decode_sample_def sample_json_def omit_empty_def obj_fields_def str_field_def int_field_def)

theorem failure_samples_roundtrip:
  assumes "\<And>f. f \<in> set samples \<Longrightarrow> - (2 ^ 63) \<le> ts_Port f \<and> ts_Port f < 2 ^ 63"
  shows "failureSamples_Scan (Some (failureSamplesJSON samples)) = Some samples"
proof -
  have "decode_samples (map sample_json samples) = Some samples" using assms
    by (induction samples) (simp_all add: sample_roundtrip)
  then show ?thesis by (simp add: failureSamples_Scan_def failureSamplesJSON_def)
qed

text \<open>The worker's wait for a job always returns: the context it is given ends.\<close>

lemma poller_returns: "\<exists>res. poller_WaitForJob c polls jobID workflow = Some res"
  unfolding poller_WaitForJob_def WaitForJob_def by (rule wait_loop_returns [where N = polls]) simp_all

text \<open>
  C36. Nothing starts on a configuration that does not load or a database address the pool refuses. Whatever the other
  settings are, the loops that start have a positive interval, lease, batch and number of attempts or slots, the
  dispatcher runs exactly if a webhook is set, and no launcher exists without a Controller.
\<close>

theorem main_starts_sound:
  assumes "clm_main w err_text polls pool_ok host rnd (Some cfg) = Started st"
  shows "pool_ok (mc_DatabaseURL cfg) \<and> (\<exists>auth. normalizeAuth (mc_Auth cfg) = Inr auth \<and> sd_warnings st = AuthPostureWarnings auth) \<and>
    (sd_dispatcher st \<noteq> None \<longleftrightarrow> mc_EDAWebhookURL cfg \<noteq> [] \<or> mc_ITSMWebhookURL cfg \<noteq> []) \<and>
    (case sd_dispatcher st of None \<Rightarrow> True | Some d \<Rightarrow> 0 < dc_Interval d \<and> 0 < dc_LeaseTTL d \<and> 0 < dc_BatchSize d \<and> 0 < dc_MaxAttempts d \<and> dc_Owner d \<noteq> []) \<and>
    0 < sw_slots (sd_scans st) \<and> 0 < sw_every (sd_scans st) \<and> 0 < sw_lease (sd_scans st) \<and>
    0 < wk_Interval (sd_jobs st) \<and> 0 < wk_LeaseTTL (sd_jobs st) \<and> 0 < wk_BatchSize (sd_jobs st) \<and> 0 < wk_PollEvery (sd_jobs st) \<and>
    (aa_BaseURL (cg_AAP (mc_Server cfg)) = [] \<longrightarrow> wk_renewer (sd_jobs st) = None \<and> wk_aap (sd_jobs st) = None \<and>
       sp_renewer (sd_server st) = None \<and> sp_revoker (sd_server st) = None)"
proof -
  obtain auth where auth: "normalizeAuth (mc_Auth cfg) = Inr auth" and pool: "pool_ok (mc_DatabaseURL cfg)"
    and st: "st = \<lparr>sd_level = ParseLevel (mc_LogLevel cfg), sd_warnings = AuthPostureWarnings auth,
      sd_store = SetConnectionsKey (mc_ConnectionsKey cfg) (store_New (mc_ExpiringSoonDays cfg)),
      sd_scanner = \<lparr>sn_Timeout = mc_ScanTimeout cfg, sn_AllowPrivateRanges = mc_AllowPrivateRanges cfg\<rparr>,
      sd_http = (mc_Addr cfg, 15 * second, 60 * second), sd_server = NewServer w (mc_Server cfg),
      sd_dispatcher = (if Configured (main_dispatcher (cfg\<lparr>mc_Auth := auth\<rparr>)) then Some (main_dispatcher (cfg\<lparr>mc_Auth := auth\<rparr>)) else None),
      sd_scans = NewScanWorker (mc_ScanWorkerID cfg) host rnd (mc_ScanWorkerSlots cfg) (mc_ScanClaimInterval cfg) (mc_ScanLeaseTTL cfg),
      sd_jobs = main_worker w err_text polls (cfg\<lparr>mc_Auth := auth\<rparr>)\<rparr>"
    using assms by (auto simp: clm_main_def Load_def Let_def split: sum.splits if_splits)
  have durations: "0 < second" "0 < minute" by (simp_all add: second_def minute_def)
  have "0 < wk_Interval w' \<and> 0 < wk_LeaseTTL w' \<and> 0 < wk_BatchSize w' \<and> 0 < wk_PollEvery w'" if "w' = NewWorker x" for w' x
    using durations by (simp add: that NewWorker_def)
  moreover have "0 < sw_slots x \<and> 0 < sw_every x \<and> 0 < sw_lease x" if "x = NewScanWorker i host rnd n e l" for x i n e l
    using durations by (simp add: that NewScanWorker_def)
  moreover have "0 < dc_Interval d \<and> 0 < dc_LeaseTTL d \<and> 0 < dc_BatchSize d \<and> 0 < dc_MaxAttempts d \<and> dc_Owner d \<noteq> []" if "d = NewDispatcher x" for d x
    using durations by (simp add: that NewDispatcher_def)
  moreover have "\<exists>x. main_worker w err_text polls (cfg\<lparr>mc_Auth := auth\<rparr>) = NewWorker x"
    by (auto simp: main_worker_def Let_def split: prod.splits)
  moreover have "wk_renewer (main_worker w err_text polls (cfg\<lparr>mc_Auth := auth\<rparr>)) = None \<and> wk_aap (main_worker w err_text polls (cfg\<lparr>mc_Auth := auth\<rparr>)) = None"
    if "aa_BaseURL (cg_AAP (mc_Server cfg)) = []"
    using that by (simp add: main_worker_def newLifecycleWorkerDeps_def NewWorker_def)
  moreover have "Configured (main_dispatcher (cfg\<lparr>mc_Auth := auth\<rparr>)) \<longleftrightarrow> mc_EDAWebhookURL cfg \<noteq> [] \<or> mc_ITSMWebhookURL cfg \<noteq> []"
    by (simp add: main_dispatcher_def Configured_def NewDispatcher_def)
  moreover have "main_dispatcher (cfg\<lparr>mc_Auth := auth\<rparr>) = NewDispatcher (\<lparr>dc_WebhookURL = mc_EDAWebhookURL cfg, dc_Token = mc_EDAWebhookToken cfg,
      dc_Interval = mc_EventDispatchInterval cfg, dc_BatchSize = mc_EventDispatchBatch cfg, dc_MaxAttempts = mc_EventMaxAttempts cfg, dc_Owner = [], dc_LeaseTTL = 0,
      dc_ITSMWebhookURL = mc_ITSMWebhookURL cfg, dc_ITSMWebhookHMACSecret = mc_ITSMWebhookHMACSecret cfg\<rparr>)"
    by (simp add: main_dispatcher_def)
  ultimately show ?thesis unfolding st using auth pool by (auto simp: NewServer_def Let_def)
qed

definition itsm_only :: main_config where
  "itsm_only = \<lparr>mc_Auth = \<lparr>ac_InsecureNoAuth = False, ac_AuthMode = [], ac_StaticTokensRaw = [], ac_StaticTokens = []\<rparr>, mc_LogLevel = ''info'',
     mc_Addr = '':8080'', mc_DatabaseURL = ''postgres://db'', mc_ExpiringSoonDays = 30, mc_ScanTimeout = 5 * second, mc_AllowPrivateRanges = False,
     mc_ConnectionsKey = [], mc_EDAWebhookURL = [], mc_EDAWebhookToken = [], mc_EventDispatchInterval = 0, mc_EventDispatchBatch = - 1,
     mc_EventMaxAttempts = 0, mc_ITSMWebhookURL = ''https://itsm'', mc_ITSMWebhookHMACSecret = [], mc_ScanWorkerID = [], mc_ScanWorkerSlots = 0,
     mc_ScanClaimInterval = 0, mc_ScanLeaseTTL = - 1, mc_LifecycleVerifyPoll = 0,
     mc_Server = \<lparr>cg_Vault = \<lparr>vg_Address = [], vg_Namespace = [], vg_Token = [], vg_AuthMethod = [], vg_RoleID = [], vg_SecretID = []\<rparr>,
       cg_Import = \<lparr>ic_VaultAuthMethod = [], ic_ImportToken = [], ic_ImportAuthMethod = [], ic_ImportRoleID = [], ic_ImportSecretID = []\<rparr>,
       cg_AAP = \<lparr>aa_BaseURL = [], aa_Token = [], aa_SkipTLSVerify = False\<rparr>, cg_AAPRenewTemplate = [], cg_AAPRenewWorkflow = False,
       cg_AAPRevokeTemplate = [], cg_AAPRevokeWorkflow = False\<rparr>\<rparr>"

theorem main_starts_sound_witness:
  "\<exists>st. clm_main endless_world (\<lambda>_. []) (\<lambda>_. 3) (\<lambda>_. True) ''host'' ''01234567-89'' (Some itsm_only) = Started st \<and>
     sd_dispatcher st \<noteq> None \<and> 0 < sw_slots (sd_scans st) \<and> 0 < wk_LeaseTTL (sd_jobs st) \<and> wk_renewer (sd_jobs st) = None"
proof -
  let ?run = "clm_main endless_world (\<lambda>_. []) (\<lambda>_. 3) (\<lambda>_. True) ''host'' ''01234567-89'' (Some itsm_only)"
  have "normalizeAuth (mc_Auth itsm_only) = Inr ((mc_Auth itsm_only)\<lparr>ac_AuthMode := ''static_token''\<rparr>)" by code_simp
  then obtain st where st: "?run = Started st" by (simp add: clm_main_def Load_def Let_def)
  have "mc_ITSMWebhookURL itsm_only \<noteq> []" "aa_BaseURL (cg_AAP (mc_Server itsm_only)) = []" by (simp_all add: itsm_only_def)
  then show ?thesis using main_starts_sound [OF st] st by blast
qed

text \<open>
  A process that ends with status 0 has seen all its loops return, so no claim is left in the middle of a step; and
  once the signal is there, every run ends, as soon as the loops do.
\<close>

lemma main_gone: "main_moves\<^sup>*\<^sup>* x (ph, ls) \<Longrightarrow> fst x \<noteq> Gone 0 \<Longrightarrow> ph = Gone 0 \<Longrightarrow> ls = []"
proof (induction "(ph, ls)" arbitrary: ph ls rule: rtranclp_induct)
  case (step y)
  from step(2) step(5) show ?case by (cases rule: main_moves.cases) auto
qed auto

lemma main_moves_wf: "wfp (\<lambda>y x. main_moves x y)"
proof (rule wfp_if_convertible_to_nat [where f = "\<lambda>(ph, ls). length ls + (case ph of AwaitSignal \<Rightarrow> 2 | AwaitLoops \<Rightarrow> 1 | Gone n \<Rightarrow> 0)"])
  fix y x assume "main_moves x y"
  then show "(case y of (ph, ls) \<Rightarrow> length ls + (case ph of AwaitSignal \<Rightarrow> 2 | AwaitLoops \<Rightarrow> 1 | Gone n \<Rightarrow> 0))
    < (case x of (ph, ls) \<Rightarrow> length ls + (case ph of AwaitSignal \<Rightarrow> 2 | AwaitLoops \<Rightarrow> 1 | Gone n \<Rightarrow> 0))"
    by (cases rule: main_moves.cases) (auto simp: length_remove1 dest: length_pos_if_in_set)
qed

theorem main_stops_clean:
  assumes "main_moves\<^sup>*\<^sup>* (AwaitSignal, main_loops st) (ph, ls)"
  shows "(ph = Gone 0 \<longrightarrow> ls = []) \<and> ((\<exists>n. ph = Gone n) \<longleftrightarrow> (\<nexists>y. main_moves (ph, ls) y)) \<and> wfp (\<lambda>y x. main_moves x y)"
proof -
  have "(\<exists>n. ph = Gone n) \<longleftrightarrow> (\<nexists>y. main_moves (ph, ls) y)"
    by (cases ph) (auto elim!: main_movesE intro: main_moves.intros)
  then show ?thesis using main_gone [OF assms] main_moves_wf by simp
qed

end
