(* ===== verification/Spec2Isabelle.thy ===== *)
theory Spec2Isabelle
  imports System Startup
begin

text \<open>
  \<^bold>\<open>Certificate lifecycle discovery: a verification library\<close>

  \<^bold>\<open>The program.\<close> The service keeps an inventory of the TLS certificates an organisation serves. Scans probe
  address ranges and host names, collectors ingest certificates from a Windows CA or a cloud vault, and every
  certificate becomes one row per fingerprint in a PostgreSQL store, with the observations that found it. Over
  that inventory it computes lifecycle status, compliance and posture findings, reports, revocation checks and
  a reconciliation with Vault PKI. It drives renewals and migrations through Ansible (AAP) as durable jobs that
  a worker launches, polls and verifies on the wire, and it announces what happened through an outbox of events
  that a dispatcher delivers to webhooks. An HTTP API with static tokens and roles stands in front. The parts
  share the store and little else: handlers, the scan poller, the job worker and the dispatcher are separate
  loops, possibly in several processes, which meet in the tables through claims with a lease.

  \<^bold>\<open>The theories\<close>, in the order of their imports:

  \<^item> \<open>CLM_Prelude\<close>: the Go values the code computes with: strings, decimal text, \<^verbatim>\<open>time.Time\<close> and durations with
    their 64-bit limits, \<^verbatim>\<open>float64\<close> as the code rounds with it, and tables as lists of rows (\<open>upd_where\<close>, \<open>hits\<close>,
    \<open>pick\<close>), with the lemmas all components share.
  \<^item> \<open>Lifecycle\<close> (\<^verbatim>\<open>internal/lifecycle\<close>, \<^verbatim>\<open>internal/governance\<close>), \<open>Compliance\<close> (\<^verbatim>\<open>internal/compliance\<close>), \<open>Renewal\<close>
    (\<^verbatim>\<open>internal/renewal\<close>, the launch variables of \<^verbatim>\<open>internal/api\<close>), \<open>Cert_Parse\<close> (\<^verbatim>\<open>internal/cert\<close>), \<open>Scan_Targets\<close>
    (\<^verbatim>\<open>internal/scanner\<close>: targets): the computations without state.
  \<^item> \<open>Store_Model\<close>: rows, tables and how a store call runs. \<open>Outbox\<close>, \<open>Lifecycle_Jobs\<close>, \<open>Certificate_Store\<close>,
    \<open>Scan_Queue\<close>, and the store parts of \<open>Posture\<close> and \<open>Connections\<close>: the operations of \<^verbatim>\<open>internal/store\<close>, one
    definition per method.
  \<^item> \<open>AAP_Client\<close> and \<open>AAP_Http\<close> (\<^verbatim>\<open>internal/aap\<close>), \<open>Vault_Client\<close> and \<open>Vault_Reconcile\<close> (\<^verbatim>\<open>internal/vault\<close>), \<open>Revocation\<close>
    (\<^verbatim>\<open>internal/revocation\<close>): the clients of other servers, down to the requests they send.
  \<^item> \<open>Job_Worker\<close> (\<^verbatim>\<open>internal/lifecyclejobs\<close>), \<open>Scan_Runner\<close> (\<^verbatim>\<open>internal/scanrunner\<close>, the probe, the poller), the
    dispatcher in \<open>Outbox\<close> (\<^verbatim>\<open>internal/eventbus\<close>, \<^verbatim>\<open>internal/itsm\<close>): the loops.
  \<^item> \<open>Access\<close> (authentication, roles, audit), \<open>Http_Reply\<close>, \<open>Api_Handlers\<close> (\<^verbatim>\<open>internal/api/server.go\<close>, \<^verbatim>\<open>internal/inventory\<close>),
    \<open>Posture\<close> (\<^verbatim>\<open>internal/posture\<close> and its handlers), \<open>Settings\<close> (\<^verbatim>\<open>handlers_settings.go\<close>; \<^verbatim>\<open>internal/settings\<close> is in
    \<open>Connections\<close>), \<open>Report\<close> and \<open>Report_Render\<close> (\<^verbatim>\<open>internal/report\<close> and its handlers), \<open>Collectors\<close>
    (\<^verbatim>\<open>internal/collectors\<close> and its handlers), \<open>Server\<close> (wiring, routes, loops, command line): the API and the
    loops. \<open>Startup\<close> (\<^verbatim>\<open>cmd/clm-discovery\<close>, \<^verbatim>\<open>internal/logging\<close>, \<^verbatim>\<open>diagnostics.go\<close>): what \<^verbatim>\<open>main\<close> builds, which loops
    it starts, how it stops, log levels, the stored form of failure samples.
  \<^item> \<open>Schema\<close>: the keys, references and checks of \<^verbatim>\<open>migrations/\<close>, and \<open>store_call\<close>, one rule per transaction of the
    store. \<open>History\<close>: what is only added to. \<open>System\<close>: every handler and every step of every loop is a sequence of
    such transactions, so what holds of them holds of the program.

  \<^bold>\<open>How state and effects correspond.\<close> The record \<open>db\<close> holds the tables and the surroundings the code reads. A
  method of the store is a function \<open>db \<Rightarrow> (error + 'a) \<times> db\<close>. One statement, or one transaction, is one
  \<open>db_call\<close>: it may fail at any call number (\<open>db_fault\<close>), and then no table changes. Clocks, fresh identifiers and
  rows locked elsewhere are functions of the call number, so a theorem without hypotheses on them holds for
  every schedule of failures and every clock. Between two calls the process reads one instant, except where the
  code reads the clock twice on purpose. Handlers map the store to an answer and the store; every early return
  is a branch. Errors are values of \<open>error\<close> or of a component's own type; error texts are values where the code
  stores or shows them and parameters otherwise. Launches at AAP and writes to Vault are recorded in the state.
  Concurrency appears where it decides: the claims are proved exclusive against arbitrary sequences of
  operations of any process, and a scan is the interleaving of its goroutines with arbitrary steps of other
  processes on the store. A read and a write that the code performs in two statements are two calls; the count
  and the insert of one statement are one.

  Loops over what a server answers (paging, waiting for a job, following links) are partial functions into
  \<open>option\<close> whose \<open>None\<close> is a loop that never ends; where they end this is proved, and \<open>AAP_Http\<close> shows one that
  need not. All other recursion is structural or has a termination proof. There is no fuel.

  Parameters stand for what is not in the sources: DNS, TLS handshakes, X.509 path validation, DER and PEM
  decoding, hashing and AES-GCM, the Controller, Vault, OCSP, CRL and Azure servers, UUID text, the collation of
  the database, and the order in which Go visits a map. Named assumptions on them are few (\<open>cipher_laws\<close>:
  opening what was sealed gives it back) and every property that uses one has a witness with concrete functions.

  \<^bold>\<open>What is shown.\<close>
  \<^item> Claims and leases: a job, an event or a scan handed to one worker is handed to no other while it is held;
    job ids and idempotency keys stay unique; certificates keep one row per fingerprint; events are neither lost
    nor delivered beyond their attempts.
  \<^item> The whole program: in any interleaving of requests, loops and goroutines of scans, with any failures, the
    tables change only by the store's transactions, the schema stays met, and the audit trail, timelines and
    approvals are append-only; events and jobs never disappear. Loops start with usable settings only, and a
    process that stops cleanly has waited for them.
  \<^item> Durable outcomes: a recorded revocation survives rescans and reconciliation; a job is verified only on a
    successor in the inventory; deadlines are enforced; a scan ends, accounts for every target and closes its row.
  \<^item> Gates: no effect without consent, one Vault write per import with its identity, one launch per renewal with
    inert values, credentials confined to their server, secrets masked and audited text redacted, private
    addresses refused, and the permission matrix route by route.
  \<^item> Computations: status windows, SC-081 ceilings, severities, posture scores explained by their findings, and
    reports that are complete, consistent, and read back from CSV and Markdown whatever text a certificate holds.
  The contracts between parts are locales (a source of pages, a table whose rows are leased, the body of a loop,
  operations that keep a relation on the store), interpreted on the definitions of the components.

  \<^bold>\<open>Simplifications.\<close> Strings are bytes and letter case is ASCII. JSON keys are matched exactly and numbers are
  integers. Limits on request bodies, timeouts and redirects belong to the parameters. Ids of approvals and the
  creation time of findings are left out. The zero UUID is the number 0.

  \<^bold>\<open>Not modelled.\<close> Log output, sockets and signals, the matching of requests to routes and CORS (packages), the
  indexes, defaults and the audit trigger of the schema, the dashboard under \<^verbatim>\<open>web/\<close>, and test support.
\<close>

end
